(* ===== verification/Gateway_Prelude.thy ===== *)
theory Gateway_Prelude
  imports Main "HOL-Library.Word"
begin

text \<open>
  Shared vocabulary of the development: bytes, the exceptions the Python code raises or
  lets escape, results as sums (\<open>Inl\<close> the exception, \<open>Inr\<close> the value), Python slices and
  dictionaries, and the generic facts on lists and words that the components share.
  Texts of exceptions raised by the program are the program's; texts of exceptions raised
  by the interpreter (struct, bytes, int.to_bytes) are CPython's.
\<close>

unbundle bit_operations_syntax

type_synonym byte = "8 word"
type_synonym bytes = "byte list"

datatype exn =
    ValueError string
  | StructError string
  | OverflowError string
  | TypeError string
  | RuntimeError string
  | TimeoutError string
  | ConnectionError string
  | IncompleteReadError nat nat
  | OSError string
  | AssertionError
  | TransportError string
  | ProtocolError string
  | ModbusServerError int int
  | ConnectionClosed string
  | AttributeError string
  | CLIError string

type_synonym 'a result = "exn + 'a"

definition bind_result :: "'a result \<Rightarrow> ('a \<Rightarrow> 'b result) \<Rightarrow> 'b result" where
  "bind_result r f = (case r of Inl e \<Rightarrow> Inl e | Inr x \<Rightarrow> f x)"

lemma bind_result_simps [simp]:
  "bind_result (Inl e) f = Inl e"
  "bind_result (Inr x) f = f x"
  by (simp_all add: bind_result_def)

lemma bind_result_Inr_iff:
  "bind_result r f = Inr y \<longleftrightarrow> (\<exists>x. r = Inr x \<and> f x = Inr y)"
  by (cases r) simp_all

lemma bind_result_Inl_iff:
  "bind_result r f = Inl e \<longleftrightarrow> r = Inl e \<or> (\<exists>x. r = Inr x \<and> f x = Inl e)"
  by (cases r) simp_all

lemma map_sum_id_Inr_iff: "map_sum id f r = Inr y \<longleftrightarrow> (\<exists>x. r = Inr x \<and> y = f x)"
  by (cases r) auto

named_theorems codec_simps \<open>encoders, decoders and the byte-level primitives they use\<close>

section \<open>Dictionaries as association lists in insertion order\<close>

text \<open>
  A Python dict iterates in insertion order; overwriting a key keeps its position.
\<close>

fun dict_set :: "'k \<Rightarrow> 'v \<Rightarrow> ('k \<times> 'v) list \<Rightarrow> ('k \<times> 'v) list" where
  "dict_set k v [] = [(k, v)]"
| "dict_set k v ((k', v') # d) = (if k = k' then (k, v) # d else (k', v') # dict_set k v d)"

definition dict_pop :: "'k \<Rightarrow> ('k \<times> 'v) list \<Rightarrow> ('k \<times> 'v) list" where
  "dict_pop k d = filter (\<lambda>(k', v). k' \<noteq> k) d"

abbreviation dict_get :: "('k \<times> 'v) list \<Rightarrow> 'k \<Rightarrow> 'v option" where
  "dict_get d k \<equiv> map_of d k"

lemma map_of_dict_set [simp]: "map_of (dict_set k v d) = (map_of d)(k \<mapsto> v)"
  by (induction k v d rule: dict_set.induct) (auto simp: fun_upd_twist)

lemma map_of_dict_pop [simp]: "map_of (dict_pop k d) = (map_of d)(k := None)"
  by (induction d) (auto simp: dict_pop_def fun_upd_twist)

lemma keys_dict_set: "fst ` set (dict_set k v d) = insert k (fst ` set d)"
  by (induction k v d rule: dict_set.induct) auto

lemma distinct_dict_set [simp]:
  "distinct (map fst d) \<Longrightarrow> distinct (map fst (dict_set k v d))"
proof (induction k v d rule: dict_set.induct)
  case (2 k v k' v' d)
  then show ?case using keys_dict_set [of k v d] by (auto simp: image_iff)
qed simp

lemma distinct_dict_pop [simp]:
  "distinct (map fst d) \<Longrightarrow> distinct (map fst (dict_pop k d))"
  by (simp add: dict_pop_def distinct_map_filter)

lemma set_dict_set_subset: "set (dict_set k v d) \<subseteq> insert (k, v) (set d)"
  by (induction k v d rule: dict_set.induct) auto

lemma set_dict_pop: "set (dict_pop k d) = {(k', v) \<in> set d. k' \<noteq> k}"
  by (auto simp: dict_pop_def)

section \<open>Byte values\<close>

lemma uint_byte_range [simp]: "0 \<le> uint (b :: byte)" "uint (b :: byte) < 256"
  using uint_bounded [of b] by simp_all

lemma uint_byte_le [simp]: "uint (b :: byte) \<le> 255"
  using uint_byte_range(2) [of b] by linarith

lemma uint_word_of_int_byte [simp]:
  "uint (word_of_int k :: byte) = k mod 256"
  by (simp add: uint_word_of_int)

lemma word_of_int_mod_byte: "(word_of_int (k mod 256) :: byte) = word_of_int k"
  by (rule word_uint_eqI) (simp only: uint_word_of_int_byte mod_mod_trivial)

lemma word_of_int_plus_mult_byte:
  "(word_of_int (256 * a + uint (b :: byte)) :: byte) = b"
  by (rule word_uint_eqI) (simp only: uint_word_of_int_byte, simp)

section \<open>Lists\<close>

lemma length_two_cases: "length xs = 2 \<Longrightarrow> \<exists>a b. xs = [a, b]"
  by (cases xs; cases "tl xs") auto

lemma length_ge_two_cases: "2 \<le> length xs \<Longrightarrow> \<exists>a b ys. xs = a # b # ys"
  by (cases xs; cases "tl xs") auto

lemma take_four_cases:
  assumes "4 \<le> length xs"
  obtains a b c d ys where "xs = a # b # c # d # ys"
proof -
  from assms obtain a b ys1 where "xs = a # b # ys1" "2 \<le> length ys1"
    using length_ge_two_cases [of xs] by auto
  moreover from this(2) obtain c d ys where "ys1 = c # d # ys"
    using length_ge_two_cases by blast
  ultimately show thesis using that by simp
qed

section \<open>Decimal text of integers, and str() of exceptions\<close>

definition digit_char :: "nat \<Rightarrow> char" where
  "digit_char d = ''0123456789'' ! d"

fun nat_str :: "nat \<Rightarrow> string" where
  "nat_str n = (if n < 10 then [digit_char n] else nat_str (n div 10) @ [digit_char (n mod 10)])"

declare nat_str.simps [simp del]

definition int_str :: "int \<Rightarrow> string" where
  "int_str k = (if k < 0 then ''-'' @ nat_str (nat (- k)) else nat_str (nat k))"

fun exn_str :: "exn \<Rightarrow> string" where
  "exn_str (ValueError m) = m"
| "exn_str (StructError m) = m"
| "exn_str (OverflowError m) = m"
| "exn_str (TypeError m) = m"
| "exn_str (RuntimeError m) = m"
| "exn_str (TimeoutError m) = m"
| "exn_str (ConnectionError m) = m"
| "exn_str (IncompleteReadError partial expected) =
     nat_str partial @ '' bytes read on a total of '' @ nat_str expected @ '' expected bytes''"
| "exn_str (OSError m) = m"
| "exn_str AssertionError = []"
| "exn_str (TransportError m) = m"
| "exn_str (ProtocolError m) = m"
| "exn_str (ModbusServerError f c) =
     ''Modbus exception (fc='' @ int_str f @ '', code='' @ int_str c @ '')''"
| "exn_str (ConnectionClosed m) = m"
| "exn_str (AttributeError m) = m"
| "exn_str (CLIError m) = m"

lemma digit_char_inject:
  assumes "digit_char a = digit_char b" "a < 10" "b < 10"
  shows "a = b"
proof -
  have "distinct ''0123456789''" by simp
  moreover have "length ''0123456789'' = 10" by simp
  ultimately show ?thesis
    using assms unfolding digit_char_def by (metis nth_eq_iff_index_eq)
qed

lemma digit_char_in: "d < 10 \<Longrightarrow> digit_char d \<in> set ''0123456789''"
  unfolding digit_char_def by (rule nth_mem) simp

lemma nat_str_digits: "c \<in> set (nat_str n) \<Longrightarrow> c \<in> set ''0123456789''"
proof (induction n rule: nat_str.induct)
  case (1 n)
  show ?case
  proof (cases "n < 10")
    case True
    with 1 have "c = digit_char n" by (simp add: nat_str.simps [of n])
    with digit_char_in [OF True] show ?thesis by simp
  next
    case False
    then have "nat_str n = nat_str (n div 10) @ [digit_char (n mod 10)]"
      by (subst nat_str.simps) simp
    with "1.prems" consider "c \<in> set (nat_str (n div 10))" | "c = digit_char (n mod 10)"
      by auto
    then show ?thesis
    proof cases
      case 1
      then show ?thesis using "1.IH" False by blast
    next
      case 2
      then show ?thesis using digit_char_in [of "n mod 10"] by simp
    qed
  qed
qed

lemma nat_str_nonempty: "nat_str n \<noteq> []"
  by (subst nat_str.simps) simp

lemma nat_str_inject: "nat_str m = nat_str n \<longleftrightarrow> m = n"
proof (induction m arbitrary: n rule: nat_str.induct)
  case (1 m)
  show ?case
  proof
    assume eq: "nat_str m = nat_str n"
    consider "m < 10" "n < 10" | "m < 10" "\<not> n < 10" | "\<not> m < 10" "n < 10" | "\<not> m < 10" "\<not> n < 10"
      by blast
    then show "m = n"
    proof cases
      case 1
      with eq show ?thesis by (simp add: nat_str.simps [of m] nat_str.simps [of n] digit_char_inject)
    next
      case 2
      with eq nat_str_nonempty [of "n div 10"] show ?thesis
        by (auto simp: nat_str.simps [of m] nat_str.simps [of n] Cons_eq_append_conv)
    next
      case 3
      with eq nat_str_nonempty [of "m div 10"] show ?thesis
        by (auto simp: nat_str.simps [of m] nat_str.simps [of n] append_eq_Cons_conv)
    next
      case 4
      with eq have "nat_str (m div 10) = nat_str (n div 10)" "digit_char (m mod 10) = digit_char (n mod 10)"
        by (simp_all add: nat_str.simps [of m] nat_str.simps [of n])
      with "1.IH" 4 have "m div 10 = n div 10" "m mod 10 = n mod 10"
        by (auto intro: digit_char_inject)
      then show ?thesis by (metis div_mult_mod_eq)
    qed
  qed simp
qed

lemma int_str_chars: "c \<in> set (int_str k) \<Longrightarrow> c \<in> set ''-0123456789''"
  using nat_str_digits [of c "nat k"] nat_str_digits [of c "nat (- k)"]
  by (auto simp: int_str_def split: if_splits)

lemma nat_str_no_minus: "nat_str n \<noteq> CHR ''-'' # s"
  using nat_str_digits [of "CHR ''-''" n] by auto

lemma int_str_inject: "int_str j = int_str k \<longleftrightarrow> j = k"
  by (auto simp: int_str_def nat_str_inject nat_str_no_minus nat_str_no_minus [symmetric]
      split: if_splits)

text \<open>\<open>client_id:transaction_id\<close> can be read back, since no number contains a colon.\<close>

lemma append_separator_inject:
  assumes "c \<notin> set ys" "c \<notin> set ys'" "xs @ c # ys = xs' @ c # ys'"
  shows "xs = xs' \<and> ys = ys'"
proof -
  have split: "takeWhile ((\<noteq>) c) (rev zs @ c # rev us) = rev zs" if "c \<notin> set zs" for zs us
    using that by (subst takeWhile_append2) auto
  from assms(3) have "rev (xs @ c # ys) = rev (xs' @ c # ys')" by (simp only:)
  then have "rev ys @ c # rev xs = rev ys' @ c # rev xs'" by simp
  with split [OF assms(1), of xs] split [OF assms(2), of xs'] have "rev ys = rev ys'" by metis
  then have "ys = ys'" by simp
  with assms(3) show ?thesis by simp
qed

end
