(* ===== verification/Py_Bytes.thy ===== *)
theory Py_Bytes
  imports Gateway_Prelude
begin

text \<open>
  The byte-level primitives of Python that the codecs call: \<open>bytes([..])\<close>,
  \<open>int.to_bytes\<close>, \<open>int.from_bytes\<close>, \<open>struct.pack\<close> and \<open>struct.unpack\<close> for the formats
  the program uses (big-endian \<open>H\<close> and \<open>B\<close>). Values are unbounded integers; every range
  error is a branch.
\<close>

definition be16 :: "int \<Rightarrow> bytes" where
  "be16 v = [word_of_int (v div 256), word_of_int v]"

definition le16 :: "int \<Rightarrow> bytes" where
  "le16 v = [word_of_int v, word_of_int (v div 256)]"

definition py_bytes :: "int list \<Rightarrow> bytes result" where
  "py_bytes vs =
     (if list_all (\<lambda>v. 0 \<le> v \<and> v < 256) vs then Inr (map word_of_int vs)
      else Inl (ValueError ''bytes must be in range(0, 256)''))"

definition to_bytes_2 :: "(int \<Rightarrow> bytes) \<Rightarrow> int \<Rightarrow> bytes result" where
  "to_bytes_2 layout v =
     (if v < 0 then Inl (OverflowError ''can't convert negative int to unsigned'')
      else if 65536 \<le> v then Inl (OverflowError ''int too big to convert'')
      else Inr (layout v))"

definition from_bytes_big :: "bytes \<Rightarrow> int" where
  "from_bytes_big bs = foldl (\<lambda>acc b. 256 * acc + uint b) 0 bs"

definition from_bytes_little :: "bytes \<Rightarrow> int" where
  "from_bytes_little bs = foldr (\<lambda>b acc. uint b + 256 * acc) bs 0"

definition struct_pack_H :: "int \<Rightarrow> bytes result" where
  "struct_pack_H v =
     (if v < 0 then Inl (StructError ''argument out of range'')
      else if 65535 < v then Inl (StructError ''H format requires 0 <= number <= 65535'')
      else Inr (be16 v))"

definition struct_pack_B :: "int \<Rightarrow> bytes result" where
  "struct_pack_B v =
     (if v < 0 \<or> 255 < v then Inl (StructError ''ubyte format requires 0 <= number <= 255'')
      else Inr [word_of_int v])"

definition struct_pack_HH :: "int \<Rightarrow> int \<Rightarrow> bytes result" where
  "struct_pack_HH a b =
     bind_result (struct_pack_H a) (\<lambda>x. bind_result (struct_pack_H b) (\<lambda>y. Inr (x @ y)))"

definition struct_pack_HHB :: "int \<Rightarrow> int \<Rightarrow> int \<Rightarrow> bytes result" where
  "struct_pack_HHB a b c =
     bind_result (struct_pack_HH a b) (\<lambda>x. bind_result (struct_pack_B c) (\<lambda>y. Inr (x @ y)))"

text \<open>\<open>struct.unpack(">" + "H" * n, bs)\<close>: exactly \<open>2 n\<close> bytes.\<close>

fun unpack_words :: "bytes \<Rightarrow> int list" where
  "unpack_words (a # b # bs) = from_bytes_big [a, b] # unpack_words bs"
| "unpack_words bs = []"

definition struct_unpack_Hs :: "nat \<Rightarrow> bytes \<Rightarrow> int list result" where
  "struct_unpack_Hs n bs =
     (if length bs = 2 * n then Inr (unpack_words bs)
      else Inl (StructError ''unpack requires a buffer of the format's size''))"

definition struct_unpack_HH :: "bytes \<Rightarrow> (int \<times> int) result" where
  "struct_unpack_HH bs =
     (if length bs = 4
      then Inr (from_bytes_big (take 2 bs), from_bytes_big (drop 2 bs))
      else Inl (StructError ''unpack requires a buffer of 4 bytes''))"

section \<open>Lengths and inverses\<close>

lemma length_be16 [simp]: "length (be16 v) = 2"
  by (simp add: be16_def)

lemma length_le16 [simp]: "length (le16 v) = 2"
  by (simp add: le16_def)

lemma from_bytes_big_two [simp]: "from_bytes_big [a, b] = 256 * uint a + uint b"
  by (simp add: from_bytes_big_def)

lemma from_bytes_little_two [simp]: "from_bytes_little [a, b] = uint a + 256 * uint b"
  by (simp add: from_bytes_little_def)

lemma u16_from_bytes_big_range: "0 \<le> 256 * uint (a :: byte) + uint (b :: byte)"
    "256 * uint (a :: byte) + uint (b :: byte) < 65536"
  using uint_byte_range [of a] uint_byte_range [of b] by linarith+

lemma from_bytes_big_be16 [simp]:
  "0 \<le> v \<Longrightarrow> v < 65536 \<Longrightarrow> from_bytes_big (be16 v) = v"
  by (simp add: be16_def)

lemma from_bytes_little_le16 [simp]:
  "0 \<le> v \<Longrightarrow> v < 65536 \<Longrightarrow> from_bytes_little (le16 v) = v"
  by (simp add: le16_def)

lemma u16_div_256: "(256 * uint (a :: byte) + uint (b :: byte)) div 256 = uint a"
  using uint_byte_range [of b] by (simp add: div_add1_eq)

lemma be16_from_bytes: "be16 (256 * uint a + uint b) = [a, b]"
  unfolding be16_def u16_div_256 word_of_int_plus_mult_byte by simp

lemma le16_from_bytes: "le16 (uint a + 256 * uint b) = [a, b]"
  using be16_from_bytes [of b a] by (simp only: be16_def le16_def add.commute list.inject)

lemma struct_pack_H_Inr_iff:
  "struct_pack_H v = Inr bs \<longleftrightarrow> 0 \<le> v \<and> v < 65536 \<and> bs = be16 v"
  by (auto simp: struct_pack_H_def)

lemma struct_pack_B_Inr_iff:
  "struct_pack_B v = Inr bs \<longleftrightarrow> 0 \<le> v \<and> v < 256 \<and> bs = [word_of_int v]"
  by (auto simp: struct_pack_B_def)

lemma struct_pack_HH_Inr_iff:
  "struct_pack_HH a b = Inr bs \<longleftrightarrow>
     0 \<le> a \<and> a < 65536 \<and> 0 \<le> b \<and> b < 65536 \<and> bs = be16 a @ be16 b"
  by (auto simp: struct_pack_HH_def bind_result_Inr_iff struct_pack_H_Inr_iff)

lemma struct_pack_HHB_Inr_iff:
  "struct_pack_HHB a b c = Inr bs \<longleftrightarrow>
     0 \<le> a \<and> a < 65536 \<and> 0 \<le> b \<and> b < 65536 \<and> 0 \<le> c \<and> c < 256 \<and>
     bs = be16 a @ be16 b @ [word_of_int c]"
  by (auto simp: struct_pack_HHB_def bind_result_Inr_iff struct_pack_HH_Inr_iff
      struct_pack_B_Inr_iff)

lemma struct_unpack_HH_four [simp]:
  "struct_unpack_HH [a, b, c, d] = Inr (256 * uint a + uint b, 256 * uint c + uint d)"
  by (simp add: struct_unpack_HH_def)

lemma struct_unpack_HH_be16:
  assumes "0 \<le> a" "a < 65536" "0 \<le> b" "b < 65536"
  shows "struct_unpack_HH (be16 a @ be16 b) = Inr (a, b)"
  using assms by (simp add: struct_unpack_HH_def)

lemma py_bytes_Inr_iff:
  "py_bytes vs = Inr bs \<longleftrightarrow>
     list_all (\<lambda>v. 0 \<le> v \<and> v < 256) vs \<and> bs = map word_of_int vs"
  by (auto simp: py_bytes_def)

section \<open>Sequences of 16-bit words\<close>

lemma length_unpack_words [simp]: "length (unpack_words bs) = length bs div 2"
  by (induction bs rule: unpack_words.induct) simp_all

lemma unpack_words_range: "v \<in> set (unpack_words bs) \<Longrightarrow> 0 \<le> v \<and> v < 65536"
  by (induction bs rule: unpack_words.induct) (auto simp: u16_from_bytes_big_range)

lemma unpack_words_concat:
  "(\<And>v. v \<in> set vs \<Longrightarrow> 0 \<le> v \<and> v < 65536) \<Longrightarrow> unpack_words (concat (map be16 vs)) = vs"
proof (induction vs)
  case (Cons v vs)
  then have "0 \<le> v" "v < 65536" by simp_all
  then have "from_bytes_big (be16 v) = v" by simp
  then show ?case using Cons by (simp add: be16_def)
qed simp

lemma concat_unpack_words: "even (length bs) \<Longrightarrow> concat (map be16 (unpack_words bs)) = bs"
  by (induction bs rule: unpack_words.induct) (simp_all add: be16_from_bytes)

lemma length_concat_be16 [simp]: "length (concat (map be16 vs)) = 2 * length vs"
  by (induction vs) simp_all

lemma to_bytes_2_Inr_iff:
  "to_bytes_2 layout v = Inr bs \<longleftrightarrow> 0 \<le> v \<and> v < 65536 \<and> bs = layout v"
  by (auto simp: to_bytes_2_def)

end
