(* ===== verification/Crc.thy ===== *)
theory Crc
  imports Py_Bytes
begin

text \<open>
  The Modbus RTU checksum: \<open>modbusgw/utils/crc.py\<close> and the client's copy in
  \<open>modbusgw_client/codecs.py\<close>, both on unbounded Python integers as in the code. The
  lemmas refine them to a 16-bit shift register, show that the register step is linear
  and injective, and derive the facts the framing relies on: appending the checksum gives
  residue 0, and no error burst of at most 16 bits keeps the residue.
\<close>

section \<open>The code\<close>

text \<open>Loop body of \<open>for _ in range(8)\<close> and of \<open>for byte in data\<close> in crc.py.\<close>

definition crc_bit :: "int \<Rightarrow> int" where
  "crc_bit crc = (if crc AND 1 \<noteq> 0 then drop_bit 1 crc XOR 0xA001 else drop_bit 1 crc)"

definition crc_byte :: "int \<Rightarrow> byte \<Rightarrow> int" where
  "crc_byte crc b = (crc_bit ^^ 8) (crc XOR uint b)"

definition crc16_modbus :: "bytes \<Rightarrow> int" where
  "crc16_modbus data = foldl crc_byte 0xFFFF data AND 0xFFFF"

text \<open>The client's version takes the low bit first and shifts unconditionally.\<close>

definition client_crc_bit :: "int \<Rightarrow> int" where
  "client_crc_bit crc0 =
     (let lsb = crc0 AND 1; crc = drop_bit 1 crc0 in if lsb \<noteq> 0 then crc XOR 0xA001 else crc)"

definition client_crc16_modbus :: "bytes \<Rightarrow> int" where
  "client_crc16_modbus data =
     foldl (\<lambda>crc b. (client_crc_bit ^^ 8) (crc XOR uint b)) 0xFFFF data AND 0xFFFF"

section \<open>The 16-bit shift register\<close>

definition lfsr :: "16 word \<Rightarrow> 16 word" where
  "lfsr s = (if bit s 0 then drop_bit 1 s XOR 0xA001 else drop_bit 1 s)"

definition lfsr_byte :: "16 word \<Rightarrow> byte \<Rightarrow> 16 word" where
  "lfsr_byte s b = (lfsr ^^ 8) (s XOR ucast b)"

definition lfsr_in :: "16 word \<Rightarrow> bool \<Rightarrow> 16 word" where
  "lfsr_in s d = lfsr (s XOR of_bool d)"

text \<open>Bits in transmission order, least significant first.\<close>

definition byte_bits :: "byte \<Rightarrow> bool list" where
  "byte_bits b = map (bit b) [0..<8]"

definition frame_bits :: "bytes \<Rightarrow> bool list" where
  "frame_bits bs = concat (map byte_bits bs)"

lemma and_one_neq_0_iff: "(k :: int) AND 1 \<noteq> 0 \<longleftrightarrow> bit k 0"
  by (simp add: and_one_eq bit_0 mod_2_eq_odd)

lemma take_bit_16_uint [simp]: "take_bit 16 (uint (s :: 16 word)) = uint s"
  using uint_bounded [of s] by (simp add: take_bit_int_eq_self_iff)

lemma take_bit_16_uint_byte [simp]: "take_bit 16 (uint (b :: byte)) = uint b"
  using uint_byte_range [of b] by (simp add: take_bit_int_eq_self_iff del: uint_byte_range)

lemma crc_bit_uint: "crc_bit (uint s) = uint (lfsr s)"
  by (simp add: crc_bit_def lfsr_def and_one_neq_0_iff bit_uint_iff unsigned_xor_eq
      unsigned_drop_bit_eq)

lemma crc_bit_funpow_uint: "(crc_bit ^^ n) (uint s) = uint ((lfsr ^^ n) s)"
  by (induction n) (simp_all add: crc_bit_uint)

lemma crc_byte_uint: "crc_byte (uint s) b = uint (lfsr_byte s b)"
proof -
  have "uint b = uint (ucast b :: 16 word)"
    by (simp add: unsigned_ucast_eq)
  then have "uint s XOR uint b = uint (s XOR ucast b)"
    by (simp only: unsigned_xor_eq)
  then show ?thesis
    by (simp only: crc_byte_def lfsr_byte_def crc_bit_funpow_uint)
qed

lemma foldl_crc_byte_uint: "foldl crc_byte (uint s) data = uint (foldl lfsr_byte s data)"
  by (induction data arbitrary: s) (simp_all add: crc_byte_uint)

lemma crc16_modbus_uint: "crc16_modbus data = uint (foldl lfsr_byte 0xFFFF data)"
proof -
  have "foldl crc_byte 0xFFFF data = uint (foldl lfsr_byte 0xFFFF data)"
    using foldl_crc_byte_uint [of "0xFFFF" data] by simp
  moreover have "uint (w :: 16 word) AND 0xFFFF = uint w" for w
  proof -
    have "uint w AND 0xFFFF = take_bit 16 (uint w)"
      by (simp add: take_bit_eq_mask mask_eq_exp_minus_1)
    then show ?thesis by simp
  qed
  ultimately show ?thesis by (simp add: crc16_modbus_def)
qed

lemma crc16_modbus_range: "0 \<le> crc16_modbus data" "crc16_modbus data < 65536"
  unfolding crc16_modbus_uint
  using uint_bounded [of "foldl lfsr_byte 0xFFFF data"] by simp_all

lemma client_crc_bit_eq: "client_crc_bit = crc_bit"
  by (rule ext) (simp add: client_crc_bit_def crc_bit_def Let_def)

section \<open>Linearity and injectivity of the register step\<close>

lemma bit_lfsr_iff:
  "bit (lfsr s) i \<longleftrightarrow> i < 16 \<and> (bit s (Suc i) \<noteq> (bit s 0 \<and> (i = 0 \<or> i = 13 \<or> i = 15)))"
proof -
  have "bit (0xA001 :: 16 word) i \<longleftrightarrow> i = 0 \<or> i = 13 \<or> i = 15"
  proof (cases "i < 16")
    case True
    then have "i \<in> set [0..<16]" by simp
    then show ?thesis by (simp add: upt_rec) auto
  next
    case False
    then show ?thesis by (auto dest: bit_imp_le_length)
  qed
  then show ?thesis
    by (auto simp: lfsr_def bit_simps dest: bit_imp_le_length)
qed

lemma lfsr_xor: "lfsr (a XOR b) = lfsr a XOR lfsr b"
  by (rule bit_word_eqI) (auto simp: bit_lfsr_iff bit_xor_iff)

lemma lfsr_0 [simp]: "lfsr 0 = 0"
  by (simp add: lfsr_def)

lemma lfsr_eq_0_iff: "lfsr s = 0 \<longleftrightarrow> s = 0"
proof
  assume z: "lfsr s = 0"
  have low: "\<not> bit s 0"
    using z bit_lfsr_iff [of s 15] bit_imp_le_length [of s 16] by auto
  have "\<not> bit s i" for i
  proof (cases i)
    case (Suc j)
    have "\<not> bit (lfsr s) j" using z by simp
    with low Suc show ?thesis
      using bit_lfsr_iff [of s j] bit_imp_le_length [of s i] by auto
  qed (use low in simp)
  then show "s = 0" by (auto intro: bit_word_eqI)
qed simp

lemma xor_eq_0_iff_word: "(a :: 'a::len word) XOR b = 0 \<longleftrightarrow> a = b"
  by (metis xor.left_neutral xor.assoc xor_self_eq xor.right_neutral)

lemma xor_left_cancel_word: "(a :: 'a::len word) XOR b = a XOR c \<longleftrightarrow> b = c"
proof
  assume "a XOR b = a XOR c"
  then have "a XOR (a XOR b) = a XOR (a XOR c)" by (simp only:)
  then show "b = c" by (simp only: xor.assoc [symmetric] xor_self_eq xor.left_neutral)
qed simp

lemma lfsr_inject: "lfsr a = lfsr b \<longleftrightarrow> a = b"
  by (metis lfsr_eq_0_iff lfsr_xor xor_eq_0_iff_word)

lemma lfsr_funpow_xor: "(lfsr ^^ n) (a XOR b) = (lfsr ^^ n) a XOR (lfsr ^^ n) b"
  by (induction n) (simp_all add: lfsr_xor)

lemma lfsr_funpow_eq_0_iff: "(lfsr ^^ n) s = 0 \<longleftrightarrow> s = 0"
  by (induction n) (simp_all add: lfsr_eq_0_iff)

lemma lfsr_funpow_inject: "(lfsr ^^ n) a = (lfsr ^^ n) b \<longleftrightarrow> a = b"
  by (induction n) (simp_all add: lfsr_inject)

lemma lfsr_push_bit:
  assumes "\<not> bit h 15"
  shows "lfsr (push_bit 1 h) = h"
proof -
  have pb: "bit (push_bit 1 h) i \<longleftrightarrow> 0 < i \<and> i < 16 \<and> bit h (i - 1)" for i
    by (cases i) (auto simp only: bit_push_bit_iff, simp_all)
  show ?thesis
  proof (rule bit_word_eqI)
    fix i assume "i < LENGTH(16)"
    then have "i < 16" by simp
    moreover have "i \<noteq> 15 \<Longrightarrow> i < 16 \<Longrightarrow> Suc i < 16" by simp
    ultimately show "bit (lfsr (push_bit 1 h)) i = bit h i"
      using assms unfolding bit_lfsr_iff pb by (cases "i = 15") simp_all
  qed
qed

lemma horner_sum_Cons_xor:
  assumes "length ds < 16"
  shows "(horner_sum of_bool 2 (d # ds) :: 16 word) =
    of_bool d XOR push_bit 1 (horner_sum of_bool 2 ds)"
proof (rule bit_word_eqI)
  fix i assume "i < LENGTH(16)"
  then show "bit (horner_sum of_bool 2 (d # ds) :: 16 word) i =
    bit (of_bool d XOR push_bit 1 (horner_sum of_bool 2 ds) :: 16 word) i"
    using assms unfolding bit_horner_sum_bit_word_iff bit_xor_iff bit_push_bit_iff
    by (cases i) (simp_all add: bit_of_bool_iff)
qed

section \<open>Serial view: one register step per transmitted bit\<close>

lemma lfsr_funpow_horner:
  "length ds \<le> 16 \<Longrightarrow> (lfsr ^^ length ds) (s XOR horner_sum of_bool 2 ds) = foldl lfsr_in s ds"
proof (induction ds arbitrary: s)
  case (Cons d ds)
  let ?h = "horner_sum of_bool 2 ds :: 16 word"
  have short: "length ds < 16" using Cons.prems by simp
  have top: "\<not> bit ?h 15" using short by (simp add: bit_horner_sum_bit_word_iff)
  have "lfsr (s XOR horner_sum of_bool 2 (d # ds)) = lfsr (s XOR of_bool d) XOR lfsr (push_bit 1 ?h)"
    unfolding horner_sum_Cons_xor [OF short] by (simp only: lfsr_xor [symmetric] xor.assoc)
  also have "\<dots> = lfsr_in s d XOR ?h"
    by (simp only: lfsr_push_bit [OF top] lfsr_in_def)
  finally show ?case
    using Cons.IH [of "lfsr_in s d"] short by (simp only: list.size funpow_Suc_right o_apply
        foldl_Cons add_0_right add_Suc_right less_imp_le)
qed simp

lemma ucast_byte_horner: "(ucast b :: 16 word) = horner_sum of_bool 2 (byte_bits b)"
proof (rule bit_word_eqI)
  fix i assume "i < LENGTH(16)"
  have "bit b i \<Longrightarrow> i < 8" using bit_imp_le_length [of b i] by simp
  with \<open>i < LENGTH(16)\<close> show "bit (ucast b :: 16 word) i =
      bit (horner_sum of_bool 2 (byte_bits b) :: 16 word) i"
    by (auto simp: bit_horner_sum_bit_word_iff byte_bits_def bit_ucast_iff)
qed

lemma length_byte_bits [simp]: "length (byte_bits b) = 8"
  by (simp add: byte_bits_def)

lemma lfsr_byte_serial: "lfsr_byte s b = foldl lfsr_in s (byte_bits b)"
  using lfsr_funpow_horner [of "byte_bits b" s]
  by (simp only: lfsr_byte_def ucast_byte_horner) simp

lemma frame_bits_simps [simp]:
  "frame_bits [] = []"
  "frame_bits (b # bs) = byte_bits b @ frame_bits bs"
  "frame_bits (bs @ cs) = frame_bits bs @ frame_bits cs"
  by (simp_all add: frame_bits_def)

lemma length_frame_bits [simp]: "length (frame_bits bs) = 8 * length bs"
  by (induction bs) simp_all

lemma foldl_lfsr_byte_serial: "foldl lfsr_byte s bs = foldl lfsr_in s (frame_bits bs)"
  by (induction bs arbitrary: s) (simp_all add: lfsr_byte_serial)

section \<open>Residue of a frame that ends in its checksum\<close>

lemma two_bytes_horner:
  "horner_sum of_bool 2 (frame_bits [lo, hi]) = (word_of_int (uint lo + 256 * uint hi) :: 16 word)"
proof (rule bit_word_eqI)
  fix i assume "i < LENGTH(16)"
  then have i: "i < 16" by simp
  have "uint lo + 256 * uint hi = uint lo + push_bit 8 (uint hi)"
    by (simp add: push_bit_eq_mult)
  also have "\<dots> = uint lo OR push_bit 8 (uint hi)"
    by (rule disjunctive_add_eq_or, rule bit_eqI)
      (auto simp: bit_and_iff bit_push_bit_iff bit_uint_iff)
  finally have sum: "uint lo + 256 * uint hi = uint lo OR push_bit 8 (uint hi)" .
  show "bit (horner_sum of_bool 2 (frame_bits [lo, hi]) :: 16 word) i =
      bit (word_of_int (uint lo + 256 * uint hi) :: 16 word) i"
    unfolding sum bit_word_of_int_iff bit_or_iff bit_push_bit_iff bit_uint_iff
      bit_horner_sum_bit_word_iff
    using i by (auto simp: nth_append byte_bits_def)
qed

lemma residue_zero_iff:
  "foldl lfsr_byte s [lo, hi] = 0 \<longleftrightarrow> uint s = uint lo + 256 * uint hi"
proof -
  let ?w = "word_of_int (uint lo + 256 * uint hi) :: 16 word"
  have range: "0 \<le> uint lo + 256 * uint hi" "uint lo + 256 * uint hi < 65536"
    using u16_from_bytes_big_range [of hi lo] by (simp_all add: add.commute)
  have "foldl lfsr_byte s [lo, hi] = (lfsr ^^ 16) (s XOR ?w)"
    using lfsr_funpow_horner [of "frame_bits [lo, hi]" s]
    by (simp only: foldl_lfsr_byte_serial two_bytes_horner length_frame_bits) simp
  then have "foldl lfsr_byte s [lo, hi] = 0 \<longleftrightarrow> s = ?w"
    by (simp only: lfsr_funpow_eq_0_iff xor_eq_0_iff_word)
  also have "\<dots> \<longleftrightarrow> uint s = uint ?w" by (simp add: word_uint_eq_iff)
  also have "uint ?w = uint lo + 256 * uint hi"
    unfolding uint_word_of_int using range by simp
  finally show ?thesis .
qed

text \<open>
  The check every RTU receiver of the program makes (\<open>frame[-2:]\<close> little-endian against
  the checksum of \<open>frame[:-2]\<close>) is the residue test of the whole frame.
\<close>

lemma crc_check_iff_residue:
  "from_bytes_little [lo, hi] = crc16_modbus body \<longleftrightarrow>
     foldl lfsr_byte 0xFFFF (body @ [lo, hi]) = 0"
  using residue_zero_iff [of "foldl lfsr_byte 0xFFFF body" lo hi]
  by (auto simp add: crc16_modbus_uint)

section \<open>Error bursts\<close>

lemma foldl_lfsr_in_inject: "foldl lfsr_in s ds = foldl lfsr_in s' ds \<longleftrightarrow> s = s'"
proof (induction ds arbitrary: s s')
  case (Cons d ds)
  have "lfsr_in s d = lfsr_in s' d \<longleftrightarrow> s = s'"
    unfolding lfsr_in_def lfsr_inject
    by (simp only: xor.commute [of _ "of_bool d"] xor_left_cancel_word)
  with Cons show ?case by simp
qed simp

lemma horner_sum_bool_inject:
  assumes "length w = length w'" "length w \<le> 16"
    and "(horner_sum of_bool 2 w :: 16 word) = horner_sum of_bool 2 w'"
  shows "w = w'"
proof (rule nth_equalityI)
  fix i assume i: "i < length w"
  have "bit (horner_sum of_bool 2 w :: 16 word) i = bit (horner_sum of_bool 2 w' :: 16 word) i"
    using assms(3) by simp
  with i assms(1,2) show "w ! i = w' ! i" by (simp add: bit_horner_sum_bit_word_iff)
qed (use assms in simp)

lemma burst_changes_register:
  assumes "length w = length w'" "length w \<le> 16" "w \<noteq> w'"
  shows "foldl lfsr_in s (p @ w @ q) \<noteq> foldl lfsr_in s (p @ w' @ q)"
proof
  let ?t = "foldl lfsr_in s p"
  assume "foldl lfsr_in s (p @ w @ q) = foldl lfsr_in s (p @ w' @ q)"
  then have "foldl lfsr_in ?t w = foldl lfsr_in ?t w'"
    by (simp add: foldl_lfsr_in_inject)
  then have "(lfsr ^^ length w) (?t XOR horner_sum of_bool 2 w)
      = (lfsr ^^ length w) (?t XOR horner_sum of_bool 2 w')"
    using lfsr_funpow_horner [of w ?t] lfsr_funpow_horner [of w' ?t] assms by simp
  then have "?t XOR horner_sum of_bool 2 w = ?t XOR (horner_sum of_bool 2 w' :: 16 word)"
    by (simp only: lfsr_funpow_inject)
  then have "(horner_sum of_bool 2 w :: 16 word) = horner_sum of_bool 2 w'"
    by (simp only: xor_left_cancel_word)
  with assms horner_sum_bool_inject show False by blast
qed

end
