(* ===== verification/Coils.thy ===== *)
theory Coils
  imports Py_Bytes
begin

text \<open>
  \<open>_pack_coils\<close> and \<open>_unpack_coils\<close> of \<open>modbusgw/core/messages.py\<close>: coil values packed
  eight to a byte, least significant bit first. The loops are kept as the code has them
  (an in-place update of a bytearray; an index loop with a \<open>break\<close>), and characterised
  bit by bit.
\<close>

section \<open>The code\<close>

definition coil_mask :: "nat \<Rightarrow> byte" where
  "coil_mask idx = push_bit (idx mod 8) 1"

definition set_coil :: "bytes \<Rightarrow> nat \<times> bool \<Rightarrow> bytes" where
  "set_coil result = (\<lambda>(idx, bt).
     if bt then result[idx div 8 := (result ! (idx div 8)) OR coil_mask idx]
     else result)"

definition pack_coils :: "bool list \<Rightarrow> bytes" where
  "pack_coils bits =
     foldl set_coil (replicate ((length bits + 7) div 8) 0) (enumerate 0 bits)"

text \<open>\<open>unpack_coils_from data idx n\<close>: the loop with \<open>n\<close> indices of the range still to come.\<close>

fun unpack_coils_from :: "bytes \<Rightarrow> nat \<Rightarrow> nat \<Rightarrow> bool list" where
  "unpack_coils_from data idx 0 = []"
| "unpack_coils_from data idx (Suc n) =
     (if length data \<le> idx div 8 then []
      else ((data ! (idx div 8)) AND coil_mask idx \<noteq> 0)
           # unpack_coils_from data (Suc idx) n)"

definition unpack_coils :: "bytes \<Rightarrow> int \<Rightarrow> bool list" where
  "unpack_coils data quantity = unpack_coils_from data 0 (nat quantity)"

section \<open>Bitwise characterisation\<close>

lemma bit_coil_mask: "bit (coil_mask idx) n \<longleftrightarrow> n = idx mod 8"
proof -
  have "idx mod 8 < 8" by simp
  then show ?thesis
    unfolding coil_mask_def bit_push_bit_iff bit_1_iff by auto
qed

lemma and_coil_mask_neq_0_iff: "b AND coil_mask idx \<noteq> 0 \<longleftrightarrow> bit b (idx mod 8)"
proof -
  have "b AND coil_mask idx \<noteq> 0 \<longleftrightarrow> (\<exists>n. bit (b AND coil_mask idx) n)"
    by (metis bit_0_eq bot_apply bot_bool_def bit_word_eqI)
  then show ?thesis by (simp add: bit_and_iff bit_coil_mask)
qed

lemma length_set_coil [simp]: "length (set_coil result p) = length result"
  by (simp add: set_coil_def split: prod.splits)

lemma length_foldl_set_coil [simp]: "length (foldl set_coil result ps) = length result"
  by (induction ps arbitrary: result) simp_all

lemma length_pack_coils [simp]: "length (pack_coils bits) = (length bits + 7) div 8"
  by (simp add: pack_coils_def)

lemma bit_set_coil:
  assumes "j < length result" "k < 8"
  shows "bit (set_coil result (idx, bt) ! j) k \<longleftrightarrow>
    bit (result ! j) k \<or> (bt \<and> idx = 8 * j + k)"
proof -
  have "idx div 8 = j \<and> idx mod 8 = k \<longleftrightarrow> idx = 8 * j + k" using assms(2) by auto
  then show ?thesis using assms
    by (cases "idx div 8 = j") (auto simp: set_coil_def bit_or_iff bit_coil_mask)
qed

lemma bit_foldl_set_coil:
  assumes "j < length result" "k < 8"
  shows "bit (foldl set_coil result ps ! j) k \<longleftrightarrow>
    bit (result ! j) k \<or> (8 * j + k, True) \<in> set ps"
  using assms
proof (induction ps arbitrary: result)
  case (Cons p ps)
  obtain idx bt where p: "p = (idx, bt)" by (cases p)
  from Cons show ?case by (auto simp: p bit_set_coil)
qed simp

lemma bit_pack_coils:
  assumes "j < length (pack_coils bits)" "k < 8"
  shows "bit (pack_coils bits ! j) k \<longleftrightarrow> 8 * j + k < length bits \<and> bits ! (8 * j + k)"
  using assms by (simp add: pack_coils_def bit_foldl_set_coil in_set_enumerate_eq)

lemma length_unpack_coils_from:
  "length (unpack_coils_from data idx n) = min n (8 * length data - idx)"
proof (induction n arbitrary: idx)
  case (Suc n)
  have "length data \<le> idx div 8 \<longleftrightarrow> 8 * length data \<le> idx" by auto
  with Suc show ?case by auto
qed simp

lemma nth_unpack_coils_from:
  "i < length (unpack_coils_from data idx n) \<Longrightarrow>
     unpack_coils_from data idx n ! i \<longleftrightarrow> bit (data ! ((idx + i) div 8)) ((idx + i) mod 8)"
proof (induction n arbitrary: idx i)
  case (Suc n)
  show ?case
  proof (cases "length data \<le> idx div 8")
    case False
    then show ?thesis using Suc
      by (cases i) (simp_all add: and_coil_mask_neq_0_iff)
  qed (use Suc.prems in simp)
qed simp

lemma length_unpack_coils [simp]:
  "length (unpack_coils data quantity) = min (nat quantity) (8 * length data)"
  by (simp add: unpack_coils_def length_unpack_coils_from)

lemma nth_unpack_coils:
  "i < nat quantity \<Longrightarrow> i < 8 * length data \<Longrightarrow>
     unpack_coils data quantity ! i \<longleftrightarrow> bit (data ! (i div 8)) (i mod 8)"
  using nth_unpack_coils_from [of i data 0 "nat quantity"]
  by (simp add: unpack_coils_def length_unpack_coils_from)

section \<open>Inverses\<close>

lemma unpack_pack_coils: "unpack_coils (pack_coils bits) (int (length bits)) = bits"
proof (rule nth_equalityI)
  show len: "length (unpack_coils (pack_coils bits) (int (length bits))) = length bits"
    by simp
  fix i assume "i < length (unpack_coils (pack_coils bits) (int (length bits)))"
  with len have i: "i < length bits" by simp
  then have "i div 8 < length (pack_coils bits)" by simp
  with i show "unpack_coils (pack_coils bits) (int (length bits)) ! i = bits ! i"
    by (simp add: nth_unpack_coils bit_pack_coils)
qed

lemma pack_unpack_coils: "pack_coils (unpack_coils data (8 * int (length data))) = data"
proof (rule nth_equalityI)
  let ?bits = "unpack_coils data (8 * int (length data))"
  have lb: "length ?bits = 8 * length data" by (simp add: nat_mult_distrib)
  then show lp: "length (pack_coils ?bits) = length data" by simp
  fix j assume j: "j < length (pack_coils ?bits)"
  with lp have jd: "j < length data" by simp
  show "pack_coils ?bits ! j = data ! j"
  proof (rule bit_word_eqI)
    fix k assume "k < LENGTH(8)"
    then have k: "k < 8" by simp
    have "8 * j + k < 8 * length data" using jd k by simp
    then have "?bits ! (8 * j + k) = bit (data ! j) k"
      using k by (subst nth_unpack_coils) (simp_all add: nat_mult_distrib)
    with j k lb \<open>8 * j + k < 8 * length data\<close> show "bit (pack_coils ?bits ! j) k = bit (data ! j) k"
      by (simp add: bit_pack_coils del: length_pack_coils length_unpack_coils)
  qed
qed

end
