(* ===== verification/Messages.thy ===== *)
theory Messages
  imports Coils
begin

text \<open>
  \<open>modbusgw/core/messages.py\<close> (and \<open>modbusgw_client/pdu.py\<close>, which repeats its PDU
  classes line by line): the PDU classes as datatypes, one constructor per concrete class
  with the class's fields; \<open>encode\<close>, \<open>to_adu\<close>, \<open>from_adu\<close> and \<open>with_unit\<close>; the routing
  envelopes. The attributes every PDU carries (\<open>unit_id\<close>, \<open>raw_pdu\<close>, \<open>raw_adu\<close>, \<open>mbap\<close>)
  are the record \<open>pdu\<close>, whose \<open>body\<close> is the concrete class.
\<close>

section \<open>Python values that reach the router\<close>

text \<open>
  \<open>PyMethod\<close> is a bound method: what attribute lookup of \<open>register\<close> yields on a
  \<open>RawModbusRequest\<close>, because the classmethod \<open>ModbusRequest.register\<close> (lines 70-73)
  hides the property of the same name in \<open>ModbusPDU\<close> (lines 37-39) and the raw class does
  not define its own.
\<close>

datatype pyval = PyNone | PyInt int | PyStr string | PyTuple "pyval list" | PyMethod

section \<open>PDU classes\<close>

datatype coil_value = IntValue int | BoolValue bool

datatype request_body =
    ReadCoilsRequest int int
  | ReadDiscreteInputsRequest int int
  | ReadHoldingRegistersRequest int int
  | ReadInputRegistersRequest int int
  | WriteSingleCoilRequest int coil_value
  | WriteSingleRegisterRequest int int
  | WriteMultipleCoilsRequest int "bool list"
  | WriteMultipleRegistersRequest int "int list"
  | RawModbusRequest bytes int

datatype response_body =
    ReadCoilsResponse bytes
  | ReadDiscreteInputsResponse bytes
  | ReadHoldingRegistersResponse "int list"
  | ReadInputRegistersResponse "int list"
  | WriteSingleCoilResponse int int
  | WriteSingleRegisterResponse int int
  | WriteMultipleCoilsResponse int int
  | WriteMultipleRegistersResponse int int
  | ModbusExceptionResponse int int
  | RawModbusResponse bytes int

record 'b pdu =
  unit_id :: int
  body :: 'b
  raw_pdu :: "bytes option"
  raw_adu :: "bytes option"
  mbap :: "bytes option"

type_synonym request = "request_body pdu"
type_synonym response = "response_body pdu"

definition new_pdu :: "int \<Rightarrow> 'b \<Rightarrow> 'b pdu" where
  "new_pdu unit b = \<lparr>unit_id = unit, body = b, raw_pdu = None, raw_adu = None, mbap = None\<rparr>"

definition attach_raw :: "'b pdu \<Rightarrow> bytes \<Rightarrow> bytes \<Rightarrow> bytes option \<Rightarrow> 'b pdu" where
  "attach_raw p payload adu mb = p\<lparr>raw_pdu := Some payload, raw_adu := Some adu, mbap := mb\<rparr>"

definition with_unit :: "'b pdu \<Rightarrow> int \<Rightarrow> 'b pdu" where
  "with_unit p unit = p\<lparr>unit_id := unit\<rparr>"

section \<open>Function codes and operations\<close>

fun request_function_code :: "request_body \<Rightarrow> int" where
  "request_function_code (ReadCoilsRequest _ _) = 1"
| "request_function_code (ReadDiscreteInputsRequest _ _) = 2"
| "request_function_code (ReadHoldingRegistersRequest _ _) = 3"
| "request_function_code (ReadInputRegistersRequest _ _) = 4"
| "request_function_code (WriteSingleCoilRequest _ _) = 5"
| "request_function_code (WriteSingleRegisterRequest _ _) = 6"
| "request_function_code (WriteMultipleCoilsRequest _ _) = 15"
| "request_function_code (WriteMultipleRegistersRequest _ _) = 16"
| "request_function_code (RawModbusRequest _ override) = override"

fun response_function_code :: "response_body \<Rightarrow> int" where
  "response_function_code (ReadCoilsResponse _) = 1"
| "response_function_code (ReadDiscreteInputsResponse _) = 2"
| "response_function_code (ReadHoldingRegistersResponse _) = 3"
| "response_function_code (ReadInputRegistersResponse _) = 4"
| "response_function_code (WriteSingleCoilResponse _ _) = 5"
| "response_function_code (WriteSingleRegisterResponse _ _) = 6"
| "response_function_code (WriteMultipleCoilsResponse _ _) = 15"
| "response_function_code (WriteMultipleRegistersResponse _ _) = 16"
| "response_function_code (ModbusExceptionResponse base _) = base OR 0x80"
| "response_function_code (RawModbusResponse _ override) = override"

definition operation_map :: "int \<Rightarrow> string option" where
  "operation_map fc =
     (if fc \<in> {1, 2, 3, 4} then Some ''read''
      else if fc \<in> {5, 6, 15, 16} then Some ''write'' else None)"

text \<open>Attribute \<open>register\<close> of a request object, by the class's method resolution order.\<close>

fun request_register :: "request_body \<Rightarrow> pyval" where
  "request_register (ReadCoilsRequest address _) = PyInt address"
| "request_register (ReadDiscreteInputsRequest address _) = PyInt address"
| "request_register (ReadHoldingRegistersRequest address _) = PyInt address"
| "request_register (ReadInputRegistersRequest address _) = PyInt address"
| "request_register (WriteSingleCoilRequest address _) = PyInt address"
| "request_register (WriteSingleRegisterRequest address _) = PyInt address"
| "request_register (WriteMultipleCoilsRequest address _) = PyInt address"
| "request_register (WriteMultipleRegistersRequest address _) = PyInt address"
| "request_register (RawModbusRequest _ _) = PyMethod"

section \<open>Encoding\<close>

fun coil_encode_value :: "coil_value \<Rightarrow> int" where
  "coil_encode_value (BoolValue b) = (if b then 0xFF00 else 0x0000)"
| "coil_encode_value (IntValue v) = v AND 0xFFFF"

text \<open>The loop \<open>payload += struct.pack(">H", value & 0xFFFF)\<close>.\<close>

fun append_registers :: "bytes \<Rightarrow> int list \<Rightarrow> bytes result" where
  "append_registers payload [] = Inr payload"
| "append_registers payload (v # vs) =
     bind_result (struct_pack_H (v AND 0xFFFF)) (\<lambda>x. append_registers (payload @ x) vs)"

definition encode_write_multiple_coils :: "int \<Rightarrow> bool list \<Rightarrow> bytes result" where
  "encode_write_multiple_coils address values =
     (let bytes_payload = pack_coils values in
      bind_result (struct_pack_HHB address (int (length values)) (int (length bytes_payload)))
        (\<lambda>hdr. Inr (hdr @ bytes_payload)))"

definition encode_write_multiple_registers :: "int \<Rightarrow> int list \<Rightarrow> bytes result" where
  "encode_write_multiple_registers address values =
     (let byte_count = int (length values) * 2 in
      bind_result (struct_pack_HHB address (int (length values)) byte_count)
        (\<lambda>payload. append_registers payload values))"

fun encode_request :: "request_body \<Rightarrow> bytes result" where
  "encode_request (ReadCoilsRequest address quantity) = struct_pack_HH address quantity"
| "encode_request (ReadDiscreteInputsRequest address quantity) = struct_pack_HH address quantity"
| "encode_request (ReadHoldingRegistersRequest address quantity) = struct_pack_HH address quantity"
| "encode_request (ReadInputRegistersRequest address quantity) = struct_pack_HH address quantity"
| "encode_request (WriteSingleCoilRequest address val) =
     struct_pack_HH address (coil_encode_value val)"
| "encode_request (WriteSingleRegisterRequest address val) = struct_pack_HH address (val AND 0xFFFF)"
| "encode_request (WriteMultipleCoilsRequest address values) =
     encode_write_multiple_coils address values"
| "encode_request (WriteMultipleRegistersRequest address values) =
     encode_write_multiple_registers address values"
| "encode_request (RawModbusRequest payload _) = Inr payload"

definition encode_bits_response :: "bytes \<Rightarrow> bytes result" where
  "encode_bits_response values =
     bind_result (py_bytes [int (length values)]) (\<lambda>hdr. Inr (hdr @ values))"

definition encode_registers_response :: "int list \<Rightarrow> bytes result" where
  "encode_registers_response values =
     bind_result (py_bytes [int (length values) * 2]) (\<lambda>payload. append_registers payload values)"

fun encode_response :: "response_body \<Rightarrow> bytes result" where
  "encode_response (ReadCoilsResponse values) = encode_bits_response values"
| "encode_response (ReadDiscreteInputsResponse values) = encode_bits_response values"
| "encode_response (ReadHoldingRegistersResponse values) = encode_registers_response values"
| "encode_response (ReadInputRegistersResponse values) = encode_registers_response values"
| "encode_response (WriteSingleCoilResponse address val) = struct_pack_HH address (val AND 0xFFFF)"
| "encode_response (WriteSingleRegisterResponse address val) = struct_pack_HH address (val AND 0xFFFF)"
| "encode_response (WriteMultipleCoilsResponse address quantity) = struct_pack_HH address quantity"
| "encode_response (WriteMultipleRegistersResponse address quantity) = struct_pack_HH address quantity"
| "encode_response (ModbusExceptionResponse _ exception_code) = py_bytes [exception_code]"
| "encode_response (RawModbusResponse payload _) = Inr payload"

text \<open>
  \<open>ModbusPDU.to_adu\<close>, over the class's \<open>encode\<close> and \<open>function_code\<close>. It assigns
  \<open>raw_pdu\<close> before it builds the header, so a header that does not fit leaves the new
  \<open>raw_pdu\<close> behind; the second component is the object afterwards.
\<close>

definition to_adu :: "('b \<Rightarrow> bytes result) \<Rightarrow> ('b \<Rightarrow> int) \<Rightarrow> 'b pdu \<Rightarrow> bytes result \<times> 'b pdu" where
  "to_adu enc fc p =
     (case enc (body p) of
        Inl e \<Rightarrow> (Inl e, p)
      | Inr payload \<Rightarrow>
          (let p1 = p\<lparr>raw_pdu := Some payload\<rparr> in
           case py_bytes [unit_id p, fc (body p)] of
             Inl e \<Rightarrow> (Inl e, p1)
           | Inr hdr \<Rightarrow> (Inr (hdr @ payload), p1\<lparr>raw_adu := Some (hdr @ payload)\<rparr>)))"

definition request_to_adu :: "request \<Rightarrow> bytes result \<times> request" where
  "request_to_adu = to_adu encode_request request_function_code"

definition response_to_adu :: "response \<Rightarrow> bytes result \<times> response" where
  "response_to_adu = to_adu encode_response response_function_code"

declare request_to_adu_def [codec_simps] response_to_adu_def [codec_simps] to_adu_def [codec_simps]
  new_pdu_def [codec_simps] struct_pack_HH_def [codec_simps] struct_pack_H_def [codec_simps]
  be16_def [codec_simps] py_bytes_def [codec_simps]

section \<open>Decoding\<close>

definition split_adu :: "bytes \<Rightarrow> (int \<times> int \<times> bytes) result" where
  "split_adu adu =
     (if length adu < 2 then Inl (ValueError ''Frame too short'')
      else Inr (uint (adu ! 0), uint (adu ! 1), drop 2 adu))"

text \<open>
  Each \<open>_from_payload\<close> yields the new body and the slice of the payload it attaches as
  \<open>raw_pdu\<close>. Classes whose method differs only in the class built and the error text share
  \<open>two_words_from_payload\<close>.
\<close>

definition two_words_from_payload ::
  "(int \<Rightarrow> int \<Rightarrow> 'b) \<Rightarrow> string \<Rightarrow> bytes \<Rightarrow> ('b \<times> bytes) result" where
  "two_words_from_payload cls msg payload =
     (if length payload < 4 then Inl (ValueError msg)
      else bind_result (struct_unpack_HH (take 4 payload))
        (\<lambda>(x, y). Inr (cls x y, take 4 payload)))"

definition write_multiple_coils_from_payload :: "bytes \<Rightarrow> (request_body \<times> bytes) result" where
  "write_multiple_coils_from_payload payload =
     (if length payload < 5 then Inl (ValueError ''Invalid write multiple coils request'')
      else bind_result (struct_unpack_HH (take 4 payload))
        (\<lambda>(address, quantity).
          let byte_count = unat (payload ! 4);
              data = take byte_count (drop 5 payload);
              values = unpack_coils data quantity
          in Inr (WriteMultipleCoilsRequest address values, take (5 + byte_count) payload)))"

definition write_multiple_registers_from_payload :: "bytes \<Rightarrow> (request_body \<times> bytes) result" where
  "write_multiple_registers_from_payload payload =
     (if length payload < 5 then Inl (ValueError ''Invalid write multiple registers request'')
      else bind_result (struct_unpack_HH (take 4 payload))
        (\<lambda>(address, quantity).
          let byte_count = unat (payload ! 4);
              data = take byte_count (drop 5 payload)
          in if int (length data) < quantity * 2
             then Inl (ValueError ''Write multiple registers payload truncated'')
             else bind_result (struct_unpack_Hs (nat quantity) (take (nat (quantity * 2)) data))
               (\<lambda>values. Inr (WriteMultipleRegistersRequest address values,
                             take (5 + byte_count) payload))))"

definition bits_from_payload ::
  "(bytes \<Rightarrow> response_body) \<Rightarrow> bytes \<Rightarrow> (response_body \<times> bytes) result" where
  "bits_from_payload cls payload =
     (if payload = [] then Inl (ValueError ''Invalid read coils response'')
      else let byte_count = unat (payload ! 0);
               data = take byte_count (drop 1 payload)
           in Inr (cls data, take (1 + byte_count) payload))"

definition registers_from_payload ::
  "(int list \<Rightarrow> response_body) \<Rightarrow> bytes \<Rightarrow> (response_body \<times> bytes) result" where
  "registers_from_payload cls payload =
     (if payload = [] then Inl (ValueError ''Invalid read holding registers response'')
      else let byte_count = unat (payload ! 0);
               data = take byte_count (drop 1 payload)
           in if length data mod 2 \<noteq> 0
              then Inl (ValueError ''Register response byte count is odd'')
              else bind_result (struct_unpack_Hs (length data div 2) data)
                (\<lambda>values. Inr (cls values, take (1 + byte_count) payload)))"

definition exception_from_payload :: "int \<Rightarrow> bytes \<Rightarrow> (response_body \<times> bytes) result" where
  "exception_from_payload base_fc payload =
     (if payload = [] then Inl (ValueError ''Invalid exception response'')
      else Inr (ModbusExceptionResponse base_fc (uint (payload ! 0)), take 1 payload))"

text \<open>The registry lookup of \<open>ModbusRequest.from_adu\<close> and the method it selects.\<close>

definition request_from_payload :: "int \<Rightarrow> bytes \<Rightarrow> (request_body \<times> bytes) result" where
  "request_from_payload fc payload =
     (if fc = 1 then two_words_from_payload ReadCoilsRequest ''Invalid read coils request'' payload
      else if fc = 2 then
        two_words_from_payload ReadDiscreteInputsRequest ''Invalid read coils request'' payload
      else if fc = 3 then
        two_words_from_payload ReadHoldingRegistersRequest
          ''Invalid read holding registers request'' payload
      else if fc = 4 then
        two_words_from_payload ReadInputRegistersRequest
          ''Invalid read holding registers request'' payload
      else if fc = 5 then
        two_words_from_payload (\<lambda>a v. WriteSingleCoilRequest a (IntValue v))
          ''Invalid write single coil request'' payload
      else if fc = 6 then
        two_words_from_payload WriteSingleRegisterRequest
          ''Invalid write single register request'' payload
      else if fc = 15 then write_multiple_coils_from_payload payload
      else if fc = 16 then write_multiple_registers_from_payload payload
      else Inr (RawModbusRequest payload fc, payload))"

definition response_from_payload :: "int \<Rightarrow> bytes \<Rightarrow> (response_body \<times> bytes) result" where
  "response_from_payload fc payload =
     (if fc AND 0x80 \<noteq> 0 then exception_from_payload (fc AND 0x7F) payload
      else if fc = 1 then bits_from_payload ReadCoilsResponse payload
      else if fc = 2 then bits_from_payload ReadDiscreteInputsResponse payload
      else if fc = 3 then registers_from_payload ReadHoldingRegistersResponse payload
      else if fc = 4 then registers_from_payload ReadInputRegistersResponse payload
      else if fc = 5 then
        two_words_from_payload WriteSingleCoilResponse
          ''Invalid write single coil response'' payload
      else if fc = 6 then
        two_words_from_payload WriteSingleRegisterResponse
          ''Invalid write single register response'' payload
      else if fc = 15 then
        two_words_from_payload WriteMultipleCoilsResponse
          ''Invalid write multiple coils response'' payload
      else if fc = 16 then
        two_words_from_payload WriteMultipleRegistersResponse
          ''Invalid write multiple registers response'' payload
      else Inr (RawModbusResponse payload fc, payload))"

definition from_adu ::
  "(int \<Rightarrow> bytes \<Rightarrow> ('b \<times> bytes) result) \<Rightarrow> bytes \<Rightarrow> bytes option \<Rightarrow> 'b pdu result" where
  "from_adu dec adu mb =
     bind_result (split_adu adu)
       (\<lambda>(unit, function_code, payload).
         bind_result (dec function_code payload)
           (\<lambda>(b, used). Inr (attach_raw (new_pdu unit b) used adu mb)))"

definition request_from_adu :: "bytes \<Rightarrow> bytes option \<Rightarrow> request result" where
  "request_from_adu = from_adu request_from_payload"

definition response_from_adu :: "bytes \<Rightarrow> bytes option \<Rightarrow> response result" where
  "response_from_adu = from_adu response_from_payload"

fun is_exception :: "response_body \<Rightarrow> bool" where
  "is_exception (ModbusExceptionResponse _ _) = True"
| "is_exception _ = False"

text \<open>Property \<open>bits\<close> of \<open>ReadCoilsResponse\<close>.\<close>

definition response_bits :: "bytes \<Rightarrow> bool list" where
  "response_bits values = unpack_coils values (int (length values) * 8)"

section \<open>Routing envelopes\<close>

record request_context =
  rc_frontend :: string
  rc_request_id :: "string option"
  rc_metadata :: "(string \<times> pyval) list"

record routed_request =
  rr_context :: request_context
  rr_pdu :: request

record response_context =
  rsc_frontend :: string
  rsc_backend :: string
  rsc_request_id :: "string option"
  rsc_metadata :: "(string \<times> pyval) list"

record routed_response =
  rs_context :: response_context
  rs_request :: "request option"
  rs_response :: "response option"
  rs_exception :: "response option"
  rs_error :: "string option"

definition routed_with_unit :: "routed_request \<Rightarrow> int \<Rightarrow> routed_request" where
  "routed_with_unit r unit =
     \<lparr>rr_context = rr_context r, rr_pdu = with_unit (rr_pdu r) unit\<rparr>"

end
