(* ===== verification/Pdu_Codec.thy ===== *)
theory Pdu_Codec
  imports Messages
begin

text \<open>
  Correctness of the PDU codec of messages.py. The contract between a class's \<open>encode\<close>
  and the \<open>_from_payload\<close> that the registry selects for its function code is the locale
  \<open>pdu_codec\<close>; what \<open>to_adu\<close> and \<open>from_adu\<close> then promise is proved once in it. Requests
  and responses are its two interpretations.
\<close>

lemma to_adu_keeps:
  "to_adu enc fc p = (r, p') \<Longrightarrow> body p' = body p \<and> unit_id p' = unit_id p \<and> mbap p' = mbap p"
  by (auto simp: to_adu_def Let_def split: sum.splits)

section \<open>Interface: a PDU family\<close>

locale pdu_codec =
  fixes enc :: "'b \<Rightarrow> bytes result"
    and fc :: "'b \<Rightarrow> int"
    and dec :: "int \<Rightarrow> bytes \<Rightarrow> ('b \<times> bytes) result"
    and wf :: "'b \<Rightarrow> bool"
    and canon :: "'b \<Rightarrow> 'b"
  assumes fc_range: "wf b \<Longrightarrow> 0 \<le> fc b \<and> fc b < 256"
    and dec_enc: "wf b \<Longrightarrow> enc b = Inr payload \<Longrightarrow> dec (fc b) payload = Inr (canon b, payload)"
    and dec_wf: "0 \<le> f \<Longrightarrow> f < 256 \<Longrightarrow> dec f payload = Inr (b, used) \<Longrightarrow>
      wf b \<and> fc b = f \<and> canon b = b"
    and enc_dec: "0 \<le> f \<Longrightarrow> f < 256 \<Longrightarrow> dec f payload = Inr (b, used) \<Longrightarrow>
      \<exists>payload'. enc b = Inr payload' \<and> length payload' \<le> length payload"
begin

lemma to_adu_Inr_iff:
  "to_adu enc fc p = (Inr frame, p') \<longleftrightarrow>
     (\<exists>payload. enc (body p) = Inr payload \<and> 0 \<le> unit_id p \<and> unit_id p < 256 \<and>
        0 \<le> fc (body p) \<and> fc (body p) < 256 \<and>
        frame = word_of_int (unit_id p) # word_of_int (fc (body p)) # payload \<and>
        p' = p\<lparr>raw_pdu := Some payload, raw_adu := Some frame\<rparr>)"
  by (auto simp: to_adu_def Let_def py_bytes_def split: sum.splits)

lemma from_adu_to_adu:
  assumes "wf (body p)" and "to_adu enc fc p = (Inr frame, p')"
  shows "from_adu dec frame mb = Inr (p'\<lparr>body := canon (body p), mbap := mb\<rparr>)"
proof -
  from assms(2) obtain payload where payload: "enc (body p) = Inr payload"
    and unit: "0 \<le> unit_id p" "unit_id p < 256"
    and code: "0 \<le> fc (body p)" "fc (body p) < 256"
    and frame: "frame = word_of_int (unit_id p) # word_of_int (fc (body p)) # payload"
    and p': "p' = p\<lparr>raw_pdu := Some payload, raw_adu := Some frame\<rparr>"
    by (auto simp: to_adu_Inr_iff)
  from dec_enc [OF assms(1) payload] unit code show ?thesis
    by (cases p) (simp add: from_adu_def split_adu_def frame p' attach_raw_def new_pdu_def)
qed

lemma from_adu_Inr_cases:
  assumes "from_adu dec adu mb = Inr p"
  obtains u f payload used where "adu = u # f # payload"
    and "dec (uint f) payload = Inr (body p, used)" and "unit_id p = uint u"
    and "raw_pdu p = Some used" and "raw_adu p = Some adu" and "mbap p = mb"
proof -
  from assms have "2 \<le> length adu"
    by (auto simp: from_adu_def split_adu_def bind_result_Inr_iff split: if_splits)
  then obtain u f payload where adu: "adu = u # f # payload"
    using length_ge_two_cases by blast
  with assms that show thesis
    by (auto simp: from_adu_def split_adu_def bind_result_Inr_iff attach_raw_def new_pdu_def)
qed

lemma forward_total:
  assumes "from_adu dec adu mb = Inr p" and "0 \<le> unit" and "unit < 256"
  shows "\<exists>frame p'. to_adu enc fc (with_unit p unit) = (Inr frame, p') \<and>
    2 \<le> length frame \<and> length frame \<le> length adu \<and>
    from_adu dec frame mb = Inr p' \<and> body p' = body p \<and> unit_id p' = unit"
proof -
  from assms(1) obtain u f payload used where adu: "adu = u # f # payload"
    and dec: "dec (uint f) payload = Inr (body p, used)" and mb: "mbap p = mb"
    by (rule from_adu_Inr_cases)
  have wf: "wf (body p)" and code: "fc (body p) = uint f" and can: "canon (body p) = body p"
    using dec_wf [OF _ _ dec] by simp_all
  obtain payload' where enc: "enc (body p) = Inr payload'"
    and len: "length payload' \<le> length payload"
    using enc_dec [OF _ _ dec] by auto
  define frame where "frame = word_of_int unit # f # payload'"
  define p' where "p' = (with_unit p unit)\<lparr>raw_pdu := Some payload', raw_adu := Some frame\<rparr>"
  have enc': "to_adu enc fc (with_unit p unit) = (Inr frame, p')"
    unfolding to_adu_Inr_iff
    by (simp add: with_unit_def enc assms code frame_def p'_def)
  have "from_adu dec frame mb = Inr (p'\<lparr>body := canon (body p), mbap := mb\<rparr>)"
    using from_adu_to_adu [OF _ enc'] wf by (simp add: with_unit_def)
  also have "p'\<lparr>body := canon (body p), mbap := mb\<rparr> = p'"
    using can mb by (cases p) (simp add: p'_def with_unit_def)
  finally show ?thesis
    using enc' len by (auto simp: adu frame_def p'_def with_unit_def)
qed

lemma forward_same_unit:
  assumes "from_adu dec adu mb = Inr p"
  shows "\<exists>frame p'. to_adu enc fc p = (Inr frame, p') \<and> 2 \<le> length frame \<and>
    length frame \<le> length adu \<and> from_adu dec frame mb = Inr p' \<and> body p' = body p \<and>
    unit_id p' = unit_id p"
proof -
  have "0 \<le> unit_id p \<and> unit_id p < 256"
    using from_adu_Inr_cases [OF assms] by (metis uint_byte_range)
  moreover have "with_unit p (unit_id p) = p"
    by (cases p) (simp add: with_unit_def)
  ultimately show ?thesis
    using forward_total [OF assms, of "unit_id p"] by simp
qed

end

section \<open>Lemmas about the encoders and decoders\<close>

lemma and_FFFF_eq_mod: "(v :: int) AND 0xFFFF = v mod 65536"
  using take_bit_eq_mask [of 16 v] by (simp add: take_bit_eq_mod mask_eq_exp_minus_1)

lemma and_7F_eq_mod: "(v :: int) AND 0x7F = v mod 128"
  using take_bit_eq_mask [of 7 v] by (simp add: take_bit_eq_mod mask_eq_exp_minus_1)

lemma struct_pack_H_mod [simp]: "struct_pack_H (v mod 65536) = Inr (be16 (v mod 65536))"
  by (simp add: struct_pack_H_Inr_iff)

lemma append_registers_eq:
  "append_registers payload vs = Inr (payload @ concat (map be16 (map (\<lambda>v. v mod 65536) vs)))"
  by (induction payload vs rule: append_registers.induct) (simp_all add: and_FFFF_eq_mod)

lemma two_words_from_payload_be16:
  assumes "0 \<le> x" "x < 65536" "0 \<le> y" "y < 65536"
  shows "two_words_from_payload cls msg (be16 x @ be16 y) = Inr (cls x y, be16 x @ be16 y)"
  using assms by (simp add: two_words_from_payload_def struct_unpack_HH_be16)

lemma struct_unpack_HH_take4_cases:
  assumes "struct_unpack_HH (take 4 payload) = Inr (x, y)"
  shows "0 \<le> x \<and> x < 65536 \<and> 0 \<le> y \<and> y < 65536 \<and> take 4 payload = be16 x @ be16 y \<and>
    4 \<le> length payload"
proof -
  from assms have len: "4 \<le> length payload"
    by (auto simp: struct_unpack_HH_def min_def split: if_splits)
  then obtain a b c d ys where "payload = a # b # c # d # ys"
    by (rule take_four_cases)
  with assms show ?thesis
    by (auto simp: u16_from_bytes_big_range be16_from_bytes)
qed

lemma two_words_from_payload_Inr:
  assumes "two_words_from_payload cls msg payload = Inr (b, used)"
  obtains x y where "b = cls x y" "0 \<le> x" "x < 65536" "0 \<le> y" "y < 65536" "4 \<le> length payload"
  using assms struct_unpack_HH_take4_cases [of payload]
  by (auto simp: two_words_from_payload_def bind_result_Inr_iff split: if_splits)

lemma unat_byte_le [simp]: "unat (b :: byte) \<le> 255"
  using uint_byte_le [of b] by (simp only: nat_uint_eq [symmetric] nat_le_iff)

lemma unat_word_of_int_length:
  assumes "n < 256"
  shows "unat (word_of_int (int n) :: byte) = n"
proof -
  have "uint (word_of_int (int n) :: byte) = int n"
    unfolding uint_word_of_int using assms by simp
  then show ?thesis by (simp only: nat_uint_eq [symmetric] nat_int)
qed

lemma map_mod_id: "(\<And>v. v \<in> set vs \<Longrightarrow> 0 \<le> v \<and> v < 65536) \<Longrightarrow> map (\<lambda>v. v mod 65536) vs = (vs :: int list)"
  by (simp add: map_idI)

subsection \<open>Write multiple coils\<close>

lemma encode_write_multiple_coils_Inr_iff:
  "encode_write_multiple_coils a bits = Inr payload \<longleftrightarrow>
     0 \<le> a \<and> a < 65536 \<and> length bits < 65536 \<and> (length bits + 7) div 8 < 256 \<and>
     payload = be16 a @ be16 (int (length bits))
       @ word_of_int (int ((length bits + 7) div 8)) # pack_coils bits"
  by (auto simp: encode_write_multiple_coils_def Let_def bind_result_Inr_iff
      struct_pack_HHB_Inr_iff)

text \<open>A five-byte header: two words and a count byte, then the data.\<close>

lemma counted_header:
  assumes "payload = be16 x @ be16 y @ k # data"
  shows "take 4 payload = be16 x @ be16 y" "payload ! 4 = k" "drop 5 payload = data"
    "length payload = 5 + length data"
  unfolding assms by (simp_all add: be16_def)

lemma dec_enc_write_multiple_coils:
  assumes "encode_write_multiple_coils a bits = Inr payload"
  shows "write_multiple_coils_from_payload payload = Inr (WriteMultipleCoilsRequest a bits, payload)"
proof -
  define k where "k = (word_of_int (int ((length bits + 7) div 8)) :: byte)"
  from assms have ranges: "0 \<le> a" "a < 65536" "length bits < 65536" "(length bits + 7) div 8 < 256"
    and payload: "payload = be16 a @ be16 (int (length bits)) @ k # pack_coils bits"
    unfolding encode_write_multiple_coils_Inr_iff k_def by blast+
  have k: "unat k = (length bits + 7) div 8"
    unfolding k_def using ranges(4) by (rule unat_word_of_int_length)
  have "struct_unpack_HH (be16 a @ be16 (int (length bits))) = Inr (a, int (length bits))"
    using ranges by (simp add: struct_unpack_HH_be16)
  then show ?thesis
    by (simp add: write_multiple_coils_from_payload_def counted_header [OF payload] k
        unpack_pack_coils Let_def)
qed

lemma write_multiple_coils_from_payload_Inr:
  assumes "write_multiple_coils_from_payload payload = Inr (b, used)"
  obtains a bits where "b = WriteMultipleCoilsRequest a bits" "0 \<le> a" "a < 65536"
    "length bits \<le> 8 * (length payload - 5)" "length bits \<le> 8 * 255" "5 \<le> length payload"
proof -
  from assms obtain a q where unp: "struct_unpack_HH (take 4 payload) = Inr (a, q)"
    and len: "5 \<le> length payload"
    and b: "b = WriteMultipleCoilsRequest a
      (unpack_coils (take (unat (payload ! 4)) (drop 5 payload)) q)"
    by (auto simp: write_multiple_coils_from_payload_def bind_result_Inr_iff Let_def
        split: if_splits)
  let ?bits = "unpack_coils (take (unat (payload ! 4)) (drop 5 payload)) q"
  have "length ?bits \<le> 8 * min (length payload - 5) (unat (payload ! 4))"
    by (simp add: min.commute)
  moreover have "unat (payload ! 4) \<le> 255" by simp
  ultimately have "length ?bits \<le> 8 * (length payload - 5)" "length ?bits \<le> 8 * 255"
    by linarith+
  with that [OF b] struct_unpack_HH_take4_cases [OF unp] len show thesis by blast
qed

subsection \<open>Write multiple registers\<close>

lemma encode_write_multiple_registers_Inr_iff:
  "encode_write_multiple_registers a vs = Inr payload \<longleftrightarrow>
     0 \<le> a \<and> a < 65536 \<and> 2 * length vs < 256 \<and>
     payload = be16 a @ be16 (int (length vs)) @ word_of_int (int (2 * length vs))
       # concat (map be16 (map (\<lambda>v. v mod 65536) vs))"
  by (auto simp: encode_write_multiple_registers_def Let_def bind_result_Inr_iff
      struct_pack_HHB_Inr_iff append_registers_eq mult.commute)

lemma dec_enc_write_multiple_registers:
  assumes "encode_write_multiple_registers a vs = Inr payload"
  shows "write_multiple_registers_from_payload payload =
    Inr (WriteMultipleRegistersRequest a (map (\<lambda>v. v mod 65536) vs), payload)"
proof -
  define ws where "ws = map (\<lambda>v. v mod 65536) vs"
  define k where "k = (word_of_int (int (2 * length vs)) :: byte)"
  from assms have ranges: "0 \<le> a" "a < 65536" "2 * length vs < 256"
    and payload: "payload = be16 a @ be16 (int (length vs)) @ k # concat (map be16 ws)"
    unfolding encode_write_multiple_registers_Inr_iff ws_def k_def by blast+
  have k: "unat k = 2 * length vs"
    unfolding k_def using ranges(3) by (rule unat_word_of_int_length)
  have len: "length (concat (map be16 ws)) = 2 * length vs"
    unfolding length_concat_be16 by (simp add: ws_def)
  have "unpack_words (concat (map be16 ws)) = ws"
    by (rule unpack_words_concat) (auto simp: ws_def)
  then have "struct_unpack_Hs (length vs) (concat (map be16 ws)) = Inr ws"
    by (simp add: struct_unpack_Hs_def len del: length_concat_be16)
  moreover have "struct_unpack_HH (be16 a @ be16 (int (length vs))) = Inr (a, int (length vs))"
    using ranges by (simp add: struct_unpack_HH_be16)
  moreover have "nat (int (length vs) * 2) = 2 * length vs" by simp
  ultimately show ?thesis
    by (simp add: write_multiple_registers_from_payload_def counted_header [OF payload] k len
        Let_def flip: ws_def del: length_concat_be16)
qed

lemma write_multiple_registers_from_payload_Inr:
  assumes "write_multiple_registers_from_payload payload = Inr (b, used)"
  obtains a vs where "b = WriteMultipleRegistersRequest a vs" "0 \<le> a" "a < 65536"
    "\<And>v. v \<in> set vs \<Longrightarrow> 0 \<le> v \<and> v < 65536"
    "2 * length vs < 256" "5 + 2 * length vs \<le> length payload"
proof -
  let ?data = "take (unat (payload ! 4)) (drop 5 payload)"
  from assms obtain a q where unp: "struct_unpack_HH (take 4 payload) = Inr (a, q)"
    and len: "5 \<le> length payload" and enough: "\<not> int (length ?data) < q * 2"
    and b: "b = WriteMultipleRegistersRequest a (unpack_words (take (nat (q * 2)) ?data))"
    and words: "length (take (nat (q * 2)) ?data) = 2 * nat q"
    by (auto simp: write_multiple_registers_from_payload_def bind_result_Inr_iff Let_def
        struct_unpack_Hs_def split: if_splits)
  let ?vs = "unpack_words (take (nat (q * 2)) ?data)"
  have "2 * length ?vs = length (take (nat (q * 2)) ?data)"
    unfolding length_unpack_words words by simp
  also have "\<dots> \<le> length ?data" by simp
  finally have n: "2 * length ?vs \<le> length ?data" .
  have "length ?data \<le> unat (payload ! 4)" by simp
  then have "length ?data \<le> 255" using unat_byte_le [of "payload ! 4"] by (rule order_trans)
  with n have "2 * length ?vs < 256" by linarith
  moreover have "length ?data \<le> length payload - 5" by simp
  with n len have "5 + 2 * length ?vs \<le> length payload" by linarith
  moreover have "0 \<le> a" "a < 65536"
    using struct_unpack_HH_take4_cases [OF unp] by blast+
  ultimately show thesis
    using that [OF b] unpack_words_range by blast
qed

subsection \<open>Read responses\<close>

lemma encode_bits_response_Inr_iff:
  "encode_bits_response values = Inr payload \<longleftrightarrow>
     length values < 256 \<and> payload = word_of_int (int (length values)) # values"
  by (auto simp: encode_bits_response_def bind_result_Inr_iff py_bytes_Inr_iff)

lemma dec_enc_bits:
  assumes "encode_bits_response values = Inr payload"
  shows "bits_from_payload cls payload = Inr (cls values, payload)"
proof -
  define k where "k = (word_of_int (int (length values)) :: byte)"
  from assms have n: "length values < 256" and payload: "payload = k # values"
    unfolding encode_bits_response_Inr_iff k_def by blast+
  from n have "unat k = length values"
    unfolding k_def by (rule unat_word_of_int_length)
  then show ?thesis by (simp add: bits_from_payload_def payload Let_def)
qed

lemma bits_from_payload_Inr:
  assumes "bits_from_payload cls payload = Inr (b, used)"
  obtains data where "b = cls data" "length data < 256" "Suc (length data) \<le> length payload"
proof -
  from assms have ne: "payload \<noteq> []"
    and b: "b = cls (take (unat (payload ! 0)) (drop 1 payload))"
    by (auto simp: bits_from_payload_def Let_def split: if_splits)
  let ?d = "take (unat (payload ! 0)) (drop 1 payload)"
  have "length ?d \<le> unat (payload ! 0)" by simp
  then have "length ?d \<le> 255" using unat_byte_le [of "payload ! 0"] by (rule order_trans)
  moreover have "Suc (length ?d) \<le> length payload" using ne by (cases payload) simp_all
  ultimately show thesis using that [OF b] by simp
qed

lemma encode_registers_response_Inr_iff:
  "encode_registers_response values = Inr payload \<longleftrightarrow>
     2 * length values < 256 \<and>
     payload = word_of_int (int (2 * length values))
       # concat (map be16 (map (\<lambda>v. v mod 65536) values))"
  by (auto simp: encode_registers_response_def bind_result_Inr_iff py_bytes_Inr_iff
      append_registers_eq mult.commute)

lemma dec_enc_registers:
  assumes "encode_registers_response values = Inr payload"
  shows "registers_from_payload cls payload =
    Inr (cls (map (\<lambda>v. v mod 65536) values), payload)"
proof -
  define ws where "ws = map (\<lambda>v. v mod 65536) values"
  define k where "k = (word_of_int (int (2 * length values)) :: byte)"
  from assms have n: "2 * length values < 256" and payload: "payload = k # concat (map be16 ws)"
    unfolding encode_registers_response_Inr_iff ws_def k_def by blast+
  have k: "unat k = 2 * length values"
    unfolding k_def using n by (rule unat_word_of_int_length)
  have len: "length (concat (map be16 ws)) = 2 * length values"
    unfolding length_concat_be16 by (simp add: ws_def)
  have "unpack_words (concat (map be16 ws)) = ws"
    by (rule unpack_words_concat) (auto simp: ws_def)
  then have "struct_unpack_Hs (length values) (concat (map be16 ws)) = Inr ws"
    by (simp add: struct_unpack_Hs_def len del: length_concat_be16)
  then show ?thesis
    by (simp add: registers_from_payload_def payload k len Let_def flip: ws_def
        del: length_concat_be16)
qed

lemma registers_from_payload_Inr:
  assumes "registers_from_payload cls payload = Inr (b, used)"
  obtains vs where "b = cls vs" "\<And>v. v \<in> set vs \<Longrightarrow> 0 \<le> v \<and> v < 65536"
    "2 * length vs < 256" "Suc (2 * length vs) \<le> length payload"
proof -
  let ?d = "take (unat (payload ! 0)) (drop 1 payload)"
  from assms have ne: "payload \<noteq> []" and b: "b = cls (unpack_words ?d)"
    by (auto simp: registers_from_payload_def struct_unpack_Hs_def bind_result_Inr_iff Let_def
        split: if_splits)
  have "length ?d \<le> unat (payload ! 0)" by simp
  then have "length ?d \<le> 255" using unat_byte_le [of "payload ! 0"] by (rule order_trans)
  moreover have "Suc (length ?d) \<le> length payload" using ne by (cases payload) simp_all
  moreover have "2 * length (unpack_words ?d) \<le> length ?d"
    by (simp only: length_unpack_words times_div_less_eq_dividend)
  ultimately show thesis using that [OF b] unpack_words_range by fastforce
qed

section \<open>Requests\<close>

text \<open>
  \<open>canon_request\<close> is the object a peer decodes: \<open>encode\<close> masks values to 16 bits and maps
  a bool coil to 0xFF00 or 0. A raw request is well-formed when no class is registered for
  its function code (otherwise the peer's registry picks that class).
\<close>

definition request_registry :: "int set" where
  "request_registry = {1, 2, 3, 4, 5, 6, 15, 16}"

fun wf_request :: "request_body \<Rightarrow> bool" where
  "wf_request (RawModbusRequest _ f) = (0 \<le> f \<and> f < 256 \<and> f \<notin> request_registry)"
| "wf_request _ = True"

fun canon_request :: "request_body \<Rightarrow> request_body" where
  "canon_request (WriteSingleCoilRequest a v) = WriteSingleCoilRequest a (IntValue (coil_encode_value v))"
| "canon_request (WriteSingleRegisterRequest a v) = WriteSingleRegisterRequest a (v mod 65536)"
| "canon_request (WriteMultipleRegistersRequest a vs) =
     WriteMultipleRegistersRequest a (map (\<lambda>v. v mod 65536) vs)"
| "canon_request b = b"

lemma coil_encode_value_range: "0 \<le> coil_encode_value v" "coil_encode_value v < 65536"
  by (cases v; simp add: and_FFFF_eq_mod)+

lemma request_dec_enc:
  assumes "wf_request b" and "encode_request b = Inr payload"
  shows "request_from_payload (request_function_code b) payload = Inr (canon_request b, payload)"
  using assms
  by (cases b)
    (auto simp: request_from_payload_def struct_pack_HH_Inr_iff two_words_from_payload_be16
      dec_enc_write_multiple_coils dec_enc_write_multiple_registers and_FFFF_eq_mod
      request_registry_def coil_encode_value_range)

text \<open>What a decoded body satisfies, and that it can be encoded again in no more bytes.\<close>

definition request_decoded :: "int \<Rightarrow> bytes \<Rightarrow> request_body \<Rightarrow> bool" where
  "request_decoded f payload b \<longleftrightarrow>
     wf_request b \<and> request_function_code b = f \<and> canon_request b = b \<and>
     (\<exists>payload'. encode_request b = Inr payload' \<and> length payload' \<le> length payload)"

lemma two_words_request_decoded:
  assumes "two_words_from_payload cls msg payload = Inr (b, used)"
    and "\<And>x y. 0 \<le> x \<Longrightarrow> x < 65536 \<Longrightarrow> 0 \<le> y \<Longrightarrow> y < 65536 \<Longrightarrow>
      wf_request (cls x y) \<and> request_function_code (cls x y) = f \<and>
      canon_request (cls x y) = cls x y \<and> encode_request (cls x y) = struct_pack_HH x y"
  shows "request_decoded f payload b"
proof -
  from assms(1) obtain x y where b: "b = cls x y"
    and r: "0 \<le> x" "x < 65536" "0 \<le> y" "y < 65536" and len: "4 \<le> length payload"
    by (rule two_words_from_payload_Inr)
  have "struct_pack_HH x y = Inr (be16 x @ be16 y)"
    using r by (simp add: struct_pack_HH_Inr_iff)
  with assms(2) [OF r] len show ?thesis by (simp add: request_decoded_def b)
qed

lemma write_multiple_coils_decoded:
  assumes "write_multiple_coils_from_payload payload = Inr (b, used)"
  shows "request_decoded 15 payload b"
proof -
  from assms obtain a bits where b: "b = WriteMultipleCoilsRequest a bits"
    and a: "0 \<le> a" "a < 65536" and n: "length bits \<le> 8 * (length payload - 5)"
    "length bits \<le> 8 * 255" "5 \<le> length payload"
    by (rule write_multiple_coils_from_payload_Inr) blast
  have "(length bits + 7) div 8 < 256" "5 + (length bits + 7) div 8 \<le> length payload"
    using n by linarith+
  then show ?thesis
    using encode_write_multiple_coils_Inr_iff [of a bits] a n
    by (auto simp: b request_decoded_def)
qed

lemma write_multiple_registers_decoded:
  assumes "write_multiple_registers_from_payload payload = Inr (b, used)"
  shows "request_decoded 16 payload b"
proof -
  from assms obtain a vs where b: "b = WriteMultipleRegistersRequest a vs" "0 \<le> a" "a < 65536"
    and vs: "\<And>v. v \<in> set vs \<Longrightarrow> 0 \<le> v \<and> v < 65536"
    and n: "2 * length vs < 256" "5 + 2 * length vs \<le> length payload"
    by (rule write_multiple_registers_from_payload_Inr) blast
  have "map (\<lambda>v. v mod 65536) vs = vs" using vs by (rule map_mod_id)
  then show ?thesis
    using encode_write_multiple_registers_Inr_iff [of a vs] b n
    by (auto simp: request_decoded_def simp del: map_map)
qed

lemma request_from_payload_decoded:
  assumes "0 \<le> f" "f < 256" "request_from_payload f payload = Inr (b, used)"
  shows "request_decoded f payload b"
proof (cases "f \<in> request_registry")
  case True
  from True have "f \<in> {1, 2, 3, 4, 5, 6, 15, 16}" by (simp add: request_registry_def)
  then show ?thesis
    using assms(3)
    by (elim insertE emptyE)
      (simp_all add: request_from_payload_def write_multiple_coils_decoded
        write_multiple_registers_decoded,
       (erule two_words_request_decoded, simp add: and_FFFF_eq_mod)+)
next
  case False
  with assms show ?thesis
    by (auto simp: request_from_payload_def request_decoded_def request_registry_def)
qed

interpretation req: pdu_codec encode_request request_function_code request_from_payload
  wf_request canon_request
proof unfold_locales
  show "wf_request b \<Longrightarrow> 0 \<le> request_function_code b \<and> request_function_code b < 256" for b
    by (cases b) simp_all
qed (use request_dec_enc request_from_payload_decoded in \<open>auto simp: request_decoded_def\<close>)

section \<open>Responses\<close>

text \<open>
  A raw response is well-formed when its code is neither registered nor an exception code
  (bit 7 set). An exception response's base code is read back without bit 7.
\<close>

fun wf_response :: "response_body \<Rightarrow> bool" where
  "wf_response (RawModbusResponse _ f) = (0 \<le> f \<and> f < 128 \<and> f \<notin> request_registry)"
| "wf_response (ModbusExceptionResponse base _) = (0 \<le> base \<and> base < 256)"
| "wf_response _ = True"

fun canon_response :: "response_body \<Rightarrow> response_body" where
  "canon_response (WriteSingleCoilResponse a v) = WriteSingleCoilResponse a (v mod 65536)"
| "canon_response (WriteSingleRegisterResponse a v) = WriteSingleRegisterResponse a (v mod 65536)"
| "canon_response (ReadHoldingRegistersResponse vs) =
     ReadHoldingRegistersResponse (map (\<lambda>v. v mod 65536) vs)"
| "canon_response (ReadInputRegistersResponse vs) =
     ReadInputRegistersResponse (map (\<lambda>v. v mod 65536) vs)"
| "canon_response (ModbusExceptionResponse base code) = ModbusExceptionResponse (base mod 128) code"
| "canon_response b = b"

lemma and_80_neq_0_iff: "(f :: int) AND 0x80 \<noteq> 0 \<longleftrightarrow> bit f 7"
  using and_exp_eq_0_iff_not_bit [of f 7] by simp

lemma bit_128_iff: "bit (128 :: int) i \<longleftrightarrow> i = 7"
proof -
  have "bit (2 ^ 7 :: int) i \<longleftrightarrow> i = 7" by (auto simp only: bit_exp_iff) simp
  then show ?thesis by simp
qed

lemma bit_or_80: "bit ((b :: int) OR 0x80) 7"
  unfolding bit_or_iff bit_128_iff by simp

lemma exception_code_split:
  assumes "0 \<le> (f :: int)" "f < 256" "bit f 7"
  shows "(f mod 128) OR 0x80 = f"
proof (rule bit_eqI)
  fix i
  have "f mod 128 = take_bit 7 f" by (simp add: take_bit_eq_mod)
  moreover have "f = take_bit 8 f" using assms by (simp add: take_bit_eq_mod)
  then have "bit f i \<Longrightarrow> i < 8" by (metis bit_take_bit_iff)
  then have "bit f i \<Longrightarrow> i < 7 \<or> i = 7" by linarith
  ultimately show "bit ((f mod 128) OR 0x80) i = bit f i"
    using assms(3) by (auto simp only: bit_or_iff bit_128_iff bit_take_bit_iff)
qed

lemma exception_code_range:
  assumes "0 \<le> (b :: int)" "b < 256"
  shows "0 \<le> b OR 0x80" "b OR 0x80 < 256"
  using assms OR_upper [of b 8 "0x80"] by simp_all

lemma exception_code_mod: "((b :: int) OR 0x80) mod 128 = b mod 128"
proof -
  have "take_bit 7 (b OR 0x80) = take_bit 7 b"
    by (rule bit_eqI) (auto simp only: bit_take_bit_iff bit_or_iff bit_128_iff)
  then show ?thesis by (simp add: take_bit_eq_mod)
qed

lemma small_code_no_bit_7:
  assumes "0 \<le> (f :: int)" "f < 128"
  shows "\<not> bit f 7"
proof -
  have "f = take_bit 7 f" using assms by (simp add: take_bit_eq_mod)
  then show ?thesis by (metis bit_take_bit_iff less_irrefl)
qed

lemma registered_no_bit_7: "f \<in> request_registry \<Longrightarrow> \<not> bit f 7"
  by (rule small_code_no_bit_7) (auto simp: request_registry_def)

lemma response_from_payload_plain:
  assumes "\<not> bit f 7"
  shows "response_from_payload f payload =
    (if f = 1 then bits_from_payload ReadCoilsResponse payload
     else if f = 2 then bits_from_payload ReadDiscreteInputsResponse payload
     else if f = 3 then registers_from_payload ReadHoldingRegistersResponse payload
     else if f = 4 then registers_from_payload ReadInputRegistersResponse payload
     else if f = 5 then two_words_from_payload WriteSingleCoilResponse
         ''Invalid write single coil response'' payload
     else if f = 6 then two_words_from_payload WriteSingleRegisterResponse
         ''Invalid write single register response'' payload
     else if f = 15 then two_words_from_payload WriteMultipleCoilsResponse
         ''Invalid write multiple coils response'' payload
     else if f = 16 then two_words_from_payload WriteMultipleRegistersResponse
         ''Invalid write multiple registers response'' payload
     else Inr (RawModbusResponse payload f, payload))"
  using assms unfolding response_from_payload_def and_80_neq_0_iff by (simp only: if_False)

lemma response_dec_enc:
  assumes "wf_response b" and "encode_response b = Inr payload"
  shows "response_from_payload (response_function_code b) payload = Inr (canon_response b, payload)"
proof (cases "is_exception b")
  case True
  then obtain base code where b: "b = ModbusExceptionResponse base code" by (cases b) simp_all
  from assms(2) have payload: "payload = [word_of_int code]" "0 \<le> code" "code < 256"
    by (auto simp: b py_bytes_Inr_iff)
  then show ?thesis
    unfolding response_from_payload_def b response_function_code.simps and_80_neq_0_iff
    by (simp add: bit_or_80 exception_from_payload_def and_7F_eq_mod exception_code_mod)
next
  case False
  then have nb: "\<not> bit (response_function_code b) 7"
    using assms(1) by (cases b) (simp_all add: small_code_no_bit_7)
  show ?thesis
    unfolding response_from_payload_plain [OF nb]
    using assms False
    by (cases b)
      (auto simp: struct_pack_HH_Inr_iff two_words_from_payload_be16 dec_enc_bits
        dec_enc_registers and_FFFF_eq_mod request_registry_def)
qed

definition response_decoded :: "int \<Rightarrow> bytes \<Rightarrow> response_body \<Rightarrow> bool" where
  "response_decoded f payload b \<longleftrightarrow>
     wf_response b \<and> response_function_code b = f \<and> canon_response b = b \<and>
     (\<exists>payload'. encode_response b = Inr payload' \<and> length payload' \<le> length payload)"

lemma two_words_response_decoded:
  assumes "two_words_from_payload cls msg payload = Inr (b, used)"
    and "\<And>x y. 0 \<le> x \<Longrightarrow> x < 65536 \<Longrightarrow> 0 \<le> y \<Longrightarrow> y < 65536 \<Longrightarrow>
      wf_response (cls x y) \<and> response_function_code (cls x y) = f \<and>
      canon_response (cls x y) = cls x y \<and> encode_response (cls x y) = struct_pack_HH x y"
  shows "response_decoded f payload b"
proof -
  from assms(1) obtain x y where b: "b = cls x y"
    and r: "0 \<le> x" "x < 65536" "0 \<le> y" "y < 65536" and len: "4 \<le> length payload"
    by (rule two_words_from_payload_Inr)
  have "struct_pack_HH x y = Inr (be16 x @ be16 y)"
    using r by (simp add: struct_pack_HH_Inr_iff)
  with assms(2) [OF r] len show ?thesis by (simp add: response_decoded_def b)
qed

lemma bits_response_decoded:
  assumes "bits_from_payload cls payload = Inr (b, used)"
    and "\<And>data. wf_response (cls data) \<and> response_function_code (cls data) = f \<and>
      canon_response (cls data) = cls data \<and>
      encode_response (cls data) = encode_bits_response data"
  shows "response_decoded f payload b"
proof -
  from assms(1) obtain data where b: "b = cls data" "length data < 256"
    "Suc (length data) \<le> length payload"
    by (rule bits_from_payload_Inr)
  with assms(2) [of data] show ?thesis
    using encode_bits_response_Inr_iff [of data] by (auto simp: response_decoded_def)
qed

lemma registers_response_decoded:
  assumes "registers_from_payload cls payload = Inr (b, used)"
    and "\<And>vs. wf_response (cls vs) \<and> response_function_code (cls vs) = f \<and>
      canon_response (cls vs) = cls (map (\<lambda>v. v mod 65536) vs) \<and>
      encode_response (cls vs) = encode_registers_response vs"
  shows "response_decoded f payload b"
proof -
  from assms(1) obtain vs where b: "b = cls vs" and vs: "\<And>v. v \<in> set vs \<Longrightarrow> 0 \<le> v \<and> v < 65536"
    and n: "2 * length vs < 256" "Suc (2 * length vs) \<le> length payload"
    by (rule registers_from_payload_Inr) blast
  have "map (\<lambda>v. v mod 65536) vs = vs" using vs by (rule map_mod_id)
  with assms(2) [of vs] show ?thesis
    using encode_registers_response_Inr_iff [of vs] b n
    by (auto simp: response_decoded_def simp del: map_map)
qed

lemma response_from_payload_decoded:
  assumes f: "0 \<le> f" "f < 256" and dec: "response_from_payload f payload = Inr (b, used)"
  shows "response_decoded f payload b"
proof (cases "bit f 7")
  case True
  then have "f AND 0x80 \<noteq> 0" by (simp only: and_80_neq_0_iff)
  with dec have "payload \<noteq> []" and b: "b = ModbusExceptionResponse (f mod 128) (uint (payload ! 0))"
    by (auto simp: response_from_payload_def exception_from_payload_def and_7F_eq_mod
        split: if_splits)
  then have "Suc 0 \<le> length payload" by (cases payload) simp_all
  with f exception_code_split [OF f True] show ?thesis
    by (simp add: b response_decoded_def py_bytes_def)
next
  case nb: False
  note dec' = dec [unfolded response_from_payload_plain [OF nb]]
  show ?thesis
  proof (cases "f \<in> request_registry")
    case True
    then have "f \<in> {1, 2, 3, 4, 5, 6, 15, 16}" by (simp add: request_registry_def)
    then show ?thesis
      using dec'
      by (elim insertE emptyE)
        (simp_all, (erule bits_response_decoded registers_response_decoded
          two_words_response_decoded, simp add: and_FFFF_eq_mod)+)
  next
    case False
    have "f < 128"
    proof (rule ccontr)
      assume "\<not> f < 128"
      then have "f div 2 ^ 7 = 1" using f by simp
      then have "bit f 7" by (simp add: bit_iff_odd)
      with nb show False by blast
    qed
    with False f dec' show ?thesis
      by (auto simp: response_decoded_def request_registry_def)
  qed
qed

interpretation resp: pdu_codec encode_response response_function_code response_from_payload
  wf_response canon_response
proof unfold_locales
  show "wf_response b \<Longrightarrow> 0 \<le> response_function_code b \<and> response_function_code b < 256" for b
    by (cases b) (simp_all add: exception_code_range)
qed (use response_dec_enc response_from_payload_decoded in \<open>auto simp: response_decoded_def\<close>)


section \<open>Decoding errors\<close>

text \<open>
  Every length the decoders hand to \<open>struct.unpack\<close> fits, so the only exception that leaves
  them is the \<open>ValueError\<close> they raise themselves.
\<close>

definition only_value_error :: "'a result \<Rightarrow> bool" where
  "only_value_error r \<longleftrightarrow> (\<forall>e. r = Inl e \<longrightarrow> (\<exists>m. e = ValueError m))"

lemma only_value_error_simps [simp]:
  "only_value_error (Inr x)"
  "only_value_error (Inl (ValueError m))"
  by (simp_all add: only_value_error_def)

lemma only_value_error_bind:
  "only_value_error r \<Longrightarrow> (\<And>x. r = Inr x \<Longrightarrow> only_value_error (f x)) \<Longrightarrow>
     only_value_error (bind_result r f)"
  by (cases r) (simp_all add: only_value_error_def)

lemma struct_unpack_HH_take4:
  "4 \<le> length payload \<Longrightarrow> \<exists>x y. struct_unpack_HH (take 4 payload) = Inr (x, y)"
  by (erule take_four_cases) simp

lemma two_words_only_value_error [simp]: "only_value_error (two_words_from_payload cls msg payload)"
  using struct_unpack_HH_take4 [of payload] by (auto simp: two_words_from_payload_def)

lemma write_multiple_coils_only_value_error [simp]:
  "only_value_error (write_multiple_coils_from_payload payload)"
  using struct_unpack_HH_take4 [of payload]
  by (auto simp: write_multiple_coils_from_payload_def Let_def)

lemma write_multiple_registers_only_value_error [simp]:
  "only_value_error (write_multiple_registers_from_payload payload)"
proof (cases "length payload < 5")
  case False
  then obtain a q where aq: "struct_unpack_HH (take 4 payload) = Inr (a, q)"
    using struct_unpack_HH_take4 [of payload] by auto
  then have "0 \<le> q" using struct_unpack_HH_take4_cases by blast
  then show ?thesis
    using False aq
    by (auto simp: write_multiple_registers_from_payload_def Let_def struct_unpack_Hs_def)
qed (simp add: write_multiple_registers_from_payload_def)

lemma bits_only_value_error [simp]: "only_value_error (bits_from_payload cls payload)"
  by (simp add: bits_from_payload_def Let_def)

lemma registers_only_value_error [simp]: "only_value_error (registers_from_payload cls payload)"
  by (auto simp: registers_from_payload_def Let_def struct_unpack_Hs_def)

lemma from_adu_only_value_error:
  assumes "\<And>f payload. only_value_error (dec f payload)"
  shows "only_value_error (from_adu dec adu mb)"
  using assms
  by (auto simp: from_adu_def split_adu_def intro!: only_value_error_bind split: if_splits)

lemma request_only_value_error: "only_value_error (request_from_adu adu mb)"
  unfolding request_from_adu_def
  by (rule from_adu_only_value_error) (simp add: request_from_payload_def)

lemma response_only_value_error: "only_value_error (response_from_adu adu mb)"
  unfolding response_from_adu_def
  by (rule from_adu_only_value_error)
    (simp add: response_from_payload_def exception_from_payload_def)


text \<open>The frames a request is decoded from.\<close>

definition request_acceptable :: "bytes \<Rightarrow> bool" where
  "request_acceptable adu \<longleftrightarrow> 2 \<le> length adu \<and>
     (let f = uint (adu ! 1) in
      (f \<in> {1, 2, 3, 4, 5, 6} \<longrightarrow> 6 \<le> length adu) \<and>
      (f \<in> {15, 16} \<longrightarrow> 7 \<le> length adu) \<and>
      (f = 16 \<longrightarrow> 2 * from_bytes_big [adu ! 4, adu ! 5] \<le> int (min (unat (adu ! 6)) (length adu - 7))))"

lemma ex_Inr_iff: "(\<exists>x. r = Inr x) \<longleftrightarrow> \<not> isl r"
  by (cases r) simp_all

lemma two_words_isl: "isl (two_words_from_payload cls msg payload) \<longleftrightarrow> length payload < 4"
  using struct_unpack_HH_take4 [of payload] by (auto simp: two_words_from_payload_def)

lemma coils_isl: "isl (write_multiple_coils_from_payload payload) \<longleftrightarrow> length payload < 5"
  using struct_unpack_HH_take4 [of payload]
  by (auto simp: write_multiple_coils_from_payload_def Let_def)

lemma registers_isl:
  "isl (write_multiple_registers_from_payload (a # b # c # d # n # rest)) \<longleftrightarrow>
     int (min (unat n) (length rest)) < 2 * from_bytes_big [c, d]"
proof -
  have "0 \<le> from_bytes_big [c, d]" by simp
  moreover define q where "q = from_bytes_big [c, d]"
  ultimately have "0 \<le> q" by simp
  moreover have "struct_unpack_HH [a, b, c, d] = Inr (from_bytes_big [a, b], q)"
    by (simp add: q_def)
  ultimately show ?thesis
    unfolding q_def [symmetric]
    by (auto simp: write_multiple_registers_from_payload_def Let_def struct_unpack_Hs_def min.commute)
qed

lemma from_adu_isl:
  "isl (from_adu dec (u # f # payload) mb) \<longleftrightarrow> isl (dec (uint f) payload)"
  by (cases "dec (uint f) payload") (auto simp: from_adu_def split_adu_def)

lemma request_from_adu_acceptable: "isl (request_from_adu adu mb) \<longleftrightarrow> \<not> request_acceptable adu"
proof (cases "2 \<le> length adu")
  case True
  then obtain u f payload where adu: "adu = u # f # payload"
    using length_ge_two_cases by blast
  show ?thesis
  proof (cases "uint f = 16")
    case False
    then show ?thesis
      unfolding adu request_from_adu_def from_adu_isl
      by (auto simp: request_acceptable_def request_from_payload_def two_words_isl coils_isl Let_def)
  next
    case True
    show ?thesis
    proof (cases "length payload < 5")
      case True
      with \<open>uint f = 16\<close> show ?thesis
        unfolding adu request_from_adu_def from_adu_isl
        by (auto simp: request_acceptable_def request_from_payload_def
            write_multiple_registers_from_payload_def Let_def)
    next
      case False
      then have "4 \<le> length payload" by simp
      then obtain a b c d ys where "payload = a # b # c # d # ys" by (rule take_four_cases)
      with False obtain n rest where p: "payload = a # b # c # d # n # rest"
        by (cases ys) auto
      from \<open>uint f = 16\<close> show ?thesis
        unfolding adu request_from_adu_def from_adu_isl p
        by (auto simp: request_acceptable_def request_from_payload_def registers_isl Let_def)
    qed
  qed
next
  case False
  then show ?thesis
    by (simp add: request_acceptable_def request_from_adu_def from_adu_def split_adu_def)
qed

lemma response_from_adu_length: "response_from_adu adu mb = Inr p \<Longrightarrow> 2 \<le> length adu"
  by (simp add: response_from_adu_def from_adu_def split_adu_def split: if_splits)

lemma unpack_coils_saturates:
  assumes "8 * int (length data) \<le> q"
  shows "unpack_coils data q = unpack_coils data (8 * int (length data))"
  using assms by (intro nth_equalityI) (auto simp: nth_unpack_coils)

section \<open>Types of decoded values\<close>

abbreviation u16 :: "int \<Rightarrow> bool" where
  "u16 v \<equiv> 0 \<le> v \<and> v < 65536"

fun typed_request :: "request_body \<Rightarrow> bool" where
  "typed_request (ReadCoilsRequest a q) = (u16 a \<and> u16 q)"
| "typed_request (ReadDiscreteInputsRequest a q) = (u16 a \<and> u16 q)"
| "typed_request (ReadHoldingRegistersRequest a q) = (u16 a \<and> u16 q)"
| "typed_request (ReadInputRegistersRequest a q) = (u16 a \<and> u16 q)"
| "typed_request (WriteSingleCoilRequest a v) = (u16 a \<and> (\<exists>k. v = IntValue k \<and> u16 k))"
| "typed_request (WriteSingleRegisterRequest a v) = (u16 a \<and> u16 v)"
| "typed_request (WriteMultipleCoilsRequest a bits) = (u16 a \<and> length bits \<le> 2040)"
| "typed_request (WriteMultipleRegistersRequest a vs) = (u16 a \<and> length vs \<le> 127 \<and> (\<forall>v \<in> set vs. u16 v))"
| "typed_request (RawModbusRequest payload f) = (0 \<le> f \<and> f < 256 \<and> f \<notin> request_registry)"

fun typed_response :: "response_body \<Rightarrow> bool" where
  "typed_response (ReadCoilsResponse vs) = (length vs \<le> 255)"
| "typed_response (ReadDiscreteInputsResponse vs) = (length vs \<le> 255)"
| "typed_response (ReadHoldingRegistersResponse vs) = (length vs \<le> 127 \<and> (\<forall>v \<in> set vs. u16 v))"
| "typed_response (ReadInputRegistersResponse vs) = (length vs \<le> 127 \<and> (\<forall>v \<in> set vs. u16 v))"
| "typed_response (WriteSingleCoilResponse a v) = (u16 a \<and> u16 v)"
| "typed_response (WriteSingleRegisterResponse a v) = (u16 a \<and> u16 v)"
| "typed_response (WriteMultipleCoilsResponse a q) = (u16 a \<and> u16 q)"
| "typed_response (WriteMultipleRegistersResponse a q) = (u16 a \<and> u16 q)"
| "typed_response (ModbusExceptionResponse base code) = (0 \<le> base \<and> base < 128 \<and> 0 \<le> code \<and> code < 256)"
| "typed_response (RawModbusResponse payload f) = (0 \<le> f \<and> f < 128 \<and> f \<notin> request_registry)"

lemma two_words_typed:
  assumes "two_words_from_payload cls msg payload = Inr (b, used)"
    and "\<And>x y. u16 x \<Longrightarrow> u16 y \<Longrightarrow> typed (cls x y)"
  shows "typed b"
  by (rule two_words_from_payload_Inr [OF assms(1)]) (use assms(2) in simp)

lemma registers_typed:
  assumes "registers_from_payload cls payload = Inr (b, used)"
    and "\<And>vs. length vs \<le> 127 \<Longrightarrow> \<forall>v \<in> set vs. u16 v \<Longrightarrow> typed (cls vs)"
  shows "typed b"
  by (rule registers_from_payload_Inr [OF assms(1)]) (use assms(2) in auto)

lemma bits_typed:
  assumes "bits_from_payload cls payload = Inr (b, used)"
    and "\<And>data. length data \<le> 255 \<Longrightarrow> typed (cls data)"
  shows "typed b"
  by (rule bits_from_payload_Inr [OF assms(1)]) (use assms(2) in auto)

lemma request_from_payload_typed:
  assumes "request_from_payload f payload = Inr (b, used)" "0 \<le> f" "f < 256"
  shows "typed_request b"
proof (cases "f \<in> request_registry")
  case True
  then have "f \<in> {1, 2, 3, 4, 5, 6, 15, 16}" by (simp add: request_registry_def)
  then consider "f \<in> {1, 2, 3, 4, 5, 6}" | "f = 15" | "f = 16" by auto
  then show ?thesis
  proof cases
    case 1
    then show ?thesis using assms(1)
      by (elim insertE emptyE)
        (simp_all add: request_from_payload_def, (erule two_words_typed, simp)+)
  next
    case 2
    with assms(1) have "write_multiple_coils_from_payload payload = Inr (b, used)"
      by (simp add: request_from_payload_def)
    then show ?thesis by (rule write_multiple_coils_from_payload_Inr) auto
  next
    case 3
    with assms(1) have "write_multiple_registers_from_payload payload = Inr (b, used)"
      by (simp add: request_from_payload_def)
    then show ?thesis by (rule write_multiple_registers_from_payload_Inr) auto
  qed
next
  case False
  with assms show ?thesis by (auto simp: request_from_payload_def request_registry_def)
qed

lemma response_from_payload_typed:
  assumes "response_from_payload f payload = Inr (b, used)" "0 \<le> f" "f < 256"
  shows "typed_response b"
proof (cases "bit f 7")
  case True
  then have "f AND 0x80 \<noteq> 0" by (simp only: and_80_neq_0_iff)
  with assms(1) have "b = ModbusExceptionResponse (f mod 128) (uint (payload ! 0))"
    by (auto simp: response_from_payload_def exception_from_payload_def and_7F_eq_mod split: if_splits)
  then show ?thesis by simp
next
  case False
  note plain = assms(1) [unfolded response_from_payload_plain [OF False]]
  have f: "f < 128"
  proof (rule ccontr)
    assume "\<not> f < 128"
    then have "f div 128 = 1" using assms(3) by linarith
    then have "bit f 7" by (simp add: bit_iff_odd)
    with False show False by simp
  qed
  consider "f \<in> {1, 2}" | "f \<in> {3, 4}" | "f \<in> {5, 6, 15, 16}" | "f \<notin> request_registry"
    by (auto simp: request_registry_def)
  then show ?thesis
  proof cases
    case 1
    then show ?thesis using plain by (elim insertE emptyE) (simp_all, (erule bits_typed, simp)+)
  next
    case 2
    then show ?thesis using plain by (elim insertE emptyE) (simp_all, (erule registers_typed, simp)+)
  next
    case 3
    then show ?thesis using plain by (elim insertE emptyE) (simp_all, (erule two_words_typed, simp)+)
  next
    case 4
    with plain have "b = RawModbusResponse payload f" by (auto simp: request_registry_def split: if_splits)
    with 4 assms(2) f show ?thesis by simp
  qed
qed

lemma decoded_request_typed:
  assumes "request_from_adu adu mb = Inr p"
  shows "typed_request (body p) \<and> 0 \<le> unit_id p \<and> unit_id p < 256 \<and> raw_adu p = Some adu"
  by (rule req.from_adu_Inr_cases [OF assms [unfolded request_from_adu_def]])
    (use request_from_payload_typed in auto)

lemma decoded_response_typed:
  assumes "response_from_adu adu mb = Inr p"
  shows "typed_response (body p) \<and> 0 \<le> unit_id p \<and> unit_id p < 256 \<and> raw_adu p = Some adu"
  by (rule resp.from_adu_Inr_cases [OF assms [unfolded response_from_adu_def]])
    (use response_from_payload_typed in auto)

section \<open>Properties\<close>

text \<open>C10. Encoding a well-formed request and decoding the frame gives the request back: the
  body in canonical form, the unit unchanged, the attached raw bytes those of the frame.\<close>

theorem request_roundtrip:
  assumes "wf_request (body p)" and "request_to_adu p = (Inr frame, p')"
  shows "request_from_adu frame mb = Inr (p'\<lparr>body := canon_request (body p), mbap := mb\<rparr>)"
  using req.from_adu_to_adu [OF assms(1)] assms(2)
  by (simp add: request_to_adu_def request_from_adu_def)

theorem request_roundtrip_witness:
  "request_from_adu [17, 6, 0, 2, 0x11, 0x70] None =
     Inr ((snd (request_to_adu (new_pdu 17 (WriteSingleRegisterRequest 2 70000))))
       \<lparr>body := WriteSingleRegisterRequest 2 4464, mbap := None\<rparr>)"
proof -
  let ?p = "new_pdu 17 (WriteSingleRegisterRequest 2 70000)"
  have "request_to_adu ?p = (Inr [17, 6, 0, 2, 0x11, 0x70], snd (request_to_adu ?p))"
    by code_simp
  from request_roundtrip [OF _ this, of None] show ?thesis
    by (simp add: new_pdu_def)
qed

text \<open>C11. The same for responses; an exception response comes back with the base function
  code without its top bit.\<close>

theorem response_roundtrip:
  assumes "wf_response (body p)" and "response_to_adu p = (Inr frame, p')"
  shows "response_from_adu frame mb = Inr (p'\<lparr>body := canon_response (body p), mbap := mb\<rparr>)"
  using resp.from_adu_to_adu [OF assms(1)] assms(2)
  by (simp add: response_to_adu_def response_from_adu_def)

theorem response_roundtrip_witness:
  "response_from_adu [9, 0x83, 2] None =
     Inr ((snd (response_to_adu (new_pdu 9 (ModbusExceptionResponse 3 2))))
       \<lparr>body := ModbusExceptionResponse 3 2, mbap := None\<rparr>)"
proof -
  let ?p = "new_pdu 9 (ModbusExceptionResponse 3 2)"
  have "response_to_adu ?p = (Inr [9, 0x83, 2], snd (response_to_adu ?p))"
    by code_simp
  from response_roundtrip [OF _ this, of None] show ?thesis
    by (simp add: new_pdu_def)
qed

text \<open>C8. What a frontend decodes, a backend can encode: a request that was decoded from a
  frame encodes again for any unit of a byte, into a frame no longer than the one received,
  and a device decodes that frame to the same request, addressed to the new unit.\<close>

theorem request_forwarding:
  assumes "request_from_adu adu mb = Inr p" and "0 \<le> unit" and "unit < 256"
  shows "\<exists>frame p'. request_to_adu (with_unit p unit) = (Inr frame, p') \<and>
    2 \<le> length frame \<and> length frame \<le> length adu \<and>
    request_from_adu frame mb = Inr p' \<and> body p' = body p \<and> unit_id p' = unit"
  using req.forward_total [OF _ assms(2,3)] assms(1)
  by (simp add: request_to_adu_def request_from_adu_def)

theorem request_forwarding_witness:
  "\<exists>p frame p'. request_from_adu [1, 3, 0, 0x10, 0, 2, 0xAA] None = Inr p \<and>
     request_to_adu (with_unit p 7) = (Inr frame, p') \<and> length frame \<le> 7 \<and>
     body p' = ReadHoldingRegistersRequest 16 2"
proof -
  have "map_option body (case request_from_adu [1, 3, 0, 0x10, 0, 2, 0xAA] None of
        Inr p \<Rightarrow> Some p | Inl e \<Rightarrow> None) = Some (ReadHoldingRegistersRequest 16 2)"
    by code_simp
  then obtain p where p: "request_from_adu [1, 3, 0, 0x10, 0, 2, 0xAA] None = Inr p"
    "body p = ReadHoldingRegistersRequest 16 2"
    by (auto split: sum.splits)
  from request_forwarding [OF p(1), of 7] p show ?thesis by auto
qed

text \<open>C9. Responses forward the same way: the frame a frontend writes back for a decoded
  response is no longer than the device's and carries the same response.\<close>

theorem response_forwarding:
  assumes "response_from_adu adu mb = Inr p" and "0 \<le> unit" and "unit < 256"
  shows "\<exists>frame p'. response_to_adu (with_unit p unit) = (Inr frame, p') \<and>
    2 \<le> length frame \<and> length frame \<le> length adu \<and>
    response_from_adu frame mb = Inr p' \<and> body p' = body p \<and> unit_id p' = unit"
  using resp.forward_total [OF _ assms(2,3)] assms(1)
  by (simp add: response_to_adu_def response_from_adu_def)

theorem response_forwarding_witness:
  "\<exists>p frame p'. response_from_adu [1, 3, 2, 0x12, 0x34] None = Inr p \<and>
     response_to_adu (with_unit p 7) = (Inr frame, p') \<and> length frame \<le> 5 \<and>
     body p' = ReadHoldingRegistersResponse [0x1234]"
proof -
  have "map_option body (case response_from_adu [1, 3, 2, 0x12, 0x34] None of
        Inr p \<Rightarrow> Some p | Inl e \<Rightarrow> None) = Some (ReadHoldingRegistersResponse [0x1234])"
    by code_simp
  then obtain p where p: "response_from_adu [1, 3, 2, 0x12, 0x34] None = Inr p"
    "body p = ReadHoldingRegistersResponse [0x1234]"
    by (auto split: sum.splits)
  from response_forwarding [OF p(1), of 7] p show ?thesis by auto
qed

text \<open>C12. Which frames a request is decoded from: at least two bytes and, for a registered
  function code, its fixed fields, plus (writes of several registers) all the registers its
  quantity promises. Any other frame is refused with a \<open>ValueError\<close>, the only exception that
  decoding a request or a response raises; \<open>struct.error\<close> never escapes.\<close>

theorem decoding_refuses_only_with_value_error:
  "(case request_from_adu adu mb of
      Inr p \<Rightarrow> request_acceptable adu
    | Inl e \<Rightarrow> \<not> request_acceptable adu \<and> (\<exists>m. e = ValueError m)) \<and>
   (case response_from_adu adu mb of Inr p \<Rightarrow> 2 \<le> length adu | Inl e \<Rightarrow> (\<exists>m. e = ValueError m))"
  using request_only_value_error [of adu mb] response_only_value_error [of adu mb]
    request_from_adu_acceptable [of adu mb] response_from_adu_length [of adu mb]
  by (auto simp: only_value_error_def split: sum.splits)

text \<open>A write of several coils whose data is shorter than its quantity is not refused, in
  contrast to the write of several registers: it decodes to a write of the coils that are
  there, and the frame sent on carries their number as its quantity.\<close>

theorem truncated_coil_write_is_shortened:
  fixes q :: nat
  assumes "length data \<le> unat n" and "8 * length data < q" and "q < 65536"
    and "0 \<le> a" and "a < 65536"
  shows "request_from_payload 15 (be16 a @ be16 (int q) @ n # data) =
      Inr (WriteMultipleCoilsRequest a (unpack_coils data (8 * int (length data))),
        be16 a @ be16 (int q) @ n # data) \<and>
    encode_request (WriteMultipleCoilsRequest a (unpack_coils data (8 * int (length data)))) =
      Inr (be16 a @ be16 (8 * int (length data)) @ word_of_int (int (length data)) # data) \<and>
    request_from_payload 16 (be16 a @ be16 (int q) @ n # data) =
      Inl (ValueError ''Write multiple registers payload truncated'')"
proof -
  define payload where "payload = be16 a @ be16 (int q) @ n # data"
  note h = counted_header [OF payload_def]
  have unp: "struct_unpack_HH (take 4 payload) = Inr (a, int q)"
    using assms by (simp add: h struct_unpack_HH_be16)
  have "take (5 + unat n) payload = payload" using assms(1) by (simp add: h)
  then have coils: "request_from_payload 15 payload =
      Inr (WriteMultipleCoilsRequest a (unpack_coils data (8 * int (length data))), payload)"
    using assms(1,2) unp
    by (simp add: request_from_payload_def write_multiple_coils_from_payload_def h Let_def
        unpack_coils_saturates [of data "int q"])
  have regs: "request_from_payload 16 payload =
      Inl (ValueError ''Write multiple registers payload truncated'')"
    using assms(1,2) unp
    by (simp add: request_from_payload_def write_multiple_registers_from_payload_def h Let_def)
  have len: "length (unpack_coils data (8 * int (length data))) = 8 * length data"
    by (simp add: nat_mult_distrib)
  have "length data \<le> 255" using assms(1) unat_byte_le [of n] by linarith
  with assms(2-) len have "encode_write_multiple_coils a (unpack_coils data (8 * int (length data))) =
      Inr (be16 a @ be16 (8 * int (length data)) @ word_of_int (int (length data)) # data)"
    unfolding encode_write_multiple_coils_Inr_iff len pack_unpack_coils by simp
  with coils regs show ?thesis by (simp add: payload_def)
qed

theorem truncated_coil_write_is_shortened_witness:
  "request_from_payload 15 ([0, 4] @ [0, 16] @ [2, 0xCD]) =
     Inr (WriteMultipleCoilsRequest 4 [True, False, True, True, False, False, True, True],
       [0, 4, 0, 16, 2, 0xCD])"
proof -
  have "be16 4 = [0, 4]" "be16 16 = [0, 16]"
    "unpack_coils [0xCD] (8 * int (length [0xCD])) = [True, False, True, True, False, False, True, True]"
    by code_simp+
  then show ?thesis
    using truncated_coil_write_is_shortened [of "[0xCD]" 2 16 4] by simp
qed

text \<open>C37. Decoding yields values of the declared types only: addresses, quantities, values and registers
  of 16 bits, at most 127 registers and 2040 coils, exception and function codes in range, a unit of
  one byte, and a raw object only for a code without a class. Whatever follows the decoder (router,
  backends, the client's methods) works on such objects.\<close>

theorem decoded_pdus_are_typed:
  "(\<forall>p. request_from_adu adu mb = Inr p \<longrightarrow>
      typed_request (body p) \<and> 0 \<le> unit_id p \<and> unit_id p < 256 \<and> raw_adu p = Some adu) \<and>
   (\<forall>p. response_from_adu adu mb = Inr p \<longrightarrow>
      typed_response (body p) \<and> 0 \<le> unit_id p \<and> unit_id p < 256 \<and> raw_adu p = Some adu)"
  using decoded_request_typed decoded_response_typed by blast

theorem decoded_pdus_are_typed_witness:
  "\<exists>p. response_from_adu [1, 3, 2, 0xFF, 0xFE, 9] None = Inr p \<and> typed_response (body p) \<and>
     body p = ReadHoldingRegistersResponse [65534]"
proof -
  have "(case response_from_adu [1, 3, 2, 0xFF, 0xFE, 9] None of
      Inr p \<Rightarrow> body p = ReadHoldingRegistersResponse [65534] | Inl e \<Rightarrow> False)" by code_simp
  then obtain p where p: "response_from_adu [1, 3, 2, 0xFF, 0xFE, 9] None = Inr p"
    "body p = ReadHoldingRegistersResponse [65534]" by (auto split: sum.splits)
  with decoded_pdus_are_typed [of "[1, 3, 2, 0xFF, 0xFE, 9]" None] show ?thesis by blast
qed

end
