(* ===== verification/Codecs.thy ===== *)
theory Codecs
  imports Crc Pdu_Codec
begin

text \<open>
  Framing. The client's \<open>modbusgw_client/codecs.py\<close> (RTU frames with their checksum,
  Modbus/TCP frames with the MBAP header), the checksum test of the gateway's serial
  session, and the two generators of transaction identifiers: the backend's
  \<open>_next_transaction_id\<close> and the client's.
\<close>

section \<open>RTU frames\<close>

text \<open>The slices \<open>frame[:-2]\<close> and \<open>frame[-2:]\<close>.\<close>

definition all_but_two :: "bytes \<Rightarrow> bytes" where
  "all_but_two frame = take (length frame - 2) frame"

definition last_two :: "bytes \<Rightarrow> bytes" where
  "last_two frame = drop (length frame - 2) frame"

definition build_rtu_frame :: "bytes \<Rightarrow> bytes result" where
  "build_rtu_frame adu =
     (let crc = client_crc16_modbus adu in
      bind_result (to_bytes_2 le16 crc) (\<lambda>crc_bytes. Inr (adu @ crc_bytes)))"

definition strip_rtu_frame :: "bytes \<Rightarrow> bytes result" where
  "strip_rtu_frame frame =
     (if length frame < 4 then Inl (ValueError ''RTU frame too short'')
      else let bdy = all_but_two frame; crc_bytes = last_two frame;
               crc_expected = from_bytes_little crc_bytes
           in if crc_expected \<noteq> client_crc16_modbus bdy then Inl (ValueError ''RTU CRC mismatch'')
              else Inr bdy)"

text \<open>\<open>SerialAsyncSession._has_valid_crc\<close> of the gateway.\<close>

definition has_valid_crc :: "bytes \<Rightarrow> bool" where
  "has_valid_crc buffer =
     (from_bytes_little (last_two buffer) = crc16_modbus (all_but_two buffer))"

definition client_has_valid_crc :: "bytes \<Rightarrow> bool" where
  "client_has_valid_crc buffer =
     (if length buffer < 4 then False
      else from_bytes_little (last_two buffer) = client_crc16_modbus (all_but_two buffer))"

section \<open>Modbus/TCP frames\<close>

definition build_mbap_frame :: "int \<Rightarrow> bytes \<Rightarrow> bytes result" where
  "build_mbap_frame transaction_id adu =
     (if length adu < 2 then Inl (ValueError ''ADU must contain unit id and function'')
      else let unit = adu ! 0; pdu_bytes = drop 1 adu; len = int (length pdu_bytes) + 1 in
        bind_result (to_bytes_2 be16 transaction_id) (\<lambda>tid.
        bind_result (to_bytes_2 be16 len) (\<lambda>l.
        Inr ((tid @ [0, 0] @ l @ [unit]) @ pdu_bytes))))"

definition parse_mbap_frame :: "bytes \<Rightarrow> bytes \<Rightarrow> (int \<times> bytes) result" where
  "parse_mbap_frame header pdu_bytes =
     (if length header \<noteq> 7 then Inl (ValueError ''MBAP header must be 7 bytes'')
      else let transaction_id = from_bytes_big (take 2 header);
               protocol_id = from_bytes_big (take 2 (drop 2 header))
           in if protocol_id \<noteq> 0 then Inl (ValueError ''Unsupported protocol id'')
              else let len = from_bytes_big (take 2 (drop 4 header)); unit = header ! 6
                   in if len - 1 \<noteq> int (length pdu_bytes)
                      then Inl (ValueError ''MBAP length mismatch'')
                      else Inr (transaction_id, unit # pdu_bytes))"

section \<open>Transaction identifiers\<close>

text \<open>The backend keeps a counter reduced modulo 0x10000 and skips 0.\<close>

definition next_transaction_id :: "int \<Rightarrow> int \<times> int" where
  "next_transaction_id tx_counter =
     (let c = (tx_counter + 1) mod 0x10000; c' = (if c = 0 then 1 else c) in (c', c'))"

text \<open>
  The client masks an unbounded counter (\<open>itertools.count\<close>, whose next value is the
  state) and takes a second value when the first is 0.
\<close>

definition client_next_transaction_id :: "int \<Rightarrow> int \<times> int" where
  "client_next_transaction_id tx_count =
     (let val1 = tx_count AND 0xFFFF in
      if val1 = 0 then ((tx_count + 1) AND 0xFFFF, tx_count + 2) else (val1, tx_count + 1))"

fun transaction_ids :: "('s \<Rightarrow> int \<times> 's) \<Rightarrow> 's \<Rightarrow> nat \<Rightarrow> int list" where
  "transaction_ids nxt s 0 = []"
| "transaction_ids nxt s (Suc n) = (case nxt s of (v, s') \<Rightarrow> v # transaction_ids nxt s' n)"

section \<open>RTU lemmas\<close>

lemma client_crc16_modbus_eq: "client_crc16_modbus data = crc16_modbus data"
proof -
  have "(\<lambda>crc b. (client_crc_bit ^^ 8) (crc XOR uint b)) = crc_byte"
    by (intro ext) (simp add: crc_byte_def client_crc_bit_eq)
  then show ?thesis by (simp only: client_crc16_modbus_def crc16_modbus_def)
qed

lemma frame_split:
  assumes "2 \<le> length frame"
  obtains lo hi where "frame = all_but_two frame @ [lo, hi]" "last_two frame = [lo, hi]"
proof -
  have "length (last_two frame) = 2" using assms by (simp add: last_two_def)
  then obtain lo hi where "last_two frame = [lo, hi]" using length_two_cases by blast
  moreover have "frame = all_but_two frame @ last_two frame"
    by (simp add: all_but_two_def last_two_def)
  ultimately show thesis using that by metis
qed

lemma all_but_two_append [simp]: "all_but_two (xs @ [a, b]) = xs"
  by (simp add: all_but_two_def)

lemma last_two_append [simp]: "last_two (xs @ [a, b]) = [a, b]"
  by (simp add: last_two_def)

lemma has_valid_crc_iff_residue:
  assumes "2 \<le> length frame"
  shows "has_valid_crc frame \<longleftrightarrow> foldl lfsr_byte 0xFFFF frame = 0"
proof -
  obtain lo hi where f: "frame = all_but_two frame @ [lo, hi]" "last_two frame = [lo, hi]"
    using frame_split [OF assms] by blast
  show ?thesis
    unfolding has_valid_crc_def f(2) crc_check_iff_residue by (simp only: f(1) [symmetric])
qed

lemma strip_rtu_frame_eq:
  "strip_rtu_frame frame =
     (if length frame < 4 then Inl (ValueError ''RTU frame too short'')
      else if has_valid_crc frame then Inr (all_but_two frame)
      else Inl (ValueError ''RTU CRC mismatch''))"
  by (simp add: strip_rtu_frame_def has_valid_crc_def client_crc16_modbus_eq Let_def)

lemma client_has_valid_crc_eq:
  "client_has_valid_crc buffer \<longleftrightarrow> 4 \<le> length buffer \<and> has_valid_crc buffer"
  by (auto simp: client_has_valid_crc_def has_valid_crc_def client_crc16_modbus_eq)

lemma has_valid_crc_append_crc: "has_valid_crc (adu @ le16 (crc16_modbus adu))"
proof -
  obtain lo hi where le: "le16 (crc16_modbus adu) = [lo, hi]" by (simp add: le16_def)
  have "from_bytes_little (le16 (crc16_modbus adu)) = crc16_modbus adu"
    using crc16_modbus_range [of adu] by simp
  then show ?thesis unfolding le by (simp only: has_valid_crc_def all_but_two_append last_two_append)
qed

lemma build_rtu_frame_eq: "build_rtu_frame adu = Inr (adu @ le16 (crc16_modbus adu))"
  using crc16_modbus_range [of adu]
  by (simp add: build_rtu_frame_def client_crc16_modbus_eq to_bytes_2_def)

lemma all_but_two_append_crc [simp]: "all_but_two (adu @ le16 v) = adu"
  by (simp add: all_but_two_def)

lemma rtu_burst_detected:
  assumes "has_valid_crc f" "2 \<le> length f" "length f' = length f"
    and "frame_bits f = p @ w @ q" "frame_bits f' = p @ w' @ q"
    and "length w = length w'" "length w \<le> 16" "w \<noteq> w'"
  shows "\<not> has_valid_crc f'"
  using assms burst_changes_register [OF assms(6-8), of "0xFFFF" p q]
  by (simp add: has_valid_crc_iff_residue foldl_lfsr_byte_serial)

section \<open>MBAP lemmas\<close>

lemma build_mbap_frame_Inr_iff:
  "build_mbap_frame tid adu = Inr frame \<longleftrightarrow>
     2 \<le> length adu \<and> length adu < 65536 \<and> 0 \<le> tid \<and> tid < 65536 \<and>
     frame = be16 tid @ [0, 0] @ be16 (int (length adu)) @ adu"
proof (cases adu)
  case (Cons u rest)
  then show ?thesis
    by (auto simp: build_mbap_frame_def Let_def bind_result_Inr_iff to_bytes_2_Inr_iff add.commute
        Suc_le_eq)
qed (simp add: build_mbap_frame_def)

lemma mbap_header_fields:
  fixes u :: byte
  assumes "0 \<le> tid" "tid < 65536" "0 \<le> proto" "proto < 65536" "0 \<le> len" "len < 65536"
  defines "h \<equiv> be16 tid @ be16 proto @ be16 len @ [u]"
  shows "length h = 7" "from_bytes_big (take 2 h) = tid" "from_bytes_big (take 2 (drop 2 h)) = proto"
    "from_bytes_big (take 2 (drop 4 h)) = len" "h ! 6 = u"
proof -
  show "h ! 6 = u" by (simp add: h_def be16_def)
qed (use assms in \<open>simp_all add: h_def\<close>)

lemma be16_0: "be16 0 = [0, 0]"
  by (simp add: be16_def)

lemma parse_build_mbap_frame:
  assumes "build_mbap_frame tid adu = Inr frame"
  shows "parse_mbap_frame (take 7 frame) (drop 7 frame) = Inr (tid, adu)"
proof -
  from assms have r: "2 \<le> length adu" "length adu < 65536" "0 \<le> tid" "tid < 65536"
    and frame: "frame = be16 tid @ [0, 0] @ be16 (int (length adu)) @ adu"
    by (simp_all add: build_mbap_frame_Inr_iff)
  from r(1) obtain u rest where adu: "adu = u # rest" by (cases adu) simp_all
  let ?h = "be16 tid @ be16 0 @ be16 (int (length adu)) @ [u]"
  have split: "frame = ?h @ rest" by (simp add: frame adu be16_0)
  have h: "length ?h = 7" "from_bytes_big (take 2 ?h) = tid" "from_bytes_big (take 2 (drop 2 ?h)) = 0"
    "from_bytes_big (take 2 (drop 4 ?h)) = int (length adu)" "?h ! 6 = u"
    by (rule mbap_header_fields; use r in simp)+
  have "take 7 frame = ?h" "drop 7 frame = rest"
    unfolding split using h(1) by simp_all
  then show ?thesis
    by (simp only: parse_mbap_frame_def h) (simp add: adu)
qed

section \<open>Transaction identifier lemmas\<close>

text \<open>
  The counter after \<open>k\<close> calls, up to the wrap: both generators then return
  \<open>k mod 65535 + 1\<close>.
\<close>

definition gateway_counter_at :: "int \<Rightarrow> nat \<Rightarrow> bool" where
  "gateway_counter_at c k \<longleftrightarrow>
     c = int (k mod 65535) \<or> (c = 65535 \<and> k mod 65535 = 0)"

definition client_counter_at :: "int \<Rightarrow> nat \<Rightarrow> bool" where
  "client_counter_at n k \<longleftrightarrow>
     n mod 65536 = int (k mod 65535) + 1 \<or> (n mod 65536 = 0 \<and> k mod 65535 = 0)"

lemma next_transaction_id_step:
  assumes "0 \<le> m" "m < 65535" "c = m \<or> (c = 65535 \<and> m = 0)"
  shows "next_transaction_id c = (m + 1, m + 1)"
proof -
  have "(m + 1) mod 65536 = m + 1"
    using assms by (intro mod_pos_pos_trivial) linarith+
  then show ?thesis
    using assms by (auto simp only: next_transaction_id_def Let_def) simp_all
qed

lemma next_transaction_id_at:
  assumes "gateway_counter_at c k"
  shows "next_transaction_id c = (int (k mod 65535) + 1, int (k mod 65535) + 1)"
proof (rule next_transaction_id_step)
  have "k mod 65535 < 65535" by simp
  then show "int (k mod 65535) < 65535" by linarith
qed (use assms in \<open>auto simp: gateway_counter_at_def\<close>)

lemma gateway_counter_at_Suc: "gateway_counter_at (int (k mod 65535) + 1) (Suc k)"
  by (auto simp: gateway_counter_at_def mod_Suc)

lemma client_next_transaction_id_at:
  assumes "client_counter_at n k"
  obtains n' where "client_next_transaction_id n = (int (k mod 65535) + 1, n')"
    "client_counter_at n' (Suc k)"
proof -
  have "k mod 65535 < 65535" by simp
  then have small: "int (k mod 65535) + 1 < 65536" by linarith
  show thesis
  proof (cases "n mod 65536 = 0")
    case True
    then have "(n + 1) mod 65536 = 1" "(n + 2) mod 65536 = 2"
      using mod_add_left_eq [of n 65536 1] mod_add_left_eq [of n 65536 2] by simp_all
    moreover have k: "k mod 65535 = 0"
      using assms True small by (auto simp: client_counter_at_def)
    moreover have "Suc k mod 65535 = 1" using k by (simp add: mod_Suc)
    ultimately show ?thesis
      using True that [of "n + 2"]
      by (simp add: client_next_transaction_id_def and_FFFF_eq_mod client_counter_at_def)
  next
    case False
    then have n: "n mod 65536 = int (k mod 65535) + 1"
      using assms by (auto simp: client_counter_at_def)
    then have "(n + 1) mod 65536 = (int (k mod 65535) + 2) mod 65536"
      using mod_add_left_eq [of n 65536 1] by (simp add: add.commute)
    then have "client_counter_at (n + 1) (Suc k)"
      by (auto simp: client_counter_at_def mod_Suc)
    moreover have "client_next_transaction_id n = (int (k mod 65535) + 1, n + 1)"
      using n False by (simp add: client_next_transaction_id_def and_FFFF_eq_mod Let_def)
    ultimately show ?thesis by (rule that [rotated])
  qed
qed

lemma gateway_transaction_ids:
  "gateway_counter_at c k \<Longrightarrow>
     transaction_ids next_transaction_id c n = map (\<lambda>i. int (i mod 65535) + 1) [k..<k + n]"
proof (induction n arbitrary: c k)
  case (Suc n)
  then show ?case
    using Suc.IH [OF gateway_counter_at_Suc [of k]]
    by (simp add: next_transaction_id_at upt_conv_Cons del: upt_Suc)
qed simp

lemma client_transaction_ids:
  "client_counter_at c k \<Longrightarrow>
     transaction_ids client_next_transaction_id c n = map (\<lambda>i. int (i mod 65535) + 1) [k..<k + n]"
proof (induction n arbitrary: c k)
  case (Suc n)
  from Suc.prems obtain c' where c': "client_next_transaction_id c = (int (k mod 65535) + 1, c')"
    "client_counter_at c' (Suc k)"
    by (rule client_next_transaction_id_at)
  from Suc.IH [OF c'(2)] show ?case
    by (simp add: c'(1) upt_conv_Cons del: upt_Suc)
qed simp

lemma set_take_upt: "set (take m [k..<n]) \<subseteq> {k..<k + m}"
  by (cases "k + m \<le> n") (auto simp: take_upt)

lemma inj_on_mod_window:
  assumes "n \<le> (m :: nat)"
  shows "inj_on (\<lambda>i. i mod m) {k..<k + n}"
proof (rule inj_onI)
  fix i j assume ij: "i \<in> {k..<k + n}" "j \<in> {k..<k + n}" "i mod m = j mod m"
  have "m dvd (max i j - min i j)"
    using ij(3) by (metis max_def min_def mod_eq_dvd_iff_nat nat_le_linear)
  moreover have "max i j - min i j < m" using ij(1,2) assms by auto
  ultimately have "max i j - min i j = 0" using nat_dvd_not_less by blast
  then show "i = j" by (auto simp: max_def min_def split: if_splits)
qed


section \<open>Properties\<close>

text \<open>The two CRC implementations agree: a frame that the client builds is the ADU with the
  gateway's CRC-16 appended low byte first; the gateway's session accepts it, and stripping
  it gives the ADU back.\<close>

theorem rtu_frame_roundtrip:
  assumes "2 \<le> length adu"
  shows "\<exists>frame. build_rtu_frame adu = Inr frame \<and> frame = adu @ le16 (crc16_modbus adu) \<and>
    has_valid_crc frame \<and> strip_rtu_frame frame = Inr adu"
  using assms by (simp add: build_rtu_frame_eq strip_rtu_frame_eq has_valid_crc_append_crc)

theorem rtu_frame_roundtrip_witness:
  "\<exists>frame. build_rtu_frame [1, 3, 0, 0, 0, 1] = Inr frame \<and> frame = [1, 3, 0, 0, 0, 1, 0x84, 0x0A] \<and>
     has_valid_crc frame \<and> strip_rtu_frame frame = Inr [1, 3, 0, 0, 0, 1]"
proof -
  have crc: "[1, 3, 0, 0, 0, 1] @ le16 (crc16_modbus [1, 3, 0, 0, 0, 1]) =
      [1, 3, 0, 0, 0, 1, 0x84, 0x0A]"
    by code_simp
  have len: "2 \<le> length [1 :: byte, 3, 0, 0, 0, 1]" by simp
  show ?thesis using rtu_frame_roundtrip [OF len] unfolding crc by blast
qed

text \<open>C32. Any error burst of at most 16 bits is caught: if the bits of a frame with a valid
  checksum change only inside a window of 16 consecutive transmitted bits, the session's
  check fails, wherever the window lies (the checksum bytes included).\<close>

theorem rtu_burst_error_rejected:
  assumes "has_valid_crc f" and "2 \<le> length f" and "length f' = length f"
    and "frame_bits f = p @ w @ q" and "frame_bits f' = p @ w' @ q"
    and "length w = length w'" and "length w \<le> 16" and "w \<noteq> w'"
  shows "\<not> has_valid_crc f' \<and> \<not> client_has_valid_crc f'"
  using rtu_burst_detected [OF assms] by (simp add: client_has_valid_crc_eq)

theorem rtu_burst_error_rejected_witness:
  "\<not> has_valid_crc [1, 3, 0, 0, 0x80, 1, 0x84, 0x0A] \<and>
     \<not> client_has_valid_crc [1, 3, 0, 0, 0x80, 1, 0x84, 0x0A]"
proof -
  let ?f = "[1, 3, 0, 0, 0, 1, 0x84, 0x0A] :: bytes"
  let ?f' = "[1, 3, 0, 0, 0x80, 1, 0x84, 0x0A] :: bytes"
  have valid: "has_valid_crc ?f" by code_simp
  have bits: "frame_bits ?f = take 32 (frame_bits ?f) @ replicate 8 False @ drop 40 (frame_bits ?f)"
    by code_simp
  have bits': "frame_bits ?f' = take 32 (frame_bits ?f) @ (replicate 7 False @ [True])
      @ drop 40 (frame_bits ?f)"
    by code_simp
  show ?thesis
    by (rule rtu_burst_error_rejected [OF valid _ _ bits bits']) (simp_all add: numeral_nat)
qed

text \<open>A Modbus/TCP frame that was built parses back to its transaction identifier and ADU;
  it is built exactly for ADUs of 2 to 65535 bytes and identifiers of 16 bits.\<close>

theorem mbap_frame_roundtrip:
  "(case build_mbap_frame tid adu of
      Inr frame \<Rightarrow> parse_mbap_frame (take 7 frame) (drop 7 frame) = Inr (tid, adu) \<and>
        length frame = 6 + length adu
    | Inl e \<Rightarrow> length adu < 2 \<or> 65536 \<le> length adu \<or> tid < 0 \<or> 65536 \<le> tid)"
proof (cases "build_mbap_frame tid adu")
  case (Inl e)
  then show ?thesis
    using build_mbap_frame_Inr_iff
      [of tid adu "be16 tid @ [0, 0] @ be16 (int (length adu)) @ adu"]
    by auto
next
  case (Inr frame)
  then show ?thesis
    using parse_build_mbap_frame [OF Inr] Inr [unfolded build_mbap_frame_Inr_iff]
    by (simp only: Inr sum.case) simp
qed

text \<open>The transaction identifiers of the gateway's TCP backend and of the client library
  are the same sequence 1, 2, ..., 65535, 1, ...: never 0, always 16 bits, and any 65535
  consecutive ones are pairwise distinct, so a pending exchange is never confused with a
  later one.\<close>

theorem transaction_ids_cycle:
  "transaction_ids next_transaction_id 0 n = map (\<lambda>i. int (i mod 65535) + 1) [0..<n] \<and>
   transaction_ids client_next_transaction_id 1 n = transaction_ids next_transaction_id 0 n \<and>
   set (transaction_ids next_transaction_id 0 n) \<subseteq> {1..65535} \<and>
   distinct (take 65535 (drop k (transaction_ids next_transaction_id 0 n)))"
proof -
  let ?f = "\<lambda>i. int (i mod 65535) + 1"
  have gw: "transaction_ids next_transaction_id 0 n = map ?f [0..<n]"
    using gateway_transaction_ids [of 0 0 n] by (simp add: gateway_counter_at_def)
  have cl: "transaction_ids client_next_transaction_id 1 n = map ?f [0..<n]"
    using client_transaction_ids [of 1 0 n] by (simp add: client_counter_at_def)
  have "?f i \<in> {1..65535}" for i
  proof -
    have "i mod 65535 < 65535" by simp
    then have "i mod 65535 \<le> 65534" by linarith
    then show ?thesis by (simp add: int_ops)
  qed
  then have range: "set (map ?f [0..<n]) \<subseteq> {1..65535}" by (auto simp del: atLeastAtMost_iff)
  have "inj_on ?f {k..<k + 65535}"
    using inj_on_mod_window [of 65535 65535 k] by (auto simp: inj_on_def)
  then have "inj_on ?f (set (take 65535 (drop k [0..<n])))"
    by (rule inj_on_subset) (simp add: set_take_upt)
  then have "distinct (take 65535 (drop k (map ?f [0..<n])))"
    by (simp only: take_map drop_map distinct_map distinct_take distinct_drop distinct_upt simp_thms)
  then show ?thesis using range unfolding gw cl by blast
qed

end
