(* ===== verification/Streams.thy ===== *)
theory Streams
  imports Gateway_Prelude
begin

text \<open>
  \<open>asyncio.StreamReader\<close> as the gateway and the client use it: \<open>wait_for(readexactly(n),
  timeout)\<close> on a stream of events. What a peer will send is a list of events: a byte that
  arrives in time, a silence that outlasts the timeout, the end of the stream, a transport
  error. A list that has run out is a silent peer.
\<close>

datatype stream_event = Arrive byte | Silence | Eof | Broken exn

text \<open>
  \<open>readexactly_from acc n events\<close>: \<open>acc\<close> is the reader's buffer, \<open>n\<close> the bytes still
  missing. After a timeout the bytes read so far stay buffered; at the end of the stream they
  are lost and the end stays.
\<close>

fun readexactly_from :: "bytes \<Rightarrow> nat \<Rightarrow> stream_event list \<Rightarrow> bytes result \<times> stream_event list" where
  "readexactly_from acc 0 events = (Inr acc, events)"
| "readexactly_from acc (Suc n) [] = (Inl (TimeoutError []), map Arrive acc)"
| "readexactly_from acc (Suc n) (Arrive b # events) = readexactly_from (acc @ [b]) n events"
| "readexactly_from acc (Suc n) (Silence # events) = (Inl (TimeoutError []), map Arrive acc @ events)"
| "readexactly_from acc (Suc n) (Eof # events) =
     (Inl (IncompleteReadError (length acc) (length acc + Suc n)), Eof # events)"
| "readexactly_from acc (Suc n) (Broken e # events) = (Inl e, Broken e # events)"

definition readexactly :: "nat \<Rightarrow> stream_event list \<Rightarrow> bytes result \<times> stream_event list" where
  "readexactly n events = readexactly_from [] n events"

lemma readexactly_from_Inr_iff:
  "readexactly_from acc n events = (Inr bs, rest) \<longleftrightarrow>
     (\<exists>ds. bs = acc @ ds \<and> length ds = n \<and> events = map Arrive ds @ rest)"
proof (induction acc n events rule: readexactly_from.induct)
  case (3 acc n b events)
  show ?case
  proof
    assume "readexactly_from acc (Suc n) (Arrive b # events) = (Inr bs, rest)"
    then obtain ds where "bs = (acc @ [b]) @ ds" "length ds = n" "events = map Arrive ds @ rest"
      using 3 by auto
    then show "\<exists>ds. bs = acc @ ds \<and> length ds = Suc n \<and> Arrive b # events = map Arrive ds @ rest"
      by (intro exI [of _ "b # ds"]) simp
  next
    assume "\<exists>ds. bs = acc @ ds \<and> length ds = Suc n \<and> Arrive b # events = map Arrive ds @ rest"
    then obtain ds where "bs = acc @ ds" "length ds = Suc n" "Arrive b # events = map Arrive ds @ rest"
      by blast
    then show "readexactly_from acc (Suc n) (Arrive b # events) = (Inr bs, rest)"
      using 3 by (cases ds) auto
  qed
qed (auto simp: Cons_eq_append_conv Cons_eq_map_conv)

lemma readexactly_Inr_iff:
  "readexactly n events = (Inr bs, rest) \<longleftrightarrow> length bs = n \<and> events = map Arrive bs @ rest"
  by (auto simp: readexactly_def readexactly_from_Inr_iff)

lemma readexactly_arrived [simp]:
  "length bs = n \<Longrightarrow> readexactly n (map Arrive bs @ rest) = (Inr bs, rest)"
  by (simp add: readexactly_Inr_iff)

lemma readexactly_arrived_Cons [simp]: "readexactly (Suc 0) (Arrive b # rest) = (Inr [b], rest)"
  by (simp add: readexactly_def)

text \<open>No read lengthens the stream.\<close>

lemma readexactly_length: "snd (readexactly n events) = rest \<Longrightarrow> length rest \<le> length events"
proof -
  have "length (snd (readexactly_from acc n events)) \<le> length acc + length events" for acc
    by (induction acc n events rule: readexactly_from.induct) simp_all
  from this [of "[]"] show "snd (readexactly n events) = rest \<Longrightarrow> length rest \<le> length events"
    by (simp add: readexactly_def)
qed


section \<open>Reading without a timeout\<close>

text \<open>
  \<open>readexactly\<close> as the servers use it: \<open>None\<close> while too few bytes have arrived and the stream
  is open; silences do not matter.
\<close>

fun read_wait_from :: "bytes \<Rightarrow> nat \<Rightarrow> stream_event list \<Rightarrow> (bytes result \<times> stream_event list) option" where
  "read_wait_from acc 0 events = Some (Inr acc, events)"
| "read_wait_from acc (Suc n) [] = None"
| "read_wait_from acc (Suc n) (Arrive b # events) = read_wait_from (acc @ [b]) n events"
| "read_wait_from acc (Suc n) (Silence # events) = read_wait_from acc (Suc n) events"
| "read_wait_from acc (Suc n) (Eof # events) =
     Some (Inl (IncompleteReadError (length acc) (length acc + Suc n)), Eof # events)"
| "read_wait_from acc (Suc n) (Broken e # events) = Some (Inl e, Broken e # events)"

definition read_wait :: "nat \<Rightarrow> stream_event list \<Rightarrow> (bytes result \<times> stream_event list) option" where
  "read_wait n events = read_wait_from [] n events"

lemma read_wait_from_arrived:
  "length bs = n \<Longrightarrow> read_wait_from acc n (map Arrive bs @ rest) = Some (Inr (acc @ bs), rest)"
proof (induction bs arbitrary: acc n)
  case (Cons b bs)
  then show ?case by (cases n) simp_all
qed simp

lemma read_wait_arrived:
  "length bs = n \<Longrightarrow> read_wait n (map Arrive bs @ rest) = Some (Inr bs, rest)"
  by (simp add: read_wait_def read_wait_from_arrived)

lemma read_wait_from_length: "read_wait_from acc n events = Some (Inr bs, rest) \<Longrightarrow> length bs = length acc + n"
  by (induction acc n events rule: read_wait_from.induct) auto

lemma read_wait_length: "read_wait n events = Some (Inr bs, rest) \<Longrightarrow> length bs = n"
  by (auto simp: read_wait_def dest: read_wait_from_length)

end
