(* ===== verification/Router.thy ===== *)
theory Router
  imports Messages
begin

text \<open>
  \<open>modbusgw/core/router.py\<close>: routing rules and their resolution. A request reaches the
  router through \<open>_value\<close>, an accessor from attribute names to Python values
  (\<open>routed_value\<close> for a \<open>RoutedRequest\<close>, \<open>mapping_value\<close> for a mapping). Comparing values
  that Python cannot order raises \<open>TypeError\<close>, so matching returns a result.
\<close>

section \<open>The code\<close>

record match_spec =
  unit_ids :: "pyval list option"
  function_codes :: "pyval list option"
  operations :: "pyval list option"
  register_range :: "(int option \<times> int option) option"

record routing_rule =
  rule_frontend :: string
  rule_backend :: string
  rule_match :: match_spec
  rule_unit_override :: "int option"
  rule_mirror_to_mqtt :: "string list"

record routing_plan =
  plan_rule :: routing_rule
  plan_backend :: string
  plan_unit_id :: pyval
  plan_mirror_to_mqtt :: "string list"

type_synonym router = "routing_rule list"

definition add_rule :: "router \<Rightarrow> routing_rule \<Rightarrow> router" where
  "add_rule rules rule = rules @ [rule]"

definition router_clear :: "router \<Rightarrow> router" where
  "router_clear rules = []"

definition mapping_value :: "(string \<times> pyval) list \<Rightarrow> string \<Rightarrow> pyval" where
  "mapping_value d key = (case map_of d key of None \<Rightarrow> PyNone | Some v \<Rightarrow> v)"

definition opt_str :: "string option \<Rightarrow> pyval" where
  "opt_str s = (case s of None \<Rightarrow> PyNone | Some t \<Rightarrow> PyStr t)"

definition routed_value :: "routed_request \<Rightarrow> string \<Rightarrow> pyval" where
  "routed_value r key =
     (let p = rr_pdu r in
      if key = ''frontend'' then PyStr (rc_frontend (rr_context r))
      else if key = ''unit_id'' then PyInt (unit_id p)
      else if key = ''function_code'' then PyInt (request_function_code (body p))
      else if key = ''operation'' then opt_str (operation_map (request_function_code (body p)))
      else if key = ''register'' then request_register (body p)
      else PyNone)"

definition match_list :: "pyval list option \<Rightarrow> pyval \<Rightarrow> bool" where
  "match_list pat v =
     (case pat of None \<Rightarrow> True
      | Some candidates \<Rightarrow>
          if v = PyNone then False
          else list_ex (\<lambda>candidate. candidate = PyStr ''*'' \<or> candidate = v) candidates)"

definition match_operations :: "pyval list option \<Rightarrow> pyval \<Rightarrow> bool" where
  "match_operations pat v =
     (case pat of None \<Rightarrow> True
      | Some ops \<Rightarrow> if v = PyNone then False else List.member ops v)"

fun py_ge :: "pyval \<Rightarrow> int \<Rightarrow> bool result" where
  "py_ge (PyInt v) n = Inr (n \<le> v)"
| "py_ge _ n = Inl (TypeError ''not supported between instances'')"

fun py_le :: "pyval \<Rightarrow> int \<Rightarrow> bool result" where
  "py_le (PyInt v) n = Inr (v \<le> n)"
| "py_le _ n = Inl (TypeError ''not supported between instances'')"

definition match_range :: "(int option \<times> int option) option \<Rightarrow> pyval \<Rightarrow> bool result" where
  "match_range rng v =
     (case rng of None \<Rightarrow> Inr True
      | Some (start, end) \<Rightarrow>
          if v = PyNone then Inr False
          else bind_result (case start of None \<Rightarrow> Inr True | Some n \<Rightarrow> py_ge v n)
            (\<lambda>ok. if ok then (case end of None \<Rightarrow> Inr True | Some n \<Rightarrow> py_le v n) else Inr False))"

definition rule_matches :: "routing_rule \<Rightarrow> (string \<Rightarrow> pyval) \<Rightarrow> bool result" where
  "rule_matches rule val =
     (let m = rule_match rule in
      if PyStr (rule_frontend rule) \<noteq> val ''frontend'' then Inr False
      else if \<not> match_list (unit_ids m) (val ''unit_id'') then Inr False
      else if \<not> match_list (function_codes m) (val ''function_code'') then Inr False
      else if \<not> match_operations (operations m) (val ''operation'') then Inr False
      else match_range (register_range m) (val ''register''))"

definition make_plan :: "routing_rule \<Rightarrow> (string \<Rightarrow> pyval) \<Rightarrow> routing_plan" where
  "make_plan rule val =
     \<lparr>plan_rule = rule, plan_backend = rule_backend rule,
      plan_unit_id = (case rule_unit_override rule of Some u \<Rightarrow> PyInt u | None \<Rightarrow> val ''unit_id''),
      plan_mirror_to_mqtt = rule_mirror_to_mqtt rule\<rparr>"

fun resolve :: "router \<Rightarrow> (string \<Rightarrow> pyval) \<Rightarrow> routing_plan option result" where
  "resolve [] val = Inr None"
| "resolve (rule # rules) val =
     bind_result (rule_matches rule val)
       (\<lambda>ok. if ok then Inr (Some (make_plan rule val)) else resolve rules val)"

section \<open>Specification: which requests a rule admits\<close>

text \<open>
  The declarative reading of a rule for a request whose attributes are what the gateway
  sends to the router; ranges are closed intervals on the start address.
\<close>

definition pattern_admits :: "pyval list option \<Rightarrow> pyval \<Rightarrow> bool" where
  "pattern_admits pat v \<longleftrightarrow>
     (\<forall>cs. pat = Some cs \<longrightarrow> v \<noteq> PyNone \<and> (PyStr ''*'' \<in> set cs \<or> v \<in> set cs))"

definition rule_admits :: "routing_rule \<Rightarrow> routed_request \<Rightarrow> bool" where
  "rule_admits rule r \<longleftrightarrow>
     rule_frontend rule = rc_frontend (rr_context r) \<and>
     pattern_admits (unit_ids (rule_match rule)) (PyInt (unit_id (rr_pdu r))) \<and>
     pattern_admits (function_codes (rule_match rule))
       (PyInt (request_function_code (body (rr_pdu r)))) \<and>
     (\<forall>ops. operations (rule_match rule) = Some ops \<longrightarrow>
        (\<exists>op. operation_map (request_function_code (body (rr_pdu r))) = Some op \<and> PyStr op \<in> set ops)) \<and>
     (\<forall>s e. register_range (rule_match rule) = Some (s, e) \<longrightarrow>
        (\<exists>a. request_register (body (rr_pdu r)) = PyInt a \<and>
           (\<forall>n. s = Some n \<longrightarrow> n \<le> a) \<and> (\<forall>n. e = Some n \<longrightarrow> a \<le> n)))"

section \<open>Lemmas\<close>

lemma routed_value_simps [simp]:
  "routed_value r ''frontend'' = PyStr (rc_frontend (rr_context r))"
  "routed_value r ''unit_id'' = PyInt (unit_id (rr_pdu r))"
  "routed_value r ''function_code'' = PyInt (request_function_code (body (rr_pdu r)))"
  "routed_value r ''operation'' = opt_str (operation_map (request_function_code (body (rr_pdu r))))"
  "routed_value r ''register'' = request_register (body (rr_pdu r))"
  by (simp_all add: routed_value_def)

lemma match_list_iff: "match_list pat v \<longleftrightarrow> pattern_admits pat v"
  by (auto simp: match_list_def pattern_admits_def list_ex_iff split: option.splits)

lemma match_operations_opt_str:
  "match_operations pat (opt_str op) \<longleftrightarrow>
     (\<forall>ops. pat = Some ops \<longrightarrow> (\<exists>s. op = Some s \<and> PyStr s \<in> set ops))"
  by (auto simp: match_operations_def opt_str_def split: option.splits)

lemma match_range_int:
  "match_range rng (PyInt a) = Inr (\<forall>s e. rng = Some (s, e) \<longrightarrow>
     (\<forall>n. s = Some n \<longrightarrow> n \<le> a) \<and> (\<forall>n. e = Some n \<longrightarrow> a \<le> n))"
  by (auto simp: match_range_def split: option.splits)

lemma request_register_cases:
  obtains (address) a where "request_register b = PyInt a" "\<And>p f. b \<noteq> RawModbusRequest p f"
  | (raw) p f where "b = RawModbusRequest p f" "request_register b = PyMethod"
  by (cases b) simp_all

text \<open>Matching is total on every request of a registered class.\<close>

lemma rule_matches_typed:
  assumes "request_register (body (rr_pdu r)) = PyInt a"
  shows "rule_matches rule (routed_value r) = Inr (rule_admits rule r)"
  using assms
  by (simp add: rule_matches_def Let_def match_list_iff match_operations_opt_str match_range_int
      rule_admits_def)

text \<open>On a raw request only a register range can raise.\<close>

lemma rule_matches_raw:
  assumes "body (rr_pdu r) = RawModbusRequest p f"
  shows "rule_matches rule (routed_value r) =
    (if rule_frontend rule = rc_frontend (rr_context r) \<and>
        pattern_admits (unit_ids (rule_match rule)) (PyInt (unit_id (rr_pdu r))) \<and>
        pattern_admits (function_codes (rule_match rule)) (PyInt f) \<and>
        (\<forall>ops. operations (rule_match rule) = Some ops \<longrightarrow>
           (\<exists>op. operation_map f = Some op \<and> PyStr op \<in> set ops))
     then match_range (register_range (rule_match rule)) PyMethod else Inr False)"
  using assms
  by (auto simp: rule_matches_def Let_def match_list_iff match_operations_opt_str)

text \<open>
  Where a raw request meets a register range: its attribute \<open>register\<close> is the inherited
  classmethod, which Python cannot compare with the bound of the range.
\<close>

lemma match_range_method:
  "match_range (Some (Some s, e)) PyMethod = Inl (TypeError ''not supported between instances'')"
  by (simp add: match_range_def)

lemma resolve_find:
  assumes "\<And>rule. rule \<in> set rules \<Longrightarrow> rule_matches rule val = Inr (P rule)"
  shows "resolve rules val = Inr (map_option (\<lambda>rule. make_plan rule val) (find P rules))"
  using assms by (induction rules) simp_all

lemma resolve_append_no_match:
  assumes "\<And>rule. rule \<in> set pre \<Longrightarrow> rule_matches rule val = Inr False"
  shows "resolve (pre @ rules) val = resolve rules val"
  using assms by (induction pre) simp_all

lemma resolve_Inr_Some_cases:
  assumes "resolve rules val = Inr (Some plan)"
  obtains rule where "rule \<in> set rules" "rule_matches rule val = Inr True"
    "plan = make_plan rule val"
  using assms
  by (induction rules) (auto simp: bind_result_Inr_iff split: if_splits)

lemma make_plan_routed:
  "plan_unit_id (make_plan rule (routed_value r)) =
     PyInt (case rule_unit_override rule of Some u \<Rightarrow> u | None \<Rightarrow> unit_id (rr_pdu r))"
  by (simp add: make_plan_def split: option.splits)


section \<open>Properties\<close>

text \<open>Values for the witnesses.\<close>

definition any_match :: match_spec where
  "any_match = \<lparr>unit_ids = None, function_codes = None, operations = None, register_range = None\<rparr>"

definition rule_to :: "string \<Rightarrow> string \<Rightarrow> match_spec \<Rightarrow> routing_rule" where
  "rule_to frontend backend m =
     \<lparr>rule_frontend = frontend, rule_backend = backend, rule_match = m,
      rule_unit_override = None, rule_mirror_to_mqtt = []\<rparr>"

definition request_on :: "string \<Rightarrow> request \<Rightarrow> routed_request" where
  "request_on frontend p =
     \<lparr>rr_context = \<lparr>rc_frontend = frontend, rc_request_id = None, rc_metadata = []\<rparr>, rr_pdu = p\<rparr>"

text \<open>A register range restricts only the first register: a read of \<open>quantity\<close> registers
  is admitted whenever its start address lies in the range, although it covers registers behind
  the range's end.\<close>

theorem register_range_ignores_quantity:
  assumes "s \<le> address" and "address \<le> e"
    and "rule_match rule = any_match\<lparr>register_range := Some (Some s, Some e)\<rparr>"
    and "rule_frontend rule = rc_frontend (rr_context r)"
    and "body (rr_pdu r) = ReadHoldingRegistersRequest address quantity"
  shows "rule_matches rule (routed_value r) = Inr True"
proof -
  have "rule_admits rule r" using assms by (simp add: rule_admits_def any_match_def pattern_admits_def)
  then show ?thesis using rule_matches_typed [of r address rule] assms(5) by simp
qed

theorem register_range_ignores_quantity_witness:
  "rule_matches (rule_to ''plc'' ''a'' (any_match\<lparr>register_range := Some (Some 0, Some 9)\<rparr>))
     (routed_value (request_on ''plc'' (new_pdu 1 (ReadHoldingRegistersRequest 9 125)))) = Inr True"
  by (rule register_range_ignores_quantity [of 0 9 9]) (simp_all add: rule_to_def request_on_def new_pdu_def)

end
