(* ===== verification/Bus.thy ===== *)
theory Bus
  imports Gateway_Prelude
begin

text \<open>
  \<open>modbusgw/core/bus.py\<close>: named FIFO queues of bounded size with tracing hooks. An
  operation whose coroutine would wait (\<open>put\<close> on a full queue, \<open>get\<close> on an empty one)
  yields \<open>None\<close>, the caller staying suspended at that point. A tracer is a value of \<open>'t\<close>;
  what calling it does is the parameter \<open>run_tracer\<close> (\<open>Some e\<close>: it raises \<open>e\<close>), since
  tracers are supplied by users of the bus.
\<close>

section \<open>The code\<close>

record ('t, 'm) bus =
  bus_queue_size :: int
  bus_topics :: "(string \<times> 'm list) list"
  bus_tracers :: "'t list"
  bus_traced :: "('t \<times> string \<times> 'm) list"

definition bus_init :: "int \<Rightarrow> ('t, 'm) bus" where
  "bus_init queue_size =
     \<lparr>bus_queue_size = queue_size,
      bus_topics = map (\<lambda>name. (name, [])) [''requests'', ''responses'', ''events'', ''management''],
      bus_tracers = [], bus_traced = []\<rparr>"

definition register_tracer :: "('t, 'm) bus \<Rightarrow> 't \<Rightarrow> ('t, 'm) bus" where
  "register_tracer b tracer = b\<lparr>bus_tracers := bus_tracers b @ [tracer]\<rparr>"

text \<open>\<open>queue(name)\<close> creates the topic when it is missing.\<close>

definition bus_queue :: "('t, 'm) bus \<Rightarrow> string \<Rightarrow> 'm list \<times> ('t, 'm) bus" where
  "bus_queue b name =
     (case map_of (bus_topics b) name of
        Some q \<Rightarrow> (q, b)
      | None \<Rightarrow> ([], b\<lparr>bus_topics := dict_set name [] (bus_topics b)\<rparr>))"

text \<open>\<open>asyncio.Queue.full\<close>: a maximum size of 0 or less means unbounded.\<close>

definition queue_full :: "int \<Rightarrow> 'm list \<Rightarrow> bool" where
  "queue_full maxsize q = (0 < maxsize \<and> maxsize \<le> int (length q))"

fun trace_loop :: "('t \<Rightarrow> string \<Rightarrow> 'm \<Rightarrow> exn option) \<Rightarrow> 't list \<Rightarrow> string \<Rightarrow> 'm \<Rightarrow>
    unit result \<times> ('t \<times> string \<times> 'm) list" where
  "trace_loop run_tracer [] topic msg = (Inr (), [])"
| "trace_loop run_tracer (t # ts) topic msg =
     (case run_tracer t topic msg of
        Some e \<Rightarrow> (Inl e, [(t, topic, msg)])
      | None \<Rightarrow> (case trace_loop run_tracer ts topic msg of
                  (r, calls) \<Rightarrow> (r, (t, topic, msg) # calls)))"

definition bus_trace :: "('t \<Rightarrow> string \<Rightarrow> 'm \<Rightarrow> exn option) \<Rightarrow> ('t, 'm) bus \<Rightarrow> string \<Rightarrow> 'm \<Rightarrow>
    unit result \<times> ('t, 'm) bus" where
  "bus_trace run_tracer b topic msg =
     (case trace_loop run_tracer (bus_tracers b) topic msg of
        (r, calls) \<Rightarrow> (r, b\<lparr>bus_traced := bus_traced b @ calls\<rparr>))"

definition bus_publish :: "('t \<Rightarrow> string \<Rightarrow> 'm \<Rightarrow> exn option) \<Rightarrow> ('t, 'm) bus \<Rightarrow> string \<Rightarrow> 'm \<Rightarrow>
    unit result option \<times> ('t, 'm) bus" where
  "bus_publish run_tracer b topic msg =
     (case bus_queue b topic of (q, b1) \<Rightarrow>
        if queue_full (bus_queue_size b1) q then (None, b1)
        else (case bus_trace run_tracer
                (b1\<lparr>bus_topics := dict_set topic (q @ [msg]) (bus_topics b1)\<rparr>) topic msg of
                (r, b2) \<Rightarrow> (Some r, b2)))"

definition bus_get :: "('t, 'm) bus \<Rightarrow> string \<Rightarrow> 'm option \<times> ('t, 'm) bus" where
  "bus_get b topic =
     (case bus_queue b topic of
        ([], b1) \<Rightarrow> (None, b1)
      | (msg # q, b1) \<Rightarrow> (Some msg, b1\<lparr>bus_topics := dict_set topic q (bus_topics b1)\<rparr>))"

section \<open>Specification: a family of bounded FIFO queues\<close>

text \<open>What a topic holds; a topic that was never used holds nothing.\<close>

definition contents :: "('t, 'm) bus \<Rightarrow> string \<Rightarrow> 'm list" where
  "contents b topic = (case map_of (bus_topics b) topic of None \<Rightarrow> [] | Some q \<Rightarrow> q)"

definition bus_inv :: "('t, 'm) bus \<Rightarrow> bool" where
  "bus_inv b \<longleftrightarrow> (0 < bus_queue_size b \<longrightarrow>
     (\<forall>topic. int (length (contents b topic)) \<le> bus_queue_size b))"

datatype ('k, 'm) topic_event = Put 'k 'm | Got 'k 'm | Waits 'k

text \<open>What a run put on a topic, and what it took from it.\<close>

fun put_on :: "'k \<Rightarrow> ('k, 'm) topic_event list \<Rightarrow> 'm list" where
  "put_on k [] = []"
| "put_on k (Put k' m # es) = (if k' = k then m # put_on k es else put_on k es)"
| "put_on k (Got k' m # es) = put_on k es"
| "put_on k (Waits k' # es) = put_on k es"

fun got_from :: "'k \<Rightarrow> ('k, 'm) topic_event list \<Rightarrow> 'm list" where
  "got_from k [] = []"
| "got_from k (Put k' m # es) = got_from k es"
| "got_from k (Got k' m # es) = (if k' = k then m # got_from k es else got_from k es)"
| "got_from k (Waits k' # es) = got_from k es"

locale topic_queues =
  fixes put :: "'q \<Rightarrow> 'k \<Rightarrow> 'm \<Rightarrow> 'r option \<times> 'q"
    and get :: "'q \<Rightarrow> 'k \<Rightarrow> 'm option \<times> 'q"
    and items :: "'q \<Rightarrow> 'k \<Rightarrow> 'm list"
    and room :: "'q \<Rightarrow> 'k \<Rightarrow> bool"
  assumes put_room: "room b k \<Longrightarrow> \<exists>r b'. put b k m = (Some r, b') \<and>
      items b' = (items b)(k := items b k @ [m])"
    and put_full: "\<not> room b k \<Longrightarrow> \<exists>b'. put b k m = (None, b') \<and> items b' = items b"
    and get_empty: "items b k = [] \<Longrightarrow> \<exists>b'. get b k = (None, b') \<and> items b' = items b"
    and get_Cons: "items b k = m # ms \<Longrightarrow> \<exists>b'. get b k = (Some m, b') \<and>
      items b' = (items b)(k := ms)"
begin

text \<open>A run of puts and gets over all topics, interleaved in any way, the attempts that had to
  wait included.\<close>

inductive history :: "'q \<Rightarrow> ('k, 'm) topic_event list \<Rightarrow> 'q \<Rightarrow> bool" where
  history_Nil: "history b [] b"
| history_Put: "put b k m = (Some r, b1) \<Longrightarrow> history b1 es b2 \<Longrightarrow> history b (Put k m # es) b2"
| history_Put_waits: "put b k m = (None, b1) \<Longrightarrow> history b1 es b2 \<Longrightarrow> history b (Waits k # es) b2"
| history_Got: "get b k = (Some m, b1) \<Longrightarrow> history b1 es b2 \<Longrightarrow> history b (Got k m # es) b2"
| history_Get_waits: "get b k = (None, b1) \<Longrightarrow> history b1 es b2 \<Longrightarrow> history b (Waits k # es) b2"

lemma put_Some_items:
  assumes "put b k m = (Some r, b')"
  shows "room b k" "items b' = (items b)(k := items b k @ [m])"
  using assms put_room [of b k m] put_full [of b k m] by (cases "room b k"; auto)+

lemma get_Some_items:
  assumes "get b k = (Some m, b')"
  shows "items b k = m # items b' k" "items b' = (items b)(k := tl (items b k))"
  using assms get_empty [of b k] get_Cons [of b k] by (cases "items b k"; force)+

lemma put_None_items:
  assumes "put b k m = (None, b')"
  shows "\<not> room b k" "items b' = items b"
  using assms put_room [of b k m] put_full [of b k m] by (cases "room b k"; auto)+

lemma get_None_items:
  assumes "get b k = (None, b')"
  shows "items b k = []" "items b' = items b"
  using assms get_empty [of b k] get_Cons [of b k] by (cases "items b k"; force)+

text \<open>First in, first out, topic by topic: a topic loses nothing but what is taken from it and
  gains nothing but what is put on it.\<close>

lemma fifo: "history b es b' \<Longrightarrow> items b k @ put_on k es = got_from k es @ items b' k"
proof (induction rule: history.induct)
  case (history_Put b k' m r b1 es b2)
  then show ?case by (simp add: put_Some_items(2) split: if_splits)
next
  case (history_Put_waits b k' m b1 es b2)
  then show ?case by (simp add: put_None_items(2))
next
  case (history_Got b k' m b1 es b2)
  note took = get_Some_items [OF history_Got.hyps(1)]
  show ?case
  proof (cases "k' = k")
    case True
    with took(1) history_Got.IH show ?thesis by simp
  next
    case False
    then have "items b1 k = items b k" by (simp add: took(2))
    with False history_Got.IH show ?thesis by simp
  qed
next
  case (history_Get_waits b k' b1 es b2)
  then show ?case by (simp add: get_None_items(2))
qed simp

lemma get_waits_iff: "fst (get b k) = None \<longleftrightarrow> items b k = []"
  using get_empty [of b k] get_Cons [of b k] by (cases "items b k") force+

lemma put_waits_iff: "fst (put b k m) = None \<longleftrightarrow> \<not> room b k"
  using put_full [of b k m] put_room [of b k m] by force

end

section \<open>The bus provides it\<close>

lemma contents_dict_set [simp]:
  "contents (b\<lparr>bus_topics := dict_set k q (bus_topics b)\<rparr>) = (contents b)(k := q)"
  by (rule ext) (simp add: contents_def)

lemma contents_traced [simp]: "contents (b\<lparr>bus_traced := x\<rparr>) = contents b"
  by (rule ext) (simp add: contents_def)

lemma bus_queue_cases:
  obtains b1 where "bus_queue b k = (contents b k, b1)" "contents b1 = contents b"
    "bus_queue_size b1 = bus_queue_size b" "bus_tracers b1 = bus_tracers b"
    "bus_traced b1 = bus_traced b"
proof (cases "map_of (bus_topics b) k")
  case None
  have "contents (b\<lparr>bus_topics := dict_set k [] (bus_topics b)\<rparr>) = contents b"
    unfolding contents_dict_set using None by (intro ext) (simp add: contents_def)
  with None show ?thesis
    by (intro that [of "b\<lparr>bus_topics := dict_set k [] (bus_topics b)\<rparr>"])
      (simp_all add: bus_queue_def contents_def)
next
  case (Some q)
  then show ?thesis by (intro that [of b]) (simp_all add: bus_queue_def contents_def)
qed

definition has_room :: "('t, 'm) bus \<Rightarrow> string \<Rightarrow> bool" where
  "has_room b topic \<longleftrightarrow> \<not> queue_full (bus_queue_size b) (contents b topic)"

lemma bus_publish_room:
  assumes "has_room b k"
  obtains r b' where "bus_publish run b k m = (Some r, b')"
    "contents b' = (contents b)(k := contents b k @ [m])" "bus_queue_size b' = bus_queue_size b"
    "(r, drop (length (bus_traced b)) (bus_traced b')) = trace_loop run (bus_tracers b) k m"
proof -
  obtain b1 where q: "bus_queue b k = (contents b k, b1)" "contents b1 = contents b"
    "bus_queue_size b1 = bus_queue_size b" "bus_tracers b1 = bus_tracers b"
    "bus_traced b1 = bus_traced b"
    by (rule bus_queue_cases)
  obtain r calls where tr: "trace_loop run (bus_tracers b) k m = (r, calls)"
    by (cases "trace_loop run (bus_tracers b) k m")
  show thesis
    by (rule that [of r "b1\<lparr>bus_topics := dict_set k (contents b k @ [m]) (bus_topics b1),
        bus_traced := bus_traced b @ calls\<rparr>"])
      (use assms q tr in \<open>simp_all add: bus_publish_def bus_trace_def has_room_def\<close>)
qed

lemma trace_loop_calm:
  "(\<And>t. t \<in> set ts \<Longrightarrow> run t k m = None) \<Longrightarrow> fst (trace_loop run ts k m) = Inr ()"
  by (induction ts) (auto split: prod.splits)

lemma bus_publish_calm:
  assumes "has_room b k" and "\<And>t. t \<in> set (bus_tracers b) \<Longrightarrow> run t k m = None"
  obtains b' where "bus_publish run b k m = (Some (Inr ()), b')"
    "contents b' = (contents b)(k := contents b k @ [m])" "bus_queue_size b' = bus_queue_size b"
proof -
  obtain r b' where p: "bus_publish run b k m = (Some r, b')"
    "contents b' = (contents b)(k := contents b k @ [m])" "bus_queue_size b' = bus_queue_size b"
    "(r, drop (length (bus_traced b)) (bus_traced b')) = trace_loop run (bus_tracers b) k m"
    by (rule bus_publish_room [OF assms(1)])
  have "r = Inr ()" using p(4) trace_loop_calm [of "bus_tracers b" run k m] assms(2) by (metis fst_conv)
  with p that show thesis by blast
qed

lemma bus_publish_full:
  assumes "\<not> has_room b k"
  obtains b' where "bus_publish run b k m = (None, b')" "contents b' = contents b"
    "bus_queue_size b' = bus_queue_size b"
proof -
  obtain b1 where "bus_queue b k = (contents b k, b1)" "contents b1 = contents b"
    "bus_queue_size b1 = bus_queue_size b"
    by (rule bus_queue_cases)
  with assms show thesis
    by (intro that [of b1]) (simp_all add: bus_publish_def has_room_def)
qed

lemma bus_publish_None:
  assumes "bus_publish run b k m = (None, b')"
  shows "contents b' = contents b"
proof (cases "has_room b k")
  case True
  then obtain r b1 where "bus_publish run b k m = (Some r, b1)" by (rule bus_publish_room)
  with assms show ?thesis by simp
next
  case False
  then obtain b1 where "bus_publish run b k m = (None, b1)" "contents b1 = contents b" by (rule bus_publish_full)
  with assms show ?thesis by simp
qed

lemma bus_get_cases:
  obtains b' where "bus_get b k = (None, b')" "contents b k = []" "contents b' = contents b"
    "bus_queue_size b' = bus_queue_size b"
  | m ms b' where "bus_get b k = (Some m, b')" "contents b k = m # ms"
    "contents b' = (contents b)(k := ms)" "bus_queue_size b' = bus_queue_size b"
proof -
  obtain b1 where q: "bus_queue b k = (contents b k, b1)" "contents b1 = contents b"
    "bus_queue_size b1 = bus_queue_size b"
    by (rule bus_queue_cases)
  show thesis
  proof (cases "contents b k")
    case Nil
    with q show ?thesis by (intro that(1) [of b1]) (simp_all add: bus_get_def)
  next
    case (Cons m ms)
    with q show ?thesis
      by (intro that(2) [of m "b1\<lparr>bus_topics := dict_set k ms (bus_topics b1)\<rparr>" ms])
        (simp_all add: bus_get_def)
  qed
qed

interpretation busq: topic_queues "bus_publish run" bus_get contents has_room for run
proof unfold_locales
  fix b :: "('a, 'b) bus" and k m
  assume "has_room b k"
  then show "\<exists>r b'. bus_publish run b k m = (Some r, b') \<and>
      contents b' = (contents b)(k := contents b k @ [m])"
    by (rule bus_publish_room) blast
next
  fix b :: "('a, 'b) bus" and k m
  assume "\<not> has_room b k"
  then show "\<exists>b'. bus_publish run b k m = (None, b') \<and> contents b' = contents b"
    by (rule bus_publish_full) blast
next
  fix b :: "('a, 'b) bus" and k
  assume "contents b k = []"
  then show "\<exists>b'. bus_get b k = (None, b') \<and> contents b' = contents b"
    by (cases rule: bus_get_cases [of b k]) auto
next
  fix b :: "('a, 'b) bus" and k m ms
  assume "contents b k = m # ms"
  then show "\<exists>b'. bus_get b k = (Some m, b') \<and> contents b' = (contents b)(k := ms)"
    by (cases rule: bus_get_cases [of b k]) auto
qed

section \<open>Capacity\<close>

lemma bus_inv_init: "bus_inv (bus_init n)"
  by (auto simp: bus_inv_def bus_init_def contents_def split: option.splits dest!: map_of_SomeD)

lemma bus_inv_publish:
  assumes "bus_inv b" "bus_publish run b k m = (r, b')"
  shows "bus_inv b'"
proof (cases "has_room b k")
  case True
  then obtain r1 b1 where p: "bus_publish run b k m = (Some r1, b1)"
    "contents b1 = (contents b)(k := contents b k @ [m])" "bus_queue_size b1 = bus_queue_size b"
    by (rule bus_publish_room)
  with assms True show ?thesis
    by (auto simp: bus_inv_def has_room_def queue_full_def)
next
  case False
  then obtain b1 where "bus_publish run b k m = (None, b1)" "contents b1 = contents b"
    "bus_queue_size b1 = bus_queue_size b"
    by (rule bus_publish_full)
  with assms show ?thesis by (simp add: bus_inv_def)
qed

lemma bus_inv_get:
  assumes "bus_inv b" "bus_get b k = (r, b')"
  shows "bus_inv b'"
proof (cases rule: bus_get_cases [of b k])
  case (2 m ms b1)
  from assms(1) have "0 < bus_queue_size b \<Longrightarrow> int (length (contents b k)) \<le> bus_queue_size b"
    by (auto simp: bus_inv_def)
  with 2 assms show ?thesis by (auto simp: bus_inv_def)
qed (use assms in \<open>auto simp: bus_inv_def\<close>)


section \<open>Properties\<close>

text \<open>C30. Each topic is a first-in first-out queue of its own. Let any tasks publish to and
  get from any topics, in any order, attempts that wait included. Then for every topic, what it
  held followed by what was published to it is what was taken from it followed by what it holds
  now: nothing is lost, doubled, reordered or moved to another topic. A \<open>get\<close> then waits exactly
  when the topic is empty, and a \<open>publish\<close> exactly when the bus is bounded and the topic is
  full.\<close>

theorem bus_topics_are_fifo:
  assumes "busq.history run b events b'"
  shows "contents b topic @ put_on topic events = got_from topic events @ contents b' topic \<and>
    (fst (bus_get b' topic) = None \<longleftrightarrow> contents b' topic = []) \<and>
    (fst (bus_publish run b' topic m) = None \<longleftrightarrow>
       0 < bus_queue_size b' \<and> bus_queue_size b' \<le> int (length (contents b' topic)))"
  using busq.fifo [OF assms] busq.get_waits_iff [of b' topic] busq.put_waits_iff [of run b' topic m]
  by (simp add: has_room_def queue_full_def)

theorem bus_topics_are_fifo_witness:
  "\<exists>b'. busq.history (\<lambda>t topic m. None) (bus_init 1 :: (unit, nat) bus)
       [Put ''requests'' 7, Put ''events'' 9, Waits ''requests'', Got ''requests'' 7] b' \<and>
     contents b' ''events'' = [9] \<and> contents b' ''requests'' = [] \<and>
     fst (bus_get b' ''requests'') = None"
proof -
  let ?run = "\<lambda>(t :: unit) (topic :: string) (m :: nat). None"
  let ?es = "[Put ''requests'' 7, Put ''events'' 9, Waits ''requests'', Got ''requests'' (7 :: nat)]"
  define b where "b = (bus_init 1 :: (unit, nat) bus)"
  have b: "contents b k = []" "bus_queue_size b = 1" "bus_tracers b = []" for k
    by (simp_all add: b_def bus_init_def contents_def)
  obtain b1 where p1: "bus_publish ?run b ''requests'' 7 = (Some (Inr ()), b1)"
    "contents b1 = (contents b)(''requests'' := [7])" "bus_queue_size b1 = 1"
    by (rule bus_publish_calm [of b "''requests''" ?run 7])
      (simp_all add: b has_room_def queue_full_def)
  obtain r b2 where p2: "bus_publish ?run b1 ''events'' 9 = (Some r, b2)"
    "contents b2 = (contents b1)(''events'' := [9])" "bus_queue_size b2 = 1"
    by (rule bus_publish_room [of b1 "''events''" ?run 9])
      (use p1 b in \<open>simp_all add: has_room_def queue_full_def\<close>)
  obtain b3 where p3: "bus_publish ?run b2 ''requests'' 8 = (None, b3)" "contents b3 = contents b2"
    by (rule bus_publish_full [of b2 "''requests''" ?run 8])
      (use p1 p2 in \<open>simp_all add: has_room_def queue_full_def\<close>)
  obtain b4 where p4: "bus_get b3 ''requests'' = (Some 7, b4)"
    by (cases rule: bus_get_cases [of b3 "''requests''"]) (use p1 p2 p3 in auto)
  have h: "busq.history ?run b ?es b4"
    by (rule busq.history_Put [OF p1(1)], rule busq.history_Put [OF p2(1)],
        rule busq.history_Put_waits [OF p3(1)], rule busq.history_Got [OF p4], rule busq.history_Nil)
  from bus_topics_are_fifo [OF h, of "''events''"] bus_topics_are_fifo [OF h, of "''requests''"] b
  have "contents b4 ''events'' = [9]" "contents b4 ''requests'' = []" by simp_all
  with bus_topics_are_fifo [OF h, of "''requests''"] h show ?thesis unfolding b_def by blast
qed

text \<open>No topic ever holds more messages than the queue size: publishing to a full topic
  leaves the bus's contents as they are and the publisher waiting (\<open>None\<close>), and a message that
  was accepted has been appended, also when a tracer raises afterwards.\<close>

theorem bus_capacity_respected:
  assumes "bus_inv b" and "bus_publish run b topic m = (res, b')"
  shows "bus_inv b' \<and> bus_inv (snd (bus_get b' topic)) \<and>
    (if has_room b topic then res \<noteq> None \<and> contents b' topic = contents b topic @ [m]
     else res = None \<and> contents b' = contents b)"
proof -
  have inv: "bus_inv b'" by (rule bus_inv_publish [OF assms])
  then have "bus_inv (snd (bus_get b' topic))"
    using bus_inv_get [of b' topic] by (metis prod.collapse)
  moreover have "if has_room b topic then res \<noteq> None \<and> contents b' topic = contents b topic @ [m]
     else res = None \<and> contents b' = contents b"
    using busq.put_room [of b topic run m] busq.put_full [of b topic run m] assms(2) by auto
  ultimately show ?thesis using inv by blast
qed

theorem bus_capacity_respected_witness:
  "bus_inv (snd (bus_publish (\<lambda>t topic m. Some (RuntimeError ''tracer'')) (bus_init 1 :: (unit, nat) bus) ''events'' 5))"
proof -
  obtain r b' where "bus_publish (\<lambda>t topic m. Some (RuntimeError ''tracer''))
      (bus_init 1 :: (unit, nat) bus) ''events'' 5 = (r, b')"
    by (rule prod.exhaust)
  with bus_capacity_respected [OF bus_inv_init this] show ?thesis by simp
qed

end
