(* ===== verification/Dispatcher.thy ===== *)
theory Dispatcher
  imports Router Bus
begin

text \<open>
  \<open>modbusgw/core/dispatcher.py\<close> and the interface \<open>BackendBase\<close> of
  \<open>modbusgw/backends/base.py\<close>. A backend is its \<open>submit\<close>: it takes the routed request and
  the state \<open>'w\<close> of the outside world and of all backends, and yields the response or the
  exception raised, the request object afterwards (encoding it assigns its raw bytes, and the
  object is shared with the caller) and the new state; \<open>None\<close> when it never returns.

  The dispatcher task is a machine with one state per \<open>await\<close> of \<open>run_once\<close>: waiting for a
  message, submitting to a backend, publishing the response. A tracer or a router that raises
  ends the task.
\<close>

section \<open>The code\<close>

type_synonym 'w backend = "routed_request \<Rightarrow> 'w \<Rightarrow> (routed_response result \<times> routed_request \<times> 'w) option"

type_synonym 'w backends = "(string \<times> 'w backend) list"

datatype gateway_message =
    RequestMsg routed_request
  | ResponseMsg routed_response
  | OtherMsg pyval

definition error_response :: "routed_request \<Rightarrow> string \<Rightarrow> request \<Rightarrow> string \<Rightarrow> routed_response" where
  "error_response request backend p err =
     \<lparr>rs_context =
        \<lparr>rsc_frontend = rc_frontend (rr_context request), rsc_backend = backend,
         rsc_request_id = rc_request_id (rr_context request), rsc_metadata = []\<rparr>,
      rs_request = Some p, rs_response = None, rs_exception = None, rs_error = Some err\<rparr>"

text \<open>
  The request handed to the backend. The plan's unit of a \<open>RoutedRequest\<close> is always an int.
\<close>

definition routed_to :: "routing_plan \<Rightarrow> routed_request \<Rightarrow> routed_request" where
  "routed_to plan request =
     (case plan_unit_id plan of
        PyInt unit \<Rightarrow> if unit = unit_id (rr_pdu request) then request else routed_with_unit request unit
      | _ \<Rightarrow> request)"

text \<open>
  The object \<open>request.pdu\<close> after \<open>submit\<close>: when the request was passed on as it is, the backend
  worked on the same object.
\<close>

definition pdu_after_submit :: "routing_plan \<Rightarrow> routed_request \<Rightarrow> routed_request \<Rightarrow> request" where
  "pdu_after_submit plan request routed_after =
     (if plan_unit_id plan = PyInt (unit_id (rr_pdu request)) then rr_pdu routed_after
      else rr_pdu request)"

definition handle_request ::
  "router \<Rightarrow> 'w backends \<Rightarrow> routed_request \<Rightarrow> 'w \<Rightarrow> (routed_response result \<times> 'w) option" where
  "handle_request rules backends request w =
     (case resolve rules (routed_value request) of
        Inl e \<Rightarrow> Some (Inl e, w)
      | Inr None \<Rightarrow> Some (Inr (error_response request ''dispatcher'' (rr_pdu request) ''no_route''), w)
      | Inr (Some plan) \<Rightarrow>
          (case dict_get backends (plan_backend plan) of
             None \<Rightarrow> Some (Inr (error_response request (plan_backend plan) (rr_pdu request)
                        ''backend_not_found''), w)
           | Some submit \<Rightarrow>
               (case submit (routed_to plan request) w of
                  None \<Rightarrow> None
                | Some (Inr response, _, w') \<Rightarrow> Some (Inr response, w')
                | Some (Inl e, routed_after, w') \<Rightarrow>
                    Some (Inr (error_response request (plan_backend plan)
                       (pdu_after_submit plan request routed_after)
                       (''backend_error:'' @ exn_str e)), w'))))"

datatype dispatcher_task =
    DWaiting
  | DHandling routed_request
  | DPublishing routed_response
  | DFailed exn

record dispatcher =
  disp_task :: "dispatcher_task option"
  disp_running :: bool

definition dispatcher_init :: dispatcher where
  "dispatcher_init = \<lparr>disp_task = None, disp_running = False\<rparr>"

definition dispatcher_start :: "dispatcher \<Rightarrow> dispatcher" where
  "dispatcher_start d =
     (case disp_task d of
        Some _ \<Rightarrow> d
      | None \<Rightarrow> \<lparr>disp_task = Some DWaiting, disp_running = True\<rparr>)"

text \<open>
  \<open>stop\<close> cancels the task and awaits it: the cancellation is suppressed, but the exception of
  a task that already died is raised again, before \<open>_task\<close> is reset.
\<close>

definition dispatcher_stop :: "dispatcher \<Rightarrow> unit result \<times> dispatcher" where
  "dispatcher_stop d =
     (let d1 = d\<lparr>disp_running := False\<rparr> in
      case disp_task d of
        None \<Rightarrow> (Inr (), d1)
      | Some (DFailed e) \<Rightarrow> (Inl e, d1)
      | Some _ \<Rightarrow> (Inr (), d1\<lparr>disp_task := None\<rparr>))"

text \<open>
  One step of the task: \<open>None\<close> when it is suspended (no message, a backend that does not
  return, a full queue) or over.
\<close>

definition dispatcher_step ::
  "('t \<Rightarrow> string \<Rightarrow> gateway_message \<Rightarrow> exn option) \<Rightarrow> router \<Rightarrow> 'w backends \<Rightarrow>
   dispatcher_task \<Rightarrow> ('t, gateway_message) bus \<Rightarrow> 'w \<Rightarrow>
   (dispatcher_task \<times> ('t, gateway_message) bus \<times> 'w) option" where
  "dispatcher_step run_tracer rules backends task b w =
     (case task of
        DWaiting \<Rightarrow>
          (case bus_get b ''requests'' of
             (None, _) \<Rightarrow> None
           | (Some (RequestMsg request), b') \<Rightarrow> Some (DHandling request, b', w)
           | (Some _, b') \<Rightarrow>
               Some (DFailed (TypeError ''Dispatcher expects RoutedRequest objects on the bus''), b', w))
      | DHandling request \<Rightarrow>
          (case handle_request rules backends request w of
             None \<Rightarrow> None
           | Some (Inl e, w') \<Rightarrow> Some (DFailed e, b, w')
           | Some (Inr response, w') \<Rightarrow> Some (DPublishing response, b, w'))
      | DPublishing response \<Rightarrow>
          (case bus_publish run_tracer b ''responses'' (ResponseMsg response) of
             (None, _) \<Rightarrow> None
           | (Some (Inl e), b') \<Rightarrow> Some (DFailed e, b', w)
           | (Some (Inr _), b') \<Rightarrow> Some (DWaiting, b', w))
      | DFailed e \<Rightarrow> None)"

section \<open>Specification: every request is answered once, under its own name\<close>

definition answers :: "routed_response \<Rightarrow> routed_request \<Rightarrow> bool" where
  "answers response request \<longleftrightarrow>
     rsc_frontend (rs_context response) = rc_frontend (rr_context request) \<and>
     rsc_request_id (rs_context response) = rc_request_id (rr_context request)"

text \<open>
  A successful answer names its backend and holds exactly one of a response and an exception
  response; a failure holds an error text and neither.
\<close>

definition proper_answer :: "string \<Rightarrow> routed_response \<Rightarrow> bool" where
  "proper_answer backend response \<longleftrightarrow>
     rsc_backend (rs_context response) = backend \<and> rs_error response = None \<and>
     (rs_response response = None) \<noteq> (rs_exception response = None)"

definition failure_answer :: "routed_response \<Rightarrow> bool" where
  "failure_answer response \<longleftrightarrow>
     rs_error response \<noteq> None \<and> rs_response response = None \<and> rs_exception response = None"

lemma routed_to_context [simp]: "rr_context (routed_to plan request) = rr_context request"
  by (auto simp: routed_to_def routed_with_unit_def split: pyval.splits)

lemma routed_to_body [simp]: "body (rr_pdu (routed_to plan request)) = body (rr_pdu request)"
  by (auto simp: routed_to_def routed_with_unit_def with_unit_def split: pyval.splits)

lemma routed_to_unit:
  "plan_unit_id plan = PyInt unit \<Longrightarrow> unit_id (rr_pdu (routed_to plan request)) = unit"
  by (simp add: routed_to_def routed_with_unit_def with_unit_def)

text \<open>
  What the dispatcher relies on: from a state that satisfies the invariant \<open>ok\<close> a submit returns
  and keeps it, a response is tagged with the frontend and request identifier of the request,
  and the request object keeps its content.
\<close>

locale backend_contract =
  fixes submit :: "'w backend" and name :: string and ok :: "'w \<Rightarrow> bool"
  assumes submit_returns: "ok w \<Longrightarrow>
      \<exists>res routed' w'. submit routed w = Some (res, routed', w') \<and> ok w'"
    and submit_tagged: "submit routed w = Some (Inr response, routed', w') \<Longrightarrow>
      answers response routed \<and> proper_answer name response"
    and submit_keeps_request: "submit routed w = Some (res, routed', w') \<Longrightarrow>
      rr_context routed' = rr_context routed \<and> body (rr_pdu routed') = body (rr_pdu routed) \<and>
      unit_id (rr_pdu routed') = unit_id (rr_pdu routed)"
begin

text \<open>For the dispatcher: what was submitted under a plan answers the original request.\<close>

lemma submitted_answers:
  assumes "submit (routed_to plan request) w = Some (Inr response, routed', w')"
  shows "answers response request" "proper_answer name response"
  using submit_tagged [OF assms] by (simp_all add: answers_def)

lemma submitted_pdu:
  assumes "submit (routed_to plan request) w = Some (res, routed', w')"
  shows "body (pdu_after_submit plan request routed') = body (rr_pdu request)"
    "unit_id (pdu_after_submit plan request routed') = unit_id (rr_pdu request)"
  using submit_keeps_request [OF assms]
  by (auto simp: pdu_after_submit_def routed_to_def)

end

definition backends_ok :: "('w \<Rightarrow> bool) \<Rightarrow> 'w backends \<Rightarrow> bool" where
  "backends_ok ok backends \<longleftrightarrow> (\<forall>(name, submit) \<in> set backends. backend_contract submit name ok)"

section \<open>Lemmas\<close>

lemma answers_error [simp]: "answers (error_response request backend p err) request"
  by (simp add: answers_def error_response_def)

lemma failure_error [simp]: "failure_answer (error_response request backend p err)"
  by (simp add: failure_answer_def error_response_def)

lemma backends_ok_get:
  "backends_ok ok backends \<Longrightarrow> dict_get backends name = Some submit \<Longrightarrow>
     backend_contract submit name ok"
  by (auto simp: backends_ok_def dest!: map_of_SomeD)

text \<open>The ways a request can be handled.\<close>

lemma handle_request_cases:
  obtains
    (raised) e where "resolve rules (routed_value request) = Inl e"
      "handle_request rules backends request w = Some (Inl e, w)"
  | (no_route) "resolve rules (routed_value request) = Inr None"
      "handle_request rules backends request w =
         Some (Inr (error_response request ''dispatcher'' (rr_pdu request) ''no_route''), w)"
  | (not_found) plan where "resolve rules (routed_value request) = Inr (Some plan)"
      "dict_get backends (plan_backend plan) = None"
      "handle_request rules backends request w =
         Some (Inr (error_response request (plan_backend plan) (rr_pdu request) ''backend_not_found''), w)"
  | (suspended) plan submit where "resolve rules (routed_value request) = Inr (Some plan)"
      "dict_get backends (plan_backend plan) = Some submit"
      "submit (routed_to plan request) w = None"
      "handle_request rules backends request w = None"
  | (failed) plan submit e routed' w' where "resolve rules (routed_value request) = Inr (Some plan)"
      "dict_get backends (plan_backend plan) = Some submit"
      "submit (routed_to plan request) w = Some (Inl e, routed', w')"
      "handle_request rules backends request w =
         Some (Inr (error_response request (plan_backend plan) (pdu_after_submit plan request routed')
           (''backend_error:'' @ exn_str e)), w')"
  | (answered) plan submit response routed' w'
    where "resolve rules (routed_value request) = Inr (Some plan)"
      "dict_get backends (plan_backend plan) = Some submit"
      "submit (routed_to plan request) w = Some (Inr response, routed', w')"
      "handle_request rules backends request w = Some (Inr response, w')"
proof (cases "resolve rules (routed_value request)")
  case (Inl e)
  then show thesis by (intro raised) (simp_all add: handle_request_def)
next
  case (Inr p)
  show thesis
  proof (cases p)
    case None
    with Inr show thesis by (intro no_route) (simp_all add: handle_request_def)
  next
    case (Some plan)
    show thesis
    proof (cases "dict_get backends (plan_backend plan)")
      case None
      with Inr Some show thesis by (intro not_found) (simp_all add: handle_request_def)
    next
      case (Some submit)
      show thesis
      proof (cases "submit (routed_to plan request) w")
        case None
        with Inr \<open>p = Some plan\<close> Some show thesis
          by (intro suspended [of plan submit]) (simp_all add: handle_request_def)
      next
        case (Some out)
        obtain res routed' w' where out: "out = (res, routed', w')" by (rule prod_cases3)
        show thesis
          by (cases res)
            (use Inr \<open>p = Some plan\<close> \<open>dict_get backends (plan_backend plan) = Some submit\<close> Some out
              failed answered in \<open>auto simp: handle_request_def\<close>)
      qed
    qed
  qed
qed

lemma handle_request_answers:
  assumes "backends_ok ok backends" and "handle_request rules backends request w = Some (Inr response, w')"
  shows "answers response request"
proof (cases rule: handle_request_cases [of rules request backends w])
  case (answered plan submit response' routed' w'')
  from backend_contract.submitted_answers(1) [OF backends_ok_get [OF assms(1) answered(2)] answered(3)]
  show ?thesis using answered(4) assms(2) by simp
qed (use assms(2) in auto)

lemma handle_request_returns:
  assumes "backends_ok ok backends" and "ok w"
  shows "\<exists>res w'. handle_request rules backends request w = Some (res, w') \<and> ok w'"
proof (cases rule: handle_request_cases [of rules request backends w])
  case (suspended plan submit)
  from backend_contract.submit_returns [OF backends_ok_get [OF assms(1) suspended(2)] assms(2)]
  show ?thesis using suspended(3) by (metis option.distinct(1))
next
  case (failed plan submit e routed' w')
  from backend_contract.submit_returns [OF backends_ok_get [OF assms(1) failed(2)] assms(2),
      of "routed_to plan request"] failed
  show ?thesis by auto
next
  case (answered plan submit response routed' w')
  from backend_contract.submit_returns [OF backends_ok_get [OF assms(1) answered(2)] assms(2),
      of "routed_to plan request"] answered
  show ?thesis by auto
qed (use assms(2) in auto)

section \<open>The dispatcher among the other tasks\<close>

text \<open>
  Any other task may change the bus and the world between two steps of the dispatcher. The
  ghost fields record what each step of the dispatcher did to the bus: the requests that left
  the head of the topic \<open>requests\<close> and the responses that were appended to \<open>responses\<close>.
\<close>

record ('t, 'w) disp_sys =
  ds_task :: dispatcher_task
  ds_bus :: "('t, gateway_message) bus"
  ds_world :: 'w
  ds_got :: "routed_request list"
  ds_sent :: "routed_response list"

fun requests_in :: "gateway_message list \<Rightarrow> routed_request list" where
  "requests_in [] = []"
| "requests_in (RequestMsg request # ms) = request # requests_in ms"
| "requests_in (_ # ms) = requests_in ms"

fun responses_in :: "gateway_message list \<Rightarrow> routed_response list" where
  "responses_in [] = []"
| "responses_in (ResponseMsg response # ms) = response # responses_in ms"
| "responses_in (_ # ms) = responses_in ms"

definition taken_from :: "('t, gateway_message) bus \<Rightarrow> ('t, gateway_message) bus \<Rightarrow> routed_request list" where
  "taken_from b b' = requests_in
     (take (length (contents b ''requests'') - length (contents b' ''requests'')) (contents b ''requests''))"

definition published_to :: "('t, gateway_message) bus \<Rightarrow> ('t, gateway_message) bus \<Rightarrow> routed_response list" where
  "published_to b b' = responses_in
     (drop (length (contents b ''responses'')) (contents b' ''responses''))"

lemma bus_kept [simp]: "taken_from b b = []" "published_to b b = []"
  by (simp_all add: taken_from_def published_to_def)

lemma bus_get_observed:
  assumes "bus_get b ''requests'' = (Some m, b')"
  shows "taken_from b b' = requests_in [m]" "published_to b b' = []"
proof -
  obtain ms where "contents b ''requests'' = m # ms" "contents b' = (contents b)(''requests'' := ms)"
    using busq.get_Some_items(1) [OF assms] busq.get_Some_items(2) [OF assms] by (metis list.sel(3))
  then show "taken_from b b' = requests_in [m]" "published_to b b' = []"
    by (simp_all add: taken_from_def published_to_def)
qed

lemma bus_publish_observed:
  assumes "bus_publish run_tracer b ''responses'' (ResponseMsg response) = (Some r, b')"
  shows "taken_from b b' = []" "published_to b b' = [response]"
  using busq.put_Some_items(2) [OF assms] by (simp_all add: taken_from_def published_to_def)

inductive disp_reachable ::
  "('t \<Rightarrow> string \<Rightarrow> gateway_message \<Rightarrow> exn option) \<Rightarrow> router \<Rightarrow> 'w backends \<Rightarrow>
   ('t, 'w) disp_sys \<Rightarrow> bool" for run_tracer rules backends where
  disp_start: "disp_reachable run_tracer rules backends
     \<lparr>ds_task = DWaiting, ds_bus = b, ds_world = w, ds_got = [], ds_sent = []\<rparr>"
| disp_others: "disp_reachable run_tracer rules backends s \<Longrightarrow>
     disp_reachable run_tracer rules backends (s\<lparr>ds_bus := b, ds_world := w\<rparr>)"
| disp_step: "disp_reachable run_tracer rules backends s \<Longrightarrow>
     dispatcher_step run_tracer rules backends (ds_task s) (ds_bus s) (ds_world s) =
       Some (task', b', w') \<Longrightarrow>
     disp_reachable run_tracer rules backends
       \<lparr>ds_task = task', ds_bus = b', ds_world = w', ds_got = ds_got s @ taken_from (ds_bus s) b',
        ds_sent = ds_sent s @ published_to (ds_bus s) b'\<rparr>"

inductive_cases disp_reachableE: "disp_reachable run_tracer rules backends s"

text \<open>The shapes of a step.\<close>

lemma dispatcher_step_cases:
  assumes "dispatcher_step run_tracer rules backends task b w = Some (task', b', w')"
  obtains (took) request where "task = DWaiting" "bus_get b ''requests'' = (Some (RequestMsg request), b')"
      "task' = DHandling request" "w' = w"
  | (alien) m e where "task = DWaiting" "bus_get b ''requests'' = (Some m, b')" "requests_in [m] = []"
      "task' = DFailed e" "w' = w"
  | (handled) request response where "task = DHandling request"
      "handle_request rules backends request w = Some (Inr response, w')"
      "task' = DPublishing response" "b' = b"
  | (raised) request e where "task = DHandling request"
      "handle_request rules backends request w = Some (Inl e, w')" "task' = DFailed e" "b' = b"
  | (published) response r where "task = DPublishing response"
      "bus_publish run_tracer b ''responses'' (ResponseMsg response) = (Some r, b')"
      "task' = (case r of Inl e \<Rightarrow> DFailed e | Inr _ \<Rightarrow> DWaiting)" "w' = w"
proof (cases task)
  case DWaiting
  with assms that(1,2) show thesis
    by (auto simp: dispatcher_step_def split: prod.splits option.splits gateway_message.splits)
next
  case (DHandling request)
  with assms that(3,4) show thesis
    by (auto simp: dispatcher_step_def split: prod.splits sum.splits option.splits)
next
  case (DPublishing response)
  with assms that(5) show thesis
    by (auto simp: dispatcher_step_def split: prod.splits option.splits sum.splits)
next
  case (DFailed e)
  with assms show thesis by (simp add: dispatcher_step_def)
qed

fun in_order :: "dispatcher_task \<Rightarrow> routed_response list \<Rightarrow> routed_request list \<Rightarrow> bool" where
  "in_order DWaiting sent got \<longleftrightarrow> list_all2 answers sent got"
| "in_order (DHandling request) sent got \<longleftrightarrow>
     (\<exists>before. got = before @ [request] \<and> list_all2 answers sent before)"
| "in_order (DPublishing response) sent got \<longleftrightarrow>
     (\<exists>before request. got = before @ [request] \<and> answers response request \<and>
        list_all2 answers sent before)"
| "in_order (DFailed e) sent got \<longleftrightarrow>
     (\<exists>before after. got = before @ after \<and> length after \<le> 1 \<and> list_all2 answers sent before)"

lemma in_order_failedI:
  assumes "got = before @ after" and "length after \<le> 1" and "list_all2 answers sent before"
  shows "in_order (DFailed e) sent got"
  using assms by (simp only: in_order.simps) blast

lemma disp_reachable_in_order:
  assumes "backends_ok ok backends"
  shows "disp_reachable run_tracer rules backends s \<Longrightarrow> in_order (ds_task s) (ds_sent s) (ds_got s)"
proof (induction rule: disp_reachable.induct)
  case (disp_step s task' b' w')
  from disp_step.hyps(2) show ?case
  proof (cases rule: dispatcher_step_cases)
    case (took request)
    with disp_step.IH show ?thesis by (simp add: bus_get_observed)
  next
    case (alien m e)
    then have "in_order task' (ds_sent s) (ds_got s)"
      using disp_step.IH in_order_failedI [of "ds_got s" "ds_got s" "[]" "ds_sent s" e] by simp
    with alien show ?thesis by (simp add: bus_get_observed)
  next
    case (handled request response)
    with disp_step.IH handle_request_answers [OF assms handled(2)] show ?thesis by auto
  next
    case (raised request e)
    with disp_step.IH obtain before where b: "ds_got s = before @ [request]"
      "list_all2 answers (ds_sent s) before" by auto
    then have "in_order (DFailed e) (ds_sent s) (ds_got s)"
      by (intro in_order_failedI [of _ before "[request]"]) simp_all
    with raised show ?thesis by simp
  next
    case (published response r)
    with disp_step.IH obtain before request where "ds_got s = before @ [request]"
      "answers response request" "list_all2 answers (ds_sent s) before"
      by auto
    then have "list_all2 answers (ds_sent s @ [response]) (ds_got s)"
      by (simp add: list_all2_appendI)
    then have "in_order task' (ds_sent s @ [response]) (ds_got s)"
      using published(3) in_order_failedI [of "ds_got s" "ds_got s" "[]"] by (cases r) simp_all
    with published show ?thesis by (simp add: bus_publish_observed)
  qed
qed simp_all

lemma in_order_imp:
  assumes "in_order task sent got"
  shows "length sent \<le> length got \<and> length got \<le> length sent + 1 \<and>
    list_all2 answers sent (take (length sent) got)"
proof -
  obtain before after where "got = before @ after" "length after \<le> 1" "list_all2 answers sent before"
  proof (cases task)
    case DWaiting
    with assms that [of got "[]"] show thesis by simp
  qed (use assms that in auto)
  moreover from this(3) have "length sent = length before" by (rule list_all2_lengthD)
  ultimately show ?thesis by simp
qed


section \<open>Properties\<close>

text \<open>A request of a registered class is always answered, by exactly one response tagged
  with its frontend and request identifier, and routing decides which: no admitting rule gives
  \<open>no_route\<close>, a rule naming an unknown backend gives \<open>backend_not_found\<close>, and otherwise the
  backend of the first admitting rule answers, or its exception is reported as
  \<open>backend_error:\<close> and its text.\<close>

theorem dispatcher_answers_request:
  assumes "request_register (body (rr_pdu request)) = PyInt a" and "backends_ok ok backends" and "ok w"
  shows "\<exists>response w'. handle_request rules backends request w = Some (Inr response, w') \<and> ok w' \<and>
    answers response request \<and>
    (case find (\<lambda>rule. rule_admits rule request) rules of
       None \<Rightarrow> failure_answer response \<and> rs_error response = Some ''no_route'' \<and> w' = w
     | Some rule \<Rightarrow>
         (case dict_get backends (rule_backend rule) of
            None \<Rightarrow> failure_answer response \<and> rs_error response = Some ''backend_not_found'' \<and> w' = w
          | Some submit \<Rightarrow> proper_answer (rule_backend rule) response \<or>
              (\<exists>e. failure_answer response \<and> rs_error response = Some (''backend_error:'' @ exn_str e))))"
proof -
  have plan: "\<exists>rule. find (\<lambda>rule. rule_admits rule request) rules = Some rule \<and>
      plan_backend plan = rule_backend rule"
    if "resolve rules (routed_value request) = Inr (Some plan)" for plan
    using that resolve_find [of rules "routed_value request" "\<lambda>rule. rule_admits rule request"]
    by (auto simp: rule_matches_typed [OF assms(1)] make_plan_def)
  have res: "resolve rules (routed_value request) =
      Inr (map_option (\<lambda>rule. make_plan rule (routed_value request))
        (find (\<lambda>rule. rule_admits rule request) rules))"
    by (rule resolve_find) (simp add: rule_matches_typed [OF assms(1)])
  from handle_request_returns [OF assms(2,3), of rules request]
  obtain r w' where h: "handle_request rules backends request w = Some (r, w')" "ok w'"
    by blast
  show ?thesis
  proof (cases rule: handle_request_cases [of rules request backends w])
    case (raised e)
    with res show ?thesis by simp
  next
    case no_route
    with res h show ?thesis by (auto simp: error_response_def answers_def failure_answer_def)
  next
    case (not_found p)
    with plan [OF not_found(1)] h show ?thesis
      by (auto simp: error_response_def answers_def failure_answer_def)
  next
    case (suspended p submit)
    with h show ?thesis by simp
  next
    case (failed p submit e routed' w'')
    with plan [OF failed(1)] h show ?thesis
      by (auto simp: error_response_def answers_def failure_answer_def)
  next
    case (answered p submit response routed' w'')
    have "backend_contract submit (plan_backend p) ok"
      using backends_ok_get [OF assms(2) answered(2)] .
    with backend_contract.submitted_answers [OF this answered(3)] plan [OF answered(1)] answered h
    show ?thesis by auto
  qed
qed

text \<open>A backend for the witnesses: it answers every request with the registers it holds.\<close>

definition echo_backend :: "string \<Rightarrow> int list backend" where
  "echo_backend name routed regs =
     Some (Inr \<lparr>rs_context =
         \<lparr>rsc_frontend = rc_frontend (rr_context routed), rsc_backend = name,
          rsc_request_id = rc_request_id (rr_context routed), rsc_metadata = []\<rparr>,
       rs_request = Some (rr_pdu routed),
       rs_response = Some (new_pdu (unit_id (rr_pdu routed)) (ReadHoldingRegistersResponse regs)),
       rs_exception = None, rs_error = None\<rparr>, routed, regs)"

interpretation echo: backend_contract "echo_backend name" name "\<lambda>regs. True" for name
  by unfold_locales (auto simp: echo_backend_def answers_def proper_answer_def)

lemma backends_ok_echo: "backends_ok (\<lambda>regs. True) [(name, echo_backend name)]"
  by (simp add: backends_ok_def echo.backend_contract_axioms)

theorem dispatcher_answers_request_witness:
  "\<exists>response w'. handle_request [rule_to ''plc'' ''line'' any_match] [(''line'', echo_backend ''line'')]
       (request_on ''plc'' (new_pdu 1 (ReadHoldingRegistersRequest 0 2))) [7, 8] = Some (Inr response, w') \<and>
     rsc_frontend (rs_context response) = ''plc'' \<and>
     (proper_answer ''line'' response \<or>
       (\<exists>e. failure_answer response \<and> rs_error response = Some (''backend_error:'' @ exn_str e)))"
proof -
  define r where "r = request_on ''plc'' (new_pdu 1 (ReadHoldingRegistersRequest 0 2))"
  define rule where "rule = rule_to ''plc'' ''line'' any_match"
  have reg: "request_register (body (rr_pdu r)) = PyInt 0" and ctx: "rc_frontend (rr_context r) = ''plc''"
    and backend: "rule_backend rule = ''line''" and "rule_admits rule r"
    by (simp_all add: r_def request_on_def new_pdu_def rule_def rule_to_def any_match_def
        rule_admits_def pattern_admits_def)
  then have find: "find (\<lambda>rule. rule_admits rule r) [rule] = Some rule" by simp
  have get: "dict_get [(''line'', echo_backend ''line'')] ''line'' = Some (echo_backend ''line'')"
    by simp
  note answered = dispatcher_answers_request
    [OF reg backends_ok_echo [of "''line''"] TrueI, of "[rule]" "[7, 8]",
     unfolded find option.case backend get answers_def ctx]
  then obtain response w' where
    "handle_request [rule] [(''line'', echo_backend ''line'')] r [7, 8] = Some (Inr response, w')"
    "rsc_frontend (rs_context response) = ''plc''"
    "proper_answer ''line'' response \<or>
       (\<exists>e. failure_answer response \<and> rs_error response = Some (''backend_error:'' @ exn_str e))"
    by (elim exE conjE)
  then show ?thesis unfolding r_def rule_def by (intro exI conjI)
qed

text \<open>C5. Whatever other tasks do to the bus in between, the responses the dispatcher appends to
  the topic \<open>responses\<close> follow the order in which it took the requests from \<open>requests\<close>, one per
  request and each tagged with that request's frontend and identifier; at most one request taken
  is unanswered, and none when the dispatcher waits for the next message.\<close>

theorem dispatcher_responses_in_order:
  assumes "backends_ok ok backends" and "disp_reachable run_tracer rules backends s"
  shows "list_all2 answers (ds_sent s) (take (length (ds_sent s)) (ds_got s)) \<and>
    length (ds_sent s) \<le> length (ds_got s) \<and> length (ds_got s) \<le> length (ds_sent s) + 1 \<and>
    (ds_task s = DWaiting \<longrightarrow> list_all2 answers (ds_sent s) (ds_got s))"
  using in_order_imp [OF disp_reachable_in_order [OF assms]] disp_reachable_in_order [OF assms] by auto

theorem dispatcher_responses_in_order_witness:
  "\<exists>s :: (unit, int list) disp_sys.
     disp_reachable (\<lambda>t topic m. None) [] [(''line'', echo_backend ''line'')] s \<and>
     ds_task s = DWaiting \<and> length (ds_got s) = 1 \<and> list_all2 answers (ds_sent s) (ds_got s)"
proof -
  define r where "r = request_on ''plc'' (new_pdu 1 (ReadCoilsRequest 0 2))"
  define b :: "(unit, gateway_message) bus" where "b = \<lparr>bus_queue_size = 1, bus_topics = [(''requests'', [RequestMsg r])],
      bus_tracers = [], bus_traced = []\<rparr>"
  let ?bk = "[(''line'', echo_backend ''line'')]"
  let ?run = "\<lambda>(t :: unit) topic m. None"
  let ?err = "error_response r ''dispatcher'' (rr_pdu r) ''no_route''"
  have r0: "disp_reachable ?run [] ?bk
      \<lparr>ds_task = DWaiting, ds_bus = b, ds_world = [], ds_got = [], ds_sent = []\<rparr>"
    by (rule disp_start)
  have c: "contents b ''requests'' = [RequestMsg r]" "contents b ''responses'' = []"
    "bus_queue_size b = 1"
    by (simp_all add: contents_def b_def)
  obtain b1 where b1: "bus_get b ''requests'' = (Some (RequestMsg r), b1)"
    "contents b1 = (contents b)(''requests'' := [])" "bus_queue_size b1 = 1"
    by (cases rule: bus_get_cases [of b "''requests''"]) (use c in auto)
  then have step: "dispatcher_step ?run [] ?bk DWaiting b [] = Some (DHandling r, b1, [])"
    by (simp add: dispatcher_step_def)
  have r1: "disp_reachable ?run [] ?bk
      \<lparr>ds_task = DHandling r, ds_bus = b1, ds_world = [], ds_got = [r], ds_sent = []\<rparr>"
    using disp_step [OF r0, of "DHandling r" b1 "[]"] step by (simp add: bus_get_observed [OF b1(1)])
  have r2: "disp_reachable ?run [] ?bk
      \<lparr>ds_task = DPublishing ?err, ds_bus = b1, ds_world = [], ds_got = [r], ds_sent = []\<rparr>"
    using disp_step [OF r1, of "DPublishing ?err" b1 "[]"]
    by (simp add: dispatcher_step_def handle_request_def)
  have "has_room b1 ''responses''" using b1 c by (simp add: has_room_def queue_full_def)
  then obtain b2 where b2: "bus_publish ?run b1 ''responses'' (ResponseMsg ?err) = (Some (Inr ()), b2)"
    by (rule bus_publish_calm) simp_all
  have r3: "disp_reachable ?run [] ?bk
      \<lparr>ds_task = DWaiting, ds_bus = b2, ds_world = [], ds_got = [r], ds_sent = [?err]\<rparr>"
    (is "disp_reachable _ _ _ ?s")
    using disp_step [OF r2, of DWaiting b2 "[]"] b2
    by (simp add: dispatcher_step_def bus_publish_observed [OF b2])
  from dispatcher_responses_in_order [OF backends_ok_echo r3] r3
  show ?thesis by (intro exI [of _ ?s]) simp
qed


fun dispatcher_steps ::
  "nat \<Rightarrow> ('t \<Rightarrow> string \<Rightarrow> gateway_message \<Rightarrow> exn option) \<Rightarrow> router \<Rightarrow> 'w backends \<Rightarrow>
   dispatcher_task \<Rightarrow> ('t, gateway_message) bus \<Rightarrow> 'w \<Rightarrow>
   (dispatcher_task \<times> ('t, gateway_message) bus \<times> 'w) option" where
  "dispatcher_steps 0 run_tracer rules backends task b w = Some (task, b, w)"
| "dispatcher_steps (Suc n) run_tracer rules backends task b w =
     (case dispatcher_step run_tracer rules backends task b w of
        None \<Rightarrow> None
      | Some (task', b', w') \<Rightarrow> dispatcher_steps n run_tracer rules backends task' b' w')"

lemma dispatcher_three_steps:
  assumes "contents b ''requests'' = RequestMsg request # rest"
    and "handle_request rules backends request w = Some (Inr response, w')"
    and "has_room b ''responses''" and "\<And>t m. run_tracer t ''responses'' m = None"
  obtains b' where "dispatcher_steps 3 run_tracer rules backends DWaiting b w = Some (DWaiting, b', w')"
    "contents b' = (contents b)(''requests'' := rest,
       ''responses'' := contents b ''responses'' @ [ResponseMsg response])"
proof -
  obtain b1 where g: "bus_get b ''requests'' = (Some (RequestMsg request), b1)"
    "contents b1 = (contents b)(''requests'' := rest)" "bus_queue_size b1 = bus_queue_size b"
    by (cases rule: bus_get_cases [of b "''requests''"]) (use assms(1) in auto)
  have "has_room b1 ''responses''" using assms(3) g by (simp add: has_room_def)
  then obtain b2 where p: "bus_publish run_tracer b1 ''responses'' (ResponseMsg response) = (Some (Inr ()), b2)"
    "contents b2 = (contents b1)(''responses'' := contents b1 ''responses'' @ [ResponseMsg response])"
    by (rule bus_publish_calm) (rule assms(4))
  have "dispatcher_steps 3 run_tracer rules backends DWaiting b w = Some (DWaiting, b2, w')"
    by (simp add: numeral_3_eq_3 dispatcher_step_def g(1) assms(2) p(1))
  with g(2) p(2) show thesis by (intro that [of b2]) simp_all
qed

text \<open>C6. The dispatcher makes progress: from the waiting state, with a request of a registered
  class at the head of the requests, room on the responses and tracers that do not raise, three
  steps bring it back to waiting, with that request consumed and exactly one answer to it
  appended to the responses.\<close>

theorem dispatcher_serves_request:
  assumes "contents b ''requests'' = RequestMsg request # rest"
    and "request_register (body (rr_pdu request)) = PyInt a" and "backends_ok ok backends" and "ok w"
    and "has_room b ''responses''" and "\<And>t m. run_tracer t ''responses'' m = None"
  shows "\<exists>response b' w'. dispatcher_steps 3 run_tracer rules backends DWaiting b w =
      Some (DWaiting, b', w') \<and> ok w' \<and> answers response request \<and>
    contents b' ''requests'' = rest \<and>
    contents b' ''responses'' = contents b ''responses'' @ [ResponseMsg response]"
proof -
  have res: "resolve rules (routed_value request) =
      Inr (map_option (\<lambda>rule. make_plan rule (routed_value request))
        (find (\<lambda>rule. rule_admits rule request) rules))"
    by (rule resolve_find) (simp add: rule_matches_typed [OF assms(2)])
  obtain response w' where h: "handle_request rules backends request w = Some (Inr response, w')" "ok w'"
    using handle_request_returns [OF assms(3,4), of rules request]
    by (cases rule: handle_request_cases [of rules request backends w]) (use res in auto)
  obtain b' where "dispatcher_steps 3 run_tracer rules backends DWaiting b w = Some (DWaiting, b', w')"
    "contents b' = (contents b)(''requests'' := rest,
       ''responses'' := contents b ''responses'' @ [ResponseMsg response])"
    by (rule dispatcher_three_steps [where run_tracer = run_tracer, OF assms(1) h(1) assms(5,6)])
  moreover have "answers response request" by (rule handle_request_answers [OF assms(3) h(1)])
  ultimately show ?thesis using h(2) by auto
qed

theorem dispatcher_serves_request_witness:
  "\<exists>response b' w'. dispatcher_steps 3 (\<lambda>(t :: unit) topic m. None) [] [] DWaiting
      \<lparr>bus_queue_size = 1,
       bus_topics = [(''requests'', [RequestMsg (request_on ''plc'' (new_pdu 1 (ReadCoilsRequest 0 2)))])],
       bus_tracers = [], bus_traced = []\<rparr> () = Some (DWaiting, b', w') \<and>
     contents b' ''responses'' = [ResponseMsg response]"
proof -
  define r where "r = request_on ''plc'' (new_pdu 1 (ReadCoilsRequest 0 2))"
  define b :: "(unit, gateway_message) bus" where "b = \<lparr>bus_queue_size = 1, bus_topics = [(''requests'', [RequestMsg r])],
      bus_tracers = [], bus_traced = []\<rparr>"
  have "contents b ''requests'' = RequestMsg r # []" "contents b ''responses'' = []"
    "request_register (body (rr_pdu r)) = PyInt 0" "backends_ok (\<lambda>w. True) ([] :: unit backends)"
    "has_room b ''responses''"
    by (simp_all add: b_def r_def contents_def request_on_def new_pdu_def backends_ok_def
        has_room_def queue_full_def)
  with dispatcher_serves_request [of b r "[]" 0 "\<lambda>w. True" "[] :: unit backends" "()" "\<lambda>(t :: unit) topic m. None" "[]"]
  show ?thesis unfolding b_def r_def by auto
qed

end
