(* ===== verification/Responder.thy ===== *)
theory Responder
  imports Dispatcher
begin

text \<open>
  \<open>modbusgw/core/responder.py\<close> and the interface \<open>FrontendBase\<close> of
  \<open>modbusgw/frontends/base.py\<close>: the task that takes responses from the bus and hands each to
  the frontend it names. A frontend is its state \<open>'f\<close>; \<open>handle\<close> is \<open>handle_response\<close>, which
  may raise (the responder logs it and goes on).
\<close>

section \<open>The code\<close>

type_synonym 'f frontend_handler = "'f \<Rightarrow> routed_response \<Rightarrow> unit result \<times> 'f"

datatype responder_task = RWaiting | RDelivering string routed_response

record responder =
  resp_task :: "responder_task option"
  resp_running :: bool

definition responder_init :: responder where
  "responder_init = \<lparr>resp_task = None, resp_running = False\<rparr>"

definition responder_start :: "responder \<Rightarrow> responder" where
  "responder_start r =
     (case resp_task r of
        Some _ \<Rightarrow> r
      | None \<Rightarrow> \<lparr>resp_task = Some RWaiting, resp_running = True\<rparr>)"

definition responder_stop :: "responder \<Rightarrow> responder" where
  "responder_stop r = r\<lparr>resp_running := False, resp_task := None\<rparr>"

text \<open>
  One step of \<open>_run\<close>: take a message, skipping what is no response or names no frontend, or
  deliver the response taken. \<open>None\<close>: suspended on the empty queue.
\<close>

definition responder_step ::
  "'f frontend_handler \<Rightarrow> responder_task \<Rightarrow> ('t, gateway_message) bus \<Rightarrow> (string \<times> 'f) list \<Rightarrow>
   (responder_task \<times> ('t, gateway_message) bus \<times> (string \<times> 'f) list) option" where
  "responder_step handle task b frontends =
     (case task of
        RWaiting \<Rightarrow>
          (case bus_get b ''responses'' of
             (None, _) \<Rightarrow> None
           | (Some (ResponseMsg message), b') \<Rightarrow>
               (case dict_get frontends (rsc_frontend (rs_context message)) of
                  None \<Rightarrow> Some (RWaiting, b', frontends)
                | Some _ \<Rightarrow>
                    Some (RDelivering (rsc_frontend (rs_context message)) message, b', frontends))
           | (Some _, b') \<Rightarrow> Some (RWaiting, b', frontends))
      | RDelivering name message \<Rightarrow>
          (case dict_get frontends name of
             None \<Rightarrow> Some (RWaiting, b, frontends)
           | Some f \<Rightarrow> (case handle f message of
                         (_, f') \<Rightarrow> Some (RWaiting, b, dict_set name f' frontends))))"

section \<open>Lemmas\<close>

lemma responder_step_take:
  assumes "contents b ''responses'' = m # rest"
  shows "\<exists>task' b'. responder_step handle RWaiting b frontends = Some (task', b', frontends) \<and>
    contents b' = (contents b)(''responses'' := rest) \<and>
    task' = (case m of
        ResponseMsg message \<Rightarrow>
          if dict_get frontends (rsc_frontend (rs_context message)) = None then RWaiting
          else RDelivering (rsc_frontend (rs_context message)) message
      | _ \<Rightarrow> RWaiting)"
proof (cases rule: bus_get_cases [of b "''responses''"])
  case (2 m' ms b')
  with assms show ?thesis
    by (auto simp: responder_step_def split: gateway_message.splits option.splits)
qed (use assms in simp)

lemma responder_step_deliver:
  "\<exists>frontends'. responder_step handle (RDelivering name message) b frontends = Some (RWaiting, b, frontends') \<and>
     dict_get frontends' = (case dict_get frontends name of
         None \<Rightarrow> dict_get frontends
       | Some f \<Rightarrow> (dict_get frontends)(name \<mapsto> snd (handle f message)))"
  by (cases "dict_get frontends name") (auto simp: responder_step_def split: prod.splits)

text \<open>The shapes of a step.\<close>

lemma responder_step_cases:
  assumes "responder_step handle task b frontends = Some (task', b', frontends')"
  obtains (took) m where "task = RWaiting" "bus_get b ''responses'' = (Some m, b')" "frontends' = frontends"
      "task' = RWaiting \<or> (\<exists>message. m = ResponseMsg message \<and>
         task' = RDelivering (rsc_frontend (rs_context message)) message)"
  | (gone) name message where "task = RDelivering name message" "dict_get frontends name = None"
      "task' = RWaiting" "b' = b" "frontends' = frontends"
  | (delivered) name message f where "task = RDelivering name message" "dict_get frontends name = Some f"
      "task' = RWaiting" "b' = b" "frontends' = dict_set name (snd (handle f message)) frontends"
proof (cases task)
  case RWaiting
  with assms obtain m where m: "bus_get b ''responses'' = (Some m, b')"
    by (auto simp: responder_step_def split: prod.splits option.splits gateway_message.splits)
  show thesis
    using assms RWaiting
    by (intro took [OF RWaiting m]) (auto simp: responder_step_def m split: option.splits gateway_message.splits)
next
  case (RDelivering name message)
  show thesis
  proof (cases "dict_get frontends name")
    case None
    with RDelivering assms show thesis by (intro gone) (simp_all add: responder_step_def)
  next
    case (Some f)
    with RDelivering assms show thesis
      by (intro delivered [of name message f]) (auto simp: responder_step_def split: prod.splits)
  qed
qed

fun responder_steps ::
  "nat \<Rightarrow> 'f frontend_handler \<Rightarrow> responder_task \<Rightarrow> ('t, gateway_message) bus \<Rightarrow> (string \<times> 'f) list \<Rightarrow>
   (responder_task \<times> ('t, gateway_message) bus \<times> (string \<times> 'f) list) option" where
  "responder_steps 0 handle task b frontends = Some (task, b, frontends)"
| "responder_steps (Suc n) handle task b frontends =
     (case responder_step handle task b frontends of
        None \<Rightarrow> None
      | Some (task', b', frontends') \<Rightarrow> responder_steps n handle task' b' frontends')"

section \<open>Properties\<close>

text \<open>The responder never stops on a message: it consumes the head of the responses and is
  waiting again after one step (the message is no response, or names no frontend) or two, and
  exactly the frontend the response names has handled it, whether its handler raised or not;
  every other frontend is unchanged.\<close>

theorem responder_delivers_to_named_frontend:
  assumes "contents b ''responses'' = m # rest"
  shows "\<exists>n b' frontends'. n \<le> 2 \<and>
    responder_steps n handle RWaiting b frontends = Some (RWaiting, b', frontends') \<and>
    contents b' = (contents b)(''responses'' := rest) \<and>
    (\<forall>name. dict_get frontends' name =
       (case dict_get frontends name of
          None \<Rightarrow> None
        | Some f \<Rightarrow> Some (case m of
            ResponseMsg message \<Rightarrow>
              if rsc_frontend (rs_context message) = name then snd (handle f message) else f
          | _ \<Rightarrow> f)))"
proof -
  obtain task' b' where t: "responder_step handle RWaiting b frontends = Some (task', b', frontends)"
    "contents b' = (contents b)(''responses'' := rest)"
    "task' = (case m of
        ResponseMsg message \<Rightarrow>
          if dict_get frontends (rsc_frontend (rs_context message)) = None then RWaiting
          else RDelivering (rsc_frontend (rs_context message)) message
      | _ \<Rightarrow> RWaiting)"
    using responder_step_take [OF assms, of handle frontends] by blast
  show ?thesis
  proof (cases task')
    case RWaiting
    have "responder_steps 1 handle RWaiting b frontends = Some (RWaiting, b', frontends)"
      by (simp add: t(1) RWaiting)
    with t(2,3) RWaiting show ?thesis
      by (intro exI [of _ 1] exI [of _ b'] exI [of _ frontends])
        (auto split: option.splits gateway_message.splits if_splits)
  next
    case (RDelivering name message)
    then have m: "m = ResponseMsg message" "name = rsc_frontend (rs_context message)"
      "dict_get frontends name \<noteq> None"
      using t(3) by (auto split: gateway_message.splits if_splits)
    then obtain f where f: "dict_get frontends name = Some f" by auto
    obtain frontends' where d: "responder_step handle task' b' frontends = Some (RWaiting, b', frontends')"
      "dict_get frontends' = (dict_get frontends)(name \<mapsto> snd (handle f message))"
      using responder_step_deliver [of handle name message b' frontends] RDelivering f by auto
    have "responder_steps 2 handle RWaiting b frontends = Some (RWaiting, b', frontends')"
      by (simp add: numeral_2_eq_2 t(1) d(1))
    with t(2) d(2) m f show ?thesis
      by (intro exI [of _ 2] exI [of _ b'] exI [of _ frontends']) (auto split: option.splits)
  qed
qed

definition logged_response :: "routed_response list frontend_handler" where
  "logged_response got message = (Inl (RuntimeError ''closed''), got @ [message])"

definition sample_response :: routed_response where
  "sample_response =
     error_response (request_on ''plc'' (new_pdu 1 (ReadCoilsRequest 0 2))) ''dispatcher''
       (new_pdu 1 (ReadCoilsRequest 0 2)) ''no_route''"

theorem responder_delivers_to_named_frontend_witness:
  "\<exists>n b' frontends'. n \<le> 2 \<and>
     responder_steps n logged_response RWaiting
       (\<lparr>bus_queue_size = 1, bus_topics = [(''responses'', [ResponseMsg sample_response])],
         bus_tracers = [], bus_traced = []\<rparr> :: (unit, gateway_message) bus)
       [(''hmi'', []), (''plc'', [])] = Some (RWaiting, b', frontends') \<and>
     dict_get frontends' ''hmi'' = Some [] \<and> dict_get frontends' ''plc'' = Some [sample_response]"
proof -
  let ?b = "\<lparr>bus_queue_size = 1, bus_topics = [(''responses'', [ResponseMsg sample_response])],
      bus_tracers = [], bus_traced = []\<rparr> :: (unit, gateway_message) bus"
  have c: "contents ?b ''responses'' = ResponseMsg sample_response # []"
    by (simp add: contents_def)
  have n: "rsc_frontend (rs_context sample_response) = ''plc''"
    by (simp add: sample_response_def error_response_def request_on_def)
  obtain n b' frontends' where r: "n \<le> 2"
    "responder_steps n logged_response RWaiting ?b [(''hmi'', []), (''plc'', [])] =
       Some (RWaiting, b', frontends')"
    and d: "\<And>name. dict_get frontends' name =
       (case dict_get [(''hmi'', []), (''plc'', [])] name of
          None \<Rightarrow> None
        | Some f \<Rightarrow> Some (if rsc_frontend (rs_context sample_response) = name
            then snd (logged_response f sample_response) else f))"
    using responder_delivers_to_named_frontend [OF c, of logged_response "[(''hmi'', []), (''plc'', [])]"]
    by (simp only: gateway_message.case) blast
  have "dict_get frontends' ''hmi'' = Some []" "dict_get frontends' ''plc'' = Some [sample_response]"
    by (simp_all add: d n logged_response_def)
  with r show ?thesis by blast
qed

end
