(* ===== verification/Mbap_Frontend.thy ===== *)
theory Mbap_Frontend
  imports Codecs Streams Responder
begin

text \<open>
  The Modbus/TCP server that \<open>modbusgw/frontends/tcp_modbus.py\<close> and
  \<open>modbusgw/frontends/unix_modbus_tcp.py\<close> both contain: the loop of \<open>_handle_client\<close>, its
  \<open>finally\<close> block and \<open>handle_response\<close>. The two files repeat it; what differs (who is
  admitted, the client identifier, the metadata) is in the theories of the two frontends.

  A connection is a number, which stands for its \<open>StreamWriter\<close>; the task that serves it is a
  machine with one state per \<open>await\<close>. \<open>ms_written\<close> and \<open>ms_received\<close> observe the frames given
  to writers and the requests registered.
\<close>

section \<open>State\<close>

record pending_request =
  pr_request_id :: string
  pr_writer :: nat
  pr_transaction_id :: int
  pr_protocol_id :: int
  pr_unit_id :: int
  pr_client_id :: string

datatype client_task =
    AwaitHeader
  | AwaitPayload int int int byte
  | AwaitPublish routed_request

record client_conn =
  cc_client_id :: string
  cc_incoming :: "stream_event list"
  cc_task :: client_task

record mbap_server =
  ms_name :: string
  ms_client_counter :: nat
  ms_pending :: "(string \<times> pending_request) list"
  ms_conns :: "(nat \<times> client_conn) list"
  ms_written :: "(nat \<times> bytes) list"
  ms_received :: "(nat \<times> int) list"

section \<open>Answering\<close>

definition build_mbap :: "int \<Rightarrow> int \<Rightarrow> int \<Rightarrow> bytes result" where
  "build_mbap transaction_id protocol_id adu_length =
     bind_result (to_bytes_2 be16 transaction_id) (\<lambda>tid.
     bind_result (to_bytes_2 be16 protocol_id) (\<lambda>proto.
     bind_result (to_bytes_2 be16 adu_length) (\<lambda>len. Inr (tid @ proto @ len))))"

text \<open>\<open>message.response or message.exception\<close>, encoded.\<close>

definition response_adu :: "routed_response \<Rightarrow> bytes option result" where
  "response_adu message =
     (case (case rs_response message of Some p \<Rightarrow> Some p | None \<Rightarrow> rs_exception message) of
        None \<Rightarrow> Inr None
      | Some p \<Rightarrow> map_sum id Some (fst (response_to_adu p)))"

definition server_handle_response :: "('a mbap_server_scheme) frontend_handler" where
  "server_handle_response fe message =
     (case rsc_request_id (rs_context message) of
        None \<Rightarrow> (Inr (), fe)
      | Some request_id \<Rightarrow>
          if request_id = [] then (Inr (), fe)
          else (case dict_get (ms_pending fe) request_id of
            None \<Rightarrow> (Inr (), fe)
          | Some pending \<Rightarrow>
              (let fe1 = fe\<lparr>ms_pending := dict_pop request_id (ms_pending fe)\<rparr> in
               case response_adu message of
                 Inl e \<Rightarrow> (Inl e, fe1)
               | Inr None \<Rightarrow> (Inr (), fe1)
               | Inr (Some adu) \<Rightarrow>
                   (case build_mbap (pr_transaction_id pending) (pr_protocol_id pending) (int (length adu)) of
                      Inl e \<Rightarrow> (Inl e, fe1)
                    | Inr mbap_header \<Rightarrow>
                        (Inr (), fe1\<lparr>ms_written := ms_written fe1 @
                           [(pr_writer pending, mbap_header @ adu)]\<rparr>)))))"

section \<open>Serving a connection\<close>

text \<open>
  The \<open>finally\<close> block up to its \<open>await\<close>: drop the client's pending requests, close the writer. The client is
  served no more; what follows the \<open>await\<close> is in \<open>Unix_Frontend\<close>, where it matters.
\<close>

definition end_client :: "nat \<Rightarrow> string \<Rightarrow> 'a mbap_server_scheme \<Rightarrow> 'a mbap_server_scheme" where
  "end_client conn client_id fe =
     fe\<lparr>ms_pending := filter (\<lambda>(req_id, info). pr_client_id info \<noteq> client_id) (ms_pending fe),
        ms_conns := dict_pop conn (ms_conns fe)\<rparr>"

definition set_client :: "nat \<Rightarrow> client_conn \<Rightarrow> 'a mbap_server_scheme \<Rightarrow> 'a mbap_server_scheme" where
  "set_client conn c fe = fe\<lparr>ms_conns := dict_set conn c (ms_conns fe)\<rparr>"

definition make_request_id :: "string \<Rightarrow> int \<Rightarrow> string" where
  "make_request_id client_id transaction_id = client_id @ '':'' @ int_str transaction_id"

text \<open>A complete frame was read: skip it, or register the request and go on to publish it.\<close>

definition accept_frame ::
  "(int \<Rightarrow> (string \<times> pyval) list) \<Rightarrow> nat \<Rightarrow> client_conn \<Rightarrow> int \<Rightarrow> int \<Rightarrow> byte \<Rightarrow> bytes \<Rightarrow>
   'a mbap_server_scheme \<Rightarrow> 'a mbap_server_scheme" where
  "accept_frame metadata conn c transaction_id protocol_id unit payload fe =
     (if protocol_id \<noteq> 0 then set_client conn (c\<lparr>cc_task := AwaitHeader\<rparr>) fe
      else case request_from_adu (unit # payload) None of
        Inl e \<Rightarrow> set_client conn (c\<lparr>cc_task := AwaitHeader\<rparr>) fe
      | Inr request \<Rightarrow>
          (let request_id = make_request_id (cc_client_id c) transaction_id;
               context = \<lparr>rc_frontend = ms_name fe, rc_request_id = Some request_id,
                 rc_metadata = metadata transaction_id\<rparr>;
               routed = \<lparr>rr_context = context, rr_pdu = request\<rparr>;
               info = \<lparr>pr_request_id = request_id, pr_writer = conn,
                 pr_transaction_id = transaction_id, pr_protocol_id = protocol_id,
                 pr_unit_id = unit_id request, pr_client_id = cc_client_id c\<rparr>
           in set_client conn (c\<lparr>cc_task := AwaitPublish routed\<rparr>)
                (fe\<lparr>ms_pending := dict_set request_id info (ms_pending fe),
                    ms_received := ms_received fe @ [(conn, transaction_id)]\<rparr>)))"

text \<open>
  One step of the task of connection \<open>conn\<close>; \<open>None\<close>: no such task, or it is suspended. An
  exception of the stream or of a tracer ends it through the \<open>finally\<close> block.
\<close>

definition client_step ::
  "('t \<Rightarrow> string \<Rightarrow> gateway_message \<Rightarrow> exn option) \<Rightarrow> (string \<Rightarrow> int \<Rightarrow> (string \<times> pyval) list) \<Rightarrow> nat \<Rightarrow>
   'a mbap_server_scheme \<Rightarrow> ('t, gateway_message) bus \<Rightarrow>
   ('a mbap_server_scheme \<times> ('t, gateway_message) bus) option" where
  "client_step run_tracer metadata conn fe b =
     (case dict_get (ms_conns fe) conn of
        None \<Rightarrow> None
      | Some c \<Rightarrow>
          (case cc_task c of
             AwaitHeader \<Rightarrow>
               (case read_wait 7 (cc_incoming c) of
                  None \<Rightarrow> None
                | Some (Inl e, rest) \<Rightarrow> Some (end_client conn (cc_client_id c) fe, b)
                | Some (Inr header, rest) \<Rightarrow>
                    (let transaction_id = from_bytes_big (take 2 header);
                         protocol_id = from_bytes_big (take 2 (drop 2 header));
                         len = from_bytes_big (take 2 (drop 4 header));
                         unit = header ! 6;
                         c1 = c\<lparr>cc_incoming := rest\<rparr>
                     in if len < 1 then Some (set_client conn c1 fe, b)
                        else Some (set_client conn
                          (c1\<lparr>cc_task := AwaitPayload transaction_id protocol_id (len - 1) unit\<rparr>) fe, b)))
           | AwaitPayload transaction_id protocol_id remaining unit \<Rightarrow>
               (case read_wait (nat remaining) (cc_incoming c) of
                  None \<Rightarrow> None
                | Some (Inl e, rest) \<Rightarrow> Some (end_client conn (cc_client_id c) fe, b)
                | Some (Inr payload, rest) \<Rightarrow>
                    Some (accept_frame (metadata (cc_client_id c)) conn (c\<lparr>cc_incoming := rest\<rparr>)
                      transaction_id protocol_id unit payload fe, b))
           | AwaitPublish routed \<Rightarrow>
               (case bus_publish run_tracer b ''requests'' (RequestMsg routed) of
                  (None, _) \<Rightarrow> None
                | (Some (Inl e), b') \<Rightarrow> Some (end_client conn (cc_client_id c) fe, b')
                | (Some (Inr _), b') \<Rightarrow> Some (set_client conn (c\<lparr>cc_task := AwaitHeader\<rparr>) fe, b'))))"

text \<open>A client connects: the counter names it.\<close>

definition admit_client :: "string \<Rightarrow> nat \<Rightarrow> stream_event list \<Rightarrow> 'a mbap_server_scheme \<Rightarrow> 'a mbap_server_scheme" where
  "admit_client tag conn incoming fe =
     (let n = ms_client_counter fe + 1; client_id = ms_name fe @ tag @ nat_str n
      in fe\<lparr>ms_client_counter := n,
            ms_conns := dict_set conn
              \<lparr>cc_client_id = client_id, cc_incoming = incoming, cc_task = AwaitHeader\<rparr> (ms_conns fe)\<rparr>)"

text \<open>
  \<open>stop\<close> after its first \<open>await\<close>: every task is cancelled (its \<open>finally\<close> block runs), then nothing is
  pending.
\<close>

definition server_stop :: "'a mbap_server_scheme \<Rightarrow> 'a mbap_server_scheme" where
  "server_stop fe = fe\<lparr>ms_pending := [], ms_conns := []\<rparr>"


section \<open>Interface: answers at most once\<close>

text \<open>
  What the responder and the clients rely on: a message whose identifier is not waiting has no
  effect, and handling a message ends the waiting of its identifier and adds at most one frame.
\<close>

locale once_only =
  fixes handle :: "'f frontend_handler"
    and waiting :: "'f \<Rightarrow> string set"
    and outbox :: "'f \<Rightarrow> (nat \<times> bytes) list"
  assumes not_waiting: "(\<And>rid. rsc_request_id (rs_context m) = Some rid \<Longrightarrow> rid \<notin> waiting fe) \<Longrightarrow>
      handle fe m = (Inr (), fe)"
    and handled: "rsc_request_id (rs_context m) = Some rid \<Longrightarrow> rid \<in> waiting fe \<Longrightarrow>
      waiting (snd (handle fe m)) \<subseteq> waiting fe - {rid} \<and>
      (\<exists>frames. outbox (snd (handle fe m)) = outbox fe @ frames \<and> length frames \<le> 1)"
begin

lemma waiting_subset: "waiting (snd (handle fe m)) \<subseteq> waiting fe"
  using handled [of m _ fe] not_waiting [of m fe]
  by (cases "\<exists>rid. rsc_request_id (rs_context m) = Some rid \<and> rid \<in> waiting fe") auto

text \<open>A second message with the same identifier changes nothing, whatever it says.\<close>

lemma second_ignored:
  assumes "rsc_request_id (rs_context m1) = rsc_request_id (rs_context m2)"
  shows "snd (handle (snd (handle fe m1)) m2) = snd (handle fe m1)"
proof (rule arg_cong [where f = snd, OF not_waiting, simplified])
  fix rid assume "rsc_request_id (rs_context m2) = Some rid"
  then have m1: "rsc_request_id (rs_context m1) = Some rid" using assms by simp
  show "rid \<notin> waiting (snd (handle fe m1))"
  proof (cases "rid \<in> waiting fe")
    case True
    then show ?thesis using handled [OF m1] by blast
  next
    case False
    then show ?thesis using waiting_subset by blast
  qed
qed

end

section \<open>Lemmas about answering\<close>

definition waiting_ids :: "'a mbap_server_scheme \<Rightarrow> string set" where
  "waiting_ids fe = {rid. rid \<noteq> [] \<and> rid \<in> fst ` set (ms_pending fe)}"

lemma dict_get_None_iff: "dict_get d k = None \<longleftrightarrow> k \<notin> fst ` set d"
  by (rule map_of_eq_None_iff)

lemma fst_set_dict_pop: "fst ` set (dict_pop k d) = fst ` set d - {k}"
  by (force simp: dict_pop_def)

lemma handle_response_not_waiting:
  assumes "\<And>rid. rsc_request_id (rs_context m) = Some rid \<Longrightarrow> rid \<notin> waiting_ids fe"
  shows "server_handle_response fe m = (Inr (), fe)"
proof (cases "rsc_request_id (rs_context m)")
  case (Some rid)
  with assms have "rid = [] \<or> dict_get (ms_pending fe) rid = None"
    by (auto simp: waiting_ids_def dict_get_None_iff)
  with Some show ?thesis by (auto simp: server_handle_response_def)
qed (simp add: server_handle_response_def)

lemma handle_response_waiting:
  assumes "rsc_request_id (rs_context m) = Some rid" "rid \<in> waiting_ids fe"
  obtains info r frames where "dict_get (ms_pending fe) rid = Some info"
    "server_handle_response fe m = (r, fe\<lparr>ms_pending := dict_pop rid (ms_pending fe),
       ms_written := ms_written fe @ frames\<rparr>)"
    "frames = [] \<or> (\<exists>header adu. frames = [(pr_writer info, header @ adu)] \<and> r = Inr () \<and>
       response_adu m = Inr (Some adu) \<and>
       build_mbap (pr_transaction_id info) (pr_protocol_id info) (int (length adu)) = Inr header)"
proof -
  from assms(2) have ne: "rid \<noteq> []" and "dict_get (ms_pending fe) rid \<noteq> None"
    by (simp_all add: waiting_ids_def dict_get_None_iff)
  then obtain info where info: "dict_get (ms_pending fe) rid = Some info" by auto
  have w: "fe\<lparr>ms_pending := p, ms_written := ms_written fe @ []\<rparr> = fe\<lparr>ms_pending := p\<rparr>" for p
    by simp
  show thesis
  proof (cases "response_adu m")
    case (Inl e)
    with assms(1) ne info show thesis
      by (intro that [OF info, of "Inl e" "[]"]) (simp_all add: server_handle_response_def Let_def)
  next
    case (Inr a)
    show thesis
    proof (cases a)
      case None
      with Inr assms(1) ne info show thesis
        by (intro that [OF info, of "Inr ()" "[]"]) (simp_all add: server_handle_response_def Let_def)
    next
      case (Some adu)
      show thesis
      proof (cases "build_mbap (pr_transaction_id info) (pr_protocol_id info) (int (length adu))")
        case (Inl e)
        with Some Inr assms(1) ne info show thesis
          by (intro that [OF info, of "Inl e" "[]"]) (simp_all add: server_handle_response_def Let_def)
      next
        case (Inr header)
        with Some \<open>response_adu m = Inr a\<close> assms(1) ne info show thesis
          by (intro that [OF info, of "Inr ()" "[(pr_writer info, header @ adu)]"])
            (simp_all add: server_handle_response_def Let_def)
      qed
    qed
  qed
qed

interpretation server: once_only server_handle_response waiting_ids ms_written
proof unfold_locales
  show "server_handle_response fe m = (Inr (), fe)"
    if "\<And>rid. rsc_request_id (rs_context m) = Some rid \<Longrightarrow> rid \<notin> waiting_ids fe"
    for m :: routed_response and fe :: "'a mbap_server_scheme"
    using that by (rule handle_response_not_waiting)
next
  fix m :: routed_response and rid and fe :: "'a mbap_server_scheme"
  assume a: "rsc_request_id (rs_context m) = Some rid" "rid \<in> waiting_ids fe"
  obtain r frames where h: "server_handle_response fe m =
      (r, fe\<lparr>ms_pending := dict_pop rid (ms_pending fe), ms_written := ms_written fe @ frames\<rparr>)"
    "length frames \<le> 1"
    using handle_response_waiting [OF a] by (metis One_nat_def le_refl length_0_conv length_Cons zero_le_one)
  then show "waiting_ids (snd (server_handle_response fe m)) \<subseteq> waiting_ids fe - {rid} \<and>
      (\<exists>frames. ms_written (snd (server_handle_response fe m)) = ms_written fe @ frames \<and> length frames \<le> 1)"
    by (auto simp: waiting_ids_def fst_set_dict_pop)
qed

lemma build_mbap_Inr_iff:
  "build_mbap tid proto len = Inr header \<longleftrightarrow>
     0 \<le> tid \<and> tid < 65536 \<and> 0 \<le> proto \<and> proto < 65536 \<and> 0 \<le> len \<and> len < 65536 \<and>
     header = be16 tid @ be16 proto @ be16 len"
  by (auto simp: build_mbap_def bind_result_Inr_iff to_bytes_2_Inr_iff)

text \<open>A response that was decoded from a device's frame always becomes a frame for the client.\<close>

lemma response_adu_decoded:
  assumes "response_from_adu adu mb = Inr p"
    and "(rs_response m = Some p \<or> rs_response m = None \<and> rs_exception m = Some p)"
  obtains reply p' where "response_adu m = Inr (Some reply)" "2 \<le> length reply" "length reply \<le> length adu"
    "response_from_adu reply mb = Inr p'" "body p' = body p" "unit_id p' = unit_id p"
proof -
  from resp.forward_same_unit [OF assms(1) [unfolded response_from_adu_def]]
  obtain reply p' where r: "to_adu encode_response response_function_code p = (Inr reply, p')"
    "2 \<le> length reply" "length reply \<le> length adu"
    "from_adu response_from_payload reply mb = Inr p'" "body p' = body p" "unit_id p' = unit_id p"
    by blast
  have "response_adu m = Inr (Some reply)"
    using assms(2) r(1) by (auto simp: response_adu_def response_to_adu_def)
  with r that show thesis by (simp add: response_from_adu_def)
qed


section \<open>The server among the other tasks\<close>

text \<open>
  Clients connect and send what they like; messages of any content arrive from the responder;
  other tasks change the bus; the server may be stopped. \<open>tag\<close> is that of the concrete frontend;
  the metadata of a request may be anything. A new connection is a new writer object. A concrete
  frontend keeps more state, which it may change at any time.
\<close>

inductive server_reachable ::
  "('t \<Rightarrow> string \<Rightarrow> gateway_message \<Rightarrow> exn option) \<Rightarrow> string \<Rightarrow>
   'a mbap_server_scheme \<Rightarrow> ('t, gateway_message) bus \<Rightarrow> bool" for run_tracer tag where
  srv_start: "ms_client_counter fe = 0 \<Longrightarrow> ms_pending fe = [] \<Longrightarrow> ms_conns fe = [] \<Longrightarrow>
     ms_written fe = [] \<Longrightarrow> ms_received fe = [] \<Longrightarrow> server_reachable run_tracer tag fe b"
| srv_admit: "server_reachable run_tracer tag fe b \<Longrightarrow> dict_get (ms_conns fe) conn = None \<Longrightarrow>
     conn \<notin> fst ` set (ms_received fe) \<Longrightarrow>
     server_reachable run_tracer tag (admit_client tag conn incoming fe) b"
| srv_refuse: "server_reachable run_tracer tag fe b \<Longrightarrow>
     server_reachable run_tracer tag (fe\<lparr>ms_client_counter := ms_client_counter fe + 1\<rparr>) b"
| srv_arrive: "server_reachable run_tracer tag fe b \<Longrightarrow>
     dict_get (ms_conns fe) conn = Some c \<Longrightarrow>
     server_reachable run_tracer tag
       (set_client conn (c\<lparr>cc_incoming := cc_incoming c @ events\<rparr>) fe) b"
| srv_step: "server_reachable run_tracer tag fe b \<Longrightarrow>
     client_step run_tracer metadata conn fe b = Some (fe', b') \<Longrightarrow>
     server_reachable run_tracer tag fe' b'"
| srv_answer: "server_reachable run_tracer tag fe b \<Longrightarrow>
     server_reachable run_tracer tag (snd (server_handle_response fe m)) b"
| srv_others: "server_reachable run_tracer tag fe b \<Longrightarrow>
     server_reachable run_tracer tag fe b'"
| srv_more: "server_reachable run_tracer tag fe b \<Longrightarrow>
     mbap_server.truncate fe' = mbap_server.truncate fe \<Longrightarrow> server_reachable run_tracer tag fe' b"
| srv_stop: "server_reachable run_tracer tag fe b \<Longrightarrow>
     server_reachable run_tracer tag (server_stop fe) b"

definition task_ok :: "client_task \<Rightarrow> bool" where
  "task_ok t \<longleftrightarrow> (\<forall>tid proto n unit. t = AwaitPayload tid proto n unit \<longrightarrow>
     0 \<le> tid \<and> tid < 65536 \<and> 0 \<le> n)"

definition info_ok :: "'a mbap_server_scheme \<Rightarrow> string \<Rightarrow> pending_request \<Rightarrow> bool" where
  "info_ok fe rid info \<longleftrightarrow>
     pr_request_id info = rid \<and> rid = make_request_id (pr_client_id info) (pr_transaction_id info) \<and>
     0 \<le> pr_transaction_id info \<and> pr_transaction_id info < 65536 \<and> pr_protocol_id info = 0 \<and>
     (\<exists>c. dict_get (ms_conns fe) (pr_writer info) = Some c \<and> cc_client_id c = pr_client_id info)"

text \<open>
  Every pending request belongs to a client that is still connected, under the identifier made of
  that client's identifier and its transaction; client identifiers are distinct.
\<close>

definition server_ok :: "string \<Rightarrow> 'a mbap_server_scheme \<Rightarrow> bool" where
  "server_ok tag fe \<longleftrightarrow>
     distinct (map fst (ms_pending fe)) \<and>
     (\<forall>rid info. (rid, info) \<in> set (ms_pending fe) \<longrightarrow> info_ok fe rid info) \<and>
     (\<forall>conn c. dict_get (ms_conns fe) conn = Some c \<longrightarrow> task_ok (cc_task c) \<and>
        (\<exists>k. k \<le> ms_client_counter fe \<and> cc_client_id c = ms_name fe @ tag @ nat_str k)) \<and>
     (\<forall>conn c conn' c'. dict_get (ms_conns fe) conn = Some c \<and> dict_get (ms_conns fe) conn' = Some c' \<and>
        cc_client_id c = cc_client_id c' \<longrightarrow> conn = conn')"

lemma server_okD:
  assumes "server_ok tag fe"
  shows "distinct (map fst (ms_pending fe))"
    and "\<And>rid info. (rid, info) \<in> set (ms_pending fe) \<Longrightarrow> info_ok fe rid info"
    and "\<And>conn c. dict_get (ms_conns fe) conn = Some c \<Longrightarrow> task_ok (cc_task c)"
    and "\<And>conn c. dict_get (ms_conns fe) conn = Some c \<Longrightarrow>
      \<exists>k. k \<le> ms_client_counter fe \<and> cc_client_id c = ms_name fe @ tag @ nat_str k"
    and "\<And>conn c conn' c'. dict_get (ms_conns fe) conn = Some c \<Longrightarrow>
      dict_get (ms_conns fe) conn' = Some c' \<Longrightarrow> cc_client_id c = cc_client_id c' \<Longrightarrow> conn = conn'"
  using assms unfolding server_ok_def by blast+

lemma server_okI:
  assumes "distinct (map fst (ms_pending fe))"
    and "\<And>rid info. (rid, info) \<in> set (ms_pending fe) \<Longrightarrow> info_ok fe rid info"
    and "\<And>conn c. dict_get (ms_conns fe) conn = Some c \<Longrightarrow> task_ok (cc_task c)"
    and "\<And>conn c. dict_get (ms_conns fe) conn = Some c \<Longrightarrow>
      \<exists>k. k \<le> ms_client_counter fe \<and> cc_client_id c = ms_name fe @ tag @ nat_str k"
    and "\<And>conn c conn' c'. dict_get (ms_conns fe) conn = Some c \<Longrightarrow>
      dict_get (ms_conns fe) conn' = Some c' \<Longrightarrow> cc_client_id c = cc_client_id c' \<Longrightarrow> conn = conn'"
  shows "server_ok tag fe"
  using assms unfolding server_ok_def by blast

text \<open>Replacing a connection's record without touching its client identifier.\<close>

lemma server_ok_set_client:
  assumes "server_ok tag fe" "dict_get (ms_conns fe) conn = Some c0" "cc_client_id c = cc_client_id c0"
    and "task_ok (cc_task c)"
  shows "server_ok tag (set_client conn c fe)"
proof (rule server_okI)
  note ok = server_okD [OF assms(1)]
  have conns: "dict_get (ms_conns (set_client conn c fe)) = (dict_get (ms_conns fe))(conn \<mapsto> c)"
    by (rule ext) (simp add: set_client_def)
  have same: "\<exists>c0. dict_get (ms_conns fe) w = Some c0 \<and> cc_client_id c' = cc_client_id c0"
    if "dict_get (ms_conns (set_client conn c fe)) w = Some c'" for w c'
    using that assms(2,3) by (cases "w = conn") (auto simp: conns)
  show "distinct (map fst (ms_pending (set_client conn c fe)))" using ok(1) by (simp add: set_client_def)
  show "info_ok (set_client conn c fe) rid info" if "(rid, info) \<in> set (ms_pending (set_client conn c fe))" for rid info
    using ok(2) [of rid info] that assms(2,3) by (auto simp: info_ok_def set_client_def)
  show "task_ok (cc_task c')" if "dict_get (ms_conns (set_client conn c fe)) w = Some c'" for w c'
    using that ok(3) assms(4) by (auto simp: conns split: if_splits)
  show "\<exists>k. k \<le> ms_client_counter (set_client conn c fe) \<and>
      cc_client_id c' = ms_name (set_client conn c fe) @ tag @ nat_str k"
    if "dict_get (ms_conns (set_client conn c fe)) w = Some c'" for w c'
    using same [OF that] ok(4) by (auto simp: set_client_def)
  show "w = w'" if "dict_get (ms_conns (set_client conn c fe)) w = Some c1"
    "dict_get (ms_conns (set_client conn c fe)) w' = Some c2" "cc_client_id c1 = cc_client_id c2" for w w' c1 c2
    using same [OF that(1)] same [OF that(2)] that(3) ok(5) by metis
qed

lemma server_ok_end_client:
  assumes "server_ok tag fe" "dict_get (ms_conns fe) conn = Some c"
  shows "server_ok tag (end_client conn (cc_client_id c) fe)"
proof (rule server_okI)
  note ok = server_okD [OF assms(1)]
  have conns: "dict_get (ms_conns (end_client conn (cc_client_id c) fe)) = (dict_get (ms_conns fe))(conn := None)"
    by (rule ext) (simp add: end_client_def)
  show "distinct (map fst (ms_pending (end_client conn (cc_client_id c) fe)))"
    using ok(1) by (simp add: end_client_def distinct_map_filter)
  show "info_ok (end_client conn (cc_client_id c) fe) rid info"
    if "(rid, info) \<in> set (ms_pending (end_client conn (cc_client_id c) fe))" for rid info
  proof -
    have p: "(rid, info) \<in> set (ms_pending fe)" "pr_client_id info \<noteq> cc_client_id c"
      using that by (auto simp: end_client_def)
    moreover from ok(2) [OF p(1)] p(2) assms(2) have "pr_writer info \<noteq> conn" by (auto simp: info_ok_def)
    ultimately show ?thesis using ok(2) [of rid info] by (auto simp: info_ok_def end_client_def)
  qed
qed (use server_okD [OF assms(1)] in \<open>auto simp: end_client_def split: if_splits\<close>)

lemma server_ok_admit:
  assumes "server_ok tag fe" "dict_get (ms_conns fe) conn = None"
  shows "server_ok tag (admit_client tag conn incoming fe)"
proof (rule server_okI)
  note ok = server_okD [OF assms(1)]
  let ?fe = "admit_client tag conn incoming fe" and ?n = "ms_client_counter fe + 1"
  let ?c = "\<lparr>cc_client_id = ms_name fe @ tag @ nat_str ?n, cc_incoming = incoming, cc_task = AwaitHeader\<rparr>"
  have conns: "dict_get (ms_conns ?fe) = (dict_get (ms_conns fe))(conn \<mapsto> ?c)"
    by (rule ext) (simp add: admit_client_def Let_def)
  show "distinct (map fst (ms_pending ?fe))" using ok(1) by (simp add: admit_client_def Let_def)
  show "info_ok ?fe rid info" if "(rid, info) \<in> set (ms_pending ?fe)" for rid info
    using ok(2) [of rid info] that assms(2) by (auto simp: info_ok_def conns admit_client_def Let_def)
  show "task_ok (cc_task c)" if "dict_get (ms_conns ?fe) w = Some c" for w c
    using that ok(3) by (auto simp: conns task_ok_def split: if_splits)
  show "\<exists>k. k \<le> ms_client_counter ?fe \<and> cc_client_id c = ms_name ?fe @ tag @ nat_str k"
    if w: "dict_get (ms_conns ?fe) w = Some c" for w c
  proof (cases "w = conn")
    case True
    then show ?thesis using w by (intro exI [of _ ?n]) (auto simp: admit_client_def Let_def)
  next
    case False
    then obtain k where "k \<le> ms_client_counter fe" "cc_client_id c = ms_name fe @ tag @ nat_str k"
      using w ok(4) [of w c] by (auto simp: conns)
    then show ?thesis by (intro exI [of _ k]) (simp add: admit_client_def Let_def)
  qed
  have fresh: "cc_client_id c \<noteq> cc_client_id ?c" if "dict_get (ms_conns fe) w = Some c" for w c
    using ok(4) [OF that] by (auto simp: nat_str_inject)
  show "w = w'" if "dict_get (ms_conns ?fe) w = Some c" "dict_get (ms_conns ?fe) w' = Some c'"
    "cc_client_id c = cc_client_id c'" for w w' c c'
    using that fresh ok(5) unfolding conns fun_upd_apply by (metis option.inject)
qed

lemma server_ok_accept:
  assumes "server_ok tag fe" "dict_get (ms_conns fe) conn = Some c0" "cc_client_id c = cc_client_id c0"
    and "0 \<le> tid" "tid < 65536"
  shows "server_ok tag (accept_frame metadata conn c tid proto unit payload fe)"
proof -
  have idle: "server_ok tag (set_client conn (c\<lparr>cc_task := AwaitHeader\<rparr>) fe)"
    using assms(1-3) by (intro server_ok_set_client) (simp_all add: task_ok_def)
  show ?thesis
  proof (cases "proto \<noteq> 0 \<or> isl (request_from_adu (unit # payload) None)")
    case True
    then show ?thesis using idle by (auto simp: accept_frame_def split: sum.splits)
  next
    case False
    then obtain request where r: "request_from_adu (unit # payload) None = Inr request" and proto: "proto = 0"
      by (cases "request_from_adu (unit # payload) None") auto
    let ?rid = "make_request_id (cc_client_id c) tid"
    let ?info = "\<lparr>pr_request_id = ?rid, pr_writer = conn, pr_transaction_id = tid, pr_protocol_id = proto,
        pr_unit_id = unit_id request, pr_client_id = cc_client_id c\<rparr>"
    let ?fe = "fe\<lparr>ms_pending := dict_set ?rid ?info (ms_pending fe), ms_received := ms_received fe @ [(conn, tid)]\<rparr>"
    have "server_ok tag ?fe"
    proof (rule server_okI)
      note ok = server_okD [OF assms(1)]
      show "distinct (map fst (ms_pending ?fe))" using ok(1) by simp
      show "info_ok ?fe rid info" if "(rid, info) \<in> set (ms_pending ?fe)" for rid info
      proof (cases "(rid, info) = (?rid, ?info)")
        case True
        then show ?thesis using assms(2-5) proto by (auto simp: info_ok_def)
      next
        case False
        then have "(rid, info) \<in> set (ms_pending fe)"
          using that set_dict_set_subset [of ?rid ?info "ms_pending fe"] by auto
        then show ?thesis using ok(2) by (simp add: info_ok_def)
      qed
    qed (use server_okD [OF assms(1)] in simp_all)
    then have "server_ok tag (set_client conn (c\<lparr>cc_task := t\<rparr>) ?fe)" if "task_ok t" for t
      using assms(2,3) that by (intro server_ok_set_client) simp_all
    then show ?thesis using r proto by (simp add: accept_frame_def Let_def task_ok_def)
  qed
qed

lemma server_ok_answer:
  assumes "server_ok tag fe"
  shows "server_ok tag (snd (server_handle_response fe m))"
proof (cases "\<exists>rid. rsc_request_id (rs_context m) = Some rid \<and> rid \<in> waiting_ids fe")
  case True
  then obtain rid where rid: "rsc_request_id (rs_context m) = Some rid" "rid \<in> waiting_ids fe" by blast
  note ok = server_okD [OF assms]
  show ?thesis
  proof (cases rule: handle_response_waiting [OF rid])
    case (1 info r frames)
    have "server_ok tag (fe\<lparr>ms_pending := dict_pop rid (ms_pending fe), ms_written := ms_written fe @ frames\<rparr>)"
    proof (rule server_okI)
      show "info_ok (fe\<lparr>ms_pending := dict_pop rid (ms_pending fe), ms_written := ms_written fe @ frames\<rparr>) rid' info'"
        if "(rid', info') \<in> set (ms_pending (fe\<lparr>ms_pending := dict_pop rid (ms_pending fe), ms_written := ms_written fe @ frames\<rparr>))"
        for rid' info'
        using that ok(2) [of rid' info'] by (simp add: set_dict_pop info_ok_def)
    qed (use ok in simp_all)
    with 1(2) show ?thesis by simp
  qed
next
  case False
  then have "server_handle_response fe m = (Inr (), fe)" by (intro handle_response_not_waiting) auto
  with assms show ?thesis by simp
qed

lemma from_bytes_2_range: "length bs = 2 \<Longrightarrow> 0 \<le> from_bytes_big bs \<and> from_bytes_big bs < 65536"
proof -
  assume "length bs = 2"
  then obtain x y where "bs = [x, y]" by (auto simp: length_Suc_conv numeral_2_eq_2)
  then show ?thesis using u16_from_bytes_big_range [of x y] by simp
qed

text \<open>What one step of a client's task can be.\<close>

lemma client_step_cases:
  assumes "client_step run_tracer metadata conn fe b = Some (fe', b')"
  obtains c where "dict_get (ms_conns fe) conn = Some c" "fe' = end_client conn (cc_client_id c) fe"
  | c rest tid proto len unit where "dict_get (ms_conns fe) conn = Some c" "cc_task c = AwaitHeader" "b' = b"
      "0 \<le> tid" "tid < 65536" "0 \<le> len"
      "fe' = set_client conn (c\<lparr>cc_incoming := rest\<rparr>) fe \<and> len = 0 \<or>
       fe' = set_client conn (c\<lparr>cc_incoming := rest, cc_task := AwaitPayload tid proto (len - 1) unit\<rparr>) fe \<and> 1 \<le> len"
  | c rest tid proto n unit payload where "dict_get (ms_conns fe) conn = Some c"
      "cc_task c = AwaitPayload tid proto n unit" "b' = b"
      "fe' = accept_frame (metadata (cc_client_id c)) conn (c\<lparr>cc_incoming := rest\<rparr>) tid proto unit payload fe"
  | c routed where "dict_get (ms_conns fe) conn = Some c" "cc_task c = AwaitPublish routed"
      "fe' = set_client conn (c\<lparr>cc_task := AwaitHeader\<rparr>) fe"
proof -
  obtain c where c: "dict_get (ms_conns fe) conn = Some c"
    using assms by (cases "dict_get (ms_conns fe) conn") (simp_all add: client_step_def)
  note step = assms [unfolded client_step_def, simplified c option.case]
  show thesis
  proof (cases "cc_task c")
    case AwaitHeader
    with step obtain r rest where r: "read_wait 7 (cc_incoming c) = Some (r, rest)"
      by (auto split: option.splits)
    show thesis
    proof (cases r)
      case (Inl e)
      with step AwaitHeader r c that(1) show thesis by simp
    next
      case (Inr header)
      with r have len: "length header = 7" by (simp add: read_wait_length)
      define tid proto len unit where d: "tid = from_bytes_big (take 2 header)"
        "proto = from_bytes_big (take 2 (drop 2 header))" "len = from_bytes_big (take 2 (drop 4 header))"
        "unit = header ! 6"
      have bounds: "0 \<le> tid" "tid < 65536" "0 \<le> len"
        using from_bytes_2_range [of "take 2 header"] from_bytes_2_range [of "take 2 (drop 4 header)"] len
        by (simp_all add: d)
      from step AwaitHeader r Inr have "b' = b"
        "fe' = set_client conn (c\<lparr>cc_incoming := rest\<rparr>) fe \<and> len < 1 \<or>
         fe' = set_client conn (c\<lparr>cc_incoming := rest, cc_task := AwaitPayload tid proto (len - 1) unit\<rparr>) fe \<and> \<not> len < 1"
        by (auto simp: d Let_def split: if_splits)
      moreover have "\<not> len < 1 \<longleftrightarrow> 1 \<le> len" "len < 1 \<longleftrightarrow> len = 0" using bounds by auto
      ultimately show thesis using bounds by (intro that(2) [OF c AwaitHeader _ bounds]) simp_all
    qed
  next
    case (AwaitPayload tid proto n unit)
    with step c that(1) that(3) [OF c AwaitPayload] show thesis
      by (auto split: option.splits sum.splits)
  next
    case (AwaitPublish routed)
    with step c that(1) that(4) [OF c AwaitPublish] show thesis
      by (auto split: option.splits sum.splits prod.splits)
  qed
qed

lemma server_ok_step:
  assumes "server_ok tag fe" "client_step run_tracer metadata conn fe b = Some (fe', b')"
  shows "server_ok tag fe'"
proof (cases rule: client_step_cases [OF assms(2)])
  case (1 c)
  with server_ok_end_client [OF assms(1)] show ?thesis by simp
next
  case (2 c rest tid proto len unit)
  from 2(7) show ?thesis
  proof
    assume "fe' = set_client conn (c\<lparr>cc_incoming := rest\<rparr>) fe \<and> len = 0"
    then show ?thesis
      using server_okD(3) [OF assms(1) 2(1)] by (auto intro!: server_ok_set_client [OF assms(1) 2(1)])
  next
    assume "fe' = set_client conn (c\<lparr>cc_incoming := rest, cc_task := AwaitPayload tid proto (len - 1) unit\<rparr>) fe \<and> 1 \<le> len"
    then show ?thesis
      using 2(4-6) by (auto simp: task_ok_def intro!: server_ok_set_client [OF assms(1) 2(1)])
  qed
next
  case (3 c rest tid proto n unit payload)
  have "0 \<le> tid \<and> tid < 65536"
    using server_okD(3) [OF assms(1) 3(1)] 3(2) by (simp add: task_ok_def)
  then show ?thesis unfolding 3(4) by (intro server_ok_accept [OF assms(1) 3(1)]) simp_all
next
  case (4 c routed)
  then show ?thesis by (auto simp: task_ok_def intro!: server_ok_set_client [OF assms(1) 4(1)])
qed

lemma same_server:
  assumes "mbap_server.truncate fe' = mbap_server.truncate fe"
  shows "ms_name fe' = ms_name fe" "ms_client_counter fe' = ms_client_counter fe"
    "ms_pending fe' = ms_pending fe" "ms_conns fe' = ms_conns fe"
    "ms_written fe' = ms_written fe" "ms_received fe' = ms_received fe"
  using assms by (simp_all add: mbap_server.truncate_def)

lemma server_ok_idle: "ms_pending fe = [] \<Longrightarrow> ms_conns fe = [] \<Longrightarrow> server_ok tag fe"
  by (simp add: server_ok_def)

lemma server_ok_same:
  assumes "server_ok tag fe" and "ms_pending fe' = ms_pending fe" "ms_conns fe' = ms_conns fe"
    and "ms_name fe' = ms_name fe" "ms_client_counter fe \<le> ms_client_counter fe'"
  shows "server_ok tag fe'"
proof (rule server_okI)
  note ok = server_okD [OF assms(1)]
  show "\<exists>k. k \<le> ms_client_counter fe' \<and> cc_client_id c = ms_name fe' @ tag @ nat_str k"
    if "dict_get (ms_conns fe') conn = Some c" for conn c
    using ok(4) [of conn c] that assms(3-5) by (auto intro: le_trans)
qed (use server_okD [OF assms(1)] assms(2-4) in \<open>auto simp: info_ok_def\<close>)

lemma server_reachable_ok: "server_reachable run_tracer tag fe b \<Longrightarrow> server_ok tag fe"
proof (induction rule: server_reachable.induct)
  case (srv_refuse fe b)
  then show ?case by (simp add: server_ok_same)
next
  case (srv_more fe b fe')
  then show ?case by (simp add: server_ok_same same_server [OF srv_more.hyps(2)])
next
  case (srv_arrive fe b conn c events)
  then show ?case by (auto intro!: server_ok_set_client dest: server_okD(3))
qed (auto intro: server_ok_idle server_ok_admit server_ok_step server_ok_answer simp: server_stop_def)

section \<open>No unsolicited and no second answer\<close>

text \<open>The frames written to a connection under a transaction, and its requests still pending.\<close>

definition answers_to :: "'a mbap_server_scheme \<Rightarrow> nat \<Rightarrow> int \<Rightarrow> nat" where
  "answers_to fe conn tid =
     length (filter (\<lambda>(w, frame). w = conn \<and> take 2 frame = be16 tid) (ms_written fe))"

definition outstanding :: "'a mbap_server_scheme \<Rightarrow> nat \<Rightarrow> int \<Rightarrow> nat" where
  "outstanding fe conn tid =
     length (filter (\<lambda>(rid, info). pr_writer info = conn \<and> pr_transaction_id info = tid) (ms_pending fe))"

definition balanced :: "'a mbap_server_scheme \<Rightarrow> bool" where
  "balanced fe \<longleftrightarrow> (\<forall>conn tid. 0 \<le> tid \<longrightarrow> tid < 65536 \<longrightarrow>
     answers_to fe conn tid + outstanding fe conn tid \<le> count_list (ms_received fe) (conn, tid))"

lemma be16_inject: "0 \<le> a \<Longrightarrow> a < 65536 \<Longrightarrow> 0 \<le> b \<Longrightarrow> b < 65536 \<Longrightarrow> be16 a = be16 b \<longleftrightarrow> a = b"
  by (metis from_bytes_big_be16)

lemma filter_dict_pop: "length (filter P (dict_pop k d)) + (if dict_get d k = Some v \<and> P (k, v) then 1 else 0)
    \<le> length (filter P d)"
  by (induction d) (auto simp: dict_pop_def le_SucI split: if_splits)

lemma filter_dict_set: "length (filter P (dict_set k v d)) \<le> length (filter P d) + (if P (k, v) then 1 else 0)"
  by (induction k v d rule: dict_set.induct) auto

lemma length_filter_filter: "length (filter P (filter Q xs)) \<le> length (filter P xs)"
  by (induction xs) auto

lemma balanced_mono:
  assumes "balanced fe" "ms_written fe' = ms_written fe" "ms_received fe' = ms_received fe"
    and "\<And>P. length (filter P (ms_pending fe')) \<le> length (filter P (ms_pending fe))"
  shows "balanced fe'"
  unfolding balanced_def
proof (intro allI impI)
  fix conn tid assume "(0 :: int) \<le> tid" "tid < 65536"
  moreover have "outstanding fe' conn tid \<le> outstanding fe conn tid"
    unfolding outstanding_def by (rule assms(4))
  moreover have "answers_to fe conn tid + outstanding fe conn tid \<le> count_list (ms_received fe) (conn, tid)"
    using assms(1) \<open>0 \<le> tid\<close> \<open>tid < 65536\<close> by (simp add: balanced_def)
  ultimately show "answers_to fe' conn tid + outstanding fe' conn tid \<le> count_list (ms_received fe') (conn, tid)"
    using assms(2,3) by (simp add: answers_to_def)
qed

lemma balanced_accept:
  assumes "balanced fe"
  shows "balanced (accept_frame metadata conn c tid proto unit payload fe)"
proof (cases "proto \<noteq> 0 \<or> isl (request_from_adu (unit # payload) None)")
  case True
  then show ?thesis
    by (intro balanced_mono [OF assms]) (auto simp: accept_frame_def set_client_def split: sum.splits)
next
  case False
  then obtain request where r: "request_from_adu (unit # payload) None = Inr request" and proto: "proto = 0"
    by (cases "request_from_adu (unit # payload) None") auto
  let ?rid = "make_request_id (cc_client_id c) tid"
  let ?info = "\<lparr>pr_request_id = ?rid, pr_writer = conn, pr_transaction_id = tid, pr_protocol_id = proto,
      pr_unit_id = unit_id request, pr_client_id = cc_client_id c\<rparr>"
  let ?fe = "accept_frame metadata conn c tid proto unit payload fe"
  have eq: "ms_written ?fe = ms_written fe" "ms_received ?fe = ms_received fe @ [(conn, tid)]"
    "ms_pending ?fe = dict_set ?rid ?info (ms_pending fe)"
    using r proto by (simp_all add: accept_frame_def set_client_def Let_def)
  show ?thesis
    unfolding balanced_def
  proof (intro allI impI)
    fix w t assume t: "(0 :: int) \<le> t" "t < 65536"
    have "outstanding ?fe w t \<le> outstanding fe w t + (if w = conn \<and> t = tid then 1 else 0)"
      unfolding outstanding_def eq(3)
      using filter_dict_set [of "\<lambda>(rid, info). pr_writer info = w \<and> pr_transaction_id info = t" ?rid ?info "ms_pending fe"]
      by (auto split: if_splits)
    moreover have "answers_to ?fe w t = answers_to fe w t" by (simp add: answers_to_def eq(1))
    moreover have "count_list (ms_received ?fe) (w, t) =
        count_list (ms_received fe) (w, t) + (if w = conn \<and> t = tid then 1 else 0)"
      by (auto simp: eq(2))
    moreover have "answers_to fe w t + outstanding fe w t \<le> count_list (ms_received fe) (w, t)"
      using assms t by (simp add: balanced_def)
    ultimately show "answers_to ?fe w t + outstanding ?fe w t \<le> count_list (ms_received ?fe) (w, t)"
      by simp
  qed
qed

lemma balanced_answer:
  assumes "balanced fe" "server_ok tag fe"
  shows "balanced (snd (server_handle_response fe m))"
proof (cases "\<exists>rid. rsc_request_id (rs_context m) = Some rid \<and> rid \<in> waiting_ids fe")
  case True
  then obtain rid where rid: "rsc_request_id (rs_context m) = Some rid" "rid \<in> waiting_ids fe" by blast
  show ?thesis
  proof (cases rule: handle_response_waiting [OF rid])
    case (1 info r frames)
    let ?fe = "fe\<lparr>ms_pending := dict_pop rid (ms_pending fe), ms_written := ms_written fe @ frames\<rparr>"
    have info: "0 \<le> pr_transaction_id info" "pr_transaction_id info < 65536"
      using server_okD(2) [OF assms(2) map_of_SomeD [OF 1(1)]] by (simp_all add: info_ok_def)
    have "balanced ?fe" unfolding balanced_def
    proof (intro allI impI)
      fix w t assume t: "(0 :: int) \<le> t" "t < 65536"
      let ?here = "pr_writer info = w \<and> pr_transaction_id info = t"
      have "outstanding ?fe w t + (if ?here then 1 else 0) \<le> outstanding fe w t"
        using filter_dict_pop [of "\<lambda>(rid, info). pr_writer info = w \<and> pr_transaction_id info = t" rid "ms_pending fe" info] 1(1)
        by (simp add: outstanding_def)
      moreover have "answers_to ?fe w t \<le> answers_to fe w t + (if ?here then 1 else 0)"
        using 1(3) t info by (auto simp: answers_to_def build_mbap_Inr_iff be16_inject)
      moreover have "answers_to fe w t + outstanding fe w t \<le> count_list (ms_received fe) (w, t)"
        using assms(1) t by (simp add: balanced_def)
      ultimately show "answers_to ?fe w t + outstanding ?fe w t \<le> count_list (ms_received ?fe) (w, t)"
        by simp
    qed
    with 1(2) show ?thesis by simp
  qed
next
  case False
  then have "server_handle_response fe m = (Inr (), fe)" by (intro handle_response_not_waiting) auto
  with assms show ?thesis by simp
qed

lemma balanced_step:
  assumes "balanced fe" "client_step run_tracer metadata conn fe b = Some (fe', b')"
  shows "balanced fe'"
proof (cases rule: client_step_cases [OF assms(2)])
  case (1 c)
  show ?thesis
    by (rule balanced_mono [OF assms(1)]) (simp_all add: 1(2) end_client_def length_filter_filter del: filter_filter)
next
  case (2 c rest tid proto len unit)
  then show ?thesis by (intro balanced_mono [OF assms(1)]) (auto simp: set_client_def)
next
  case (3 c rest tid proto n unit payload)
  then show ?thesis by (simp add: balanced_accept [OF assms(1)])
next
  case (4 c routed)
  then show ?thesis by (intro balanced_mono [OF assms(1)]) (auto simp: set_client_def)
qed

definition framed :: "nat \<times> bytes \<Rightarrow> bool" where
  "framed sent \<longleftrightarrow> (\<exists>tid adu. 0 \<le> tid \<and> tid < 65536 \<and> length adu < 65536 \<and>
     snd sent = be16 tid @ [0, 0] @ be16 (int (length adu)) @ adu)"

lemma written_step:
  assumes "client_step run_tracer metadata conn fe b = Some (fe', b')"
  shows "ms_written fe' = ms_written fe"
  by (cases rule: client_step_cases [OF assms])
    (auto simp: end_client_def set_client_def accept_frame_def Let_def split: sum.splits)

lemma framed_answer:
  assumes "server_ok tag fe" "sent \<in> set (ms_written (snd (server_handle_response fe m)))"
  shows "sent \<in> set (ms_written fe) \<or> framed sent"
proof (cases "\<exists>rid. rsc_request_id (rs_context m) = Some rid \<and> rid \<in> waiting_ids fe")
  case True
  then obtain rid where rid: "rsc_request_id (rs_context m) = Some rid" "rid \<in> waiting_ids fe" by blast
  show ?thesis
  proof (cases rule: handle_response_waiting [OF rid])
    case (1 info r frames)
    have info: "0 \<le> pr_transaction_id info" "pr_transaction_id info < 65536" "pr_protocol_id info = 0"
      using server_okD(2) [OF assms(1) map_of_SomeD [OF 1(1)]] by (simp_all add: info_ok_def)
    have "framed sent" if "sent \<in> set frames"
      unfolding framed_def
      by (rule exI [of _ "pr_transaction_id info"])
        (use 1(3) that info in \<open>auto simp: build_mbap_Inr_iff be16_def\<close>)
    then show ?thesis using assms(2) 1(2) by auto
  qed
next
  case False
  then have "server_handle_response fe m = (Inr (), fe)" by (intro handle_response_not_waiting) auto
  with assms show ?thesis by simp
qed

lemma server_reachable_answers:
  assumes "server_reachable run_tracer tag fe b"
  shows "balanced fe \<and> (\<forall>sent \<in> set (ms_written fe). framed sent)"
  using assms
proof (induction rule: server_reachable.induct)
  case (srv_start fe b)
  then show ?case by (simp add: balanced_def answers_to_def outstanding_def)
next
  case (srv_admit fe b conn incoming)
  then show ?case by (auto simp: admit_client_def Let_def intro: balanced_mono)
next
  case (srv_step fe b conn fe' b')
  then show ?case using balanced_step written_step by metis
next
  case (srv_answer fe b m)
  note ok = server_reachable_ok [OF srv_answer.hyps]
  show ?case using srv_answer.IH balanced_answer [OF _ ok, of m] framed_answer [OF ok, of _ m] by blast
next
  case (srv_stop fe b)
  then show ?case by (auto simp: server_stop_def intro: balanced_mono)
next
  case (srv_refuse fe b)
  then show ?case by (auto intro: balanced_mono)
next
  case (srv_more fe b fe')
  note same = same_server [OF srv_more.hyps(2)]
  have "balanced fe'" by (rule balanced_mono [of fe]) (use srv_more.IH same in simp_all)
  with srv_more.IH same show ?case by simp
next
  case (srv_arrive fe b conn c events)
  then show ?case by (auto simp: set_client_def intro: balanced_mono)
qed

section \<open>A complete exchange\<close>

fun client_steps ::
  "nat \<Rightarrow> ('t \<Rightarrow> string \<Rightarrow> gateway_message \<Rightarrow> exn option) \<Rightarrow> (string \<Rightarrow> int \<Rightarrow> (string \<times> pyval) list) \<Rightarrow> nat \<Rightarrow>
   'a mbap_server_scheme \<Rightarrow> ('t, gateway_message) bus \<Rightarrow>
   ('a mbap_server_scheme \<times> ('t, gateway_message) bus) option" where
  "client_steps 0 run_tracer metadata conn fe b = Some (fe, b)"
| "client_steps (Suc n) run_tracer metadata conn fe b =
     (case client_step run_tracer metadata conn fe b of
        None \<Rightarrow> None
      | Some (fe', b') \<Rightarrow> client_steps n run_tracer metadata conn fe' b')"

lemma dict_set_dict_set [simp]: "dict_set k v (dict_set k u d) = dict_set k v d"
  by (induction k u d rule: dict_set.induct) auto

lemma request_from_adu_length: "request_from_adu adu mb = Inr p \<Longrightarrow> 2 \<le> length adu"
  by (auto simp: request_from_adu_def from_adu_def split_adu_def bind_result_Inr_iff split: if_splits)

text \<open>The request a frame becomes, and the record of it that waits for the answer.\<close>

definition routed_frame :: "(string \<Rightarrow> int \<Rightarrow> (string \<times> pyval) list) \<Rightarrow> string \<Rightarrow> string \<Rightarrow> int \<Rightarrow> request \<Rightarrow> routed_request" where
  "routed_frame metadata name client_id tid request =
     \<lparr>rr_context = \<lparr>rc_frontend = name, rc_request_id = Some (make_request_id client_id tid),
        rc_metadata = metadata client_id tid\<rparr>, rr_pdu = request\<rparr>"

definition pending_frame :: "string \<Rightarrow> nat \<Rightarrow> int \<Rightarrow> request \<Rightarrow> pending_request" where
  "pending_frame client_id conn tid request =
     \<lparr>pr_request_id = make_request_id client_id tid, pr_writer = conn, pr_transaction_id = tid,
      pr_protocol_id = 0, pr_unit_id = unit_id request, pr_client_id = client_id\<rparr>"

lemma client_step_header:
  assumes "dict_get (ms_conns fe) conn = Some c" "cc_task c = AwaitHeader"
    and "cc_incoming c = map Arrive (be16 tid @ be16 proto @ be16 len @ [unit]) @ rest"
    and "0 \<le> tid" "tid < 65536" "0 \<le> proto" "proto < 65536" "1 \<le> len" "len < 65536"
  shows "client_step run_tracer metadata conn fe b =
    Some (set_client conn (c\<lparr>cc_incoming := rest, cc_task := AwaitPayload tid proto (len - 1) unit\<rparr>) fe, b)"
proof -
  have "read_wait 7 (cc_incoming c) = Some (Inr (be16 tid @ be16 proto @ be16 len @ [unit]), rest)"
    unfolding assms(3) by (rule read_wait_arrived) simp
  moreover have "(be16 tid @ be16 proto @ be16 len @ [unit]) ! 6 = unit" by (simp add: nth_append)
  ultimately show ?thesis using assms by (simp add: client_step_def Let_def)
qed

lemma client_receives:
  assumes "dict_get (ms_conns fe) conn = Some c" "cc_task c = AwaitHeader"
    and "cc_incoming c = map Arrive (be16 tid @ [0, 0] @ be16 (int (length adu)) @ adu) @ rest"
    and "0 \<le> tid" "tid < 65536" "length adu < 65536" "request_from_adu adu None = Inr request"
  shows "client_steps 2 run_tracer metadata conn fe b =
    Some (set_client conn (c\<lparr>cc_incoming := rest,
        cc_task := AwaitPublish (routed_frame metadata (ms_name fe) (cc_client_id c) tid request)\<rparr>)
      (fe\<lparr>ms_pending := dict_set (make_request_id (cc_client_id c) tid)
           (pending_frame (cc_client_id c) conn tid request) (ms_pending fe),
         ms_received := ms_received fe @ [(conn, tid)]\<rparr>), b)"
proof -
  obtain unit payload where adu: "adu = unit # payload"
    using request_from_adu_length [OF assms(7)] by (cases adu) auto
  let ?c1 = "c\<lparr>cc_incoming := map Arrive payload @ rest, cc_task := AwaitPayload tid 0 (int (length adu) - 1) unit\<rparr>"
  let ?fe1 = "set_client conn ?c1 fe"
  have "cc_incoming c = map Arrive (be16 tid @ be16 0 @ be16 (int (length adu)) @ [unit]) @ map Arrive payload @ rest"
    by (simp add: assms(3) adu be16_def)
  then have one: "client_step run_tracer metadata conn fe b = Some (?fe1, b)"
    using assms(4-6) by (intro client_step_header [OF assms(1,2)]) (simp_all add: adu)
  have "read_wait (nat (int (length adu) - 1)) (map Arrive payload @ rest) = Some (Inr payload, rest)"
    by (rule read_wait_arrived) (simp add: adu)
  then have "client_step run_tracer metadata conn ?fe1 b =
      Some (accept_frame (metadata (cc_client_id c)) conn (?c1\<lparr>cc_incoming := rest\<rparr>) tid 0 unit payload ?fe1, b)"
    by (simp add: client_step_def set_client_def)
  then show ?thesis
    using one assms(7) by (simp add: numeral_2_eq_2 accept_frame_def adu Let_def set_client_def routed_frame_def pending_frame_def)
qed

lemma make_request_id_ne [simp]: "make_request_id client_id tid \<noteq> []"
  by (simp add: make_request_id_def)

lemma client_publishes:
  assumes "dict_get (ms_conns fe) conn = Some c" "cc_task c = AwaitHeader"
    and "cc_incoming c = map Arrive (be16 tid @ [0, 0] @ be16 (int (length adu)) @ adu) @ rest"
    and "0 \<le> tid" "tid < 65536" "length adu < 65536" "request_from_adu adu None = Inr request"
    and "has_room b ''requests''" "\<And>t m. t \<in> set (bus_tracers b) \<Longrightarrow> run_tracer t ''requests'' m = None"
  obtains fe' b' where "client_steps 3 run_tracer metadata conn fe b = Some (fe', b')"
    "contents b' = (contents b)(''requests'' := contents b ''requests'' @
      [RequestMsg (routed_frame metadata (ms_name fe) (cc_client_id c) tid request)])"
    "bus_queue_size b' = bus_queue_size b"
    "dict_get (ms_pending fe') = (dict_get (ms_pending fe))
      (make_request_id (cc_client_id c) tid \<mapsto> pending_frame (cc_client_id c) conn tid request)"
    "dict_get (ms_conns fe') = (dict_get (ms_conns fe))(conn \<mapsto> c\<lparr>cc_incoming := rest\<rparr>)"
    "ms_received fe' = ms_received fe @ [(conn, tid)]" "ms_written fe' = ms_written fe"
    "ms_name fe' = ms_name fe"
proof -
  let ?routed = "routed_frame metadata (ms_name fe) (cc_client_id c) tid request"
  let ?fe2 = "set_client conn (c\<lparr>cc_incoming := rest, cc_task := AwaitPublish ?routed\<rparr>)
      (fe\<lparr>ms_pending := dict_set (make_request_id (cc_client_id c) tid)
           (pending_frame (cc_client_id c) conn tid request) (ms_pending fe),
         ms_received := ms_received fe @ [(conn, tid)]\<rparr>)"
  obtain b' where pub: "bus_publish run_tracer b ''requests'' (RequestMsg ?routed) = (Some (Inr ()), b')"
    "contents b' = (contents b)(''requests'' := contents b ''requests'' @ [RequestMsg ?routed])"
    "bus_queue_size b' = bus_queue_size b"
    by (rule bus_publish_calm [OF assms(8), where run = run_tracer and m = "RequestMsg ?routed"]) (rule assms(9))
  have two: "client_steps 2 run_tracer metadata conn fe b = Some (?fe2, b)"
    by (rule client_receives [OF assms(1-7)])
  have ready: "c\<lparr>cc_incoming := rest, cc_task := AwaitHeader\<rparr> = c\<lparr>cc_incoming := rest\<rparr>"
    using assms(2) by (cases c) simp
  have three: "client_step run_tracer metadata conn ?fe2 b =
      Some (set_client conn (c\<lparr>cc_incoming := rest\<rparr>) ?fe2, b')"
    using pub(1) by (simp add: client_step_def set_client_def ready)
  have "client_steps 3 run_tracer metadata conn fe b =
      Some (set_client conn (c\<lparr>cc_incoming := rest\<rparr>) ?fe2, b')"
    using two three
    by (auto simp: numeral_3_eq_3 numeral_2_eq_2 split: option.splits prod.splits)
  then show thesis
    by (rule that [OF _ pub(2,3)]) (auto simp: set_client_def)
qed

text \<open>The answer to a pending request goes to its connection, under its transaction.\<close>

lemma response_delivered:
  assumes "server_ok tag fe" "dict_get (ms_pending fe) rid = Some info"
    and "rsc_request_id (rs_context m) = Some rid"
    and "response_from_adu adu mb = Inr p" "length adu < 65536"
    and "rs_response m = Some p \<or> rs_response m = None \<and> rs_exception m = Some p"
  obtains reply p' where
    "server_handle_response fe m = (Inr (), fe\<lparr>ms_pending := dict_pop rid (ms_pending fe),
       ms_written := ms_written fe @ [(pr_writer info,
         be16 (pr_transaction_id info) @ [0, 0] @ be16 (int (length reply)) @ reply)]\<rparr>)"
    "2 \<le> length reply" "length reply < 65536" "response_from_adu reply mb = Inr p'"
    "body p' = body p" "unit_id p' = unit_id p"
proof -
  have info: "info_ok fe rid info" using server_okD(2) [OF assms(1) map_of_SomeD [OF assms(2)]] .
  then have rid: "rid \<noteq> []" by (auto simp: info_ok_def)
  obtain reply p' where r: "response_adu m = Inr (Some reply)" "2 \<le> length reply" "length reply \<le> length adu"
    "response_from_adu reply mb = Inr p'" "body p' = body p" "unit_id p' = unit_id p"
    by (rule response_adu_decoded [OF assms(4,6)])
  have "build_mbap (pr_transaction_id info) (pr_protocol_id info) (int (length reply)) =
      Inr (be16 (pr_transaction_id info) @ [0, 0] @ be16 (int (length reply)))"
    using info r(3) assms(5) by (auto simp: info_ok_def build_mbap_Inr_iff be16_def)
  with r assms(2,3,5) rid show thesis
    by (intro that [of reply p']) (simp_all add: server_handle_response_def Let_def)
qed

lemma parse_server_frame:
  assumes "0 \<le> tid" "tid < 65536" "1 \<le> length reply" "length reply < 65536"
  shows "parse_mbap_frame (take 7 (be16 tid @ [0, 0] @ be16 (int (length reply)) @ reply))
      (drop 7 (be16 tid @ [0, 0] @ be16 (int (length reply)) @ reply)) = Inr (tid, reply)"
proof -
  obtain u rest where r: "reply = u # rest" using assms(3) by (cases reply) auto
  have len: "from_bytes_big (be16 (int (length reply))) = int (length reply)" using assms(4) by simp
  have split: "be16 tid @ [0, 0] @ be16 (int (length reply)) @ reply =
      (be16 tid @ be16 0 @ be16 (int (length reply)) @ [u]) @ rest"
    by (simp add: r be16_def)
  show ?thesis unfolding split
    using assms(1,2) len by (simp add: parse_mbap_frame_def Let_def nth_append r)
qed

section \<open>Properties\<close>

text \<open>C20. Whatever the clients send and whatever messages the responder brings, and however the
  tasks interleave: every frame the server writes to a connection is a complete Modbus/TCP frame
  (protocol 0, correct length field) under a transaction identifier that this very connection
  used in a request, and no transaction is answered more often on a connection than it was
  requested there. No client gets an unsolicited answer, a second one or another client's.\<close>

theorem answers_only_what_was_asked:
  assumes "server_reachable run_tracer tag fe b"
  shows "(\<forall>w frame. (w, frame) \<in> set (ms_written fe) \<longrightarrow>
      (\<exists>tid adu. 0 \<le> tid \<and> tid < 65536 \<and> length adu < 65536 \<and>
        frame = be16 tid @ [0, 0] @ be16 (int (length adu)) @ adu \<and> (w, tid) \<in> set (ms_received fe))) \<and>
    (\<forall>w tid. 0 \<le> tid \<and> tid < 65536 \<longrightarrow>
      length (filter (\<lambda>(w', frame). w' = w \<and> take 2 frame = be16 tid) (ms_written fe))
        \<le> count_list (ms_received fe) (w, tid))"
proof (intro conjI allI impI)
  have count: "answers_to fe w tid \<le> count_list (ms_received fe) (w, tid)" if "0 \<le> tid" "tid < 65536" for w tid
    using server_reachable_answers [OF assms] that unfolding balanced_def by (meson add_leD1)
  then show "length (filter (\<lambda>(w', frame). w' = w \<and> take 2 frame = be16 tid) (ms_written fe))
        \<le> count_list (ms_received fe) (w, tid)" if "0 \<le> tid \<and> tid < 65536" for w tid
    using that by (simp add: answers_to_def)
  fix w frame
  assume sent: "(w, frame) \<in> set (ms_written fe)"
  then obtain tid adu where f: "0 \<le> tid" "tid < 65536" "length adu < 65536"
    "frame = be16 tid @ [0, 0] @ be16 (int (length adu)) @ adu"
    using server_reachable_answers [OF assms] by (fastforce simp: framed_def)
  then have "(w, frame) \<in> set (filter (\<lambda>(w', frame). w' = w \<and> take 2 frame = be16 tid) (ms_written fe))"
    using sent by simp
  then have "0 < answers_to fe w tid" unfolding answers_to_def by (rule length_pos_if_in_set)
  then have "(w, tid) \<in> set (ms_received fe)"
    using count [OF f(1,2), of w] by (metis count_notin not_less0 le_zero_eq)
  with f show "\<exists>tid adu. 0 \<le> tid \<and> tid < 65536 \<and> length adu < 65536 \<and>
        frame = be16 tid @ [0, 0] @ be16 (int (length adu)) @ adu \<and> (w, tid) \<in> set (ms_received fe)"
    by blast
qed

text \<open>A server with one connected client, which has sent a request to read a register.\<close>

definition idle_server :: mbap_server where
  "idle_server = \<lparr>ms_name = ''tcp'', ms_client_counter = 0, ms_pending = [], ms_conns = [],
     ms_written = [], ms_received = []\<rparr>"

definition read_frame :: bytes where
  "read_frame = be16 9 @ [0, 0] @ be16 6 @ [1, 3, 0, 0, 0, 1]"

definition sample_client :: client_conn where
  "sample_client = \<lparr>cc_client_id = ''tcp-c1'', cc_incoming = map Arrive read_frame, cc_task = AwaitHeader\<rparr>"

definition served_server :: mbap_server where
  "served_server = admit_client ''-c'' 0 (map Arrive read_frame) idle_server"

lemma served_server_conn: "dict_get (ms_conns served_server) 0 = Some sample_client"
  by (simp add: served_server_def admit_client_def idle_server_def sample_client_def nat_str.simps digit_char_def)

lemma served_server_reachable: "server_reachable run_tracer ''-c'' served_server b"
  unfolding served_server_def
  by (rule srv_admit [OF srv_start]) (simp_all add: idle_server_def)

lemma read_request_decoded:
  "\<exists>p. request_from_adu [1, 3, 0, 0, 0, 1] None = Inr p \<and> body p = ReadHoldingRegistersRequest 0 1 \<and> unit_id p = 1"
proof -
  have "(case request_from_adu [1, 3, 0, 0, 0, 1] None of
        Inr p \<Rightarrow> body p = ReadHoldingRegistersRequest 0 1 \<and> unit_id p = 1 | Inl e \<Rightarrow> False)"
    by code_simp
  then show ?thesis by (auto split: sum.splits)
qed

text \<open>A complete Modbus/TCP frame that holds a decodable request becomes exactly one message
  on the bus: three steps of the connection's task read it, register it as pending under the
  connection and its transaction, and append the request, tagged with the frontend's name and
  that identifier, to the requests; the task is then ready for the next frame.\<close>

theorem complete_frame_is_published:
  assumes "dict_get (ms_conns fe) conn = Some c" and "cc_task c = AwaitHeader"
    and "cc_incoming c = map Arrive (be16 tid @ [0, 0] @ be16 (int (length adu)) @ adu) @ rest"
    and "0 \<le> tid" and "tid < 65536" and "length adu < 65536"
    and "request_from_adu adu None = Inr request"
    and "has_room b ''requests''" and "bus_tracers b = []"
  shows "\<exists>fe' b'. client_steps 3 run_tracer metadata conn fe b = Some (fe', b') \<and>
    contents b' = (contents b)(''requests'' := contents b ''requests'' @
      [RequestMsg (routed_frame metadata (ms_name fe) (cc_client_id c) tid request)]) \<and>
    dict_get (ms_pending fe') = (dict_get (ms_pending fe))
      (make_request_id (cc_client_id c) tid \<mapsto> pending_frame (cc_client_id c) conn tid request) \<and>
    dict_get (ms_conns fe') = (dict_get (ms_conns fe))(conn \<mapsto> c\<lparr>cc_incoming := rest\<rparr>) \<and>
    ms_received fe' = ms_received fe @ [(conn, tid)] \<and> ms_written fe' = ms_written fe"
proof -
  obtain fe' b' where "client_steps 3 run_tracer metadata conn fe b = Some (fe', b')"
    "contents b' = (contents b)(''requests'' := contents b ''requests'' @
      [RequestMsg (routed_frame metadata (ms_name fe) (cc_client_id c) tid request)])"
    "dict_get (ms_pending fe') = (dict_get (ms_pending fe))
      (make_request_id (cc_client_id c) tid \<mapsto> pending_frame (cc_client_id c) conn tid request)"
    "dict_get (ms_conns fe') = (dict_get (ms_conns fe))(conn \<mapsto> c\<lparr>cc_incoming := rest\<rparr>)"
    "ms_received fe' = ms_received fe @ [(conn, tid)]" "ms_written fe' = ms_written fe"
    by (rule client_publishes [OF assms(1-8), of run_tracer metadata]) (use assms(9) in simp)
  then show ?thesis by blast
qed

lemma read_frame_split: "read_frame = be16 9 @ [0, 0] @ be16 (int (length [1, 3, 0, 0, 0, 1 :: byte])) @ [1, 3, 0, 0, 0, 1]"
  by (simp add: read_frame_def)

theorem complete_frame_is_published_witness:
  "\<exists>p fe' b'. client_steps 3 (\<lambda>_ _ _. None) (\<lambda>_ _. []) 0 served_server (bus_init 10 :: (unit, gateway_message) bus) = Some (fe', b') \<and>
     contents b' ''requests'' = [RequestMsg (routed_frame (\<lambda>_ _. []) ''tcp'' ''tcp-c1'' 9 p)] \<and>
     body p = ReadHoldingRegistersRequest 0 1"
proof -
  obtain p where p: "request_from_adu [1, 3, 0, 0, 0, 1] None = Inr p" "body p = ReadHoldingRegistersRequest 0 1"
    using read_request_decoded by blast
  have room: "has_room (bus_init 10 :: (unit, gateway_message) bus) ''requests''"
    "contents (bus_init 10 :: (unit, gateway_message) bus) ''requests'' = []"
    "bus_tracers (bus_init 10 :: (unit, gateway_message) bus) = []"
    by (simp_all add: has_room_def bus_init_def contents_def queue_full_def)
  have c: "cc_task sample_client = AwaitHeader" "cc_client_id sample_client = ''tcp-c1''" "ms_name served_server = ''tcp''"
    "cc_incoming sample_client = map Arrive (be16 9 @ [0, 0] @ be16 (int (length [1, 3, 0, 0, 0, 1 :: byte])) @ [1, 3, 0, 0, 0, 1]) @ []"
    by (simp_all add: sample_client_def read_frame_split served_server_def admit_client_def idle_server_def)
  from complete_frame_is_published [OF served_server_conn c(1) c(4) _ _ _ p(1) room(1,3), of "\<lambda>_ _ _. None" "\<lambda>_ _. []"]
  obtain fe' b' where "client_steps 3 (\<lambda>_ _ _. None) (\<lambda>_ _. []) 0 served_server (bus_init 10 :: (unit, gateway_message) bus) = Some (fe', b')"
    "contents b' = (contents (bus_init 10 :: (unit, gateway_message) bus))(''requests'' := contents (bus_init 10 :: (unit, gateway_message) bus) ''requests'' @
      [RequestMsg (routed_frame (\<lambda>_ _. []) (ms_name served_server) (cc_client_id sample_client) 9 p)])"
    by auto
  with p(2) room(2) c(2,3) show ?thesis by (intro exI conjI) (assumption, simp_all)
qed

text \<open>A device's response reaches the client that asked, under its transaction: in every
  reachable state, when a message carries the identifier of a pending request and a response (or
  exception response) that was decoded from a device's frame, the handler succeeds, removes the
  pending request and appends one frame to the writer of that request; reading that frame the
  way the client library does gives the request's transaction identifier and a response with the
  same body and unit identifier.\<close>

theorem response_reaches_its_client:
  assumes "server_reachable run_tracer tag fe b"
    and "dict_get (ms_pending fe) rid = Some info" and "rsc_request_id (rs_context m) = Some rid"
    and "response_from_adu adu mb = Inr p" and "length adu < 65536"
    and "rs_response m = Some p \<or> rs_response m = None \<and> rs_exception m = Some p"
  shows "\<exists>fe' frame reply p'. server_handle_response fe m = (Inr (), fe') \<and>
    dict_get (ms_pending fe') = (dict_get (ms_pending fe))(rid := None) \<and>
    ms_conns fe' = ms_conns fe \<and> ms_written fe' = ms_written fe @ [(pr_writer info, frame)] \<and>
    parse_mbap_frame (take 7 frame) (drop 7 frame) = Inr (pr_transaction_id info, reply) \<and>
    response_from_adu reply mb = Inr p' \<and> body p' = body p \<and> unit_id p' = unit_id p"
proof -
  have ok: "server_ok tag fe" by (rule server_reachable_ok [OF assms(1)])
  have info: "0 \<le> pr_transaction_id info" "pr_transaction_id info < 65536"
    using server_okD(2) [OF ok map_of_SomeD [OF assms(2)]] by (simp_all add: info_ok_def)
  obtain reply p' where r: "server_handle_response fe m = (Inr (), fe\<lparr>ms_pending := dict_pop rid (ms_pending fe),
       ms_written := ms_written fe @ [(pr_writer info,
         be16 (pr_transaction_id info) @ [0, 0] @ be16 (int (length reply)) @ reply)]\<rparr>)"
    "2 \<le> length reply" "length reply < 65536" "response_from_adu reply mb = Inr p'"
    "body p' = body p" "unit_id p' = unit_id p"
    by (rule response_delivered [OF ok assms(2-6)])
  have "parse_mbap_frame (take 7 (be16 (pr_transaction_id info) @ [0, 0] @ be16 (int (length reply)) @ reply))
      (drop 7 (be16 (pr_transaction_id info) @ [0, 0] @ be16 (int (length reply)) @ reply)) =
      Inr (pr_transaction_id info, reply)"
    using info r(2,3) by (intro parse_server_frame) simp_all
  with r show ?thesis by (intro exI conjI) (assumption | rule ext | simp)+
qed

lemma client_steps_reachable:
  "server_reachable run_tracer tag fe b \<Longrightarrow>
   client_steps n run_tracer metadata conn fe b = Some (fe', b') \<Longrightarrow>
   server_reachable run_tracer tag fe' b'"
  by (induction n arbitrary: fe b) (auto split: option.splits prod.splits intro: srv_step)

definition answer_message :: "response \<Rightarrow> routed_response" where
  "answer_message p = \<lparr>rs_context = \<lparr>rsc_frontend = ''tcp'', rsc_backend = ''plc'',
      rsc_request_id = Some (make_request_id ''tcp-c1'' 9), rsc_metadata = []\<rparr>,
    rs_request = None, rs_response = Some p, rs_exception = None, rs_error = None\<rparr>"

text \<open>The sample server has received the client's request: one is pending.\<close>

lemma pending_server:
  obtains fe where "server_reachable (\<lambda>_ _ _. None) ''-c'' fe (bus_init 10 :: (unit, gateway_message) bus)"
    "ms_written (fe :: mbap_server) = []"
    "\<exists>q. dict_get (ms_pending fe) (make_request_id ''tcp-c1'' 9) = Some (pending_frame ''tcp-c1'' 0 9 q)"
proof -
  obtain q where q: "request_from_adu [1, 3, 0, 0, 0, 1] None = Inr q"
    using read_request_decoded by blast
  have c: "cc_task sample_client = AwaitHeader" "cc_client_id sample_client = ''tcp-c1''"
    "cc_incoming sample_client = map Arrive (be16 9 @ [0, 0] @ be16 (int (length [1, 3, 0, 0, 0, 1 :: byte])) @ [1, 3, 0, 0, 0, 1]) @ []"
    by (simp_all add: sample_client_def read_frame_split)
  have "\<exists>fe. client_steps 2 (\<lambda>_ _ _. None) (\<lambda>_ _. []) 0 served_server (bus_init 10 :: (unit, gateway_message) bus) =
      Some (fe, bus_init 10) \<and> ms_written fe = ms_written served_server \<and>
      ms_pending fe = dict_set (make_request_id ''tcp-c1'' 9) (pending_frame ''tcp-c1'' 0 9 q) (ms_pending served_server)"
    by (rule exI, rule conjI, rule client_receives [OF served_server_conn c(1,3) _ _ _ q])
      (simp_all add: set_client_def c(2))
  then obtain fe where fe: "client_steps 2 (\<lambda>_ _ _. None) (\<lambda>_ _. []) 0 served_server (bus_init 10 :: (unit, gateway_message) bus) =
      Some (fe, bus_init 10)" "ms_written fe = ms_written served_server"
    "ms_pending fe = dict_set (make_request_id ''tcp-c1'' 9) (pending_frame ''tcp-c1'' 0 9 q) (ms_pending served_server)"
    by blast
  show thesis
  proof (rule that [OF client_steps_reachable [OF served_server_reachable fe(1)]])
    show "ms_written fe = []" by (simp add: fe(2) served_server_def admit_client_def idle_server_def)
    show "\<exists>q. dict_get (ms_pending fe) (make_request_id ''tcp-c1'' 9) = Some (pending_frame ''tcp-c1'' 0 9 q)"
      by (auto simp: fe(3))
  qed
qed

lemma register_response_decoded:
  "\<exists>p. response_from_adu [1, 3, 2, 0, 7] None = Inr p \<and> body p = ReadHoldingRegistersResponse [7]"
proof -
  have "(case response_from_adu [1, 3, 2, 0, 7] None of
        Inr p \<Rightarrow> body p = ReadHoldingRegistersResponse [7] | Inl e \<Rightarrow> False)"
    by code_simp
  then show ?thesis by (auto split: sum.splits)
qed

theorem response_reaches_its_client_witness:
  "\<exists>fe m fe' frame reply p'. server_handle_response (fe :: mbap_server) m = (Inr (), fe') \<and>
     ms_written fe' = [(0, frame)] \<and> parse_mbap_frame (take 7 frame) (drop 7 frame) = Inr (9, reply) \<and>
     response_from_adu reply None = Inr p' \<and> body p' = ReadHoldingRegistersResponse [7]"
proof -
  obtain fe q where fe: "server_reachable (\<lambda>_ _ _. None) ''-c'' (fe :: mbap_server) (bus_init 10 :: (unit, gateway_message) bus)"
    "ms_written fe = []" "dict_get (ms_pending fe) (make_request_id ''tcp-c1'' 9) = Some (pending_frame ''tcp-c1'' 0 9 q)"
    by (rule pending_server) blast
  obtain p where p: "response_from_adu [1, 3, 2, 0, 7] None = Inr p" "body p = ReadHoldingRegistersResponse [7]"
    using register_response_decoded by blast
  have m: "rsc_request_id (rs_context (answer_message p)) = Some (make_request_id ''tcp-c1'' 9)"
    "rs_response (answer_message p) = Some p \<or> rs_response (answer_message p) = None \<and> rs_exception (answer_message p) = Some p"
    by (simp_all add: answer_message_def)
  obtain fe' frame reply p' where out: "server_handle_response fe (answer_message p) = (Inr (), fe')"
    "ms_written fe' = ms_written fe @ [(pr_writer (pending_frame ''tcp-c1'' 0 9 q), frame)]"
    "parse_mbap_frame (take 7 frame) (drop 7 frame) =
       Inr (pr_transaction_id (pending_frame ''tcp-c1'' 0 9 q), reply)"
    "response_from_adu reply None = Inr p'" "body p' = body p"
    using response_reaches_its_client [OF fe(1,3) m(1) p(1) _ m(2)] by auto
  from out fe(2) p(2) show ?thesis
    by (intro exI [of _ fe] exI [of _ "answer_message p"] exI [of _ fe'] exI [of _ frame]
      exI [of _ reply] exI [of _ p']) (simp add: pending_frame_def)
qed

theorem answers_only_what_was_asked_witness:
  "\<exists>fe frame adu. server_reachable (\<lambda>_ _ _. None) ''-c'' (fe :: mbap_server) (bus_init 10 :: (unit, gateway_message) bus) \<and>
     (0, frame) \<in> set (ms_written fe) \<and>
     (\<exists>tid. frame = be16 tid @ [0, 0] @ be16 (int (length adu)) @ adu \<and> (0, tid) \<in> set (ms_received fe))"
proof -
  obtain fe q where fe: "server_reachable (\<lambda>_ _ _. None) ''-c'' (fe :: mbap_server) (bus_init 10 :: (unit, gateway_message) bus)"
    "ms_written fe = []" "dict_get (ms_pending fe) (make_request_id ''tcp-c1'' 9) = Some (pending_frame ''tcp-c1'' 0 9 q)"
    by (rule pending_server) blast
  obtain p where p: "response_from_adu [1, 3, 2, 0, 7] None = Inr p" using register_response_decoded by blast
  define fe' where "fe' = snd (server_handle_response fe (answer_message p))"
  have r: "server_reachable (\<lambda>_ _ _. None) ''-c'' fe' (bus_init 10 :: (unit, gateway_message) bus)"
    unfolding fe'_def by (rule srv_answer [OF fe(1)])
  have m: "rsc_request_id (rs_context (answer_message p)) = Some (make_request_id ''tcp-c1'' 9)"
    "rs_response (answer_message p) = Some p \<or> rs_response (answer_message p) = None \<and> rs_exception (answer_message p) = Some p"
    by (simp_all add: answer_message_def)
  have "\<exists>frame. ms_written fe' = [(0, frame)]"
    by (rule response_delivered [OF server_reachable_ok [OF fe(1)] fe(3) m(1) p _ m(2)])
      (simp_all add: fe'_def fe(2) pending_frame_def)
  then obtain frame where "ms_written fe' = [(0, frame)]" by blast
  then have sent: "(0, frame) \<in> set (ms_written fe')" by simp
  have "\<exists>tid adu. 0 \<le> tid \<and> tid < 65536 \<and> length adu < 65536 \<and>
      frame = be16 tid @ [0, 0] @ be16 (int (length adu)) @ adu \<and> (0, tid) \<in> set (ms_received fe')"
    by (rule conjunct1 [OF answers_only_what_was_asked [OF r], rule_format, OF sent])
  then obtain tid adu where "frame = be16 tid @ [0, 0] @ be16 (int (length adu)) @ adu \<and> (0, tid) \<in> set (ms_received fe')"
    by (elim exE conjE) simp
  with r sent show ?thesis
    by (intro exI [of _ fe'] exI [of _ frame] exI [of _ adu] conjI exI [of _ tid]) simp_all
qed

end
