(* ===== verification/Config.thy ===== *)
theory Config
  imports Complex_Main Router
begin

text \<open>
  The models of \<open>modbusgw/config/models.py\<close>, as records and (for the unions discriminated by
  \<open>type\<close>) datatypes, and \<open>build_router_from_config\<close> of
  \<open>modbusgw/app.py\<close>. Floats are rational numbers. The constraints that the field types put
  on validated values (\<open>PositiveInt\<close>, \<open>PositiveFloat\<close>, \<open>Literal\<close>) are the \<open>_valid\<close> predicates.
  A literal type with one value has no field; \<open>BusConfig\<close> is the two fields \<open>gc_request_queue_size\<close> and
  \<open>gc_response_timeout_ms\<close>. How a document becomes such a record is \<open>Config_Document\<close>.
\<close>

section \<open>The models\<close>

text \<open>The values of a JSON document; a dictionary has each key once.\<close>

datatype json_value =
    JNull
  | JBool bool
  | JInt int
  | JFloat rat
  | JStr string
  | JList "json_value list"
  | JObject "(string \<times> json_value) list"

record retry_config =
  backoff_min :: rat
  backoff_max :: rat
  max_attempts :: nat

definition retry_default :: retry_config where
  "retry_default = \<lparr>backoff_min = 1 / 2, backoff_max = 30, max_attempts = 3\<rparr>"

definition retry_valid :: "retry_config \<Rightarrow> bool" where
  "retry_valid r \<longleftrightarrow> 0 < backoff_min r \<and> 0 < backoff_max r \<and> 0 < max_attempts r"

record tls_config =
  tls_ca_file :: "string option"
  tls_cert_file :: "string option"
  tls_key_file :: "string option"
  tls_require_client_cert :: bool
  tls_client_dn_allow :: "string list"
  tls_verify_server_cert :: bool

record rate_limit_config =
  rlc_tokens_per_second :: rat
  rlc_burst_size :: "rat option"

definition rate_limit_valid :: "rate_limit_config \<Rightarrow> bool" where
  "rate_limit_valid r \<longleftrightarrow> 0 < rlc_tokens_per_second r \<and> (\<forall>b. rlc_burst_size r = Some b \<longrightarrow> 0 < b)"

text \<open>What every frontend has beside its \<open>id\<close> and \<open>type\<close>.\<close>

record frontend_base_config =
  fbc_retry :: "retry_config option"
  fbc_rate_limit :: "rate_limit_config option"

definition frontend_base_default :: frontend_base_config where
  "frontend_base_default = \<lparr>fbc_retry = None, fbc_rate_limit = None\<rparr>"

definition frontend_base_valid :: "frontend_base_config \<Rightarrow> bool" where
  "frontend_base_valid b \<longleftrightarrow> (\<forall>r. fbc_retry b = Some r \<longrightarrow> retry_valid r) \<and>
     (\<forall>r. fbc_rate_limit b = Some r \<longrightarrow> rate_limit_valid r)"

record serial_rtu_socket_config =
  srs_id :: string
  srs_socket_path :: string
  srs_frame_timeout_ms :: rat
  srs_idle_close_seconds :: nat
  srs_base :: frontend_base_config

record unix_modbus_tcp_config =
  umt_id :: string
  umt_socket_path :: string
  umt_max_clients :: nat
  umt_base :: frontend_base_config

record tcp_modbus_frontend_config =
  tmf_id :: string
  tmf_host :: string
  tmf_port :: nat
  tmf_tls :: "tls_config option"
  tmf_cidr_allow :: "string list"
  tmf_base :: frontend_base_config

datatype frontend_config =
    SerialRtuSocketConfig serial_rtu_socket_config
  | UnixModbusTcpConfig unix_modbus_tcp_config
  | TcpModbusFrontendConfig tcp_modbus_frontend_config

fun frontend_id :: "frontend_config \<Rightarrow> string" where
  "frontend_id (SerialRtuSocketConfig c) = srs_id c"
| "frontend_id (UnixModbusTcpConfig c) = umt_id c"
| "frontend_id (TcpModbusFrontendConfig c) = tmf_id c"

record serial_backend_config =
  sbc_id :: string
  sbc_device :: string
  sbc_baudrate :: nat
  sbc_parity :: string
  sbc_stop_bits :: rat
  sbc_request_timeout_ms :: nat
  sbc_inter_frame_gap_ms :: "rat option"
  sbc_retry :: retry_config

definition serial_backend_valid :: "serial_backend_config \<Rightarrow> bool" where
  "serial_backend_valid c \<longleftrightarrow> 0 < sbc_baudrate c \<and> sbc_parity c \<in> {''N'', ''E'', ''O''} \<and>
     0 < sbc_stop_bits c \<and> 0 < sbc_request_timeout_ms c \<and>
     (\<forall>g. sbc_inter_frame_gap_ms c = Some g \<longrightarrow> 0 < g) \<and> retry_valid (sbc_retry c)"

record tcp_backend_config =
  tbc_id :: string
  tbc_host :: string
  tbc_port :: nat
  tbc_use_tls :: bool
  tbc_tls :: "tls_config option"
  tbc_connect_timeout :: rat
  tbc_pool_size :: nat

datatype backend_config =
    SerialBackendConfig serial_backend_config
  | TcpBackendConfig tcp_backend_config

fun backend_id :: "backend_config \<Rightarrow> string" where
  "backend_id (SerialBackendConfig c) = sbc_id c"
| "backend_id (TcpBackendConfig c) = tbc_id c"

record range_config =
  range_start :: int
  range_end :: int

record route_match_config =
  rmc_unit_ids :: "pyval list"
  rmc_function_codes :: "pyval list"
  rmc_register_range :: "range_config option"
  rmc_operations :: "string list option"

record route_constraints =
  rcs_max_quantity :: "nat option"
  rcs_min_interval_ms :: "nat option"

record route_config =
  route_frontend :: string
  route_backend :: string
  route_match :: route_match_config
  route_unit_override :: "int option"
  route_mirror_to_mqtt :: "string list"
  route_allow_write :: bool
  route_fallback_backend :: "string option"
  route_op_constraints :: "route_constraints option"

definition range_valid :: "range_config \<Rightarrow> bool" where
  "range_valid r \<longleftrightarrow> 0 < range_start r \<and> 0 < range_end r"

text \<open>\<open>list[Union[int, Literal['*']]]\<close>\<close>

definition int_or_star :: "pyval \<Rightarrow> bool" where
  "int_or_star v \<longleftrightarrow> (\<exists>i. v = PyInt i) \<or> v = PyStr ''*''"

definition route_match_valid :: "route_match_config \<Rightarrow> bool" where
  "route_match_valid m \<longleftrightarrow> list_all int_or_star (rmc_unit_ids m) \<and>
     list_all int_or_star (rmc_function_codes m) \<and>
     (\<forall>r. rmc_register_range m = Some r \<longrightarrow> range_valid r) \<and>
     (\<forall>ops. rmc_operations m = Some ops \<longrightarrow> set ops \<subseteq> {''read'', ''write''})"

record service_config =
  svc_log_level :: string
  svc_pid_file :: string
  svc_state_dir :: string
  svc_log_file :: "string option"
  svc_reload_grace_seconds :: nat

record tracing_config =
  trc_enabled :: bool
  trc_targets :: "string list"
  trc_file :: "string option"

record security_config =
  sec_ip_allow :: "string list"
  sec_rate_limit :: "rate_limit_config option"

record mqtt_mapping_config =
  mmc_id :: string
  mmc_topic :: string
  mmc_direction :: string
  mmc_backend :: string
  mmc_function :: "string option"
  mmc_unit_id :: int
  mmc_register_address :: nat
  mmc_quantity :: "nat option"
  mmc_scale :: "rat option"
  mmc_offset :: "rat option"
  mmc_payload_type :: "string option"
  mmc_qos :: int
  mmc_retain :: bool
  mmc_min_value :: "rat option"
  mmc_max_value :: "rat option"

record mqtt_reconnect_backoff =
  mrb_min :: rat
  mrb_max :: rat

record mqtt_settings =
  mqs_host :: string
  mqs_port :: nat
  mqs_use_tls :: bool
  mqs_ca_file :: "string option"
  mqs_client_cert :: "string option"
  mqs_client_key :: "string option"
  mqs_username :: "string option"
  mqs_password_file :: "string option"
  mqs_reconnect_backoff :: mqtt_reconnect_backoff

record mqtt_config =
  mqc_settings :: mqtt_settings
  mqc_mappings :: "mqtt_mapping_config list"

record broker_config =
  brc_type :: string
  brc_enabled :: bool
  brc_options :: "(string \<times> json_value) list"

record gateway_config =
  gc_service :: service_config
  gc_request_queue_size :: int
  gc_frontends :: "frontend_config list"
  gc_backends :: "backend_config list"
  gc_routes :: "route_config list"
  gc_response_timeout_ms :: nat
  gc_tracing :: "tracing_config option"
  gc_security :: "security_config option"
  gc_mqtt :: "mqtt_config option"
  gc_brokers :: "broker_config list"

text \<open>What validation has checked of a configuration as a whole.\<close>

definition tcp_backend_valid :: "tcp_backend_config \<Rightarrow> bool" where
  "tcp_backend_valid c \<longleftrightarrow> 0 < tbc_port c \<and> 0 < tbc_connect_timeout c \<and> 0 < tbc_pool_size c"

fun backend_valid :: "backend_config \<Rightarrow> bool" where
  "backend_valid (SerialBackendConfig c) = serial_backend_valid c"
| "backend_valid (TcpBackendConfig c) = tcp_backend_valid c"

fun frontend_valid :: "frontend_config \<Rightarrow> bool" where
  "frontend_valid (SerialRtuSocketConfig c) \<longleftrightarrow>
     0 < srs_frame_timeout_ms c \<and> 0 < srs_idle_close_seconds c \<and> frontend_base_valid (srs_base c)"
| "frontend_valid (UnixModbusTcpConfig c) \<longleftrightarrow> 0 < umt_max_clients c \<and> frontend_base_valid (umt_base c)"
| "frontend_valid (TcpModbusFrontendConfig c) \<longleftrightarrow> 0 < tmf_port c \<and> frontend_base_valid (tmf_base c)"

definition route_constraints_valid :: "route_constraints \<Rightarrow> bool" where
  "route_constraints_valid c \<longleftrightarrow> rcs_max_quantity c \<noteq> Some 0 \<and> rcs_min_interval_ms c \<noteq> Some 0"

definition route_valid :: "route_config \<Rightarrow> bool" where
  "route_valid route \<longleftrightarrow> route_match_valid (route_match route) \<and>
     (\<forall>c. route_op_constraints route = Some c \<longrightarrow> route_constraints_valid c)"

definition service_valid :: "service_config \<Rightarrow> bool" where
  "service_valid c \<longleftrightarrow> 0 < svc_reload_grace_seconds c"

definition security_valid :: "security_config \<Rightarrow> bool" where
  "security_valid c \<longleftrightarrow> (\<forall>r. sec_rate_limit c = Some r \<longrightarrow> rate_limit_valid r)"

definition mqtt_mapping_valid :: "mqtt_mapping_config \<Rightarrow> bool" where
  "mqtt_mapping_valid c \<longleftrightarrow> mmc_direction c \<in> {''publish'', ''subscribe'', ''both''} \<and>
     0 < mmc_register_address c \<and> mmc_quantity c \<noteq> Some 0 \<and>
     mmc_payload_type c \<in> {None, Some ''raw'', Some ''json'', Some ''float''}"

definition mqtt_backoff_valid :: "mqtt_reconnect_backoff \<Rightarrow> bool" where
  "mqtt_backoff_valid c \<longleftrightarrow> 0 < mrb_min c \<and> 0 < mrb_max c"

definition mqtt_valid :: "mqtt_config \<Rightarrow> bool" where
  "mqtt_valid c \<longleftrightarrow> 0 < mqs_port (mqc_settings c) \<and> mqtt_backoff_valid (mqs_reconnect_backoff (mqc_settings c)) \<and>
     list_all mqtt_mapping_valid (mqc_mappings c)"

definition broker_valid :: "broker_config \<Rightarrow> bool" where
  "broker_valid c \<longleftrightarrow> brc_type c \<in> {''mqtt'', ''pastry''}"

definition gateway_config_valid :: "gateway_config \<Rightarrow> bool" where
  "gateway_config_valid config \<longleftrightarrow> service_valid (gc_service config) \<and>
     0 < gc_request_queue_size config \<and> 0 < gc_response_timeout_ms config \<and>
     (\<forall>c. gc_security config = Some c \<longrightarrow> security_valid c) \<and>
     list_all frontend_valid (gc_frontends config) \<and> list_all backend_valid (gc_backends config) \<and>
     list_all route_valid (gc_routes config) \<and> (\<forall>c. gc_mqtt config = Some c \<longrightarrow> mqtt_valid c) \<and>
     list_all broker_valid (gc_brokers config)"

section \<open>Building the router\<close>

text \<open>
  \<open>match_dict\<close>: the keys \<open>register_range\<close> and \<open>operations\<close> are present only when configured;
  \<open>Mapping.get\<close> of an absent key is \<open>None\<close>.
\<close>

definition route_match_spec :: "route_match_config \<Rightarrow> match_spec" where
  "route_match_spec m =
     \<lparr>unit_ids = Some (rmc_unit_ids m), function_codes = Some (rmc_function_codes m),
      operations = map_option (map PyStr) (rmc_operations m),
      register_range = map_option (\<lambda>r. (Some (range_start r), Some (range_end r)))
        (rmc_register_range m)\<rparr>"

definition route_rule :: "route_config \<Rightarrow> routing_rule" where
  "route_rule route =
     \<lparr>rule_frontend = route_frontend route, rule_backend = route_backend route,
      rule_match = route_match_spec (route_match route),
      rule_unit_override = route_unit_override route,
      rule_mirror_to_mqtt = route_mirror_to_mqtt route\<rparr>"

definition build_router_from_config :: "gateway_config \<Rightarrow> router" where
  "build_router_from_config config =
     foldl (\<lambda>rules route. add_rule rules (route_rule route)) [] (gc_routes config)"

section \<open>Specification: which requests a route admits\<close>

text \<open>
  The meaning of a route in terms of the configuration: a pattern list admits a value it
  names, or any value when it holds the star.
\<close>

definition listed :: "pyval list \<Rightarrow> int \<Rightarrow> bool" where
  "listed pattern v \<longleftrightarrow> PyStr ''*'' \<in> set pattern \<or> PyInt v \<in> set pattern"

definition route_admits :: "route_config \<Rightarrow> routed_request \<Rightarrow> bool" where
  "route_admits route r \<longleftrightarrow>
     route_frontend route = rc_frontend (rr_context r) \<and>
     listed (rmc_unit_ids (route_match route)) (unit_id (rr_pdu r)) \<and>
     listed (rmc_function_codes (route_match route)) (request_function_code (body (rr_pdu r))) \<and>
     (\<forall>ops. rmc_operations (route_match route) = Some ops \<longrightarrow>
        (\<exists>op \<in> set ops. operation_map (request_function_code (body (rr_pdu r))) = Some op)) \<and>
     (\<forall>rng. rmc_register_range (route_match route) = Some rng \<longrightarrow>
        (\<exists>a. request_register (body (rr_pdu r)) = PyInt a \<and> range_start rng \<le> a \<and> a \<le> range_end rng))"

lemma rule_admits_route: "rule_admits (route_rule route) r \<longleftrightarrow> route_admits route r"
  by (auto simp: rule_admits_def route_rule_def route_match_spec_def route_admits_def
      pattern_admits_def listed_def)

lemma build_router_eq: "build_router_from_config config = map route_rule (gc_routes config)"
proof -
  have "foldl (\<lambda>rules route. add_rule rules (route_rule route)) acc routes = acc @ map route_rule routes"
    for acc routes
    by (induction routes arbitrary: acc) (simp_all add: add_rule_def)
  then show ?thesis by (simp add: build_router_from_config_def)
qed

lemma find_map: "find P (map f xs) = map_option f (find (\<lambda>x. P (f x)) xs)"
  by (induction xs) simp_all

lemma make_plan_route:
  "make_plan (route_rule route) (routed_value r) =
     \<lparr>plan_rule = route_rule route, plan_backend = route_backend route,
      plan_unit_id = PyInt (case route_unit_override route of Some u \<Rightarrow> u | None \<Rightarrow> unit_id (rr_pdu r)),
      plan_mirror_to_mqtt = route_mirror_to_mqtt route\<rparr>"
  by (simp add: make_plan_def route_rule_def split: option.splits)

section \<open>Properties\<close>

text \<open>C27. The router built from a configuration sends a request of a registered class to the
  backend of the first configured route that admits it, with the route's unit override or the
  request's own unit, and has no route for it when no route admits it.\<close>

theorem configured_routing:
  assumes "request_register (body (rr_pdu r)) = PyInt a"
  shows "resolve (build_router_from_config config) (routed_value r) =
    Inr (map_option (\<lambda>route. \<lparr>plan_rule = route_rule route, plan_backend = route_backend route,
        plan_unit_id = PyInt (case route_unit_override route of Some u \<Rightarrow> u | None \<Rightarrow> unit_id (rr_pdu r)),
        plan_mirror_to_mqtt = route_mirror_to_mqtt route\<rparr>)
      (find (\<lambda>route. route_admits route r) (gc_routes config)))"
proof -
  have "resolve (build_router_from_config config) (routed_value r) =
      Inr (map_option (\<lambda>rule. make_plan rule (routed_value r))
        (find (\<lambda>rule. rule_admits rule r) (build_router_from_config config)))"
    by (rule resolve_find) (rule rule_matches_typed [OF assms])
  then show ?thesis
    by (simp add: build_router_eq find_map rule_admits_route make_plan_route option.map_comp o_def)
qed

text \<open>The fields \<open>allow_write\<close>, \<open>fallback_backend\<close> and \<open>op_constraints\<close> of a route have no
  effect: two configurations that differ only in them have the same router, so a route with
  \<open>allow_write = False\<close> still forwards writes.\<close>

theorem route_policy_fields_ignored:
  "build_router_from_config (config\<lparr>gc_routes := map (\<lambda>route.
      route\<lparr>route_allow_write := w route, route_fallback_backend := f route,
        route_op_constraints := c route\<rparr>) (gc_routes config)\<rparr>) =
   build_router_from_config config \<and>
   (route_allow_write route = False \<and> gc_routes config = [route] \<and> route_admits route r \<and>
      body (rr_pdu r) = WriteSingleRegisterRequest address v \<longrightarrow>
    (\<exists>plan. resolve (build_router_from_config config) (routed_value r) = Inr (Some plan) \<and>
      plan_backend plan = route_backend route))"
proof -
  have "resolve (build_router_from_config config) (routed_value r) = Inr (Some (make_plan (route_rule route) (routed_value r)))"
    if "gc_routes config = [route]" "route_admits route r" "body (rr_pdu r) = WriteSingleRegisterRequest address v"
  proof -
    have "rule_matches (route_rule route) (routed_value r) = Inr True"
      using that rule_matches_typed [of r address "route_rule route"] by (simp add: rule_admits_route)
    then show ?thesis using that(1) by (simp add: build_router_eq)
  qed
  then have "route_allow_write route = False \<and> gc_routes config = [route] \<and> route_admits route r \<and>
      body (rr_pdu r) = WriteSingleRegisterRequest address v \<longrightarrow>
    (\<exists>plan. resolve (build_router_from_config config) (routed_value r) = Inr (Some plan) \<and>
      plan_backend plan = route_backend route)"
    by (auto simp: make_plan_route)
  moreover have "build_router_from_config (config\<lparr>gc_routes := map (\<lambda>route.
      route\<lparr>route_allow_write := w route, route_fallback_backend := f route,
        route_op_constraints := c route\<rparr>) (gc_routes config)\<rparr>) = build_router_from_config config"
    by (simp add: build_router_eq route_rule_def)
  ultimately show ?thesis by blast
qed


text \<open>
  A request of an unregistered function code has no start address. It reaches the range of a
  route when every other criterion holds.
\<close>

definition route_reached :: "route_config \<Rightarrow> routed_request \<Rightarrow> bool" where
  "route_reached route r \<longleftrightarrow>
     route_frontend route = rc_frontend (rr_context r) \<and>
     listed (rmc_unit_ids (route_match route)) (unit_id (rr_pdu r)) \<and>
     listed (rmc_function_codes (route_match route)) (request_function_code (body (rr_pdu r))) \<and>
     (\<forall>ops. rmc_operations (route_match route) = Some ops \<longrightarrow>
        (\<exists>op \<in> set ops. operation_map (request_function_code (body (rr_pdu r))) = Some op))"

lemma rule_matches_route_raw:
  assumes "body (rr_pdu r) = RawModbusRequest payload f"
  shows "rule_matches (route_rule route) (routed_value r) =
    (if \<not> route_reached route r then Inr False
     else if rmc_register_range (route_match route) = None then Inr True
     else Inl (TypeError ''not supported between instances''))"
proof -
  have reached: "route_reached route r \<longleftrightarrow>
      rule_frontend (route_rule route) = rc_frontend (rr_context r) \<and>
      pattern_admits (unit_ids (rule_match (route_rule route))) (PyInt (unit_id (rr_pdu r))) \<and>
      pattern_admits (function_codes (rule_match (route_rule route))) (PyInt f) \<and>
      (\<forall>ops. operations (rule_match (route_rule route)) = Some ops \<longrightarrow>
         (\<exists>op. operation_map f = Some op \<and> PyStr op \<in> set ops))"
    using assms by (auto simp: route_reached_def route_rule_def route_match_spec_def pattern_admits_def listed_def)
  have range: "match_range (register_range (rule_match (route_rule route))) PyMethod =
      (if rmc_register_range (route_match route) = None then Inr True
       else Inl (TypeError ''not supported between instances''))"
    by (cases "rmc_register_range (route_match route)")
      (simp_all add: route_rule_def route_match_spec_def match_range_method, simp add: match_range_def)
  show ?thesis unfolding rule_matches_raw [OF assms] range reached by auto
qed

lemma resolve_routes_raw:
  assumes "body (rr_pdu r) = RawModbusRequest payload f"
  shows "resolve (build_router_from_config config) (routed_value r) =
    (case find (\<lambda>route. route_reached route r) (gc_routes config) of
       None \<Rightarrow> Inr None
     | Some route \<Rightarrow>
         if rmc_register_range (route_match route) = None
         then Inr (Some (make_plan (route_rule route) (routed_value r)))
         else Inl (TypeError ''not supported between instances''))"
proof -
  have "resolve (map route_rule routes) (routed_value r) =
    (case find (\<lambda>route. route_reached route r) routes of
       None \<Rightarrow> Inr None
     | Some route \<Rightarrow>
         if rmc_register_range (route_match route) = None
         then Inr (Some (make_plan (route_rule route) (routed_value r)))
         else Inl (TypeError ''not supported between instances''))" for routes
    by (induction routes) (simp_all add: rule_matches_route_raw [OF assms])
  then show ?thesis by (simp add: build_router_eq)
qed

text \<open>A configuration for the witnesses: two routes to the same line.\<close>

definition sample_route :: "string \<Rightarrow> pyval \<Rightarrow> route_config" where
  "sample_route backend unit =
     \<lparr>route_frontend = ''plc'', route_backend = backend,
      route_match = \<lparr>rmc_unit_ids = [unit], rmc_function_codes = [PyStr ''*''],
        rmc_register_range = Some \<lparr>range_start = 1, range_end = 99\<rparr>, rmc_operations = Some [''read'']\<rparr>,
      route_unit_override = Some 7, route_mirror_to_mqtt = [], route_allow_write = False,
      route_fallback_backend = None, route_op_constraints = None\<rparr>"

definition sample_config :: "route_config list \<Rightarrow> gateway_config" where
  "sample_config routes =
     \<lparr>gc_service = \<lparr>svc_log_level = ''INFO'', svc_pid_file = ''/var/run/modbusgw.pid'',
        svc_state_dir = ''/var/lib/modbusgw'', svc_log_file = None, svc_reload_grace_seconds = 5\<rparr>,
      gc_request_queue_size = 1024, gc_frontends = [], gc_backends = [], gc_routes = routes,
      gc_response_timeout_ms = 1500, gc_tracing = None, gc_security = None, gc_mqtt = None, gc_brokers = []\<rparr>"

theorem configured_routing_witness:
  "\<exists>plan. resolve (build_router_from_config
        (sample_config [sample_route ''a'' (PyInt 3), sample_route ''b'' (PyStr ''*'')]))
      (routed_value (request_on ''plc'' (new_pdu 1 (ReadInputRegistersRequest 10 2)))) = Inr (Some plan) \<and>
     plan_backend plan = ''b'' \<and> plan_unit_id plan = PyInt 7"
proof -
  let ?r = "request_on ''plc'' (new_pdu 1 (ReadInputRegistersRequest 10 2))"
  have "request_register (body (rr_pdu ?r)) = PyInt 10" by (simp add: request_on_def new_pdu_def)
  moreover have "\<not> route_admits (sample_route ''a'' (PyInt 3)) ?r"
    "route_admits (sample_route ''b'' (PyStr ''*'')) ?r"
    by (simp_all add: route_admits_def sample_route_def request_on_def new_pdu_def listed_def
        operation_map_def)
  ultimately show ?thesis
    using configured_routing [of ?r 10 "sample_config [sample_route ''a'' (PyInt 3), sample_route ''b'' (PyStr ''*'')]"]
    by (simp add: sample_config_def sample_route_def)
qed

theorem route_policy_fields_ignored_witness:
  "\<exists>plan. resolve (build_router_from_config (sample_config [(sample_route ''a'' (PyInt 3))
        \<lparr>route_match := \<lparr>rmc_unit_ids = [PyStr ''*''], rmc_function_codes = [PyInt 6],
           rmc_register_range = None, rmc_operations = Some [''write'']\<rparr>\<rparr>]))
      (routed_value (request_on ''plc'' (new_pdu 1 (WriteSingleRegisterRequest 10 2)))) = Inr (Some plan) \<and>
     plan_backend plan = ''a''"
proof -
  define route where "route = (sample_route ''a'' (PyInt 3))
      \<lparr>route_match := \<lparr>rmc_unit_ids = [PyStr ''*''], rmc_function_codes = [PyInt 6],
        rmc_register_range = None, rmc_operations = Some [''write'']\<rparr>\<rparr>"
  define r where "r = request_on ''plc'' (new_pdu 1 (WriteSingleRegisterRequest 10 2))"
  have "route_allow_write route = False \<and> gc_routes (sample_config [route]) = [route] \<and>
      route_admits route r \<and> body (rr_pdu r) = WriteSingleRegisterRequest 10 2"
    by (simp add: route_def r_def sample_route_def sample_config_def route_admits_def
        request_on_def new_pdu_def listed_def operation_map_def)
  from route_policy_fields_ignored [THEN conjunct2, THEN mp, OF this]
  obtain plan where "resolve (build_router_from_config (sample_config [route])) (routed_value r) =
      Inr (Some plan)" "plan_backend plan = route_backend route"
    by blast
  moreover have "route_backend route = ''a''" by (simp add: route_def sample_route_def)
  ultimately show ?thesis unfolding route_def r_def by (metis (no_types))
qed

end
