(* ===== verification/Ip_Address.thy ===== *)
theory Ip_Address
  imports Gateway_Prelude
begin

text \<open>
  What the TCP frontend uses of the standard module \<open>ipaddress\<close>: the text of addresses and
  networks (\<open>ip_address\<close>, \<open>ip_network\<close> with \<open>strict=True\<close>) and membership of an address in a
  network. \<open>None\<close> stands for the module's \<open>AddressValueError\<close> and \<open>NetmaskValueError\<close>, which
  are tried as the other family.
\<close>

section \<open>Values\<close>

datatype ip_address = IPv4Address "32 word" | IPv6Address "128 word"

text \<open>A network: its address and prefix length.\<close>

datatype ip_network = IPv4Network "32 word" nat | IPv6Network "128 word" nat

definition netmask :: "nat \<Rightarrow> 'a::len word" where
  "netmask prefixlen = NOT (mask (LENGTH('a) - prefixlen))"

text \<open>\<open>ip in network\<close>; a network of the other version does not contain the address.\<close>

fun ip_in :: "ip_address \<Rightarrow> ip_network \<Rightarrow> bool" where
  "ip_in (IPv4Address ip) (IPv4Network network prefixlen) = (ip AND netmask prefixlen = network)"
| "ip_in (IPv6Address ip) (IPv6Network network prefixlen) = (ip AND netmask prefixlen = network)"
| "ip_in _ _ = False"

section \<open>Text\<close>

fun split_on :: "char \<Rightarrow> string \<Rightarrow> string list" where
  "split_on c [] = [[]]"
| "split_on c (x # xs) =
     (if x = c then [] # split_on c xs
      else (case split_on c xs of [] \<Rightarrow> [[x]] | p # ps \<Rightarrow> (x # p) # ps))"

definition is_digit :: "char \<Rightarrow> bool" where
  "is_digit c \<longleftrightarrow> c \<in> set ''0123456789''"

definition dec_value :: "string \<Rightarrow> int" where
  "dec_value s = foldl (\<lambda>v c. 10 * v + (of_char c - 48)) 0 s"

definition hex_digit :: "char \<Rightarrow> int option" where
  "hex_digit c =
     (if is_digit c then Some (of_char c - 48)
      else if c \<in> set ''abcdef'' then Some (of_char c - 87)
      else if c \<in> set ''ABCDEF'' then Some (of_char c - 55) else None)"

definition words_value :: "int \<Rightarrow> int list \<Rightarrow> int" where
  "words_value base vs = foldl (\<lambda>v d. base * v + d) 0 vs"

definition parse_octet :: "string \<Rightarrow> int option" where
  "parse_octet s =
     (if s = [] \<or> \<not> list_all is_digit s \<or> 3 < length s \<or> s \<noteq> ''0'' \<and> hd s = CHR ''0'' \<or> 255 < dec_value s
      then None else Some (dec_value s))"

definition parse_ipv4 :: "string \<Rightarrow> int option" where
  "parse_ipv4 s =
     (let octets = split_on (CHR ''.'') s in
      if length octets \<noteq> 4 then None
      else map_option (words_value 256) (those (map parse_octet octets)))"

text \<open>
  The parts of an IPv6 address: a text, or the value of 16 bits that came from an embedded IPv4
  address.
\<close>

definition parse_hextet :: "string + int \<Rightarrow> int option" where
  "parse_hextet part =
     (case part of
        Inr v \<Rightarrow> Some v
      | Inl s \<Rightarrow> if s = [] \<or> 4 < length s then None
                else map_option (words_value 16) (those (map hex_digit s)))"

definition hextets :: "(string + int) list \<Rightarrow> int option" where
  "hextets parts = map_option (words_value 65536) (those (map parse_hextet parts))"

definition parse_ipv6_parts :: "(string + int) list \<Rightarrow> int option" where
  "parse_ipv6_parts parts =
     (let n = length parts in
      if n < 3 \<or> 9 < n then None
      else case filter (\<lambda>i. parts ! i = Inl []) [1..<n - 1] of
        [] \<Rightarrow> if n \<noteq> 8 \<or> hd parts = Inl [] \<or> last parts = Inl [] then None else hextets parts
      | [k] \<Rightarrow>
          (let hi = (if hd parts = Inl [] then k - 1 else k);
               lo = (if last parts = Inl [] then n - k - 2 else n - k - 1)
           in if hd parts = Inl [] \<and> hi \<noteq> 0 \<or> last parts = Inl [] \<and> lo \<noteq> 0 \<or> 8 \<le> hi + lo then None
              else (case (hextets (take hi parts), hextets (drop (n - lo) parts)) of
                      (Some v, Some w) \<Rightarrow> Some (v * 65536 ^ (8 - hi) + w)
                    | _ \<Rightarrow> None))
      | _ \<Rightarrow> None)"

text \<open>An address may carry a scope after a percent sign; membership does not look at it.\<close>

definition parse_ipv6 :: "string \<Rightarrow> int option" where
  "parse_ipv6 s =
     (case split_on (CHR 0x25) s of
        [] \<Rightarrow> None
      | addr # scope \<Rightarrow>
          if 1 < length scope \<or> scope = [[]] then None
          else let parts = split_on (CHR '':'') addr in
            if length parts < 3 then None
            else if CHR ''.'' \<in> set (last parts) then
              (case parse_ipv4 (last parts) of
                 None \<Rightarrow> None
               | Some v \<Rightarrow> parse_ipv6_parts (map Inl (butlast parts) @ [Inr (v div 65536), Inr (v mod 65536)]))
            else parse_ipv6_parts (map Inl parts))"

definition parse_ip_address :: "string \<Rightarrow> ip_address option" where
  "parse_ip_address s =
     (case parse_ipv4 s of
        Some v \<Rightarrow> Some (IPv4Address (of_int v))
      | None \<Rightarrow> map_option (\<lambda>v. IPv6Address (of_int v)) (parse_ipv6 s))"

section \<open>Networks\<close>

definition parse_prefix :: "nat \<Rightarrow> string \<Rightarrow> nat option" where
  "parse_prefix maxlen s =
     (if s = [] \<or> \<not> list_all is_digit s \<or> int maxlen < dec_value s then None else Some (nat (dec_value s)))"

text \<open>A netmask or a hostmask in dotted form.\<close>

definition parse_ipv4_mask :: "string \<Rightarrow> nat option" where
  "parse_ipv4_mask s =
     (case parse_prefix 32 s of
        Some p \<Rightarrow> Some p
      | None \<Rightarrow> (case parse_ipv4 s of
          None \<Rightarrow> None
        | Some v \<Rightarrow> (case find (\<lambda>p. v = 2 ^ 32 - 2 ^ (32 - p)) [0..<33] of
            Some p \<Rightarrow> Some p
          | None \<Rightarrow> find (\<lambda>p. v = 2 ^ (32 - p) - 1) [0..<33])))"

text \<open>Address and mask texts; more than one slash is refused.\<close>

definition split_netmask :: "string \<Rightarrow> (string \<times> string option) option" where
  "split_netmask s =
     (case split_on (CHR ''/'') s of
        [addr] \<Rightarrow> Some (addr, None)
      | [addr, m] \<Rightarrow> Some (addr, Some m)
      | _ \<Rightarrow> None)"

definition network_parts :: "(string \<Rightarrow> int option) \<Rightarrow> (string \<Rightarrow> nat option) \<Rightarrow> nat \<Rightarrow> string \<Rightarrow> (int \<times> nat) option" where
  "network_parts address prefix maxlen s =
     (case split_netmask s of
        None \<Rightarrow> None
      | Some (addr, m) \<Rightarrow>
          (case (address addr, case m of None \<Rightarrow> Some maxlen | Some t \<Rightarrow> prefix t) of
             (Some v, Some p) \<Rightarrow> Some (v, p)
           | _ \<Rightarrow> None))"

definition strict_network :: "('a::len word \<Rightarrow> nat \<Rightarrow> ip_network) \<Rightarrow> 'a word \<Rightarrow> nat \<Rightarrow> string \<Rightarrow> ip_network result" where
  "strict_network cls v p s =
     (if v AND netmask p = v then Inr (cls v p) else Inl (ValueError (s @ '' has host bits set'')))"

definition parse_ip_network :: "string \<Rightarrow> ip_network result" where
  "parse_ip_network s =
     (case network_parts parse_ipv4 parse_ipv4_mask 32 s of
        Some (v, p) \<Rightarrow> strict_network IPv4Network (of_int v) p s
      | None \<Rightarrow>
          (case network_parts parse_ipv6 (parse_prefix 128) 128 s of
             Some (v, p) \<Rightarrow> strict_network IPv6Network (of_int v) p s
           | None \<Rightarrow> Inl (ValueError (s @ '' does not appear to be an IPv4 or IPv6 network''))))"

section \<open>Lemmas\<close>

text \<open>Membership compares the leading \<open>prefixlen\<close> bits.\<close>

lemma netmask_iff_prefix:
  fixes ip network :: "'a::len word"
  assumes "network AND netmask p = network" "p \<le> LENGTH('a)"
  shows "ip AND netmask p = network \<longleftrightarrow> drop_bit (LENGTH('a) - p) ip = drop_bit (LENGTH('a) - p) network"
proof -
  let ?n = "LENGTH('a) - p"
  have bits: "bit (netmask p :: 'a word) i \<longleftrightarrow> ?n \<le> i \<and> i < LENGTH('a)" for i
    by (auto simp: netmask_def bit_not_iff bit_mask_iff)
  have network: "bit network i \<Longrightarrow> ?n \<le> i" for i
    using assms(1) bits [of i] by (metis bit_and_iff)
  show ?thesis
  proof
    assume "ip AND netmask p = network"
    then have "bit network i \<longleftrightarrow> bit ip i \<and> ?n \<le> i \<and> i < LENGTH('a)" for i
      using bits [of i] by (auto simp: bit_and_iff)
    then show "drop_bit ?n ip = drop_bit ?n network"
      by (intro bit_word_eqI) (auto simp: bit_drop_bit_eq dest: bit_imp_le_length)
  next
    assume d: "drop_bit ?n ip = drop_bit ?n network"
    have "bit ip i \<longleftrightarrow> bit network i" if "?n \<le> i" for i
    proof -
      from d have "bit (drop_bit ?n ip) (i - ?n) \<longleftrightarrow> bit (drop_bit ?n network) (i - ?n)" by simp
      with that show ?thesis by (simp add: bit_drop_bit_eq)
    qed
    then show "ip AND netmask p = network"
      using network by (intro bit_word_eqI) (auto simp: bit_and_iff bits)
  qed
qed

end
