(* ===== verification/Tcp_Frontend.thy ===== *)
theory Tcp_Frontend
  imports Mbap_Frontend Config Ip_Address
begin

text \<open>
  \<open>modbusgw/frontends/tcp_modbus.py\<close>: the Modbus/TCP server of \<open>Mbap_Frontend\<close> with admission by
  source address and by the subject of the client certificate. Its state extends the server's.
  What the TLS layer knows of a connection (\<open>ssl_object\<close>) is an argument of \<open>tcp_connect\<close>;
  theory \<open>Tls_Contexts\<close> builds the context, binding the socket is not modelled. Strings are
  texts of characters up to U+00FF.
\<close>

section \<open>Distinguished names\<close>

definition is_space :: "char \<Rightarrow> bool" where
  "is_space c \<longleftrightarrow> (of_char c :: nat) \<in> {9, 10, 11, 12, 13, 28, 29, 30, 31, 32, 0x85, 0xA0}"

definition py_strip :: "string \<Rightarrow> string" where
  "py_strip s = rev (dropWhile is_space (rev (dropWhile is_space s)))"

definition lower_char :: "char \<Rightarrow> char" where
  "lower_char c =
     (let n = (of_char c :: nat) in
      if 65 \<le> n \<and> n \<le> 90 \<or> 0xC0 \<le> n \<and> n \<le> 0xDE \<and> n \<noteq> 0xD7 then char_of (n + 32) else c)"

definition normalize_dn :: "string \<Rightarrow> string" where
  "normalize_dn val = map lower_char (py_strip val)"

definition dn_aliases :: "(string \<times> string) list" where
  "dn_aliases = [(''commonName'', ''CN''), (''countryName'', ''C''), (''localityName'', ''L''),
     (''stateOrProvinceName'', ''ST''), (''organizationName'', ''O''),
     (''organizationalUnitName'', ''OU''), (''emailAddress'', ''emailAddress'')]"

definition dn_component :: "string \<times> string \<Rightarrow> string" where
  "dn_component av =
     (case dict_get dn_aliases (fst av) of Some label \<Rightarrow> label | None \<Rightarrow> fst av) @ ''='' @ snd av"

definition join :: "string \<Rightarrow> string list \<Rightarrow> string" where
  "join sep parts = (case parts of [] \<Rightarrow> [] | p # ps \<Rightarrow> p @ concat (map (\<lambda>q. sep @ q) ps))"

definition subject_to_string :: "(string \<times> string) list list \<Rightarrow> string" where
  "subject_to_string subject = join '','' (concat (map (map dn_component) subject))"

text \<open>The peer certificate: none (or empty), or one with or without a subject.\<close>

datatype peer_cert = NoCert | Cert "(string \<times> string) list list option"

definition extract_client_dn :: "peer_cert option \<Rightarrow> string option" where
  "extract_client_dn ssl_obj =
     (case ssl_obj of
        None \<Rightarrow> None
      | Some NoCert \<Rightarrow> None
      | Some (Cert None) \<Rightarrow> None
      | Some (Cert (Some subject)) \<Rightarrow> if subject = [] then None else Some (subject_to_string subject))"

section \<open>The frontend\<close>

text \<open>\<open>tf_listening\<close>: \<open>_server\<close> is set; \<open>tf_closing\<close>: \<open>stop\<close> closed it and awaits \<open>wait_closed\<close>.
  \<open>tf_clients\<close>: the locals \<open>ip\<close> and \<open>client_dn\<close> of each connection's task, by client identifier.\<close>

record tcp_frontend = mbap_server +
  tf_config :: tcp_modbus_frontend_config
  tf_listening :: bool
  tf_closing :: bool
  tf_allow :: "ip_network list"
  tf_dn_allow :: "string list option"
  tf_clients :: "(string \<times> string \<times> string option) list"

fun parse_networks :: "string list \<Rightarrow> ip_network list result" where
  "parse_networks [] = Inr []"
| "parse_networks (c # cs) =
     bind_result (parse_ip_network c) (\<lambda>n. map_sum id (\<lambda>ns. n # ns) (parse_networks cs))"

text \<open>\<open>__init__\<close>: networks first, then the certificate policy.\<close>

definition dn_policy :: "tls_config option \<Rightarrow> string list option result" where
  "dn_policy tls =
     (case tls of
        None \<Rightarrow> Inr None
      | Some t \<Rightarrow>
          if tls_client_dn_allow t = [] then Inr None
          else if \<not> tls_require_client_cert t
            then Inl (ValueError ''client_dn_allow requires require_client_cert=True'')
          else if tls_ca_file t = None
            then Inl (ValueError ''client_dn_allow requires a ca_file to be configured'')
          else Inr (Some (map normalize_dn (tls_client_dn_allow t))))"

definition tcp_frontend_init :: "tcp_modbus_frontend_config \<Rightarrow> tcp_frontend result" where
  "tcp_frontend_init config =
     bind_result (parse_networks (tmf_cidr_allow config)) (\<lambda>networks.
     bind_result (dn_policy (tmf_tls config)) (\<lambda>dns.
       Inr \<lparr>ms_name = tmf_id config, ms_client_counter = 0, ms_pending = [], ms_conns = [],
            ms_written = [], ms_received = [], tf_config = config, tf_listening = False,
            tf_closing = False,
            tf_allow = networks, tf_dn_allow = dns, tf_clients = []\<rparr>))"

text \<open>\<open>start\<close>: \<open>bound\<close> is what building the TLS context and binding the socket yields.\<close>

definition tcp_frontend_start :: "unit result \<Rightarrow> tcp_frontend \<Rightarrow> unit result \<times> tcp_frontend" where
  "tcp_frontend_start bound fe =
     (if tf_listening fe then (Inr (), fe)
      else (case bound of Inl e \<Rightarrow> (Inl e, fe) | Inr _ \<Rightarrow> (Inr (), fe\<lparr>tf_listening := True\<rparr>)))"

text \<open>
  \<open>stop\<close> up to its \<open>await\<close>, which lasts until the last connection is closed (Python since 3.12) or no
  time, while the clients are served; then every task is cancelled. \<open>tcp_frontend_stop\<close> is the whole, when
  no other task runs in between.
\<close>

definition tcp_close_server :: "tcp_frontend \<Rightarrow> tcp_frontend" where
  "tcp_close_server fe = (if tf_listening fe then fe\<lparr>tf_closing := True\<rparr> else fe)"

definition tcp_stop_tasks :: "tcp_frontend \<Rightarrow> tcp_frontend" where
  "tcp_stop_tasks fe =
     (if tf_closing fe then server_stop (fe\<lparr>tf_listening := False, tf_closing := False\<rparr>) else fe)"

definition tcp_frontend_stop :: "tcp_frontend \<Rightarrow> tcp_frontend" where
  "tcp_frontend_stop fe = (if tf_listening fe then tcp_stop_tasks (tcp_close_server fe) else fe)"

definition allow_connection :: "tcp_frontend \<Rightarrow> string \<Rightarrow> bool" where
  "allow_connection fe ip_str =
     (case parse_ip_address ip_str of
        None \<Rightarrow> False
      | Some ip \<Rightarrow> if tf_allow fe \<noteq> [] then list_ex (ip_in ip) (tf_allow fe) else True)"

definition is_client_dn_allowed :: "tcp_frontend \<Rightarrow> string option \<Rightarrow> bool" where
  "is_client_dn_allowed fe client_dn =
     (case tf_dn_allow fe of
        None \<Rightarrow> True
      | Some allowed \<Rightarrow>
          (case client_dn of None \<Rightarrow> False | Some dn \<Rightarrow> normalize_dn dn \<in> set allowed))"

text \<open>
  \<open>_handle_client\<close> up to its loop. A refused connection is closed at once; one refused for its
  subject has already used up a client number.
\<close>

definition tcp_connect ::
  "nat \<Rightarrow> string option \<Rightarrow> peer_cert option \<Rightarrow> stream_event list \<Rightarrow> tcp_frontend \<Rightarrow> tcp_frontend" where
  "tcp_connect conn peername ssl_obj incoming fe =
     (let ip = (case peername of None \<Rightarrow> ''0.0.0.0'' | Some addr \<Rightarrow> addr) in
      if \<not> allow_connection fe ip then fe
      else let client_dn = extract_client_dn ssl_obj in
        if \<not> is_client_dn_allowed fe client_dn
        then fe\<lparr>ms_client_counter := ms_client_counter fe + 1\<rparr>
        else let client_id = ms_name fe @ ''-c'' @ nat_str (ms_client_counter fe + 1) in
          (admit_client ''-c'' conn incoming fe)
            \<lparr>tf_clients := dict_set client_id (ip, client_dn) (tf_clients fe)\<rparr>)"

definition opt_str :: "string option \<Rightarrow> pyval" where
  "opt_str s = (case s of None \<Rightarrow> PyNone | Some t \<Rightarrow> PyStr t)"

definition tcp_metadata :: "tcp_frontend \<Rightarrow> string \<Rightarrow> int \<Rightarrow> (string \<times> pyval) list" where
  "tcp_metadata fe client_id transaction_id =
     (case dict_get (tf_clients fe) client_id of
        None \<Rightarrow> []
      | Some (ip, client_dn) \<Rightarrow>
          [(''client_id'', PyStr client_id), (''transaction_id'', PyInt transaction_id),
           (''protocol_id'', PyInt 0), (''client_ip'', PyStr ip), (''client_dn'', opt_str client_dn)])"

definition tcp_client_step ::
  "('t \<Rightarrow> string \<Rightarrow> gateway_message \<Rightarrow> exn option) \<Rightarrow> nat \<Rightarrow> tcp_frontend \<Rightarrow> ('t, gateway_message) bus \<Rightarrow>
   (tcp_frontend \<times> ('t, gateway_message) bus) option" where
  "tcp_client_step run_tracer conn fe b = client_step run_tracer (tcp_metadata fe) conn fe b"

definition tcp_handle_response :: "tcp_frontend frontend_handler" where
  "tcp_handle_response fe message = server_handle_response fe message"

section \<open>The frontend among the other tasks\<close>

text \<open>
  A connection that was accepted before \<open>stop\<close> may still be handled while or after the server is
  closed, so clients connect in every state.
\<close>

inductive tcp_reachable ::
  "('t \<Rightarrow> string \<Rightarrow> gateway_message \<Rightarrow> exn option) \<Rightarrow> tcp_modbus_frontend_config \<Rightarrow>
   tcp_frontend \<Rightarrow> ('t, gateway_message) bus \<Rightarrow> bool" for run_tracer config where
  tcp_made: "tcp_frontend_init config = Inr fe \<Longrightarrow> tcp_reachable run_tracer config fe b"
| tcp_started: "tcp_reachable run_tracer config fe b \<Longrightarrow>
     tcp_reachable run_tracer config (snd (tcp_frontend_start bound fe)) b"
| tcp_closed: "tcp_reachable run_tracer config fe b \<Longrightarrow>
     tcp_reachable run_tracer config (tcp_close_server fe) b"
| tcp_stopped: "tcp_reachable run_tracer config fe b \<Longrightarrow>
     tcp_reachable run_tracer config (tcp_stop_tasks fe) b"
| tcp_connected: "tcp_reachable run_tracer config fe b \<Longrightarrow>
     dict_get (ms_conns fe) conn = None \<Longrightarrow> conn \<notin> fst ` set (ms_received fe) \<Longrightarrow>
     tcp_reachable run_tracer config (tcp_connect conn peername ssl_obj incoming fe) b"
| tcp_arrived: "tcp_reachable run_tracer config fe b \<Longrightarrow> dict_get (ms_conns fe) conn = Some c \<Longrightarrow>
     tcp_reachable run_tracer config (set_client conn (c\<lparr>cc_incoming := cc_incoming c @ events\<rparr>) fe) b"
| tcp_stepped: "tcp_reachable run_tracer config fe b \<Longrightarrow>
     tcp_client_step run_tracer conn fe b = Some (fe', b') \<Longrightarrow> tcp_reachable run_tracer config fe' b'"
| tcp_answered: "tcp_reachable run_tracer config fe b \<Longrightarrow>
     tcp_reachable run_tracer config (snd (tcp_handle_response fe m)) b"
| tcp_others: "tcp_reachable run_tracer config fe b \<Longrightarrow> tcp_reachable run_tracer config fe b'"

section \<open>Specification: who is admitted\<close>

text \<open>
  By the configuration alone: the address parses and, when networks are listed, is in one of
  them; when subjects are listed, the client's is one of them up to case and outer blanks.
\<close>

definition admitted :: "tcp_modbus_frontend_config \<Rightarrow> string \<Rightarrow> string option \<Rightarrow> bool" where
  "admitted config ip dn \<longleftrightarrow>
     (\<exists>a. parse_ip_address ip = Some a \<and>
        (tmf_cidr_allow config = [] \<or>
         (\<exists>c \<in> set (tmf_cidr_allow config). \<exists>n. parse_ip_network c = Inr n \<and> ip_in a n))) \<and>
     (\<forall>t. tmf_tls config = Some t \<and> tls_client_dn_allow t \<noteq> [] \<longrightarrow>
        (\<exists>d. dn = Some d \<and> (\<exists>e \<in> set (tls_client_dn_allow t). normalize_dn d = normalize_dn e)))"

definition policy_of :: "tcp_modbus_frontend_config \<Rightarrow> tcp_frontend \<Rightarrow> bool" where
  "policy_of config fe \<longleftrightarrow>
     ms_name fe = tmf_id config \<and> parse_networks (tmf_cidr_allow config) = Inr (tf_allow fe) \<and>
     dn_policy (tmf_tls config) = Inr (tf_dn_allow fe)"

lemma parse_networks_Inr_iff: "parse_networks cs = Inr ns \<longleftrightarrow> list_all2 (\<lambda>c n. parse_ip_network c = Inr n) cs ns"
proof (induction cs arbitrary: ns)
  case (Cons c cs)
  then show ?case
    by (cases ns) (auto simp: bind_result_Inr_iff map_sum_id_Inr_iff)
qed auto

lemma dn_policy_Inr_iff:
  "dn_policy tls = Inr dns \<longleftrightarrow>
     (if \<forall>t. tls = Some t \<longrightarrow> tls_client_dn_allow t = [] then dns = None
      else \<exists>t. tls = Some t \<and> tls_require_client_cert t \<and> tls_ca_file t \<noteq> None \<and>
        dns = Some (map normalize_dn (tls_client_dn_allow t)))"
  by (auto simp: dn_policy_def split: option.splits)

text \<open>The two checks of the code are the specification.\<close>

lemma checks_iff_admitted:
  assumes "policy_of config fe"
  shows "allow_connection fe ip \<and> is_client_dn_allowed fe dn \<longleftrightarrow> admitted config ip dn"
proof -
  have nets: "list_all2 (\<lambda>c n. parse_ip_network c = Inr n) (tmf_cidr_allow config) (tf_allow fe)"
    using assms by (simp add: policy_of_def parse_networks_Inr_iff)
  then have empty: "tf_allow fe = [] \<longleftrightarrow> tmf_cidr_allow config = []" by auto
  have "list_ex (ip_in a) (tf_allow fe) \<longleftrightarrow>
      (\<exists>c \<in> set (tmf_cidr_allow config). \<exists>n. parse_ip_network c = Inr n \<and> ip_in a n)" for a
    using nets by (induction rule: list_all2_induct) auto
  then have ip: "allow_connection fe ip \<longleftrightarrow> (\<exists>a. parse_ip_address ip = Some a \<and>
      (tmf_cidr_allow config = [] \<or>
       (\<exists>c \<in> set (tmf_cidr_allow config). \<exists>n. parse_ip_network c = Inr n \<and> ip_in a n)))"
    using empty by (auto simp: allow_connection_def split: option.splits)
  have "is_client_dn_allowed fe dn \<longleftrightarrow> (\<forall>t. tmf_tls config = Some t \<and> tls_client_dn_allow t \<noteq> [] \<longrightarrow>
        (\<exists>d. dn = Some d \<and> (\<exists>e \<in> set (tls_client_dn_allow t). normalize_dn d = normalize_dn e)))"
    using assms by (auto simp: policy_of_def dn_policy_Inr_iff is_client_dn_allowed_def
        split: option.splits if_splits)
  with ip show ?thesis by (simp add: admitted_def)
qed

section \<open>Invariants\<close>

text \<open>The steps of the shared server keep everything the frontend adds, and its name.\<close>

definition same_policy :: "tcp_frontend \<Rightarrow> tcp_frontend \<Rightarrow> bool" where
  "same_policy fe fe' \<longleftrightarrow> ms_name fe' = ms_name fe \<and> tf_allow fe' = tf_allow fe \<and>
     tf_dn_allow fe' = tf_dn_allow fe \<and> tf_clients fe' = tf_clients fe"

lemma same_policy_handle: "same_policy fe (snd (server_handle_response fe m))"
  by (auto simp: same_policy_def server_handle_response_def Let_def split: option.splits sum.splits)

lemma same_policy_step:
  assumes "client_step run_tracer metadata conn fe b = Some (fe', b')"
  shows "same_policy fe fe'"
  by (cases rule: client_step_cases [OF assms])
    (auto simp: same_policy_def end_client_def set_client_def accept_frame_def Let_def split: sum.splits)

lemma policy_of_same: "policy_of config fe \<Longrightarrow> same_policy fe fe' \<Longrightarrow> policy_of config fe'"
  by (simp add: policy_of_def same_policy_def)

text \<open>The frontend is a server in the sense of \<open>Mbap_Frontend\<close>.\<close>

lemma tcp_is_server: "tcp_reachable run_tracer config fe b \<Longrightarrow> server_reachable run_tracer ''-c'' fe b"
proof (induction rule: tcp_reachable.induct)
  case (tcp_made fe b)
  then show ?case
    by (intro srv_start) (auto simp: tcp_frontend_init_def bind_result_Inr_iff)
next
  case (tcp_started fe b bound)
  then show ?case
    by (intro srv_more [OF tcp_started.IH])
      (simp add: tcp_frontend_start_def mbap_server.truncate_def split: sum.splits)
next
  case (tcp_stopped fe b)
  have "server_reachable run_tracer ''-c'' (server_stop fe) b" by (rule srv_stop [OF tcp_stopped.IH])
  then have "server_reachable run_tracer ''-c'' (server_stop (fe\<lparr>tf_listening := False, tf_closing := False\<rparr>)) b"
    by (rule srv_more) (simp add: server_stop_def mbap_server.truncate_def)
  with tcp_stopped.IH show ?case by (simp add: tcp_stop_tasks_def)
next
  case (tcp_closed fe b)
  show ?case by (rule srv_more [OF tcp_closed.IH]) (simp add: tcp_close_server_def mbap_server.truncate_def)
next
  case (tcp_connected fe b conn peername ssl_obj incoming)
  let ?ip = "case peername of None \<Rightarrow> ''0.0.0.0'' | Some addr \<Rightarrow> addr"
  show ?case
  proof (cases "\<not> allow_connection fe ?ip \<or> \<not> is_client_dn_allowed fe (extract_client_dn ssl_obj)")
    case True
    with tcp_connected.IH srv_refuse [OF tcp_connected.IH] show ?thesis
      by (auto simp: tcp_connect_def Let_def)
  next
    case False
    have "server_reachable run_tracer ''-c'' (admit_client ''-c'' conn incoming fe) b"
      by (rule srv_admit [OF tcp_connected.IH tcp_connected.hyps(2,3)])
    then have "server_reachable run_tracer ''-c'' ((admit_client ''-c'' conn incoming fe)\<lparr>tf_clients := x\<rparr>) b" for x
      by (rule srv_more) (simp add: mbap_server.truncate_def)
    with False show ?thesis by (simp add: tcp_connect_def Let_def)
  qed
next
  case (tcp_arrived fe b conn c events)
  then show ?case by (blast intro: srv_arrive)
next
  case (tcp_stepped fe b conn fe' b')
  show ?case by (rule srv_step [OF tcp_stepped.IH tcp_stepped.hyps(2) [unfolded tcp_client_step_def]])
next
  case (tcp_answered fe b m)
  show ?case unfolding tcp_handle_response_def by (rule srv_answer [OF tcp_answered.IH])
next
  case (tcp_others fe b b')
  show ?case by (rule srv_others [OF tcp_others.IH])
qed

text \<open>Every connection was admitted, and what it is about to publish says as what.\<close>

definition own_metadata :: "tcp_frontend \<Rightarrow> string \<Rightarrow> routed_request \<Rightarrow> bool" where
  "own_metadata fe client_id routed \<longleftrightarrow>
     (\<exists>tid. rc_metadata (rr_context routed) = tcp_metadata fe client_id tid)"

lemma own_metadata_built [simp]:
  "own_metadata fe client_id \<lparr>rr_context = \<lparr>rc_frontend = f, rc_request_id = r,
     rc_metadata = tcp_metadata fe client_id tid\<rparr>, rr_pdu = p\<rparr>"
  by (auto simp: own_metadata_def)

definition clients_admitted :: "tcp_modbus_frontend_config \<Rightarrow> tcp_frontend \<Rightarrow> bool" where
  "clients_admitted config fe \<longleftrightarrow> (\<forall>conn c. dict_get (ms_conns fe) conn = Some c \<longrightarrow>
     (\<exists>ip dn. dict_get (tf_clients fe) (cc_client_id c) = Some (ip, dn) \<and> admitted config ip dn \<and>
        (\<forall>routed. cc_task c = AwaitPublish routed \<longrightarrow>
           own_metadata fe (cc_client_id c) routed)))"

lemma clients_admitted_mono:
  assumes "clients_admitted config fe" "tf_clients fe' = tf_clients fe"
    and "\<And>conn c'. dict_get (ms_conns fe') conn = Some c' \<Longrightarrow>
      \<exists>c. dict_get (ms_conns fe) conn = Some c \<and> cc_client_id c' = cc_client_id c \<and>
        (\<forall>routed. cc_task c' = AwaitPublish routed \<longrightarrow> cc_task c = AwaitPublish routed \<or>
           own_metadata fe (cc_client_id c) routed)"
  shows "clients_admitted config fe'"
  unfolding clients_admitted_def
proof (intro allI impI)
  fix conn c' assume "dict_get (ms_conns fe') conn = Some c'"
  from assms(3) [OF this] obtain c where c: "dict_get (ms_conns fe) conn = Some c" "cc_client_id c' = cc_client_id c"
    "\<And>routed. cc_task c' = AwaitPublish routed \<Longrightarrow> cc_task c = AwaitPublish routed \<or>
           own_metadata fe (cc_client_id c) routed"
    by blast
  obtain ip dn where "dict_get (tf_clients fe) (cc_client_id c) = Some (ip, dn)" "admitted config ip dn"
    "\<And>routed. cc_task c = AwaitPublish routed \<Longrightarrow>
           own_metadata fe (cc_client_id c) routed"
    using assms(1) c(1) unfolding clients_admitted_def by blast
  moreover have "tcp_metadata fe' = tcp_metadata fe"
    by (intro ext) (simp add: tcp_metadata_def assms(2))
  ultimately show "\<exists>ip dn. dict_get (tf_clients fe') (cc_client_id c') = Some (ip, dn) \<and> admitted config ip dn \<and>
        (\<forall>routed. cc_task c' = AwaitPublish routed \<longrightarrow>
           own_metadata fe' (cc_client_id c') routed)"
    using c(2,3) assms(2) by (auto simp: own_metadata_def)
qed

lemma clients_admitted_step:
  assumes "clients_admitted config fe" "tcp_client_step run_tracer conn fe b = Some (fe', b')"
  shows "clients_admitted config fe'"
proof (rule clients_admitted_mono [OF assms(1)])
  note step = assms(2) [unfolded tcp_client_step_def]
  show "tf_clients fe' = tf_clients fe" using same_policy_step [OF step] by (simp add: same_policy_def)
  fix w c' assume w: "dict_get (ms_conns fe') w = Some c'"
  show "\<exists>c. dict_get (ms_conns fe) w = Some c \<and> cc_client_id c' = cc_client_id c \<and>
        (\<forall>routed. cc_task c' = AwaitPublish routed \<longrightarrow> cc_task c = AwaitPublish routed \<or>
           own_metadata fe (cc_client_id c) routed)"
    by (cases rule: client_step_cases [OF step])
      (use w in \<open>auto simp: end_client_def set_client_def accept_frame_def Let_def
        split: if_splits sum.splits\<close>)
qed

text \<open>A connection that is added for an admitted client under a fresh identifier.\<close>

lemma clients_admitted_add:
  assumes "clients_admitted config fe" and "admitted config ip dn" and "cc_task c0 = AwaitHeader"
    and conns: "dict_get (ms_conns fe') = (dict_get (ms_conns fe))(conn \<mapsto> c0)"
    and clients: "dict_get (tf_clients fe') = (dict_get (tf_clients fe))(cc_client_id c0 \<mapsto> (ip, dn))"
    and fresh: "\<And>w c. dict_get (ms_conns fe) w = Some c \<Longrightarrow> cc_client_id c \<noteq> cc_client_id c0"
  shows "clients_admitted config fe'"
  unfolding clients_admitted_def
proof (intro allI impI)
  fix w c assume w: "dict_get (ms_conns fe') w = Some c"
  show "\<exists>ip dn. dict_get (tf_clients fe') (cc_client_id c) = Some (ip, dn) \<and> admitted config ip dn \<and>
    (\<forall>routed. cc_task c = AwaitPublish routed \<longrightarrow> own_metadata fe' (cc_client_id c) routed)"
  proof (cases "w = conn")
    case True
    with w assms(2,3) show ?thesis by (auto simp: conns clients)
  next
    case False
    with w have old: "dict_get (ms_conns fe) w = Some c" by (simp add: conns)
    have "dict_get (tf_clients fe') (cc_client_id c) = dict_get (tf_clients fe) (cc_client_id c)"
      using fresh [OF old] by (simp add: clients)
    moreover from this have "tcp_metadata fe' (cc_client_id c) = tcp_metadata fe (cc_client_id c)"
      by (intro ext) (simp add: tcp_metadata_def)
    ultimately show ?thesis using assms(1) old unfolding clients_admitted_def own_metadata_def by metis
  qed
qed

lemma clients_admitted_connect:
  assumes "clients_admitted config fe" "server_ok ''-c'' fe" "policy_of config fe"
  shows "clients_admitted config (tcp_connect conn peername ssl_obj incoming fe)"
proof -
  define ip where "ip = (case peername of None \<Rightarrow> ''0.0.0.0'' | Some addr \<Rightarrow> addr)"
  define dn where "dn = extract_client_dn ssl_obj"
  let ?n = "ms_client_counter fe + 1"
  let ?c = "\<lparr>cc_client_id = ms_name fe @ ''-c'' @ nat_str ?n, cc_incoming = incoming, cc_task = AwaitHeader\<rparr>"
  show ?thesis
  proof (cases "allow_connection fe ip \<and> is_client_dn_allowed fe dn")
    case False
    then have "tcp_connect conn peername ssl_obj incoming fe = fe \<or>
        tcp_connect conn peername ssl_obj incoming fe = fe\<lparr>ms_client_counter := ?n\<rparr>"
      by (simp add: tcp_connect_def Let_def flip: ip_def dn_def)
    moreover have "clients_admitted config (fe\<lparr>ms_client_counter := ?n\<rparr>)"
      by (intro clients_admitted_mono [OF assms(1)]) auto
    ultimately show ?thesis using assms(1) by metis
  next
    case True
    then have "admitted config ip dn" using checks_iff_admitted [OF assms(3)] by blast
    then show ?thesis
    proof (rule clients_admitted_add [OF assms(1), where conn = conn and ?c0.0 = ?c])
      show "dict_get (ms_conns (tcp_connect conn peername ssl_obj incoming fe)) = (dict_get (ms_conns fe))(conn \<mapsto> ?c)"
        "dict_get (tf_clients (tcp_connect conn peername ssl_obj incoming fe)) =
          (dict_get (tf_clients fe))(cc_client_id ?c \<mapsto> (ip, dn))"
        using True by (simp_all add: tcp_connect_def admit_client_def Let_def fun_eq_iff flip: ip_def dn_def)
      show "cc_client_id c \<noteq> cc_client_id ?c" if "dict_get (ms_conns fe) w = Some c" for w c
        using server_okD(4) [OF assms(2) that] by (auto simp: nat_str_inject)
    qed simp
  qed
qed

lemma tcp_reachable_inv:
  "tcp_reachable run_tracer config fe b \<Longrightarrow> policy_of config fe \<and> clients_admitted config fe"
proof (induction rule: tcp_reachable.induct)
  case (tcp_made fe b)
  then show ?case
    by (auto simp: tcp_frontend_init_def bind_result_Inr_iff policy_of_def clients_admitted_def)
next
  case (tcp_started fe b bound)
  have "same_policy fe (snd (tcp_frontend_start bound fe))" "ms_conns (snd (tcp_frontend_start bound fe)) = ms_conns fe"
    by (simp_all add: tcp_frontend_start_def same_policy_def split: sum.splits)
  with tcp_started.IH show ?case
    by (auto simp: same_policy_def policy_of_same intro!: clients_admitted_mono [of config fe]
        intro: policy_of_same)
next
  case (tcp_stopped fe b)
  then show ?case
    by (auto simp: tcp_stop_tasks_def server_stop_def policy_of_def clients_admitted_def)
next
  case (tcp_closed fe b)
  then show ?case
    by (auto simp: tcp_close_server_def policy_of_def intro!: clients_admitted_mono [of config fe])
next
  case (tcp_connected fe b conn peername ssl_obj incoming)
  have "clients_admitted config (tcp_connect conn peername ssl_obj incoming fe)"
    using tcp_connected.IH server_reachable_ok [OF tcp_is_server [OF tcp_connected.hyps(1)]]
    by (intro clients_admitted_connect) simp_all
  with tcp_connected.IH show ?case
    by (auto simp: policy_of_def tcp_connect_def admit_client_def Let_def)
next
  case (tcp_arrived fe b conn c events)
  then show ?case
    by (auto simp: policy_of_def set_client_def intro!: clients_admitted_mono [of config fe] split: if_splits)
next
  case (tcp_stepped fe b conn fe' b')
  then show ?case
    using policy_of_same [OF _ same_policy_step [OF tcp_stepped.hyps(2) [unfolded tcp_client_step_def]]]
      clients_admitted_step by blast
next
  case (tcp_answered fe b m)
  have "ms_conns (snd (server_handle_response fe m)) = ms_conns fe"
    by (auto simp: server_handle_response_def Let_def split: option.splits sum.splits)
  then show ?case
    using tcp_answered.IH same_policy_handle [of fe m] unfolding tcp_handle_response_def
    by (auto simp: same_policy_def intro: policy_of_same [OF _ same_policy_handle]
        intro!: clients_admitted_mono [of config fe])
next
  case (tcp_others fe b b')
  then show ?case by simp
qed

section \<open>Properties\<close>

text \<open>C21. Nothing reaches the bus from a client the configuration does not admit: in every reachable
  state of the TCP frontend, a request that a connection's task is about to publish carries the
  metadata of that connection, and the address and certificate subject it names are admitted by
  the configured networks and subjects.\<close>

theorem only_admitted_clients_publish:
  assumes "tcp_reachable run_tracer config fe b"
    and "dict_get (ms_conns fe) conn = Some c" and "cc_task c = AwaitPublish routed"
  shows "\<exists>ip dn tid. admitted config ip dn \<and>
    rc_metadata (rr_context routed) =
      [(''client_id'', PyStr (cc_client_id c)), (''transaction_id'', PyInt tid), (''protocol_id'', PyInt 0),
       (''client_ip'', PyStr ip), (''client_dn'', opt_str dn)]"
proof -
  obtain ip dn tid where "dict_get (tf_clients fe) (cc_client_id c) = Some (ip, dn)" "admitted config ip dn"
    "rc_metadata (rr_context routed) = tcp_metadata fe (cc_client_id c) tid"
    using tcp_reachable_inv [OF assms(1)] assms(2,3)
    unfolding clients_admitted_def own_metadata_def by blast
  then show ?thesis by (intro exI conjI) (assumption, simp add: tcp_metadata_def)
qed

definition plant_config :: tcp_modbus_frontend_config where
  "plant_config = \<lparr>tmf_id = ''tcp'', tmf_host = ''0.0.0.0'', tmf_port = 502, tmf_tls = None,
     tmf_cidr_allow = [''10.0.0.0/8''], tmf_base = frontend_base_default\<rparr>"

definition plant_frontend :: tcp_frontend where
  "plant_frontend = \<lparr>ms_name = ''tcp'', ms_client_counter = 0, ms_pending = [], ms_conns = [],
     ms_written = [], ms_received = [], tf_config = plant_config, tf_listening = True,
     tf_closing = False,
     tf_allow = [IPv4Network 0x0A000000 8], tf_dn_allow = None, tf_clients = []\<rparr>"

lemma plant_networks: "parse_ip_network ''10.0.0.0/8'' = Inr (IPv4Network 0x0A000000 8)"
proof -
  have "(case parse_ip_network ''10.0.0.0/8'' of Inl e \<Rightarrow> False | Inr n \<Rightarrow> n = IPv4Network 0x0A000000 8)"
    by code_simp
  then show ?thesis by (simp split: sum.splits)
qed

lemma plant_frontend_reachable: "tcp_reachable run_tracer plant_config plant_frontend b"
proof -
  have "tcp_frontend_init plant_config = Inr (plant_frontend\<lparr>tf_listening := False\<rparr>)"
    by (simp add: tcp_frontend_init_def plant_networks dn_policy_def plant_frontend_def)
      (simp add: plant_config_def plant_networks)
  then have "tcp_reachable run_tracer plant_config (plant_frontend\<lparr>tf_listening := False\<rparr>) b"
    by (rule tcp_made)
  from tcp_started [OF this, of "Inr ()"] show ?thesis
    by (simp add: tcp_frontend_start_def plant_frontend_def)
qed

lemma plant_allows: "allow_connection plant_frontend ''10.1.2.3''"
proof -
  have "(case parse_ip_address ''10.1.2.3'' of None \<Rightarrow> False | Some a \<Rightarrow> ip_in a (IPv4Network 0x0A000000 8))"
    by code_simp
  then show ?thesis by (auto simp: allow_connection_def plant_frontend_def split: option.splits)
qed

lemma plant_client_publishes:
  obtains fe c routed where "tcp_reachable (\<lambda>_ _ _. None) plant_config fe (bus_init 10 :: (unit, gateway_message) bus)"
    "dict_get (ms_conns fe) 0 = Some c" "cc_task c = AwaitPublish routed"
proof -
  let ?b = "bus_init 10 :: (unit, gateway_message) bus"
  define fe0 where "fe0 = tcp_connect 0 (Some ''10.1.2.3'') None (map Arrive read_frame) plant_frontend"
  obtain q where q: "request_from_adu [1, 3, 0, 0, 0, 1] None = Inr q"
    using read_request_decoded by blast
  have r0: "tcp_reachable (\<lambda>_ _ _. None) plant_config fe0 ?b"
    unfolding fe0_def by (rule tcp_connected [OF plant_frontend_reachable]) (simp_all add: plant_frontend_def)
  have "is_client_dn_allowed plant_frontend (extract_client_dn None)"
    by (simp add: is_client_dn_allowed_def plant_frontend_def)
  then have c: "dict_get (ms_conns fe0) 0 = Some sample_client"
    using plant_allows by (simp add: fe0_def tcp_connect_def Let_def admit_client_def sample_client_def)
      (simp add: plant_frontend_def nat_str.simps digit_char_def)
  have s: "cc_task sample_client = AwaitHeader"
    "cc_incoming sample_client = map Arrive (be16 9 @ [0, 0] @ be16 (int (length [1, 3, 0, 0, 0, 1 :: byte])) @ [1, 3, 0, 0, 0, 1]) @ []"
    by (simp_all add: sample_client_def read_frame_split)
  let ?c1 = "sample_client\<lparr>cc_incoming := map Arrive [3, 0, 0, 0, 1], cc_task := AwaitPayload 9 0 5 1\<rparr>"
  have "client_step (\<lambda>_ _ _. None) (tcp_metadata fe0) 0 fe0 ?b = Some (set_client 0 ?c1 fe0, ?b)"
    using client_step_header [OF c s(1), of 9 0 6 1 "map Arrive [3, 0, 0, 0, 1]"] s(2)
    by (simp add: be16_def)
  then have r1: "tcp_reachable (\<lambda>_ _ _. None) plant_config (set_client 0 ?c1 fe0) ?b"
    by (intro tcp_stepped [OF r0]) (simp add: tcp_client_step_def)
  have rw: "read_wait 5 (map Arrive [3, 0, 0, 0, 1]) = Some (Inr [3, 0, 0, 0, 1], [])"
    using read_wait_arrived [of "[3, 0, 0, 0, 1]" 5 "[]"] by simp
  let ?fe1 = "set_client 0 ?c1 fe0"
  define fe2 where "fe2 = accept_frame (tcp_metadata ?fe1 ''tcp-c1'') 0 (?c1\<lparr>cc_incoming := []\<rparr>) 9 0 1 [3, 0, 0, 0, 1] ?fe1"
  have "client_step (\<lambda>_ _ _. None) (tcp_metadata ?fe1) 0 ?fe1 ?b = Some (fe2, ?b)"
    using rw by (simp add: client_step_def set_client_def fe2_def sample_client_def)
  then have r2: "tcp_reachable (\<lambda>_ _ _. None) plant_config fe2 ?b"
    by (intro tcp_stepped [OF r1]) (simp add: tcp_client_step_def)
  have "\<exists>c routed. dict_get (ms_conns fe2) 0 = Some c \<and> cc_task c = AwaitPublish routed"
    using q by (simp add: fe2_def accept_frame_def Let_def set_client_def)
  then show thesis using that r2 by blast
qed

theorem only_admitted_clients_publish_witness:
  "\<exists>fe c routed ip dn. tcp_reachable (\<lambda>_ _ _. None) plant_config fe (bus_init 10 :: (unit, gateway_message) bus) \<and>
     dict_get (ms_conns fe) 0 = Some c \<and> cc_task c = AwaitPublish routed \<and> admitted plant_config ip dn"
proof -
  obtain fe c routed where w: "tcp_reachable (\<lambda>_ _ _. None) plant_config fe (bus_init 10 :: (unit, gateway_message) bus)"
    "dict_get (ms_conns fe) 0 = Some c" "cc_task c = AwaitPublish routed"
    by (rule plant_client_publishes)
  from only_admitted_clients_publish [OF w] w show ?thesis by (elim exE conjE) (intro exI conjI)
qed

text \<open>The text of a certificate subject does not separate its parts: a comma in one attribute value
  reads like the start of the next attribute. A certificate whose only attribute is a common name
  therefore passes, under any allow list, exactly when a certificate passes whose common name
  ends at the comma and which carries the rest as its organization.\<close>

theorem subject_value_can_pose_as_attribute:
  "is_client_dn_allowed fe (extract_client_dn (Some (Cert (Some [[(''commonName'', cn @ '',O='' @ org)]])))) =
   is_client_dn_allowed fe (extract_client_dn (Some (Cert (Some [[(''commonName'', cn)], [(''organizationName'', org)]]))))"
  by (simp add: extract_client_dn_def subject_to_string_def join_def dn_component_def dn_aliases_def)

end
