(* ===== verification/Unix_Frontend.thy ===== *)
theory Unix_Frontend
  imports Mbap_Frontend Config
begin

text \<open>
  \<open>modbusgw/frontends/unix_modbus_tcp.py\<close>: the Modbus/TCP server of \<open>Mbap_Frontend\<close> on a Unix
  domain socket, with a bound on the clients served at once. Its state extends the server's; its
  socket file is the subject of theory \<open>Socket_Files\<close>. What the operating system reports of a peer
  (\<open>peername\<close>, \<open>peercred\<close>) is an argument of \<open>unix_connect\<close>.
\<close>

section \<open>The frontend\<close>

text \<open>
  \<open>uf_listening\<close>: \<open>_server\<close> is set; \<open>uf_closing\<close>: \<open>stop\<close> closed it and awaits \<open>wait_closed\<close>.
  \<open>uf_leaving\<close> counts the client tasks that await \<open>writer.wait_closed()\<close> in their \<open>finally\<close> block:
  their connection is served no more, but they still hold their place. \<open>uf_lost\<close> observes the places
  of tasks that ended without giving them back.
\<close>

record unix_frontend = mbap_server +
  uf_config :: unix_modbus_tcp_config
  uf_listening :: bool
  uf_closing :: bool
  uf_leaving :: nat
  uf_lost :: nat
  uf_current_clients :: int
  uf_clients :: "(string \<times> pyval \<times> (int \<times> int \<times> int) option) list"

definition unix_frontend_init :: "unix_modbus_tcp_config \<Rightarrow> unix_frontend" where
  "unix_frontend_init config =
     \<lparr>ms_name = umt_id config, ms_client_counter = 0, ms_pending = [], ms_conns = [],
      ms_written = [], ms_received = [], uf_config = config, uf_listening = False,
      uf_closing = False, uf_leaving = 0, uf_lost = 0, uf_current_clients = 0, uf_clients = []\<rparr>"

text \<open>\<open>bound\<close>: how replacing the socket file and binding the server ended.\<close>

definition unix_frontend_start :: "unit result \<Rightarrow> unix_frontend \<Rightarrow> unit result \<times> unix_frontend" where
  "unix_frontend_start bound fe =
     (if uf_listening fe then (Inr (), fe)
      else (case bound of
              Inl e \<Rightarrow> (Inl e, fe)
            | Inr _ \<Rightarrow> (Inr (), fe\<lparr>uf_listening := True\<rparr>)))"

definition drop_client :: "int \<Rightarrow> int" where
  "drop_client n = max 0 (n - 1)"

text \<open>A client task after its \<open>wait_closed\<close>: it gives its place back.\<close>

definition unix_client_left :: "unix_frontend \<Rightarrow> unix_frontend" where
  "unix_client_left fe =
     (if uf_leaving fe = 0 then fe
      else fe\<lparr>uf_leaving := uf_leaving fe - 1, uf_current_clients := drop_client (uf_current_clients fe)\<rparr>)"

text \<open>
  \<open>stop\<close> up to its first \<open>await\<close>. How long that lasts is up to Python: until the last connection is
  closed (since 3.12), or no time; the clients are served meanwhile.
\<close>

definition unix_close_server :: "unix_frontend \<Rightarrow> unix_frontend" where
  "unix_close_server fe = (if uf_listening fe then fe\<lparr>uf_closing := True\<rparr> else fe)"

text \<open>
  Then every task is cancelled. One that serves a client runs its \<open>finally\<close> block, up to the
  \<open>await\<close> there. One that was already in that \<open>await\<close> is left by a \<open>CancelledError\<close>, which
  \<open>suppress(Exception)\<close> does not catch: it never gets to give its place back.
\<close>

definition unix_stop_tasks :: "unix_frontend \<Rightarrow> unix_frontend" where
  "unix_stop_tasks fe =
     (if uf_closing fe
      then (server_stop fe)\<lparr>uf_listening := False, uf_closing := False,
        uf_leaving := length (ms_conns fe), uf_lost := uf_lost fe + uf_leaving fe\<rparr>
      else fe)"

text \<open>The whole of \<open>stop\<close>, when no other task runs in between: it waits for the cancelled tasks.\<close>

definition unix_frontend_stop :: "unix_frontend \<Rightarrow> unix_frontend" where
  "unix_frontend_stop fe =
     (if uf_listening fe
      then let fe1 = unix_stop_tasks (unix_close_server fe) in (unix_client_left ^^ uf_leaving fe1) fe1
      else fe)"

definition unix_connect ::
  "nat \<Rightarrow> pyval \<Rightarrow> (int \<times> int \<times> int) option \<Rightarrow> stream_event list \<Rightarrow> unix_frontend \<Rightarrow> unix_frontend" where
  "unix_connect conn peername peercred incoming fe =
     (if int (umt_max_clients (uf_config fe)) \<le> uf_current_clients fe then fe
      else let client_id = ms_name fe @ ''-u'' @ nat_str (ms_client_counter fe + 1) in
        (admit_client ''-u'' conn incoming fe)
          \<lparr>uf_current_clients := uf_current_clients fe + 1,
           uf_clients := dict_set client_id (peername, peercred) (uf_clients fe)\<rparr>)"

definition unix_metadata :: "unix_frontend \<Rightarrow> string \<Rightarrow> int \<Rightarrow> (string \<times> pyval) list" where
  "unix_metadata fe client_id transaction_id =
     (case dict_get (uf_clients fe) client_id of
        None \<Rightarrow> []
      | Some (peername, peercred) \<Rightarrow>
          [(''client_id'', PyStr client_id), (''transport'', PyStr ''unix_modbus_tcp''),
           (''socket_path'', PyStr (umt_socket_path (uf_config fe))), (''peername'', peername)] @
          (case peercred of
             None \<Rightarrow> []
           | Some (pid, uid, gid) \<Rightarrow>
               [(''peer_pid'', PyInt pid), (''peer_uid'', PyInt uid), (''peer_gid'', PyInt gid)]))"

text \<open>A step that ends the serving of a client leaves its task in the \<open>await\<close> of the \<open>finally\<close> block.\<close>

definition unix_client_step ::
  "('t \<Rightarrow> string \<Rightarrow> gateway_message \<Rightarrow> exn option) \<Rightarrow> nat \<Rightarrow> unix_frontend \<Rightarrow> ('t, gateway_message) bus \<Rightarrow>
   (unix_frontend \<times> ('t, gateway_message) bus) option" where
  "unix_client_step run_tracer conn fe b =
     (case client_step run_tracer (unix_metadata fe) conn fe b of
        None \<Rightarrow> None
      | Some (fe', b') \<Rightarrow>
          Some (if dict_get (ms_conns fe') conn = None
                then fe'\<lparr>uf_leaving := uf_leaving fe' + 1\<rparr> else fe', b'))"

definition unix_handle_response :: "unix_frontend frontend_handler" where
  "unix_handle_response fe message = server_handle_response fe message"

text \<open>
  A connection that was accepted before \<open>stop\<close> may still be handled while or after the server is
  closed, so clients connect in every state.
\<close>

inductive unix_reachable ::
  "('t \<Rightarrow> string \<Rightarrow> gateway_message \<Rightarrow> exn option) \<Rightarrow> unix_modbus_tcp_config \<Rightarrow>
   unix_frontend \<Rightarrow> ('t, gateway_message) bus \<Rightarrow> bool" for run_tracer config where
  unix_made: "unix_reachable run_tracer config (unix_frontend_init config) b"
| unix_started: "unix_reachable run_tracer config fe b \<Longrightarrow>
     unix_reachable run_tracer config (snd (unix_frontend_start bound fe)) b"
| unix_closed: "unix_reachable run_tracer config fe b \<Longrightarrow>
     unix_reachable run_tracer config (unix_close_server fe) b"
| unix_stopped: "unix_reachable run_tracer config fe b \<Longrightarrow>
     unix_reachable run_tracer config (unix_stop_tasks fe) b"
| unix_left: "unix_reachable run_tracer config fe b \<Longrightarrow>
     unix_reachable run_tracer config (unix_client_left fe) b"
| unix_connected: "unix_reachable run_tracer config fe b \<Longrightarrow>
     dict_get (ms_conns fe) conn = None \<Longrightarrow> conn \<notin> fst ` set (ms_received fe) \<Longrightarrow>
     unix_reachable run_tracer config (unix_connect conn peername peercred incoming fe) b"
| unix_arrived: "unix_reachable run_tracer config fe b \<Longrightarrow> dict_get (ms_conns fe) conn = Some c \<Longrightarrow>
     unix_reachable run_tracer config (set_client conn (c\<lparr>cc_incoming := cc_incoming c @ events\<rparr>) fe) b"
| unix_stepped: "unix_reachable run_tracer config fe b \<Longrightarrow>
     unix_client_step run_tracer conn fe b = Some (fe', b') \<Longrightarrow> unix_reachable run_tracer config fe' b'"
| unix_answered: "unix_reachable run_tracer config fe b \<Longrightarrow>
     unix_reachable run_tracer config (snd (unix_handle_response fe m)) b"
| unix_others: "unix_reachable run_tracer config fe b \<Longrightarrow> unix_reachable run_tracer config fe b'"

section \<open>Invariant: who holds the places\<close>

definition places_taken :: "unix_frontend \<Rightarrow> nat" where
  "places_taken fe = length (ms_conns fe) + uf_leaving fe + uf_lost fe"

definition places_ok :: "unix_modbus_tcp_config \<Rightarrow> unix_frontend \<Rightarrow> bool" where
  "places_ok config fe \<longleftrightarrow> uf_config fe = config \<and> distinct (map fst (ms_conns fe)) \<and>
     uf_current_clients fe = int (places_taken fe) \<and>
     uf_current_clients fe \<le> int (umt_max_clients config)"

lemma length_dict_set: "length (dict_set k v d) = (if dict_get d k = None then length d + 1 else length d)"
  by (induction k v d rule: dict_set.induct) auto

lemma length_dict_pop:
  "distinct (map fst d) \<Longrightarrow> length (dict_pop k d) = (if dict_get d k = None then length d else length d - 1)"
proof (induction d)
  case (Cons kv d)
  show ?case
  proof (cases "fst kv = k")
    case True
    then have "k \<notin> fst ` set d" using Cons.prems by auto
    then have "filter (\<lambda>(k', v). k' \<noteq> k) d = d" by (intro filter_True) (auto simp: image_iff)
    with True show ?thesis by (cases kv) (simp add: dict_pop_def)
  next
    case False
    then have "length (dict_pop k (kv # d)) = Suc (length (dict_pop k d))"
      by (cases kv) (simp add: dict_pop_def)
    moreover have "d \<noteq> []" if "dict_get d k \<noteq> None" using that by auto
    ultimately show ?thesis using Cons False by (cases kv; cases d) auto
  qed
qed (simp add: dict_pop_def)

lemma places_ok_left:
  assumes "places_ok config fe"
  shows "places_ok config (unix_client_left fe)"
  using assms by (auto simp: places_ok_def places_taken_def unix_client_left_def drop_client_def)

lemma all_left:
  "(unix_client_left ^^ k) fe = fe\<lparr>uf_leaving := uf_leaving fe - k,
     uf_current_clients := (drop_client ^^ min k (uf_leaving fe)) (uf_current_clients fe)\<rparr>"
proof (induction k)
  case (Suc k)
  then show ?case
    by (cases "k < uf_leaving fe") (simp_all add: unix_client_left_def min_def not_less)
qed simp

lemma drop_clients: "0 \<le> n \<Longrightarrow> (drop_client ^^ k) n = max 0 (n - int k)"
  by (induction k) (auto simp: drop_client_def)

text \<open>What a step of a client's task does to the places: it keeps them, or ends the task.\<close>

lemma client_step_places:
  assumes "client_step run_tracer metadata conn (fe :: unix_frontend) b = Some (fe', b')"
  shows "uf_config fe' = uf_config fe \<and> uf_current_clients fe' = uf_current_clients fe \<and>
    uf_leaving fe' = uf_leaving fe \<and> uf_lost fe' = uf_lost fe \<and>
    dict_get (ms_conns fe) conn \<noteq> None \<and>
    (ms_conns fe' = dict_pop conn (ms_conns fe) \<or> (\<exists>c. ms_conns fe' = dict_set conn c (ms_conns fe)))"
  by (cases rule: client_step_cases [OF assms])
    (auto simp: end_client_def set_client_def accept_frame_def Let_def split: sum.splits)

lemma places_ok_step:
  assumes "places_ok config fe" "unix_client_step run_tracer conn fe b = Some (fe', b')"
  shows "places_ok config fe'"
proof -
  obtain fe1 where step: "client_step run_tracer (unix_metadata fe) conn fe b = Some (fe1, b')"
    "fe' = (if dict_get (ms_conns fe1) conn = None
       then fe1\<lparr>uf_leaving := uf_leaving fe1 + 1\<rparr> else fe1)"
    using assms(2) by (auto simp: unix_client_step_def split: option.splits)
  note s = client_step_places [OF step(1)]
  then have "int (length (ms_conns fe) - Suc 0) = int (length (ms_conns fe)) - 1"
    by (cases "ms_conns fe") auto
  with s assms(1) show ?thesis
    by (auto simp: step(2) places_ok_def places_taken_def length_dict_set length_dict_pop)
qed

lemma unix_reachable_places: "unix_reachable run_tracer config fe b \<Longrightarrow> places_ok config fe"
proof (induction rule: unix_reachable.induct)
  case (unix_started fe b bound)
  then show ?case by (simp add: places_ok_def places_taken_def unix_frontend_start_def split: sum.splits)
next
  case (unix_closed fe b)
  then show ?case by (simp add: places_ok_def places_taken_def unix_close_server_def)
next
  case (unix_stopped fe b)
  then show ?case
    by (simp add: places_ok_def places_taken_def unix_stop_tasks_def server_stop_def)
next
  case (unix_left fe b)
  then show ?case by (simp add: places_ok_left)
next
  case (unix_connected fe b conn peername peercred incoming)
  then show ?case
    by (auto simp: places_ok_def places_taken_def unix_connect_def admit_client_def Let_def length_dict_set)
next
  case (unix_arrived fe b conn c events)
  then show ?case by (simp add: places_ok_def places_taken_def set_client_def length_dict_set)
next
  case (unix_stepped fe b conn fe' b')
  then show ?case by (blast intro: places_ok_step)
next
  case (unix_answered fe b m)
  have "ms_conns (snd (server_handle_response fe m)) = ms_conns fe"
    "uf_config (snd (server_handle_response fe m)) = uf_config fe"
    "uf_current_clients (snd (server_handle_response fe m)) = uf_current_clients fe"
    "uf_leaving (snd (server_handle_response fe m)) = uf_leaving fe"
    "uf_lost (snd (server_handle_response fe m)) = uf_lost fe"
    by (auto simp: server_handle_response_def Let_def split: option.splits sum.splits)
  with unix_answered.IH show ?case by (simp add: places_ok_def places_taken_def unix_handle_response_def)
qed (simp_all add: places_ok_def places_taken_def unix_frontend_init_def)

text \<open>The frontend is a server in the sense of \<open>Mbap_Frontend\<close>.\<close>

lemma unix_is_server: "unix_reachable run_tracer config fe b \<Longrightarrow> server_reachable run_tracer ''-u'' fe b"
proof (induction rule: unix_reachable.induct)
  case (unix_made b)
  show ?case by (rule srv_start) (simp_all add: unix_frontend_init_def)
next
  case (unix_started fe b bound)
  then show ?case
    by (intro srv_more [OF unix_started.IH])
      (simp add: unix_frontend_start_def mbap_server.truncate_def split: sum.splits)
next
  case (unix_stopped fe b)
  have "server_reachable run_tracer ''-u'' (server_stop fe) b" by (rule srv_stop [OF unix_stopped.IH])
  then have "server_reachable run_tracer ''-u'' ((server_stop fe)\<lparr>uf_listening := False,
      uf_closing := False, uf_leaving := m, uf_lost := n\<rparr>) b" for m n
    by (rule srv_more) (simp add: mbap_server.truncate_def)
  with unix_stopped.IH show ?case by (simp add: unix_stop_tasks_def)
next
  case (unix_closed fe b)
  show ?case by (rule srv_more [OF unix_closed.IH]) (simp add: unix_close_server_def mbap_server.truncate_def)
next
  case (unix_left fe b)
  show ?case by (rule srv_more [OF unix_left.IH]) (simp add: unix_client_left_def mbap_server.truncate_def)
next
  case (unix_connected fe b conn peername peercred incoming)
  have "server_reachable run_tracer ''-u'' (admit_client ''-u'' conn incoming fe) b"
    by (rule srv_admit [OF unix_connected.IH unix_connected.hyps(2,3)])
  then have "server_reachable run_tracer ''-u'' ((admit_client ''-u'' conn incoming fe)
      \<lparr>uf_current_clients := n, uf_clients := x\<rparr>) b" for n x
    by (rule srv_more) (simp add: mbap_server.truncate_def)
  with unix_connected.IH show ?case by (simp add: unix_connect_def Let_def)
next
  case (unix_arrived fe b conn c events)
  then show ?case by (blast intro: srv_arrive)
next
  case (unix_stepped fe b conn fe' b')
  obtain fe1 where step: "client_step run_tracer (unix_metadata fe) conn fe b = Some (fe1, b')"
    "fe' = (if dict_get (ms_conns fe1) conn = None
       then fe1\<lparr>uf_leaving := uf_leaving fe1 + 1\<rparr> else fe1)"
    using unix_stepped.hyps(2) by (auto simp: unix_client_step_def split: option.splits)
  have r: "server_reachable run_tracer ''-u'' fe1 b'" by (rule srv_step [OF unix_stepped.IH step(1)])
  show ?case by (rule srv_more [OF r]) (simp add: step(2) mbap_server.truncate_def)
next
  case (unix_answered fe b m)
  show ?case unfolding unix_handle_response_def by (rule srv_answer [OF unix_answered.IH])
next
  case (unix_others fe b b')
  show ?case by (rule srv_others [OF unix_others.IH])
qed

section \<open>Properties\<close>

text \<open>C22. The bound on clients holds, and who holds the places: in every reachable state the count
  of current clients is the number of connections served, of tasks that still await the closing of
  their connection, and of places lost, at most \<open>max_clients\<close> in all; a new connection is served exactly
  when that is less than \<open>max_clients\<close>, and is otherwise closed without any effect. A place is lost
  only to \<open>stop\<close>: no client's task, whatever it meets, loses one, but cancelling the tasks loses the
  place of every task that awaits the closing of its connection, for good, and frees all others.\<close>

theorem unix_client_limit:
  assumes "unix_reachable run_tracer config fe b" and "dict_get (ms_conns fe) conn = None"
  shows "uf_current_clients fe = int (card (dom (dict_get (ms_conns fe))) + uf_leaving fe + uf_lost fe) \<and>
    uf_current_clients fe \<le> int (umt_max_clients config) \<and>
    (if card (dom (dict_get (ms_conns fe))) + uf_leaving fe + uf_lost fe < umt_max_clients config
     then dict_get (ms_conns (unix_connect conn peername peercred incoming fe)) conn \<noteq> None
     else unix_connect conn peername peercred incoming fe = fe) \<and>
    (\<forall>c run fe' (b' :: ('t, gateway_message) bus) b''.
       unix_client_step run c fe b' = Some (fe', b'') \<longrightarrow> uf_lost fe' = uf_lost fe) \<and>
    (uf_listening fe \<longrightarrow> uf_current_clients (unix_frontend_stop fe) = int (uf_lost fe + uf_leaving fe) \<and>
       uf_leaving (unix_frontend_stop fe) = 0)"
proof -
  note places = unix_reachable_places [OF assms(1), unfolded places_ok_def places_taken_def]
  have conns: "card (dom (dict_get (ms_conns fe))) = length (ms_conns fe)"
    using places by (simp add: dom_map_of_conv_image_fst card_image distinct_map flip: set_map)
      (metis distinct_card distinct_map length_map)
  have "uf_lost fe' = uf_lost fe"
    if "unix_client_step run c fe (b' :: ('t, gateway_message) bus) = Some (fe', b'')" for c run fe' b' b''
    using that by (auto simp: unix_client_step_def dest!: client_step_places split: option.splits)
  moreover have "uf_current_clients (unix_frontend_stop fe) = int (uf_lost fe + uf_leaving fe) \<and>
      uf_leaving (unix_frontend_stop fe) = 0" if "uf_listening fe"
    using that places
    by (simp add: unix_frontend_stop_def unix_close_server_def unix_stop_tasks_def server_stop_def
        Let_def all_left drop_clients)
  ultimately show ?thesis
    using places unfolding conns by (auto simp: unix_connect_def admit_client_def Let_def)
qed

definition local_config :: unix_modbus_tcp_config where
  "local_config = \<lparr>umt_id = ''ux'', umt_socket_path = ''/run/modbus.sock'', umt_max_clients = 1,
     umt_base = frontend_base_default\<rparr>"

text \<open>
  The client of a frontend for one client hangs up, the frontend is stopped before the connection
  is closed, and started again: it serves nobody any more.
\<close>

theorem unix_client_limit_witness:
  "\<exists>fe :: unix_frontend. unix_reachable (\<lambda>_ _ _. None) local_config fe (bus_init 10 :: (unit, gateway_message) bus) \<and>
     uf_listening fe \<and> ms_conns fe = [] \<and> uf_leaving fe = 0 \<and> uf_current_clients fe = 1 \<and>
     unix_connect 1 PyNone None [] fe = fe"
proof -
  let ?b = "bus_init 10 :: (unit, gateway_message) bus" and ?run = "\<lambda>(_ :: unit) _ _. None"
  define fe0 where "fe0 = snd (unix_frontend_start (Inr ()) (unix_frontend_init local_config))"
  define fe1 where "fe1 = unix_connect 0 PyNone None [Eof] fe0"
  have r0: "unix_reachable ?run local_config fe0 ?b"
    unfolding fe0_def by (rule unix_started [OF unix_made])
  have fe0: "uf_listening fe0" "\<not> uf_closing fe0" "ms_conns fe0 = []" "ms_received fe0 = []"
    "uf_current_clients fe0 = 0" "uf_config fe0 = local_config" "uf_leaving fe0 = 0" "uf_lost fe0 = 0"
    by (simp_all add: fe0_def unix_frontend_start_def unix_frontend_init_def)
  have r1: "unix_reachable ?run local_config fe1 ?b"
    unfolding fe1_def by (rule unix_connected [OF r0]) (simp_all add: fe0)
  have fe1: "uf_listening fe1" "\<not> uf_closing fe1" "uf_current_clients fe1 = 1" "uf_config fe1 = local_config"
    "uf_leaving fe1 = 0" "uf_lost fe1 = 0"
    "\<exists>client_id. ms_conns fe1 = [(0, \<lparr>cc_client_id = client_id, cc_incoming = [Eof], cc_task = AwaitHeader\<rparr>)]"
    by (simp_all add: fe1_def unix_connect_def admit_client_def Let_def fe0 local_config_def)
  have gone: "\<exists>e rest. read_wait 7 [Eof] = Some (Inl e, rest)"
    by (simp add: read_wait_def numeral_eq_Suc)
  obtain fe2 where fe2: "unix_client_step ?run 0 fe1 ?b = Some (fe2, ?b)" "ms_conns fe2 = []" "uf_leaving fe2 = 1"
    "uf_lost fe2 = 0" "uf_listening fe2" "uf_current_clients fe2 = 1"
    using fe1 gone by (auto simp: unix_client_step_def client_step_def end_client_def dict_pop_def)
  have r2: "unix_reachable ?run local_config fe2 ?b" by (rule unix_stepped [OF r1 fe2(1)])
  define fe3 where "fe3 = snd (unix_frontend_start (Inr ()) (unix_stop_tasks (unix_close_server fe2)))"
  have r3: "unix_reachable ?run local_config fe3 ?b"
    unfolding fe3_def by (rule unix_started [OF unix_stopped [OF unix_closed [OF r2]]])
  have fe3: "uf_listening fe3" "ms_conns fe3 = []" "uf_leaving fe3 = 0" "uf_lost fe3 = 1" "uf_current_clients fe3 = 1"
    by (simp_all add: fe3_def unix_frontend_start_def unix_stop_tasks_def unix_close_server_def server_stop_def fe2)
  have "umt_max_clients local_config = 1" "dict_get (ms_conns fe3) 1 = None" by (simp_all add: local_config_def fe3)
  with unix_client_limit [OF r3 this(2), of PyNone None "[]"]
  have "unix_connect 1 PyNone None [] fe3 = fe3" by (auto simp: fe3)
  with r3 fe3 show ?thesis by blast
qed

end
