(* ===== verification/Rtu_Frontend.thy ===== *)
theory Rtu_Frontend
  imports Mbap_Frontend Config
begin

text \<open>
  \<open>modbusgw/frontends/serial_rtu.py\<close>: the frontend that exposes a pseudo-terminal. Bytes are
  collected in a buffer; a timer, restarted by every chunk, ends the frame. The state has the
  buffer, the time the timer is due (\<open>_flush_handle\<close>), the number of \<open>_finalize_frame\<close> tasks
  that have not run yet and the requests those that ran still have to publish. The operating
  system's part (opening the terminal, its symbolic link) is an argument of the start; theory \<open>Socket_Files\<close>
  has the link.
\<close>

section \<open>The frontend\<close>

record rtu_frontend =
  rf_config :: serial_rtu_socket_config
  rf_open :: bool
  rf_loop :: bool
  rf_reader :: bool
  rf_buffer :: bytes
  rf_flush_at :: "rat option"
  rf_flushing :: nat
  rf_publishing :: "routed_request list"
  rf_written :: "bytes list"

definition rtu_frontend_init :: "serial_rtu_socket_config \<Rightarrow> rtu_frontend" where
  "rtu_frontend_init config =
     \<lparr>rf_config = config, rf_open = False, rf_loop = False, rf_reader = False,
      rf_buffer = [], rf_flush_at = None, rf_flushing = 0, rf_publishing = [], rf_written = []\<rparr>"

definition frame_timeout :: "rtu_frontend \<Rightarrow> rat" where
  "frame_timeout fe = srs_frame_timeout_ms (rf_config fe) / 1000"

text \<open>
  \<open>start\<close>: opening the terminal, naming it and making the symbolic link, and setting raw mode may each raise;
  what was assigned before stays.
\<close>

definition rtu_frontend_start ::
  "unit result \<Rightarrow> unit result \<Rightarrow> unit result \<Rightarrow> rtu_frontend \<Rightarrow> unit result \<times> rtu_frontend" where
  "rtu_frontend_start opened linked raw fe =
     (if rf_open fe then (Inr (), fe)
      else case opened of
        Inl e \<Rightarrow> (Inl e, fe)
      | Inr _ \<Rightarrow>
          (let fe1 = fe\<lparr>rf_open := True\<rparr> in
           case linked of
             Inl e \<Rightarrow> (Inl e, fe1)
           | Inr _ \<Rightarrow>
               (case raw of
                  Inl e \<Rightarrow> (Inl e, fe1)
                | Inr _ \<Rightarrow> (Inr (), fe1\<lparr>rf_loop := True, rf_reader := True\<rparr>))))"

definition rtu_frontend_stop :: "rtu_frontend \<Rightarrow> rtu_frontend" where
  "rtu_frontend_stop fe =
     (if rf_open fe
      then fe\<lparr>rf_flush_at := None, rf_reader := False, rf_open := False\<rparr>
      else fe)"

definition schedule_flush :: "rat \<Rightarrow> rtu_frontend \<Rightarrow> rtu_frontend" where
  "schedule_flush now fe =
     (if rf_loop fe then fe\<lparr>rf_flush_at := Some (now + frame_timeout fe)\<rparr> else fe)"

text \<open>One turn of \<open>_read_loop\<close> with what \<open>os.read\<close> returned; \<open>None\<close>: no such task.\<close>

definition rtu_receive :: "rat \<Rightarrow> bytes \<Rightarrow> rtu_frontend \<Rightarrow> rtu_frontend option" where
  "rtu_receive now chunk fe =
     (if \<not> rf_reader fe then None
      else if chunk = [] then Some fe
      else Some (schedule_flush now (fe\<lparr>rf_buffer := rf_buffer fe @ chunk\<rparr>)))"

text \<open>The timer; \<open>None\<close>: it is not set, or not due at \<open>now\<close>.\<close>

definition trigger_flush :: "rat \<Rightarrow> rtu_frontend \<Rightarrow> rtu_frontend option" where
  "trigger_flush now fe =
     (case rf_flush_at fe of
        None \<Rightarrow> None
      | Some t \<Rightarrow> if now < t then None
                  else Some (fe\<lparr>rf_flush_at := None, rf_flushing := Suc (rf_flushing fe)\<rparr>))"

text \<open>
  What \<open>_finalize_frame\<close> makes of a frame: nothing (too short or a wrong checksum), a request, or
  the exception of \<open>from_adu\<close>, which ends the task.
\<close>

definition frame_request :: "serial_rtu_socket_config \<Rightarrow> bytes \<Rightarrow> routed_request option result" where
  "frame_request config frame =
     (if length frame < 4 then Inr None
      else if from_bytes_little (last_two frame) \<noteq> crc16_modbus (all_but_two frame) then Inr None
      else map_sum id (\<lambda>pdu. Some
        \<lparr>rr_context = \<lparr>rc_frontend = srs_id config, rc_request_id = None,
           rc_metadata = [(''transport'', PyStr ''serial_rtu''), (''socket'', PyStr (srs_socket_path config))]\<rparr>,
         rr_pdu = pdu\<rparr>) (request_from_adu (all_but_two frame) None))"

definition finalize_frame :: "rtu_frontend \<Rightarrow> rtu_frontend option" where
  "finalize_frame fe =
     (case rf_flushing fe of
        0 \<Rightarrow> None
      | Suc n \<Rightarrow>
          (let fe1 = fe\<lparr>rf_flushing := n\<rparr> in
           if rf_buffer fe = [] then Some fe1
           else (let fe2 = fe1\<lparr>rf_buffer := []\<rparr> in
                 case frame_request (rf_config fe) (rf_buffer fe) of
                   Inr (Some message) \<Rightarrow> Some (fe2\<lparr>rf_publishing := rf_publishing fe @ [message]\<rparr>)
                 | _ \<Rightarrow> Some fe2)))"

text \<open>The tasks that publish wait for room in the order they came.\<close>

definition rtu_publish ::
  "('t \<Rightarrow> string \<Rightarrow> gateway_message \<Rightarrow> exn option) \<Rightarrow> rtu_frontend \<Rightarrow> ('t, gateway_message) bus \<Rightarrow>
   (rtu_frontend \<times> ('t, gateway_message) bus) option" where
  "rtu_publish run_tracer fe b =
     (case rf_publishing fe of
        [] \<Rightarrow> None
      | message # rest \<Rightarrow>
          (case bus_publish run_tracer b ''requests'' (RequestMsg message) of
             (None, _) \<Rightarrow> None
           | (Some _, b') \<Rightarrow> Some (fe\<lparr>rf_publishing := rest\<rparr>, b')))"

definition rtu_encode_response :: "routed_response \<Rightarrow> bytes option result" where
  "rtu_encode_response message =
     bind_result (response_adu message) (\<lambda>a.
       case a of
         None \<Rightarrow> Inr None
       | Some adu \<Rightarrow> map_sum id (\<lambda>crc. Some (adu @ crc)) (to_bytes_2 le16 (crc16_modbus adu)))"

definition rtu_handle_response :: "rtu_frontend frontend_handler" where
  "rtu_handle_response fe message =
     (if rsc_frontend (rs_context message) \<noteq> srs_id (rf_config fe) then (Inr (), fe)
      else case rtu_encode_response message of
        Inl e \<Rightarrow> (Inl e, fe)
      | Inr None \<Rightarrow> (Inr (), fe)
      | Inr (Some frame) \<Rightarrow>
          if rf_open fe then (Inr (), fe\<lparr>rf_written := rf_written fe @ [frame]\<rparr>) else (Inr (), fe))"

section \<open>Specification: frames are bursts of chunks\<close>

text \<open>
  Chunks with their times; a pause of at least \<open>timeout\<close> ends a burst.
\<close>

fun bursts_from :: "rat \<Rightarrow> rat \<Rightarrow> bytes \<Rightarrow> (rat \<times> bytes) list \<Rightarrow> bytes list" where
  "bursts_from timeout t burst [] = [burst]"
| "bursts_from timeout t burst ((t', chunk) # rest) =
     (if t + timeout \<le> t' then burst # bursts_from timeout t' chunk rest
      else bursts_from timeout t' (burst @ chunk) rest)"

fun bursts :: "rat \<Rightarrow> (rat \<times> bytes) list \<Rightarrow> bytes list" where
  "bursts timeout [] = []"
| "bursts timeout ((t, chunk) # rest) = bursts_from timeout t chunk rest"

fun published :: "serial_rtu_socket_config \<Rightarrow> bytes \<Rightarrow> routed_request list" where
  "published config frame =
     (case frame_request config frame of Inr (Some message) \<Rightarrow> [message] | _ \<Rightarrow> [])"

text \<open>
  The event loop keeps up with the line: a timer that is due when a chunk is read has fired, and
  its task has run. At the end the timer expires.
\<close>

definition flush_due :: "rat \<Rightarrow> rtu_frontend \<Rightarrow> rtu_frontend" where
  "flush_due now fe =
     (case trigger_flush now fe of
        None \<Rightarrow> fe
      | Some fe' \<Rightarrow> (case finalize_frame fe' of None \<Rightarrow> fe' | Some fe'' \<Rightarrow> fe''))"

fun rtu_line :: "(rat \<times> bytes) list \<Rightarrow> rtu_frontend \<Rightarrow> rtu_frontend option" where
  "rtu_line [] fe = Some (case rf_flush_at fe of None \<Rightarrow> fe | Some t \<Rightarrow> flush_due t fe)"
| "rtu_line ((t, chunk) # rest) fe =
     (case rtu_receive t chunk (flush_due t fe) of None \<Rightarrow> None | Some fe' \<Rightarrow> rtu_line rest fe')"

text \<open>The reader runs and nothing is buffered.\<close>

definition line_idle :: "rtu_frontend \<Rightarrow> bool" where
  "line_idle fe \<longleftrightarrow> rf_reader fe \<and> rf_loop fe \<and> rf_buffer fe = [] \<and> rf_flush_at fe = None \<and> rf_flushing fe = 0"

lemma flush_due_collected:
  assumes "rf_flush_at fe = Some due" "rf_buffer fe = burst" "burst \<noteq> []" "rf_flushing fe = 0" "\<not> now < due"
  shows "flush_due now fe = fe\<lparr>rf_flush_at := None, rf_buffer := [],
    rf_publishing := rf_publishing fe @ published (rf_config fe) burst\<rparr>"
proof -
  have "fe\<lparr>rf_flush_at := None, rf_flushing := 0\<rparr> = fe\<lparr>rf_flush_at := None\<rparr>"
    using assms(4) by (cases fe) simp
  with assms show ?thesis
    by (cases fe) (auto simp: flush_due_def trigger_flush_def finalize_frame_def Let_def
        split: sum.splits option.splits)
qed

lemma rtu_line_from:
  assumes "rf_reader fe" "rf_loop fe" "rf_flushing fe = 0" "rf_flush_at fe = Some (t + frame_timeout fe)"
    and "rf_buffer fe = burst" "burst \<noteq> []" "\<forall>(t', chunk) \<in> set chunks. chunk \<noteq> []"
  shows "\<exists>fe'. rtu_line chunks fe = Some fe' \<and> line_idle fe' \<and>
    rf_publishing fe' = rf_publishing fe @
      concat (map (published (rf_config fe)) (bursts_from (frame_timeout fe) t burst chunks))"
  using assms
proof (induction chunks arbitrary: fe t burst)
  case Nil
  then show ?case
    by (simp add: flush_due_collected [OF Nil(4,5,6,3)] line_idle_def del: published.simps)
next
  case (Cons tc chunks)
  obtain t' chunk where tc: "tc = (t', chunk)" by (cases tc)
  then have ne: "chunk \<noteq> []" "\<forall>(t', chunk) \<in> set chunks. chunk \<noteq> []" using Cons.prems(7) by simp_all
  show ?case
  proof (cases "t + frame_timeout fe \<le> t'")
    case True
    let ?fe1 = "fe\<lparr>rf_flush_at := None, rf_buffer := [],
        rf_publishing := rf_publishing fe @ published (rf_config fe) burst\<rparr>"
    let ?fe2 = "?fe1\<lparr>rf_buffer := chunk, rf_flush_at := Some (t' + frame_timeout fe)\<rparr>"
    have "flush_due t' fe = ?fe1"
      using True by (intro flush_due_collected [OF Cons.prems(4,5,6,3)]) simp
    moreover have "rtu_receive t' chunk ?fe1 = Some ?fe2"
      using Cons.prems(1,2) ne by (simp add: rtu_receive_def schedule_flush_def frame_timeout_def)
    ultimately have "rtu_line (tc # chunks) fe = rtu_line chunks ?fe2" by (simp add: tc)
    moreover from Cons.IH [of ?fe2 t' chunk] Cons.prems(1-3) ne
    have "\<exists>fe'. rtu_line chunks ?fe2 = Some fe' \<and> line_idle fe' \<and>
      rf_publishing fe' = (rf_publishing fe @ published (rf_config fe) burst) @
        concat (map (published (rf_config fe)) (bursts_from (frame_timeout fe) t' chunk chunks))"
      by (simp add: frame_timeout_def del: published.simps)
    ultimately show ?thesis using True by (simp add: tc del: published.simps)
  next
    case False
    let ?fe2 = "fe\<lparr>rf_buffer := burst @ chunk, rf_flush_at := Some (t' + frame_timeout fe)\<rparr>"
    have "flush_due t' fe = fe"
      using False Cons.prems(4) by (simp add: flush_due_def trigger_flush_def)
    moreover have "rtu_receive t' chunk fe = Some ?fe2"
      using Cons.prems(1,2,5) ne by (simp add: rtu_receive_def schedule_flush_def frame_timeout_def)
    ultimately have "rtu_line (tc # chunks) fe = rtu_line chunks ?fe2" by (simp add: tc)
    moreover from Cons.IH [of ?fe2 t' "burst @ chunk"] Cons.prems(1-3) ne
    have "\<exists>fe'. rtu_line chunks ?fe2 = Some fe' \<and> line_idle fe' \<and>
      rf_publishing fe' = rf_publishing fe @
        concat (map (published (rf_config fe)) (bursts_from (frame_timeout fe) t' (burst @ chunk) chunks))"
      by (simp add: frame_timeout_def del: published.simps)
    ultimately show ?thesis using False by (simp add: tc del: published.simps)
  qed
qed

lemma line_idle_first:
  assumes "line_idle fe" "chunk \<noteq> []"
  shows "rtu_receive t chunk (flush_due t fe) =
    Some (fe\<lparr>rf_buffer := chunk, rf_flush_at := Some (t + frame_timeout fe)\<rparr>)"
  using assms by (simp add: line_idle_def flush_due_def trigger_flush_def rtu_receive_def
      schedule_flush_def frame_timeout_def)

lemma glued_residue:
  assumes "2 \<le> length f1" "2 \<le> length f2" "has_valid_crc f1" "has_valid_crc f2"
  shows "\<not> has_valid_crc (f1 @ f2)"
proof
  assume "has_valid_crc (f1 @ f2)"
  then have "foldl lfsr_byte 0 f2 = 0"
    using assms(1,3) has_valid_crc_iff_residue [of f1] has_valid_crc_iff_residue [of "f1 @ f2"] by simp
  moreover have "foldl lfsr_byte 0xFFFF f2 = 0"
    using assms(2,4) has_valid_crc_iff_residue [of f2] by simp
  ultimately have "foldl lfsr_in 0 (frame_bits f2) = foldl lfsr_in 0xFFFF (frame_bits f2)"
    by (simp add: foldl_lfsr_byte_serial)
  then show False by (simp add: foldl_lfsr_in_inject)
qed

lemma frame_request_invalid: "\<not> has_valid_crc frame \<Longrightarrow> frame_request config frame = Inr None"
  by (simp add: frame_request_def has_valid_crc_def)

section \<open>Properties\<close>

text \<open>C23. The timer finds the frames: for any chunking of the bytes on the line, when the loop keeps
  up, the requests the frontend hands over are, in order, those of the maximal runs of chunks
  without a pause of \<open>frame_timeout_ms\<close>, each taken as one frame (a frame that is short, has a
  wrong checksum or cannot be decoded gives none); nothing stays buffered.\<close>

theorem rtu_frames_are_bursts:
  assumes "line_idle fe" and "\<forall>(t, chunk) \<in> set chunks. chunk \<noteq> []"
  shows "\<exists>fe'. rtu_line chunks fe = Some fe' \<and> line_idle fe' \<and>
    rf_publishing fe' = rf_publishing fe @
      concat (map (published (rf_config fe)) (bursts (frame_timeout fe) chunks))"
proof (cases chunks)
  case Nil
  with assms(1) show ?thesis by (simp add: line_idle_def)
next
  case (Cons tc rest)
  obtain t chunk where tc: "tc = (t, chunk)" by (cases tc)
  then have ne: "chunk \<noteq> []" "\<forall>(t, chunk) \<in> set rest. chunk \<noteq> []" using assms(2) Cons by simp_all
  let ?fe1 = "fe\<lparr>rf_buffer := chunk, rf_flush_at := Some (t + frame_timeout fe)\<rparr>"
  have "\<exists>fe'. rtu_line rest ?fe1 = Some fe' \<and> line_idle fe' \<and>
    rf_publishing fe' = rf_publishing ?fe1 @
      concat (map (published (rf_config ?fe1)) (bursts_from (frame_timeout ?fe1) t chunk rest))"
    using assms(1) ne by (intro rtu_line_from) (simp_all add: line_idle_def frame_timeout_def)
  with line_idle_first [OF assms(1) ne(1), of t] show ?thesis
    by (simp add: Cons tc frame_timeout_def del: published.simps)
qed

definition pty_config :: serial_rtu_socket_config where
  "pty_config = \<lparr>srs_id = ''pty'', srs_socket_path = ''/tmp/plc'', srs_frame_timeout_ms = 5,
     srs_idle_close_seconds = 600, srs_base = frontend_base_default\<rparr>"

text \<open>A read request in three chunks, pauses of one millisecond.\<close>

theorem rtu_frames_are_bursts_witness:
  "\<exists>fe' m. rtu_line [(0, [1, 3, 0]), (1 / 1000, [0, 0, 1]), (2 / 1000, le16 (crc16_modbus [1, 3, 0, 0, 0, 1]))]
       (snd (rtu_frontend_start (Inr ()) (Inr ()) (Inr ()) (rtu_frontend_init pty_config))) = Some fe' \<and>
     rf_publishing fe' = [m] \<and> body (rr_pdu m) = ReadHoldingRegistersRequest 0 1"
proof -
  let ?fe = "snd (rtu_frontend_start (Inr ()) (Inr ()) (Inr ()) (rtu_frontend_init pty_config))"
  let ?crc = "le16 (crc16_modbus [1, 3, 0, 0, 0, 1])"
  obtain q where q: "request_from_adu [1, 3, 0, 0, 0, 1] None = Inr q" "body q = ReadHoldingRegistersRequest 0 1"
    using read_request_decoded by blast
  have idle: "line_idle ?fe"
    by (simp add: line_idle_def rtu_frontend_start_def rtu_frontend_init_def Let_def)
  have st: "rf_config ?fe = pty_config" "rf_publishing ?fe = []" "frame_timeout ?fe = 5 / 1000"
    by (simp_all add: rtu_frontend_start_def rtu_frontend_init_def Let_def frame_timeout_def pty_config_def)
  have "has_valid_crc ([1, 3, 0, 0, 0, 1] @ ?crc)" by (rule has_valid_crc_append_crc)
  then have "\<exists>m. published pty_config ([1, 3, 0, 0, 0, 1] @ ?crc) = [m] \<and> rr_pdu m = q"
    using q(1) all_but_two_append_crc [of "[1, 3, 0, 0, 0, 1]"]
    by (simp add: frame_request_def has_valid_crc_def)
  then obtain m where m: "published pty_config ([1, 3, 0, 0, 0, 1] @ ?crc) = [m]" "rr_pdu m = q" by blast
  have "bursts (5 / 1000) [(0, [1, 3, 0]), (1 / 1000, [0, 0, 1]), (2 / 1000, ?crc)] = [[1, 3, 0, 0, 0, 1] @ ?crc]"
    by simp
  moreover have "?crc \<noteq> []" by (simp add: le16_def)
  ultimately show ?thesis
    using rtu_frames_are_bursts [OF idle, of "[(0, [1, 3, 0]), (1 / 1000, [0, 0, 1]), (2 / 1000, ?crc)]"] m q(2)
    unfolding st by auto
qed

text \<open>Two requests in one burst are both lost: whatever two valid frames come without the pause
  between them, their concatenation never has a valid checksum, so neither is handed over and
  nobody is told.\<close>

theorem glued_frames_are_lost:
  assumes "2 \<le> length f1" and "2 \<le> length f2" and "has_valid_crc f1" and "has_valid_crc f2"
    and "rf_flushing fe = Suc n" and "rf_buffer fe = f1 @ f2"
  shows "finalize_frame fe = Some (fe\<lparr>rf_flushing := n, rf_buffer := []\<rparr>)"
proof -
  have "f1 @ f2 \<noteq> []" using assms(1) by auto
  with assms(5,6) frame_request_invalid [OF glued_residue [OF assms(1-4)]] show ?thesis
    by (simp add: finalize_frame_def Let_def)
qed

theorem glued_frames_are_lost_witness:
  "\<exists>fe. finalize_frame (fe\<lparr>rf_flushing := 1,
      rf_buffer := ([1, 3, 0, 0, 0, 1] @ le16 (crc16_modbus [1, 3, 0, 0, 0, 1])) @
        ([1, 3, 0, 1, 0, 1] @ le16 (crc16_modbus [1, 3, 0, 1, 0, 1]))\<rparr>) =
     Some (fe\<lparr>rf_flushing := 0, rf_buffer := []\<rparr>)"
proof (rule exI)
  let ?f1 = "[1, 3, 0, 0, 0, 1] @ le16 (crc16_modbus [1, 3, 0, 0, 0, 1])"
  let ?f2 = "[1, 3, 0, 1, 0, 1] @ le16 (crc16_modbus [1, 3, 0, 1, 0, 1])"
  let ?fe = "(rtu_frontend_init pty_config)\<lparr>rf_flushing := 1, rf_buffer := ?f1 @ ?f2\<rparr>"
  have "finalize_frame ?fe = Some (?fe\<lparr>rf_flushing := 0, rf_buffer := []\<rparr>)"
    using glued_frames_are_lost [of ?f1 ?f2 ?fe 0] has_valid_crc_append_crc [of "[1, 3, 0, 0, 0, 1]"]
      has_valid_crc_append_crc [of "[1, 3, 0, 1, 0, 1]"] by simp
  then show "finalize_frame ?fe = Some ((rtu_frontend_init pty_config)\<lparr>rf_flushing := 0, rf_buffer := []\<rparr>)"
    by simp
qed

text \<open>C24. A device's response reaches the program at the pseudo-terminal: when the message names this
  frontend and carries a response or exception response that was decoded from a device's frame,
  one frame is written; the client library's \<open>strip_rtu_frame\<close> accepts it and its content decodes
  to a response with the same body and unit identifier. A message for another frontend, or while
  the terminal is closed, changes nothing.\<close>

theorem rtu_response_is_written:
  assumes "response_from_adu adu mb = Inr p"
    and "rs_response m = Some p \<or> rs_response m = None \<and> rs_exception m = Some p"
  shows "\<exists>frame reply p'. rtu_handle_response fe m =
      (Inr (), if rsc_frontend (rs_context m) = srs_id (rf_config fe) \<and> rf_open fe
               then fe\<lparr>rf_written := rf_written fe @ [frame]\<rparr> else fe) \<and>
    strip_rtu_frame frame = Inr reply \<and> response_from_adu reply mb = Inr p' \<and>
    body p' = body p \<and> unit_id p' = unit_id p"
proof -
  obtain reply p' where r: "response_adu m = Inr (Some reply)" "2 \<le> length reply"
    "response_from_adu reply mb = Inr p'" "body p' = body p" "unit_id p' = unit_id p"
    by (rule response_adu_decoded [OF assms])
  let ?frame = "reply @ le16 (crc16_modbus reply)"
  have "rtu_encode_response m = Inr (Some ?frame)"
    using crc16_modbus_range [of reply] by (simp add: rtu_encode_response_def r(1) to_bytes_2_def)
  then have h: "rtu_handle_response fe m =
      (Inr (), if rsc_frontend (rs_context m) = srs_id (rf_config fe) \<and> rf_open fe
               then fe\<lparr>rf_written := rf_written fe @ [?frame]\<rparr> else fe)"
    by (simp add: rtu_handle_response_def)
  have "strip_rtu_frame ?frame = Inr reply"
    using r(2) has_valid_crc_append_crc [of reply] by (simp add: strip_rtu_frame_eq)
  with h r(3-5) show ?thesis by (intro exI conjI)
qed

theorem rtu_response_is_written_witness:
  "\<exists>p frame reply p'. rtu_handle_response (rtu_frontend_init pty_config\<lparr>rf_open := True\<rparr>)
       \<lparr>rs_context = \<lparr>rsc_frontend = ''pty'', rsc_backend = ''plc'', rsc_request_id = None, rsc_metadata = []\<rparr>,
        rs_request = None, rs_response = Some p, rs_exception = None, rs_error = None\<rparr> =
      (Inr (), rtu_frontend_init pty_config\<lparr>rf_open := True, rf_written := [frame]\<rparr>) \<and>
     strip_rtu_frame frame = Inr reply \<and> response_from_adu reply None = Inr p' \<and>
     body p' = ReadHoldingRegistersResponse [7]"
proof -
  obtain p where p: "response_from_adu [1, 3, 2, 0, 7] None = Inr p" "body p = ReadHoldingRegistersResponse [7]"
    using register_response_decoded by blast
  let ?m = "\<lparr>rs_context = \<lparr>rsc_frontend = ''pty'', rsc_backend = ''plc'', rsc_request_id = None, rsc_metadata = []\<rparr>,
        rs_request = None, rs_response = Some p, rs_exception = None, rs_error = None\<rparr>"
  let ?fe = "rtu_frontend_init pty_config\<lparr>rf_open := True\<rparr>"
  have m: "rs_response ?m = Some p \<or> rs_response ?m = None \<and> rs_exception ?m = Some p" by simp
  have st: "rsc_frontend (rs_context ?m) = srs_id (rf_config ?fe) \<and> rf_open ?fe" "rf_written ?fe = []"
    "srs_id (rf_config (rtu_frontend_init pty_config)) = ''pty''"
    by (simp_all add: rtu_frontend_init_def pty_config_def)
  obtain frame reply p' where "rtu_handle_response ?fe ?m = (Inr (), ?fe\<lparr>rf_written := [frame]\<rparr>)"
    "strip_rtu_frame frame = Inr reply" "response_from_adu reply None = Inr p'" "body p' = body p"
    using rtu_response_is_written [OF p(1) m, of ?fe] by (auto simp: st(2,3))
  with p(2) show ?thesis by (intro exI conjI) (assumption, assumption, assumption, simp)
qed

text \<open>A start that fails after the terminal was opened disables the frontend: a second start reports
  success without doing anything, and no byte is ever read, until \<open>stop\<close>.\<close>

theorem failed_start_leaves_frontend_deaf:
  assumes "\<not> rf_open fe" and "\<not> rf_reader fe"
  shows "\<exists>fe'. rtu_frontend_start (Inr ()) (Inl e) raw fe = (Inl e, fe') \<and>
    rtu_frontend_start (Inr ()) (Inr ()) (Inr ()) fe' = (Inr (), fe') \<and> rtu_receive now chunk fe' = None \<and>
    (\<exists>fe''. rtu_frontend_start (Inr ()) (Inr ()) (Inr ()) (rtu_frontend_stop fe') = (Inr (), fe'') \<and> rf_reader fe'')"
  using assms by (simp add: rtu_frontend_start_def rtu_receive_def rtu_frontend_stop_def Let_def)

theorem failed_start_leaves_frontend_deaf_witness:
  "\<exists>fe'. rtu_frontend_start (Inr ()) (Inl (OSError ''denied'')) (Inr ()) (rtu_frontend_init pty_config) =
     (Inl (OSError ''denied''), fe') \<and> rtu_receive 0 [1] fe' = None"
  using failed_start_leaves_frontend_deaf [of "rtu_frontend_init pty_config" "OSError ''denied''" "Inr ()" 0 "[1]"]
  by (auto simp: rtu_frontend_init_def)

end
