(* ===== verification/Serial_Backend.thy ===== *)
theory Serial_Backend
  imports Config Codecs Streams Dispatcher
begin

text \<open>
  \<open>modbusgw/backends/serial.py\<close>, \<open>modbusgw/utils/backoff.py\<close>: the RTU session on a serial
  line (one request frame out, bytes in until they form a frame) and the backend that opens
  sessions and retries. \<open>serial_asyncio\<close> and the device are the parameter \<open>'d serial_device\<close>:
  how opening the port goes and how a frame that was written is answered. The locks
  of session and backend are not modelled: the dispatcher submits one request at a time.
\<close>

section \<open>The line\<close>

text \<open>
  \<open>dev_open\<close>: the port opens (with the bytes the driver already holds) or raises.
  \<open>dev_react frame\<close>: whether \<open>drain\<close> raises, what the line delivers afterwards, and how long
  the exchange takes.
\<close>

record 'd serial_device =
  dev_open :: "'d \<Rightarrow> stream_event list result \<times> 'd"
  dev_react :: "bytes \<Rightarrow> 'd \<Rightarrow> unit result \<times> stream_event list \<times> rat \<times> 'd"

text \<open>
  The outside of one backend: the monotonic clock, the bytes to come, the device; and what
  was observable: the frames written with the time of writing, the delays slept between
  attempts.
\<close>

record 'd serial_line =
  line_now :: rat
  line_incoming :: "stream_event list"
  line_device :: 'd
  line_sent :: "(rat \<times> bytes) list"
  line_backoffs :: "rat list"

section \<open>The session\<close>

record serial_session =
  ss_timeout :: rat
  ss_char_time :: rat
  ss_min_gap :: rat
  ss_last_frame_end :: "rat option"

definition compute_char_time :: "nat \<Rightarrow> string \<Rightarrow> rat \<Rightarrow> rat" where
  "compute_char_time baudrate parity stop_bits =
     (let parity_bits = (if parity = ''N'' then 0 else 1);
          bits_per_char = 1 + 8 + parity_bits + stop_bits
      in bits_per_char / of_nat baudrate)"

definition serial_session_init :: "rat \<Rightarrow> nat \<Rightarrow> string \<Rightarrow> rat \<Rightarrow> rat option \<Rightarrow> serial_session" where
  "serial_session_init timeout baudrate parity stop_bits inter_frame_gap_ms =
     (let char_time = compute_char_time baudrate parity stop_bits;
          configured_gap = (case inter_frame_gap_ms of Some g \<Rightarrow> g / 1000 | None \<Rightarrow> 0)
      in \<lparr>ss_timeout = timeout, ss_char_time = char_time,
          ss_min_gap = max configured_gap (7 / 2 * char_time), ss_last_frame_end = None\<rparr>)"

definition max_frame :: nat where
  "max_frame = 256"

text \<open>The loop of \<open>_read_response\<close> with the bytes read so far.\<close>

function read_response_loop :: "bytes \<Rightarrow> stream_event list \<Rightarrow> bytes result \<times> stream_event list" where
  "read_response_loop buffer events =
     (case readexactly 1 events of
        (Inl e, rest) \<Rightarrow>
          (case e of
             TimeoutError _ \<Rightarrow> (Inl (TimeoutError ''Serial response timed out''), rest)
           | IncompleteReadError _ _ \<Rightarrow> (Inl (TimeoutError ''Serial response timed out''), rest)
           | _ \<Rightarrow> (Inl e, rest))
      | (Inr chunk, rest) \<Rightarrow>
          if chunk = [] then (Inl (ConnectionError ''Serial device returned EOF''), rest)
          else
            let buffer' = buffer @ chunk in
            if length buffer' > max_frame
            then (Inl (ValueError ''Serial response exceeded maximum frame length''), rest)
            else if length buffer' \<ge> 4 \<and> has_valid_crc buffer' then (Inr buffer', rest)
            else read_response_loop buffer' rest)"
  by pat_completeness auto

termination
proof (relation "measure (\<lambda>(buffer, events). max_frame - length buffer)")
  fix buffer events x rest and chunk :: bytes and buffer'
  assume "x = readexactly 1 events" "chunk \<noteq> []" "buffer' = buffer @ chunk"
    "\<not> length buffer' > max_frame"
  then show "((buffer', rest), (buffer, events)) \<in> measure (\<lambda>(buffer, events). max_frame - length buffer)"
    by (cases chunk) simp_all
qed simp

declare read_response_loop.simps [simp del]

definition read_response :: "stream_event list \<Rightarrow> bytes result \<times> stream_event list" where
  "read_response events = read_response_loop [] events"

definition enforce_inter_frame_gap :: "serial_session \<Rightarrow> 'd serial_line \<Rightarrow> 'd serial_line" where
  "enforce_inter_frame_gap s l =
     (case ss_last_frame_end s of
        None \<Rightarrow> l
      | Some t \<Rightarrow>
          (let elapsed = line_now l - t; remaining = ss_min_gap s - elapsed
           in if remaining > 0 then l\<lparr>line_now := line_now l + remaining\<rparr> else l))"

definition session_exchange ::
  "'d serial_device \<Rightarrow> bytes \<Rightarrow> serial_session \<Rightarrow> 'd serial_line \<Rightarrow>
   bytes result \<times> serial_session \<times> 'd serial_line" where
  "session_exchange dev frame s l =
     (let l1 = enforce_inter_frame_gap s l in
      case dev_react dev frame (line_device l1) of
        (ack, events, duration, d) \<Rightarrow>
          (let l2 = l1\<lparr>line_sent := line_sent l1 @ [(line_now l1, frame)],
                 line_incoming := line_incoming l1 @ events,
                 line_now := line_now l1 + max 0 duration, line_device := d\<rparr>
           in case ack of
                Inl e \<Rightarrow> (Inl e, s, l2)
              | Inr _ \<Rightarrow>
                  (case read_response (line_incoming l2) of
                     (res, rest) \<Rightarrow>
                       (let l3 = l2\<lparr>line_incoming := rest\<rparr> in
                        case res of
                          Inl e \<Rightarrow> (Inl e, s, l3)
                        | Inr response \<Rightarrow>
                            (Inr response, s\<lparr>ss_last_frame_end := Some (line_now l3)\<rparr>, l3)))))"

section \<open>The backend\<close>

text \<open>What the backend needs from a session factory, its sessions and the event loop.\<close>

record ('s, 'w) session_ops =
  so_open :: "'w \<Rightarrow> 's result \<times> 'w"
  so_exchange :: "bytes \<Rightarrow> 's \<Rightarrow> 'w \<Rightarrow> bytes result \<times> 's \<times> 'w"
  so_close :: "'s \<Rightarrow> 'w \<Rightarrow> 'w"
  so_sleep :: "rat \<Rightarrow> 'w \<Rightarrow> 'w"

text \<open>
  \<open>default_session_factory\<close>, \<open>SerialAsyncSession\<close> and \<open>asyncio.sleep\<close> on the line; closing
  drops the bytes that were still to come.
\<close>

definition default_session_factory ::
  "'d serial_device \<Rightarrow> serial_backend_config \<Rightarrow> 'd serial_line \<Rightarrow> serial_session result \<times> 'd serial_line" where
  "default_session_factory dev config l =
     (case dev_open dev (line_device l) of
        (Inl e, d) \<Rightarrow> (Inl e, l\<lparr>line_device := d\<rparr>)
      | (Inr events, d) \<Rightarrow>
          (Inr (serial_session_init (of_nat (sbc_request_timeout_ms config) / 1000)
             (sbc_baudrate config) (sbc_parity config) (sbc_stop_bits config)
             (sbc_inter_frame_gap_ms config)),
           l\<lparr>line_device := d, line_incoming := events\<rparr>))"

definition line_ops ::
  "'d serial_device \<Rightarrow> serial_backend_config \<Rightarrow> (serial_session, 'd serial_line) session_ops" where
  "line_ops dev config =
     \<lparr>so_open = default_session_factory dev config,
      so_exchange = session_exchange dev,
      so_close = (\<lambda>s l. l\<lparr>line_incoming := []\<rparr>),
      so_sleep = (\<lambda>t l. l\<lparr>line_now := line_now l + max 0 t, line_backoffs := line_backoffs l @ [t]\<rparr>)\<rparr>"

definition ensure_session ::
  "('s, 'w) session_ops \<Rightarrow> 's option \<times> 'w \<Rightarrow> 's result \<times> 's option \<times> 'w" where
  "ensure_session ops = (\<lambda>(session, w).
     case session of
       Some s \<Rightarrow> (Inr s, session, w)
     | None \<Rightarrow> (case so_open ops w of
                  (Inl e, w') \<Rightarrow> (Inl e, None, w')
                | (Inr s, w') \<Rightarrow> (Inr s, Some s, w')))"

definition reset_session :: "('s, 'w) session_ops \<Rightarrow> 's option \<times> 'w \<Rightarrow> 's option \<times> 'w" where
  "reset_session ops = (\<lambda>(session, w).
     (None, case session of None \<Rightarrow> w | Some s \<Rightarrow> so_close ops s w))"

definition decode_response :: "bytes \<Rightarrow> (response option \<times> response option) result" where
  "decode_response frame =
     (if length frame < 4 then Inl (ValueError ''Response frame too short'')
      else let bdy = all_but_two frame; crc_expected = from_bytes_little (last_two frame) in
        if crc_expected \<noteq> crc16_modbus bdy then Inl (ValueError ''CRC mismatch on response'')
        else bind_result (response_from_adu bdy None)
          (\<lambda>response. if is_exception (body response) then Inr (None, Some response)
                      else Inr (Some response, None)))"

definition serial_response ::
  "string \<Rightarrow> routed_request \<Rightarrow> response option \<times> response option \<Rightarrow> routed_response" where
  "serial_response name routed = (\<lambda>(response, exception).
     \<lparr>rs_context =
        \<lparr>rsc_frontend = rc_frontend (rr_context routed), rsc_backend = name,
         rsc_request_id = rc_request_id (rr_context routed), rsc_metadata = []\<rparr>,
      rs_request = Some (rr_pdu routed), rs_response = response, rs_exception = exception,
      rs_error = None\<rparr>)"

text \<open>The body of the \<open>try\<close>: one attempt.\<close>

definition serial_attempt ::
  "('s, 'w) session_ops \<Rightarrow> bytes \<Rightarrow> 's option \<times> 'w \<Rightarrow>
   (response option \<times> response option) result \<times> 's option \<times> 'w" where
  "serial_attempt ops payload st =
     (case ensure_session ops st of
        (Inl e, st1) \<Rightarrow> (Inl e, st1)
      | (Inr s, (_, w1)) \<Rightarrow>
          (case so_exchange ops payload s w1 of
             (Inl e, s', w2) \<Rightarrow> (Inl e, Some s', w2)
           | (Inr frame, s', w2) \<Rightarrow> (decode_response frame, Some s', w2)))"

text \<open>The \<open>for\<close> loop with the attempts still to come.\<close>

fun serial_attempts ::
  "('s, 'w) session_ops \<Rightarrow> rat \<Rightarrow> bytes \<Rightarrow> nat \<Rightarrow> rat \<Rightarrow> 's option \<times> 'w \<Rightarrow>
   (response option \<times> response option) result \<times> 's option \<times> 'w" where
  "serial_attempts ops hi payload 0 backoff st =
     (Inl (RuntimeError ''Serial backend exhausted retries''), st)"
| "serial_attempts ops hi payload (Suc n) backoff st =
     (case serial_attempt ops payload st of
        (Inr decoded, st1) \<Rightarrow> (Inr decoded, st1)
      | (Inl e, st1) \<Rightarrow>
          (case reset_session ops st1 of
             (session, w) \<Rightarrow>
               if n = 0 then (Inl (RuntimeError ''Serial backend exhausted retries''), session, w)
               else serial_attempts ops hi payload n (min (backoff * 2) hi)
                 (session, so_sleep ops backoff w)))"

definition serial_submit ::
  "('s, 'w) session_ops \<Rightarrow> serial_backend_config \<Rightarrow> ('s option \<times> 'w) backend" where
  "serial_submit ops config routed st =
     Some (case request_to_adu (rr_pdu routed) of
        (Inl e, p) \<Rightarrow> (Inl e, routed\<lparr>rr_pdu := p\<rparr>, st)
      | (Inr frame, p) \<Rightarrow>
          (let routed' = routed\<lparr>rr_pdu := p\<rparr> in
           case to_bytes_2 le16 (crc16_modbus frame) of
             Inl e \<Rightarrow> (Inl e, routed', st)
           | Inr crc \<Rightarrow>
               (case serial_attempts ops (backoff_max (sbc_retry config)) (frame @ crc)
                   (max_attempts (sbc_retry config)) (backoff_min (sbc_retry config)) st of
                  (Inl e, st') \<Rightarrow> (Inl e, routed', st')
                | (Inr decoded, st') \<Rightarrow>
                    (Inr (serial_response (sbc_id config) routed' decoded), routed', st'))))"

text \<open>\<open>modbusgw/utils/backoff.py\<close>\<close>

definition exponential_backoff :: "nat \<Rightarrow> rat" where
  "exponential_backoff attempt = min (1 / 2 * 2 ^ attempt) 30"


section \<open>Reading a frame\<close>

lemma readexactly_one_cases:
  obtains b rest where "readexactly 1 events = (Inr [b], rest)" "events = Arrive b # rest"
  | e rest where "readexactly 1 events = (Inl e, rest)" "\<And>b es. events \<noteq> Arrive b # es"
proof (cases events)
  case (Cons x es)
  then show ?thesis using that by (cases x) (auto simp: readexactly_def)
qed (use that in \<open>auto simp: readexactly_def\<close>)

lemma read_response_loop_Arrive:
  "read_response_loop buffer (Arrive b # rest) =
     (let buffer' = buffer @ [b] in
      if length buffer' > max_frame
      then (Inl (ValueError ''Serial response exceeded maximum frame length''), rest)
      else if length buffer' \<ge> 4 \<and> has_valid_crc buffer' then (Inr buffer', rest)
      else read_response_loop buffer' rest)"
  by (subst read_response_loop.simps) (simp add: Let_def)

lemma read_response_loop_no_byte:
  assumes "\<And>b es. events \<noteq> Arrive b # es"
  shows "\<exists>e. fst (read_response_loop buffer events) = Inl e"
proof -
  obtain e rest where "readexactly 1 events = (Inl e, rest)"
    using assms by (cases rule: readexactly_one_cases [of events]) auto
  then show ?thesis
    by (subst read_response_loop.simps) (auto split: exn.splits)
qed

text \<open>The frame that ends at the first valid checksum beyond what is in the buffer, and what is left.\<close>

definition first_valid_frame :: "bytes \<Rightarrow> stream_event list \<Rightarrow> bytes \<Rightarrow> stream_event list \<Rightarrow> bool" where
  "first_valid_frame buffer events frame rest \<longleftrightarrow>
     (\<exists>ds. ds \<noteq> [] \<and> frame = buffer @ ds \<and> events = map Arrive ds @ rest \<and>
        4 \<le> length frame \<and> length frame \<le> max_frame \<and> has_valid_crc frame \<and>
        (\<forall>n. length buffer < n \<and> n < length frame \<and> 4 \<le> n \<longrightarrow> \<not> has_valid_crc (take n frame)))"

lemma first_valid_frame_here:
  assumes "4 \<le> length (buffer @ [b])" "length (buffer @ [b]) \<le> max_frame" "has_valid_crc (buffer @ [b])"
  shows "first_valid_frame buffer (Arrive b # es) frame rest \<longleftrightarrow> frame = buffer @ [b] \<and> es = rest"
proof
  assume "first_valid_frame buffer (Arrive b # es) frame rest"
  then obtain ds where ds: "frame = buffer @ b # ds" "es = map Arrive ds @ rest"
    "\<forall>n. length buffer < n \<and> n < length frame \<and> 4 \<le> n \<longrightarrow> \<not> has_valid_crc (take n frame)"
    by (auto simp: first_valid_frame_def neq_Nil_conv)
  have "ds = []"
  proof (rule ccontr)
    assume "ds \<noteq> []"
    then have "\<not> has_valid_crc (take (length (buffer @ [b])) frame)" using ds(3) assms(1) by (auto simp: ds(1))
    with assms(3) show False by (simp add: ds(1))
  qed
  with ds show "frame = buffer @ [b] \<and> es = rest" by simp
next
  assume "frame = buffer @ [b] \<and> es = rest"
  with assms show "first_valid_frame buffer (Arrive b # es) frame rest"
    unfolding first_valid_frame_def by (intro exI [of _ "[b]"]) auto
qed

lemma first_valid_frame_later:
  assumes "\<not> (4 \<le> length (buffer @ [b]) \<and> has_valid_crc (buffer @ [b]))"
  shows "first_valid_frame buffer (Arrive b # es) frame rest \<longleftrightarrow> first_valid_frame (buffer @ [b]) es frame rest"
proof
  assume "first_valid_frame (buffer @ [b]) es frame rest"
  then obtain ds where ds: "frame = buffer @ b # ds" "es = map Arrive ds @ rest"
    "4 \<le> length frame" "length frame \<le> max_frame" "has_valid_crc frame"
    "\<And>n. length (buffer @ [b]) < n \<Longrightarrow> n < length frame \<Longrightarrow> 4 \<le> n \<Longrightarrow> \<not> has_valid_crc (take n frame)"
    by (auto simp: first_valid_frame_def)
  have "\<not> has_valid_crc (take n frame)" if "length buffer < n" "n < length frame" "4 \<le> n" for n
  proof (cases "n = length (buffer @ [b])")
    case True
    then show ?thesis using assms that by (auto simp: ds(1))
  next
    case False
    then show ?thesis using ds(6) [of n] that by simp
  qed
  with ds show "first_valid_frame buffer (Arrive b # es) frame rest"
    unfolding first_valid_frame_def by (intro exI [of _ "b # ds"]) simp
next
  assume "first_valid_frame buffer (Arrive b # es) frame rest"
  then obtain ds where ds: "frame = buffer @ b # ds" "es = map Arrive ds @ rest"
    "4 \<le> length frame" "length frame \<le> max_frame" "has_valid_crc frame"
    "\<forall>n. length buffer < n \<and> n < length frame \<and> 4 \<le> n \<longrightarrow> \<not> has_valid_crc (take n frame)"
    by (auto simp: first_valid_frame_def neq_Nil_conv)
  moreover have "ds \<noteq> []" using assms ds(3,5) by (auto simp: ds(1))
  ultimately show "first_valid_frame (buffer @ [b]) es frame rest"
    unfolding first_valid_frame_def by (intro exI [of _ ds]) auto
qed

lemma read_response_loop_first:
  "read_response_loop buffer events = (Inr frame, rest) \<longleftrightarrow> first_valid_frame buffer events frame rest"
proof (induction "max_frame - length buffer" arbitrary: buffer events rule: less_induct)
  case less
  show ?case
  proof (cases "\<exists>b es. events = Arrive b # es")
    case False
    then have "\<not> first_valid_frame buffer events frame rest" by (auto simp: first_valid_frame_def neq_Nil_conv)
    moreover have "fst (read_response_loop buffer events) \<noteq> Inr frame"
      using read_response_loop_no_byte [of events buffer] False by fastforce
    ultimately show ?thesis by (metis fst_conv)
  next
    case True
    then obtain b es where ev: "events = Arrive b # es" by blast
    let ?buf = "buffer @ [b]"
    consider "length ?buf > max_frame" | "length ?buf \<le> max_frame" "length ?buf \<ge> 4 \<and> has_valid_crc ?buf"
      | "length ?buf \<le> max_frame" "\<not> (length ?buf \<ge> 4 \<and> has_valid_crc ?buf)"
      by linarith
    then show ?thesis
    proof cases
      case 1
      then have "\<not> first_valid_frame buffer events frame rest" by (auto simp: first_valid_frame_def ev neq_Nil_conv)
      with 1 show ?thesis by (simp add: ev read_response_loop_Arrive Let_def)
    next
      case 2
      then show ?thesis
        by (auto simp: ev read_response_loop_Arrive Let_def first_valid_frame_here)
    next
      case 3
      then have "read_response_loop buffer events = read_response_loop ?buf es"
        by (auto simp: ev read_response_loop_Arrive Let_def)
      moreover have "read_response_loop ?buf es = (Inr frame, rest) \<longleftrightarrow> first_valid_frame ?buf es frame rest"
        by (rule less) (use 3 in simp)
      ultimately show ?thesis using first_valid_frame_later [OF 3(2), of es frame rest] by (simp add: ev)
    qed
  qed
qed

lemmas read_response_loop_Inr_iff = read_response_loop_first [unfolded first_valid_frame_def]

lemma read_response_Inr_iff:
  "read_response events = (Inr frame, rest) \<longleftrightarrow>
     events = map Arrive frame @ rest \<and> 4 \<le> length frame \<and> length frame \<le> max_frame \<and>
     has_valid_crc frame \<and> (\<forall>n. 4 \<le> n \<and> n < length frame \<longrightarrow> \<not> has_valid_crc (take n frame))"
  unfolding read_response_def read_response_loop_Inr_iff by auto

text \<open>The exceptions of a read: a timeout, an overlong response, or the transport's own.\<close>

lemma read_response_loop_Inl:
  "read_response_loop buffer events = (Inl e, rest) \<Longrightarrow>
     e = TimeoutError ''Serial response timed out'' \<or>
     e = ValueError ''Serial response exceeded maximum frame length'' \<or> Broken e \<in> set events"
proof (induction "max_frame - length buffer" arbitrary: buffer events rule: less_induct)
  case less
  show ?case
  proof (cases rule: readexactly_one_cases [of events])
    case (1 b es)
    then show ?thesis
      using less.prems less.hyps [of "buffer @ [b]" es]
      by (auto simp: read_response_loop_Arrive Let_def split: if_splits)
  next
    case (2 e' rest')
    have "e' \<in> {TimeoutError [], IncompleteReadError 0 1} \<or> Broken e' \<in> set events"
      using 2 by (cases events; cases "hd events") (auto simp: readexactly_def)
    with less.prems 2(1) show ?thesis
      by (subst (asm) read_response_loop.simps) (auto split: exn.splits)
  qed
qed

section \<open>Decoding\<close>

lemma decode_response_eq:
  "decode_response frame =
     (if length frame < 4 then Inl (ValueError ''Response frame too short'')
      else if \<not> has_valid_crc frame then Inl (ValueError ''CRC mismatch on response'')
      else case response_from_adu (all_but_two frame) None of
        Inl e \<Rightarrow> Inl e
      | Inr response \<Rightarrow> Inr (if is_exception (body response) then (None, Some response)
                              else (Some response, None)))"
  by (auto simp: decode_response_def has_valid_crc_def Let_def split: sum.splits)

lemma decode_response_exclusive:
  "decode_response frame = Inr (response, exception) \<Longrightarrow> (response = None) \<noteq> (exception = None)"
  by (auto simp: decode_response_eq split: if_splits sum.splits)


section \<open>Interface: sessions on a line\<close>

text \<open>
  What the retry loop relies on: each exchange writes its frame once, and nothing else writes;
  only \<open>sleep\<close> sleeps. \<open>frames\<close> and \<open>slept\<close> observe the world.
\<close>

locale session_link =
  fixes ops :: "('s, 'w) session_ops"
    and frames :: "'w \<Rightarrow> bytes list"
    and slept :: "'w \<Rightarrow> rat list"
  assumes open_silent: "so_open ops w = (r, w') \<Longrightarrow> frames w' = frames w \<and> slept w' = slept w"
    and exchange_writes: "so_exchange ops f s w = (res, s', w') \<Longrightarrow>
      frames w' = frames w @ [f] \<and> slept w' = slept w"
    and close_silent: "frames (so_close ops s w) = frames w \<and> slept (so_close ops s w) = slept w"
    and sleep_sleeps: "frames (so_sleep ops t w) = frames w \<and> slept (so_sleep ops t w) = slept w @ [t]"

text \<open>The delays between \<open>n + 1\<close> attempts.\<close>

fun backoffs :: "rat \<Rightarrow> rat \<Rightarrow> nat \<Rightarrow> rat list" where
  "backoffs b hi 0 = []"
| "backoffs b hi (Suc n) = b # backoffs (min (b * 2) hi) hi n"

lemma length_backoffs [simp]: "length (backoffs b hi n) = n"
  by (induction n arbitrary: b) simp_all

lemma backoffs_nth:
  assumes "0 < hi" and "0 < b"
  shows "i < n \<Longrightarrow> backoffs b hi n ! i = (if i = 0 then b else min (b * 2 ^ i) hi)"
  using assms(2)
proof (induction n arbitrary: b i)
  case (Suc n)
  show ?case
  proof (cases i)
    case (Suc j)
    have "0 < min (b * 2) hi" using Suc.prems(2) assms(1) by simp
    then have "backoffs (min (b * 2) hi) hi n ! j =
        (if j = 0 then min (b * 2) hi else min (min (b * 2) hi * 2 ^ j) hi)"
      using Suc.IH [of j "min (b * 2) hi"] Suc.prems(1) Suc by simp
    moreover have "min (min (b * 2) hi * 2 ^ j) hi = min (b * 2 * 2 ^ j) hi"
    proof -
      have hi: "hi \<le> hi * 2 ^ j" using assms(1) by (simp add: mult_le_cancel_left1)
      show ?thesis
      proof (cases "b * 2 \<le> hi")
        case False
        then have "hi * 2 ^ j \<le> b * 2 * 2 ^ j" by (intro mult_right_mono) simp_all
        with hi have "hi \<le> b * 2 * 2 ^ j" by (rule order_trans)
        with hi False show ?thesis by (simp add: min_absorb2)
      qed (simp add: min_absorb1)
    qed
    ultimately show ?thesis using Suc by (simp add: mult.assoc)
  qed simp
qed simp

context session_link begin

lemma reset_silent:
  assumes "reset_session ops st = (session, w)"
  shows "session = None" "frames w = frames (snd st)" "slept w = slept (snd st)"
  using assms close_silent by (auto simp: reset_session_def split: prod.splits option.splits)

lemma attempt_writes:
  assumes "serial_attempt ops payload st = (res, st')"
  shows "\<exists>m \<le> 1. frames (snd st') = frames (snd st) @ replicate m payload \<and>
    (\<forall>d. res = Inr d \<longrightarrow> m = 1 \<and> fst st' \<noteq> None)" and "slept (snd st') = slept (snd st)"
proof -
  obtain session w where st: "st = (session, w)" by (cases st)
  obtain r st1 where e: "ensure_session ops st = (r, st1)" by (cases "ensure_session ops st")
  have e': "frames (snd st1) = frames w \<and> slept (snd st1) = slept w"
    using e open_silent by (auto simp: st ensure_session_def split: option.splits prod.splits sum.splits)
  have "(\<exists>m \<le> 1. frames (snd st') = frames w @ replicate m payload \<and>
      (\<forall>d. res = Inr d \<longrightarrow> m = 1 \<and> fst st' \<noteq> None)) \<and> slept (snd st') = slept w"
  proof (cases r)
    case (Inl err)
    then have "st' = st1" "res = Inl err" using assms e by (auto simp: serial_attempt_def)
    with e' show ?thesis by (auto intro!: exI [of _ 0])
  next
    case (Inr s)
    obtain res1 s' w2 where x: "so_exchange ops payload s (snd st1) = (res1, s', w2)"
      by (rule prod_cases3)
    then have "st' = (Some s', w2)"
      using assms e Inr by (cases res1) (auto simp: serial_attempt_def split: prod.splits)
    with exchange_writes [OF x] e' show ?thesis by (auto intro!: exI [of _ 1])
  qed
  then show "\<exists>m \<le> 1. frames (snd st') = frames (snd st) @ replicate m payload \<and>
      (\<forall>d. res = Inr d \<longrightarrow> m = 1 \<and> fst st' \<noteq> None)" "slept (snd st') = slept (snd st)"
    by (auto simp: st)
qed

text \<open>
  The whole loop: \<open>k\<close> attempts failed before the last one. Every write is the same frame; the
  sleeps are the first \<open>k\<close> delays; failure means that every attempt was used and the session
  is gone.
\<close>

lemma attempts_trace:
  assumes "serial_attempts ops hi payload n b st = (res, st')" and "0 < n"
  shows "\<exists>k m. k < n \<and> m \<le> k + 1 \<and> frames (snd st') = frames (snd st) @ replicate m payload \<and>
    slept (snd st') = slept (snd st) @ backoffs b hi k \<and>
    (case res of
       Inr d \<Rightarrow> 0 < m \<and> fst st' \<noteq> None
     | Inl e \<Rightarrow> k = n - 1 \<and> fst st' = None \<and> e = RuntimeError ''Serial backend exhausted retries'')"
  using assms
proof (induction n arbitrary: b st)
  case (Suc n)
  obtain r st1 where a: "serial_attempt ops payload st = (r, st1)"
    by (cases "serial_attempt ops payload st")
  from attempt_writes [OF a] obtain m1 where m1: "m1 \<le> 1"
    "frames (snd st1) = frames (snd st) @ replicate m1 payload" "slept (snd st1) = slept (snd st)"
    "\<And>d. r = Inr d \<Longrightarrow> m1 = 1 \<and> fst st1 \<noteq> None"
    by blast
  show ?case
  proof (cases r)
    case (Inr d)
    with Suc.prems(1) a have "res = Inr d" "st' = st1" by auto
    with m1 Inr show ?thesis by (intro exI [of _ 0] exI [of _ m1]) auto
  next
    case (Inl e)
    obtain session w where rs: "reset_session ops st1 = (session, w)"
      by (cases "reset_session ops st1")
    note rs' = reset_silent [OF rs]
    show ?thesis
    proof (cases "n = 0")
      case True
      then have "st' = (session, w)" "res = Inl (RuntimeError ''Serial backend exhausted retries'')"
        using Suc.prems(1) a Inl rs by simp_all
      with True rs' m1 show ?thesis
        by (intro exI [of _ 0] exI [of _ m1]) auto
    next
      case False
      with Suc.prems(1) a Inl rs
      have "serial_attempts ops hi payload n (min (b * 2) hi) (session, so_sleep ops b w) = (res, st')"
        by simp
      from Suc.IH [OF this] False obtain k m where km: "k < n" "m \<le> k + 1"
        "frames (snd st') = frames (so_sleep ops b w) @ replicate m payload"
        "slept (snd st') = slept (so_sleep ops b w) @ backoffs (min (b * 2) hi) hi k"
        "case res of
           Inr d \<Rightarrow> 0 < m \<and> fst st' \<noteq> None
         | Inl e \<Rightarrow> k = n - 1 \<and> fst st' = None \<and> e = RuntimeError ''Serial backend exhausted retries''"
        by auto
      have "frames (snd st') = frames (snd st) @ replicate (m1 + m) payload"
        using km(3) sleep_sleeps rs' m1 by (simp add: replicate_add)
      moreover have "slept (snd st') = slept (snd st) @ backoffs b hi (Suc k)"
        using km(4) sleep_sleeps rs' m1 by simp
      ultimately show ?thesis using km(1,2,5) m1(1) False
        by (intro exI [of _ "Suc k"] exI [of _ "m1 + m"]) (auto split: sum.splits)
    qed
  qed
qed simp

end

section \<open>The line provides it\<close>

lemma enforce_gap_observed [simp]:
  "line_sent (enforce_inter_frame_gap s l) = line_sent l"
  "line_backoffs (enforce_inter_frame_gap s l) = line_backoffs l"
  "line_incoming (enforce_inter_frame_gap s l) = line_incoming l"
  "line_device (enforce_inter_frame_gap s l) = line_device l"
  by (simp_all add: enforce_inter_frame_gap_def Let_def split: option.splits)

lemma session_exchange_observed:
  assumes "session_exchange dev frame s l = (r, s', l')"
  shows "line_sent l' = line_sent l @ [(line_now (enforce_inter_frame_gap s l), frame)] \<and>
    line_backoffs l' = line_backoffs l"
  using assms by (auto simp: session_exchange_def Let_def split: prod.splits sum.splits)

lemma default_session_factory_observed:
  assumes "default_session_factory dev config l = (r, l')"
  shows "line_sent l' = line_sent l \<and> line_backoffs l' = line_backoffs l \<and> line_now l' = line_now l"
  using assms by (auto simp: default_session_factory_def split: prod.splits sum.splits)

interpretation line: session_link "line_ops dev config" "\<lambda>l. map snd (line_sent l)" line_backoffs
  for dev config
proof unfold_locales
  show "so_open (line_ops dev config) w = (r, w') \<Longrightarrow>
      map snd (line_sent w') = map snd (line_sent w) \<and> line_backoffs w' = line_backoffs w" for w r w'
    using default_session_factory_observed [of dev config w r w'] by (simp add: line_ops_def)
  show "so_exchange (line_ops dev config) f s w = (r, s', w') \<Longrightarrow>
      map snd (line_sent w') = map snd (line_sent w) @ [f] \<and> line_backoffs w' = line_backoffs w"
    for f s w r s' w'
    using session_exchange_observed [of dev f s w r s' w'] by (simp add: line_ops_def)
qed (simp_all add: line_ops_def)


section \<open>Submitting\<close>

lemma serial_submit_encoded:
  assumes "request_to_adu (rr_pdu routed) = (Inr frame, p)"
  shows "serial_submit ops config routed st =
    Some (case serial_attempts ops (backoff_max (sbc_retry config)) (frame @ le16 (crc16_modbus frame))
        (max_attempts (sbc_retry config)) (backoff_min (sbc_retry config)) st of
       (Inl e, st') \<Rightarrow> (Inl e, routed\<lparr>rr_pdu := p\<rparr>, st')
     | (Inr decoded, st') \<Rightarrow>
         (Inr (serial_response (sbc_id config) (routed\<lparr>rr_pdu := p\<rparr>) decoded), routed\<lparr>rr_pdu := p\<rparr>, st'))"
  using assms crc16_modbus_range [of frame]
  by (simp add: serial_submit_def Let_def to_bytes_2_def split: prod.splits sum.splits)

lemma serial_attempts_exclusive:
  "serial_attempts ops hi payload n b st = (Inr (response, exception), st') \<Longrightarrow>
     (response = None) \<noteq> (exception = None)"
proof (induction n arbitrary: b st)
  case (Suc n)
  obtain r st1 where a: "serial_attempt ops payload st = (r, st1)"
    by (cases "serial_attempt ops payload st")
  show ?case
  proof (cases r)
    case (Inr d)
    with Suc.prems a have "serial_attempt ops payload st = (Inr (response, exception), st1)" by simp
    then show ?thesis
      using decode_response_exclusive
      by (auto simp: serial_attempt_def split: prod.splits sum.splits)
  next
    case (Inl e)
    with Suc a show ?thesis by (auto split: prod.splits if_splits)
  qed
qed simp

lemma serial_submit_returns:
  "\<exists>res routed' st'. serial_submit ops config routed st = Some (res, routed', st')"
proof -
  obtain x where x: "serial_submit ops config routed st = Some x" by (simp add: serial_submit_def)
  obtain res routed' st' where "x = (res, routed', st')" by (rule prod_cases3)
  with x show ?thesis by blast
qed

interpretation serial: backend_contract "serial_submit ops config" "sbc_id config" "\<lambda>st. True" for ops config
proof unfold_locales
  fix w routed
  show "\<exists>res routed' w'. serial_submit ops config routed w = Some (res, routed', w') \<and> True"
    using serial_submit_returns [of ops config routed w] by blast
next
  fix routed w response routed' w'
  assume s: "serial_submit ops config routed w = Some (Inr response, routed', w')"
  then obtain frame p where f: "request_to_adu (rr_pdu routed) = (Inr frame, p)"
    by (cases "request_to_adu (rr_pdu routed)")
      (auto simp: serial_submit_def Let_def split: sum.splits prod.splits)
  from s [unfolded serial_submit_encoded [OF f]] obtain d st' where
    a: "serial_attempts ops (backoff_max (sbc_retry config)) (frame @ le16 (crc16_modbus frame))
        (max_attempts (sbc_retry config)) (backoff_min (sbc_retry config)) w = (Inr d, st')"
    and r: "response = serial_response (sbc_id config) (routed\<lparr>rr_pdu := p\<rparr>) d"
    by (auto split: prod.splits sum.splits)
  obtain x y where d: "d = (x, y)" by (cases d)
  from serial_attempts_exclusive [OF a [unfolded d]]
  show "answers response routed \<and> proper_answer (sbc_id config) response"
    by (simp add: r d answers_def proper_answer_def serial_response_def)
next
  fix routed w res routed' w'
  assume "serial_submit ops config routed w = Some (res, routed', w')"
  then have "\<exists>r. request_to_adu (rr_pdu routed) = (r, rr_pdu routed') \<and> rr_context routed' = rr_context routed"
    by (auto simp: serial_submit_def Let_def split: sum.splits prod.splits)
  then show "rr_context routed' = rr_context routed \<and> body (rr_pdu routed') = body (rr_pdu routed) \<and>
      unit_id (rr_pdu routed') = unit_id (rr_pdu routed)"
    unfolding request_to_adu_def using to_adu_keeps by metis
qed

text \<open>When every attempt from a closed session fails, so does the loop.\<close>

lemma attempts_all_fail:
  assumes "\<And>w. \<exists>e st1. serial_attempt ops payload (None, w) = (Inl e, st1)"
  shows "\<exists>w'. serial_attempts ops hi payload n b (None, w) =
    (Inl (RuntimeError ''Serial backend exhausted retries''), None, w')"
proof (induction n arbitrary: b w)
  case (Suc n)
  obtain e st1 where a: "serial_attempt ops payload (None, w) = (Inl e, st1)"
    using assms by blast
  obtain w1 where r: "reset_session ops st1 = (None, w1)"
    by (cases st1) (simp add: reset_session_def)
  show ?case
    using Suc.IH [of "min (b * 2) hi" "so_sleep ops b w1"] by (simp add: a r)
qed simp

section \<open>Properties\<close>

text \<open>The frame that reports that a register holds 7.\<close>

lemma seven_frame:
  "[1, 3, 2, 0, 7] @ le16 (crc16_modbus [1, 3, 2, 0, 7]) = [1, 3, 2, 0, 7, 0xF9, 0x86]"
  "has_valid_crc [1, 3, 2, 0, 7, 0xF9, 0x86]"
  by code_simp+

lemma seven_frame_minimal:
  assumes "4 \<le> n" and "n < 7"
  shows "\<not> has_valid_crc (take n [1, 3, 2, 0, 7, 0xF9, 0x86])"
proof -
  have "\<forall>n \<in> {4, 5, 6}. \<not> has_valid_crc (take n [1, 3, 2, 0, 7, 0xF9, 0x86])" by code_simp
  moreover from assms have "n \<in> {4, 5, 6}" by auto
  ultimately show ?thesis by blast
qed

text \<open>C14. Reading a response: the session returns exactly the shortest prefix of the arriving
  bytes that has at least 4 bytes and a valid checksum, provided it has at most 256 bytes, and
  leaves the bytes behind it; otherwise it raises a timeout, the overlong-frame error or the
  error of the transport. The loop always ends.\<close>

theorem read_response_shortest_valid_frame:
  "(read_response events = (Inr frame, rest) \<longleftrightarrow>
      events = map Arrive frame @ rest \<and> 4 \<le> length frame \<and> length frame \<le> 256 \<and>
      has_valid_crc frame \<and> (\<forall>n \<in> {4..<length frame}. \<not> has_valid_crc (take n frame))) \<and>
   (case fst (read_response events) of
      Inl e \<Rightarrow> e = TimeoutError ''Serial response timed out'' \<or>
        e = ValueError ''Serial response exceeded maximum frame length'' \<or> Broken e \<in> set events
    | Inr frame' \<Rightarrow> \<exists>rest'. events = map Arrive frame' @ rest')"
proof -
  have "case fst (read_response events) of
      Inl e \<Rightarrow> e = TimeoutError ''Serial response timed out'' \<or>
        e = ValueError ''Serial response exceeded maximum frame length'' \<or> Broken e \<in> set events
    | Inr frame' \<Rightarrow> \<exists>rest'. events = map Arrive frame' @ rest'"
    using read_response_loop_Inl [of "[]" events] read_response_Inr_iff [of events]
    by (cases "read_response events") (auto simp: read_response_def split: sum.splits)
  then show ?thesis
    unfolding read_response_Inr_iff max_frame_def by auto
qed

theorem read_response_shortest_valid_frame_witness:
  "read_response (map Arrive [1, 3, 2, 0, 7, 0xF9, 0x86, 0x55]) =
     (Inr [1, 3, 2, 0, 7, 0xF9, 0x86], [Arrive 0x55])"
proof -
  have "\<forall>n \<in> {4 ..< length [1 :: byte, 3, 2, 0, 7, 0xF9, 0x86]}. \<not> has_valid_crc (take n [1, 3, 2, 0, 7, 0xF9, 0x86])"
    using seven_frame_minimal by simp
  with seven_frame(2) show ?thesis
    using read_response_shortest_valid_frame [THEN conjunct1,
        of "map Arrive [1, 3, 2, 0, 7, 0xF9, 0x86, 0x55]" "[1, 3, 2, 0, 7, 0xF9, 0x86]" "[Arrive 0x55]"]
    by simp
qed

text \<open>C13. Retries: a submit whose request encodes writes the same frame at most once per attempt
  and never more than \<open>max_attempts\<close> times; before attempt \<open>i + 2\<close> it sleeps
  \<open>min (backoff_min * 2 ^ i) backoff_max\<close> (the first time \<open>backoff_min\<close> itself); it fails only after
  the last attempt, with the session closed, and on success keeps the session.\<close>

theorem serial_retry_schedule:
  assumes "serial_submit (line_ops dev config) config routed (session, l) = Some (res, routed', session', l')"
    and "request_to_adu (rr_pdu routed) = (Inr frame, p)" and "retry_valid (sbc_retry config)"
  shows "\<exists>k m. k < max_attempts (sbc_retry config) \<and> m \<le> k + 1 \<and>
    map snd (line_sent l') = map snd (line_sent l) @ replicate m (frame @ le16 (crc16_modbus frame)) \<and>
    line_backoffs l' = line_backoffs l @
      map (\<lambda>i. if i = 0 then backoff_min (sbc_retry config)
               else min (backoff_min (sbc_retry config) * 2 ^ i) (backoff_max (sbc_retry config))) [0..<k] \<and>
    (case res of
       Inr response \<Rightarrow> 0 < m \<and> session' \<noteq> None
     | Inl e \<Rightarrow> k = max_attempts (sbc_retry config) - 1 \<and> session' = None \<and>
         e = RuntimeError ''Serial backend exhausted retries'')"
proof -
  let ?r = "sbc_retry config"
  have pos: "0 < max_attempts ?r" "0 < backoff_min ?r" "0 < backoff_max ?r"
    using assms(3) by (simp_all add: retry_valid_def)
  obtain res1 st' where a: "serial_attempts (line_ops dev config) (backoff_max ?r)
      (frame @ le16 (crc16_modbus frame)) (max_attempts ?r) (backoff_min ?r) (session, l) = (res1, st')"
    by (rule prod.exhaust)
  have st': "st' = (session', l')" and res: "case res of Inr _ \<Rightarrow> \<exists>d. res1 = Inr d | Inl e \<Rightarrow> res1 = Inl e"
    using assms(1) unfolding serial_submit_encoded [OF assms(2)] a
    by (auto split: sum.splits)
  have sched: "backoffs (backoff_min ?r) (backoff_max ?r) k =
      map (\<lambda>i. if i = 0 then backoff_min ?r else min (backoff_min ?r * 2 ^ i) (backoff_max ?r)) [0..<k]" for k
    by (rule nth_equalityI) (simp_all add: backoffs_nth [OF pos(3,2)])
  from line.attempts_trace [OF a pos(1)] show ?thesis
    unfolding st' sched using res by (auto split: sum.splits)
qed


text \<open>Values for the witnesses: a line with the default retries and a device of fixed replies.\<close>

definition sample_serial_config :: serial_backend_config where
  "sample_serial_config =
     \<lparr>sbc_id = ''line'', sbc_device = ''/dev/ttyS0'', sbc_baudrate = 9600, sbc_parity = ''E'',
      sbc_stop_bits = 1, sbc_request_timeout_ms = 1200, sbc_inter_frame_gap_ms = Some 5,
      sbc_retry = retry_default\<rparr>"

definition quiet_line :: "'d \<Rightarrow> 'd serial_line" where
  "quiet_line d =
     \<lparr>line_now = 0, line_incoming = [], line_device = d, line_sent = [], line_backoffs = []\<rparr>"

definition replying_device :: "bytes \<Rightarrow> unit serial_device" where
  "replying_device reply =
     \<lparr>dev_open = (\<lambda>d. (Inr [], d)), dev_react = (\<lambda>frame d. (Inr (), map Arrive reply, 0, d))\<rparr>"

lemma seven_reply:
  "dev_open (replying_device [1, 3, 2, 0, 7, 0xF9, 0x86]) d = (Inr [], ())"
  "dev_react (replying_device [1, 3, 2, 0, 7, 0xF9, 0x86]) frame d =
     (Inr (), map Arrive ([1, 3, 2, 0, 7] @ le16 (crc16_modbus [1, 3, 2, 0, 7])) @ [], 0, ())"
  "4 \<le> n \<Longrightarrow> n < length [1 :: byte, 3, 2, 0, 7] + 2 \<Longrightarrow>
     \<not> has_valid_crc (take n ([1, 3, 2, 0, 7] @ le16 (crc16_modbus [1, 3, 2, 0, 7])))"
  unfolding seven_frame(1) by (simp_all add: replying_device_def seven_frame_minimal)

lemma retry_default_valid: "retry_valid retry_default"
  by (simp add: retry_valid_def retry_default_def)

theorem serial_retry_schedule_witness:
  "\<exists>res st' k. serial_submit (line_ops (replying_device []) sample_serial_config) sample_serial_config
       (request_on ''plc'' (new_pdu 1 (ReadCoilsRequest 0 8))) (None, quiet_line ()) = Some (res, st') \<and>
     k < 3 \<and> line_backoffs (snd (snd st')) = map (\<lambda>i. if i = 0 then 1 / 2 else min (1 / 2 * 2 ^ i) 30) [0..<k]"
proof -
  let ?r = "request_on ''plc'' (new_pdu 1 (ReadCoilsRequest 0 8))"
  let ?submit = "serial_submit (line_ops (replying_device []) sample_serial_config) sample_serial_config
      ?r (None, quiet_line ())"
  obtain res routed' session' l' where s: "?submit = Some (res, routed', session', l')"
    using serial.submit_returns by (metis prod_cases3)
  obtain p where f: "request_to_adu (rr_pdu ?r) = (Inr [1, 1, 0, 0, 0, 8], p)"
    by (simp add: codec_simps request_on_def)
  have c: "sbc_retry sample_serial_config = retry_default" by (simp add: sample_serial_config_def)
  from serial_retry_schedule [OF s f] show ?thesis
    unfolding c using retry_default_valid s by (auto simp: retry_default_def quiet_line_def)
qed

text \<open>With the default retry settings the delays are those of \<open>exponential_backoff\<close>.\<close>

theorem default_delays_are_exponential:
  "backoffs (backoff_min retry_default) (backoff_max retry_default) n = map exponential_backoff [0..<n]"
  by (rule nth_equalityI)
    (simp_all add: backoffs_nth retry_default_def exponential_backoff_def)

text \<open>The first attempt on a line whose device answers with one frame.\<close>

lemma answered_submit:
  assumes "request_to_adu (rr_pdu routed) = (Inr frame, p)"
    and "dev_open dev (line_device l) = (Inr [], d1)"
    and "dev_react dev (frame @ le16 (crc16_modbus frame)) d1 =
      (Inr (), map Arrive (adu @ le16 (crc16_modbus adu)) @ late, duration, d2)"
    and "response_from_adu adu None = Inr response" and "length adu \<le> 254"
    and "\<And>n. 4 \<le> n \<Longrightarrow> n < length adu + 2 \<Longrightarrow>
      \<not> has_valid_crc (take n (adu @ le16 (crc16_modbus adu)))"
    and "0 < max_attempts (sbc_retry config)"
  obtains session' l' where "serial_submit (line_ops dev config) config routed (None, l) =
      Some (Inr (serial_response (sbc_id config) (routed\<lparr>rr_pdu := p\<rparr>)
         (if is_exception (body response) then (None, Some response) else (Some response, None))),
       routed\<lparr>rr_pdu := p\<rparr>, Some session', l')"
    "line_sent l' = line_sent l @ [(line_now l, frame @ le16 (crc16_modbus frame))]"
    "line_backoffs l' = line_backoffs l"
proof -
  let ?reply = "adu @ le16 (crc16_modbus adu)"
  let ?payload = "frame @ le16 (crc16_modbus frame)"
  have "2 \<le> length adu" by (rule response_from_adu_length [OF assms(4)])
  then have read: "read_response (map Arrive ?reply @ late) = (Inr ?reply, late)"
    using assms(5,6) by (simp add: read_response_Inr_iff has_valid_crc_append_crc max_frame_def)
  have decode: "decode_response ?reply =
      Inr (if is_exception (body response) then (None, Some response) else (Some response, None))"
    using assms(4) \<open>2 \<le> length adu\<close> by (simp add: decode_response_eq has_valid_crc_append_crc)
  obtain n where n: "max_attempts (sbc_retry config) = Suc n"
    using assms(7) gr0_implies_Suc by blast
  define s0 where "s0 = serial_session_init (of_nat (sbc_request_timeout_ms config) / 1000)
      (sbc_baudrate config) (sbc_parity config) (sbc_stop_bits config) (sbc_inter_frame_gap_ms config)"
  define l0 where "l0 = l\<lparr>line_device := d1, line_incoming := []\<rparr>"
  have s0: "ss_last_frame_end s0 = None" by (simp add: s0_def serial_session_init_def Let_def)
  have open0: "ensure_session (line_ops dev config) (None, l) = (Inr s0, Some s0, l0)"
    by (simp add: ensure_session_def line_ops_def default_session_factory_def assms(2) s0_def l0_def)
  define l1 where "l1 = l0\<lparr>line_sent := line_sent l @ [(line_now l, ?payload)],
      line_incoming := late, line_now := line_now l + max 0 duration, line_device := d2\<rparr>"
  have "session_exchange dev ?payload s0 l0 =
      (Inr ?reply, s0\<lparr>ss_last_frame_end := Some (line_now l + max 0 duration)\<rparr>, l1)"
    using assms(3) read s0
    by (simp add: session_exchange_def enforce_inter_frame_gap_def Let_def l0_def l1_def)
  then have "serial_attempt (line_ops dev config) ?payload (None, l) =
      (decode_response ?reply, Some (s0\<lparr>ss_last_frame_end := Some (line_now l + max 0 duration)\<rparr>), l1)"
    by (simp add: serial_attempt_def open0) (simp add: line_ops_def)
  then show thesis
    by (intro that [of "s0\<lparr>ss_last_frame_end := Some (line_now l + max 0 duration)\<rparr>" l1])
      (simp_all add: serial_submit_encoded [OF assms(1)] n decode l1_def l0_def)
qed

text \<open>A well-behaved device is answered for at the first attempt: when the port opens clean
  and the device replies with an RTU frame of at most 256 bytes none of whose proper prefixes
  is itself a valid frame, the backend returns the response that frame decodes to, as an
  exception or a plain response, tagged for the request, having written one frame and slept
  never.\<close>

theorem serial_submit_returns_device_response:
  assumes "request_to_adu (rr_pdu routed) = (Inr frame, p)"
    and "dev_open dev (line_device l) = (Inr [], d1)"
    and "dev_react dev (frame @ le16 (crc16_modbus frame)) d1 =
      (Inr (), map Arrive (adu @ le16 (crc16_modbus adu)) @ late, duration, d2)"
    and "response_from_adu adu None = Inr response" and "length adu \<le> 254"
    and "\<And>n. 4 \<le> n \<Longrightarrow> n < length adu + 2 \<Longrightarrow>
      \<not> has_valid_crc (take n (adu @ le16 (crc16_modbus adu)))"
    and "0 < max_attempts (sbc_retry config)"
  shows "\<exists>session' l'. serial_submit (line_ops dev config) config routed (None, l) =
      Some (Inr (serial_response (sbc_id config) (routed\<lparr>rr_pdu := p\<rparr>)
         (if is_exception (body response) then (None, Some response) else (Some response, None))),
       routed\<lparr>rr_pdu := p\<rparr>, Some session', l') \<and>
    line_sent l' = line_sent l @ [(line_now l, frame @ le16 (crc16_modbus frame))] \<and>
    line_backoffs l' = line_backoffs l"
  by (rule answered_submit [OF assms]) (assumption | intro exI conjI)+

theorem serial_submit_returns_device_response_witness:
  "\<exists>response p session' l'.
     serial_submit (line_ops (replying_device [1, 3, 2, 0, 7, 0xF9, 0x86]) sample_serial_config)
       sample_serial_config (request_on ''plc'' (new_pdu 1 (ReadHoldingRegistersRequest 0 1)))
       (None, quiet_line ()) =
     Some (Inr (serial_response ''line'' ((request_on ''plc'' (new_pdu 1 (ReadHoldingRegistersRequest 0 1)))
         \<lparr>rr_pdu := p\<rparr>) (Some response, None)),
      (request_on ''plc'' (new_pdu 1 (ReadHoldingRegistersRequest 0 1)))\<lparr>rr_pdu := p\<rparr>, Some session', l') \<and>
     body response = ReadHoldingRegistersResponse [7]"
proof -
  let ?r = "request_on ''plc'' (new_pdu 1 (ReadHoldingRegistersRequest 0 1))"
  let ?dev = "replying_device [1, 3, 2, 0, 7, 0xF9, 0x86]"
  obtain p where f: "request_to_adu (rr_pdu ?r) = (Inr [1, 3, 0, 0, 0, 1], p)"
    by (simp add: codec_simps request_on_def)
  have "map_option body (case response_from_adu [1, 3, 2, 0, 7] None of
        Inr p \<Rightarrow> Some p | Inl e \<Rightarrow> None) = Some (ReadHoldingRegistersResponse [7])"
    by code_simp
  then obtain response where resp: "response_from_adu [1, 3, 2, 0, 7] None = Inr response"
    "body response = ReadHoldingRegistersResponse [7]"
    by (auto split: sum.splits)
  have c: "0 < max_attempts (sbc_retry sample_serial_config)" "sbc_id sample_serial_config = ''line''"
    by (simp_all add: sample_serial_config_def retry_default_def)
  have "length [1 :: byte, 3, 2, 0, 7] \<le> 254" by simp
  note returned = serial_submit_returns_device_response [OF f seven_reply(1) seven_reply(2) resp(1) this seven_reply(3) c(1)]
  have "\<not> is_exception (body response)" by (simp add: resp(2))
  with returned obtain session' l' where
    "serial_submit (line_ops ?dev sample_serial_config) sample_serial_config ?r (None, quiet_line ()) =
       Some (Inr (serial_response ''line'' (?r\<lparr>rr_pdu := p\<rparr>) (Some response, None)), ?r\<lparr>rr_pdu := p\<rparr>, Some session', l')"
    unfolding c(2) by (simp only: if_False) blast
  then show ?thesis using resp(2) by (intro exI conjI)
qed


text \<open>
  A valid response of unit 4 with one input register whose high byte is 0xB3: its first four
  bytes are themselves a valid frame, because 02 B3 is the checksum of 04 04.
\<close>

definition cut_response :: "byte \<Rightarrow> bytes" where
  "cut_response lo = [4, 4, 2, 0xB3, lo] @ le16 (crc16_modbus [4, 4, 2, 0xB3, lo])"

text \<open>The frame as the device means it, and what the reader makes of it.\<close>

lemma cut_response_valid:
  "has_valid_crc (cut_response lo)"
  "map_sum id body (response_from_adu (all_but_two (cut_response lo)) None) =
    Inr (ReadInputRegistersResponse [256 * 0xB3 + uint lo])"
proof -
  show "has_valid_crc (cut_response lo)"
    unfolding cut_response_def by (rule has_valid_crc_append_crc)
  have bdy: "all_but_two (cut_response lo) = [4, 4, 2, 0xB3, lo]"
    by (simp only: cut_response_def all_but_two_append_crc)
  have two: "unat (2 :: byte) = 2" by simp
  have words: "struct_unpack_Hs 1 [0xB3, lo] = Inr [256 * 0xB3 + uint lo]"
    by (simp add: struct_unpack_Hs_def)
  have "registers_from_payload ReadInputRegistersResponse [2, 0xB3, lo] =
      Inr (ReadInputRegistersResponse [256 * 0xB3 + uint lo], [2, 0xB3, lo])"
    using words by (simp add: registers_from_payload_def Let_def two)
  then have "response_from_payload 4 [2, 0xB3, lo] =
      Inr (ReadInputRegistersResponse [256 * 0xB3 + uint lo], [2, 0xB3, lo])"
    by (simp add: response_from_payload_def)
  then show "map_sum id body (response_from_adu (all_but_two (cut_response lo)) None) =
      Inr (ReadInputRegistersResponse [256 * 0xB3 + uint lo])"
    unfolding bdy
    by (simp add: response_from_adu_def from_adu_def split_adu_def attach_raw_def new_pdu_def)
qed

lemma cut_response_read:
  "\<exists>rest. read_response (map Arrive (cut_response lo)) = (Inr [4, 4, 2, 0xB3], rest)"
  "decode_response [4, 4, 2, 0xB3] = Inl (ValueError ''Invalid read holding registers response'')"
proof -
  have cut: "has_valid_crc [4, 4, 2, 0xB3]" by code_simp
  have "cut_response lo = [4, 4, 2, 0xB3] @ lo # le16 (crc16_modbus [4, 4, 2, 0xB3, lo])"
    by (simp add: cut_response_def)
  then show "\<exists>rest. read_response (map Arrive (cut_response lo)) = (Inr [4, 4, 2, 0xB3], rest)"
    unfolding read_response_Inr_iff using cut by (simp add: max_frame_def)
  show "decode_response [4, 4, 2, 0xB3] = Inl (ValueError ''Invalid read holding registers response'')"
    by code_simp
qed

text \<open>C15. Some valid responses can never be received: unit 4 answering a read of one input
  register whose high byte is 0xB3 sends a correct frame, but the session returns its first
  four bytes, which decode to an error, so a submit to a line on which the device answers
  with it fails after all its retries, whatever the configuration.\<close>

theorem valid_response_cut_at_false_checksum:
  assumes "request_to_adu (rr_pdu routed) = (Inr frame, p)"
  shows "has_valid_crc (cut_response lo) \<and>
    map_sum id body (response_from_adu (all_but_two (cut_response lo)) None) =
      Inr (ReadInputRegistersResponse [256 * 0xB3 + uint lo]) \<and>
    (\<exists>rest. read_response (map Arrive (cut_response lo)) = (Inr [4, 4, 2, 0xB3], rest)) \<and>
    map_option fst (serial_submit (line_ops (replying_device (cut_response lo)) config) config routed (None, l)) =
      Some (Inl (RuntimeError ''Serial backend exhausted retries''))"
proof -
  obtain rest where read: "read_response (map Arrive (cut_response lo)) = (Inr [4, 4, 2, 0xB3], rest)"
    using cut_response_read(1) by blast
  let ?ops = "line_ops (replying_device (cut_response lo)) config"
  have fails: "\<exists>e st1. serial_attempt ?ops payload (None, w) = (Inl e, st1)" for payload w
  proof -
    obtain s w1 where o: "ensure_session ?ops (None, w) = (Inr s, Some s, w1)"
      and w1: "line_incoming w1 = []" and s: "ss_last_frame_end s = None"
      by (simp add: ensure_session_def line_ops_def default_session_factory_def replying_device_def
          serial_session_init_def Let_def)
    have "\<exists>s' w2. so_exchange ?ops payload s w1 = (Inr [4, 4, 2, 0xB3], s', w2)"
      using w1 read
      by (simp add: line_ops_def session_exchange_def Let_def replying_device_def
          enforce_inter_frame_gap_def s)
    then show ?thesis using o cut_response_read(2) by (auto simp: serial_attempt_def)
  qed
  obtain w' where "serial_attempts ?ops (backoff_max (sbc_retry config))
      (frame @ le16 (crc16_modbus frame)) (max_attempts (sbc_retry config))
      (backoff_min (sbc_retry config)) (None, l) =
      (Inl (RuntimeError ''Serial backend exhausted retries''), None, w')"
    using attempts_all_fail [where ops = ?ops, OF fails] by blast
  then have "map_option fst (serial_submit ?ops config routed (None, l)) =
      Some (Inl (RuntimeError ''Serial backend exhausted retries''))"
    unfolding serial_submit_encoded [OF assms] by simp
  with cut_response_valid read show ?thesis by blast
qed

theorem valid_response_cut_at_false_checksum_witness:
  "map_option fst (serial_submit (line_ops (replying_device (cut_response 0x10)) sample_serial_config)
     sample_serial_config (request_on ''plc'' (new_pdu 4 (ReadInputRegistersRequest 0 1))) (None, quiet_line ())) =
   Some (Inl (RuntimeError ''Serial backend exhausted retries''))"
proof -
  obtain p where "request_to_adu (rr_pdu (request_on ''plc'' (new_pdu 4 (ReadInputRegistersRequest 0 1)))) =
      (Inr [4, 4, 0, 0, 0, 1], p)"
    by (simp add: codec_simps request_on_def)
  from valid_response_cut_at_false_checksum [OF this, of "0x10" sample_serial_config "quiet_line ()"]
  show ?thesis by blast
qed

text \<open>C16. Silence between frames: on a session built for a line, the next frame after a completed
  exchange is written no sooner than 3.5 character times, and the configured gap, after the
  end of the response, however the clock stood when the exchange was called.\<close>

theorem inter_frame_silence_kept:
  assumes "session_exchange dev f1 s l1 = (Inr response, s1, l1')"
    and "ss_min_gap s = ss_min_gap (serial_session_init timeout baudrate parity stop_bits gap)"
    and "line_now l1' \<le> line_now l2"
    and "session_exchange dev f2 s1 l2 = (res, s2, l2')"
  shows "\<exists>t. last (line_sent l2') = (t, f2) \<and>
    line_now l1' + 7 / 2 * compute_char_time baudrate parity stop_bits \<le> t \<and>
    (\<forall>g. gap = Some g \<longrightarrow> line_now l1' + g / 1000 \<le> t)"
proof -
  have s1: "ss_last_frame_end s1 = Some (line_now l1') \<and> ss_min_gap s1 = ss_min_gap s"
    using assms(1) by (auto simp: session_exchange_def Let_def split: prod.splits sum.splits)
  then have "line_now l1' + ss_min_gap s \<le> line_now (enforce_inter_frame_gap s1 l2)"
    by (auto simp: enforce_inter_frame_gap_def Let_def)
  moreover have "7 / 2 * compute_char_time baudrate parity stop_bits \<le> ss_min_gap s"
    "\<And>g. gap = Some g \<Longrightarrow> g / 1000 \<le> ss_min_gap s"
    by (simp_all add: assms(2) serial_session_init_def Let_def)
  ultimately show ?thesis
    using session_exchange_observed [OF assms(4)] by force
qed

definition sample_session :: serial_session where
  "sample_session = serial_session_init (12 / 10) 9600 ''E'' 1 (Some 5)"

theorem inter_frame_silence_kept_witness:
  "\<exists>s1 l1 res s2 l2 t.
     session_exchange (replying_device [1, 3, 2, 0, 7, 0xF9, 0x86]) [1] sample_session (quiet_line ()) =
       (Inr [1, 3, 2, 0, 7, 0xF9, 0x86], s1, l1) \<and>
     session_exchange (replying_device [1, 3, 2, 0, 7, 0xF9, 0x86]) [2] s1 l1 = (res, s2, l2) \<and>
     last (line_sent l2) = (t, [2]) \<and> line_now l1 + 5 / 1000 \<le> t"
proof -
  have read: "read_response (map Arrive [1, 3, 2, 0, 7, 0xF9, 0x86]) = (Inr [1, 3, 2, 0, 7, 0xF9, 0x86], [])"
    using seven_frame(2) seven_frame_minimal
    by (simp add: read_response_Inr_iff [of _ _ "[]"] max_frame_def)
  obtain s1 l1 where e1: "session_exchange (replying_device [1, 3, 2, 0, 7, 0xF9, 0x86]) [1]
      sample_session (quiet_line ()) = (Inr [1, 3, 2, 0, 7, 0xF9, 0x86], s1, l1)"
    using read
    by (simp add: session_exchange_def replying_device_def Let_def quiet_line_def sample_session_def
        serial_session_init_def enforce_inter_frame_gap_def)
  obtain res s2 l2 where e2: "session_exchange (replying_device [1, 3, 2, 0, 7, 0xF9, 0x86]) [2] s1 l1 = (res, s2, l2)"
    by (rule prod_cases3)
  have "ss_min_gap sample_session = ss_min_gap (serial_session_init (12 / 10) 9600 ''E'' 1 (Some 5))"
    by (simp add: sample_session_def)
  note kept = inter_frame_silence_kept [OF e1 this order_refl e2]
  from kept obtain t where "last (line_sent l2) = (t, [2])" "line_now l1 + 5 / 1000 \<le> t" by auto
  with e1 e2 show ?thesis by (intro exI conjI)
qed

end
