(* ===== verification/Tcp_Backend.thy ===== *)
theory Tcp_Backend
  imports Config Codecs Streams Dispatcher
begin

text \<open>
  \<open>modbusgw/backends/tcp.py\<close>: one Modbus/TCP exchange on a connection, and the pool of
  connections. The upstream devices and the network are the parameter \<open>'d tcp_peer\<close>: how a
  connection attempt ends and what a connection delivers after a frame was written to it.
  Connections are numbers (Python compares them by identity). Their TLS contexts
  are the subject of theory \<open>Tls_Contexts\<close>.

  \<open>tcp_submit\<close> is a submit that runs alone, as the dispatcher's do; \<open>pool_step\<close> is the pool
  under any interleaving of callers.
\<close>

section \<open>The pool\<close>

record tcp_pool =
  tp_available :: "nat list"
  tp_connections :: "nat set"
  tp_total :: int

definition pool_init :: tcp_pool where
  "pool_init = \<lparr>tp_available = [], tp_connections = {}, tp_total = 0\<rparr>"

text \<open>\<open>_available.get_nowait()\<close>\<close>

definition pool_take :: "tcp_pool \<Rightarrow> (nat \<times> tcp_pool) option" where
  "pool_take p =
     (case tp_available p of [] \<Rightarrow> None | c # cs \<Rightarrow> Some (c, p\<lparr>tp_available := cs\<rparr>))"

definition pool_add :: "nat \<Rightarrow> tcp_pool \<Rightarrow> tcp_pool" where
  "pool_add c p = p\<lparr>tp_connections := insert c (tp_connections p), tp_total := tp_total p + 1\<rparr>"

definition pool_release :: "nat \<Rightarrow> tcp_pool \<Rightarrow> tcp_pool" where
  "pool_release c p = p\<lparr>tp_available := tp_available p @ [c]\<rparr>"

definition pool_retire :: "nat \<Rightarrow> tcp_pool \<Rightarrow> tcp_pool" where
  "pool_retire c p =
     (if c \<in> tp_connections p
      then p\<lparr>tp_connections := tp_connections p - {c}, tp_total := tp_total p - 1\<rparr> else p)"

section \<open>The exchange\<close>

record 'd tcp_peer =
  peer_connect :: "'d \<Rightarrow> stream_event list result \<times> 'd"
  peer_react :: "nat \<Rightarrow> bytes \<Rightarrow> 'd \<Rightarrow> unit result \<times> stream_event list \<times> 'd"

text \<open>
  \<open>ts_streams\<close>: what each connection's reader will deliver; \<open>ts_sent\<close> and \<open>ts_closed\<close> observe
  the frames written and the connections closed.
\<close>

record 'd tcp_state =
  ts_pool :: tcp_pool
  ts_tx_counter :: int
  ts_next :: nat
  ts_streams :: "nat \<Rightarrow> stream_event list"
  ts_peer :: 'd
  ts_sent :: "(nat \<times> bytes) list"
  ts_closed :: "nat list"

definition backend_build_mbap :: "int \<Rightarrow> int \<Rightarrow> bytes result" where
  "backend_build_mbap transaction_id adu_length =
     bind_result (to_bytes_2 be16 transaction_id) (\<lambda>tid.
     bind_result (to_bytes_2 be16 adu_length) (\<lambda>len. Inr (tid @ [0, 0] @ len)))"

text \<open>The reading half of \<open>_exchange\<close>.\<close>

definition tcp_receive :: "int \<Rightarrow> stream_event list \<Rightarrow> response result \<times> stream_event list" where
  "tcp_receive transaction_id events =
     (case readexactly 6 events of
        (Inl e, rest) \<Rightarrow> (Inl e, rest)
      | (Inr header, rest) \<Rightarrow>
          if from_bytes_big (take 2 header) \<noteq> transaction_id
          then (Inl (RuntimeError ''Mismatched Modbus/TCP transaction id''), rest)
          else
            (let len = from_bytes_big (take 2 (drop 4 header)) in
             if len < 1 then (Inl (RuntimeError ''Malformed Modbus/TCP response length''), rest)
             else
               (case readexactly 1 rest of
                  (Inl e, rest') \<Rightarrow> (Inl e, rest')
                | (Inr unit_bytes, rest') \<Rightarrow>
                    (case readexactly (nat (len - 1)) rest' of
                       (Inl e, rest'') \<Rightarrow> (Inl e, rest'')
                     | (Inr payload, rest'') \<Rightarrow>
                         (response_from_adu (unit_bytes @ payload) None, rest'')))))"

definition tcp_response :: "string \<Rightarrow> routed_request \<Rightarrow> response \<Rightarrow> routed_response" where
  "tcp_response name routed response =
     (let context =
        \<lparr>rsc_frontend = rc_frontend (rr_context routed), rsc_backend = name,
         rsc_request_id = rc_request_id (rr_context routed), rsc_metadata = []\<rparr>
      in if is_exception (body response)
         then \<lparr>rs_context = context, rs_request = Some (rr_pdu routed), rs_response = None,
               rs_exception = Some response, rs_error = None\<rparr>
         else \<lparr>rs_context = context, rs_request = Some (rr_pdu routed), rs_response = Some response,
               rs_exception = None, rs_error = None\<rparr>)"

definition tcp_exchange ::
  "'d tcp_peer \<Rightarrow> string \<Rightarrow> nat \<Rightarrow> routed_request \<Rightarrow> 'd tcp_state \<Rightarrow>
   routed_response result \<times> routed_request \<times> 'd tcp_state" where
  "tcp_exchange peer name conn routed st =
     (case next_transaction_id (ts_tx_counter st) of
        (transaction_id, counter) \<Rightarrow>
          (let st1 = st\<lparr>ts_tx_counter := counter\<rparr> in
           case request_to_adu (rr_pdu routed) of
             (Inl e, p) \<Rightarrow> (Inl e, routed\<lparr>rr_pdu := p\<rparr>, st1)
           | (Inr adu, p) \<Rightarrow>
               (let routed' = routed\<lparr>rr_pdu := p\<rparr>;
                    unit = adu ! 0;
                    pdu_payload = drop 1 adu;
                    len = int (length pdu_payload) + 1
                in case backend_build_mbap transaction_id len of
                     Inl e \<Rightarrow> (Inl e, routed', st1)
                   | Inr mbap_header \<Rightarrow>
                       (let frame = mbap_header @ [unit] @ pdu_payload in
                        case peer_react peer conn frame (ts_peer st1) of
                          (ack, events, d) \<Rightarrow>
                            (let st2 = st1\<lparr>ts_peer := d, ts_sent := ts_sent st1 @ [(conn, frame)],
                                   ts_streams := (ts_streams st1)
                                     (conn := ts_streams st1 conn @ events)\<rparr>
                             in case ack of
                                  Inl e \<Rightarrow> (Inl e, routed', st2)
                                | Inr _ \<Rightarrow>
                                    (case tcp_receive transaction_id (ts_streams st2 conn) of
                                       (res, rest) \<Rightarrow>
                                         (map_sum id (tcp_response name routed') res, routed',
                                          st2\<lparr>ts_streams := (ts_streams st2)(conn := rest)\<rparr>)))))))"

text \<open>
  \<open>_acquire_connection\<close> for a caller that runs alone; \<open>None\<close>: it waits for a release.
\<close>

definition create_connection :: "'d tcp_peer \<Rightarrow> 'd tcp_state \<Rightarrow> nat result \<times> 'd tcp_state" where
  "create_connection peer st =
     (case peer_connect peer (ts_peer st) of
        (Inl e, d) \<Rightarrow> (Inl e, st\<lparr>ts_peer := d\<rparr>)
      | (Inr events, d) \<Rightarrow>
          (let c = ts_next st in
           (Inr c, st\<lparr>ts_peer := d, ts_next := c + 1, ts_streams := (ts_streams st)(c := events)\<rparr>)))"

definition acquire_connection ::
  "'d tcp_peer \<Rightarrow> nat \<Rightarrow> 'd tcp_state \<Rightarrow> (nat result \<times> 'd tcp_state) option" where
  "acquire_connection peer pool_size st =
     (case pool_take (ts_pool st) of
        Some (c, p) \<Rightarrow> Some (Inr c, st\<lparr>ts_pool := p\<rparr>)
      | None \<Rightarrow>
          if tp_total (ts_pool st) < int pool_size then
            (case create_connection peer st of
               (Inl e, st1) \<Rightarrow> Some (Inl e, st1)
             | (Inr c, st1) \<Rightarrow> Some (Inr c, st1\<lparr>ts_pool := pool_add c (ts_pool st1)\<rparr>))
          else None)"

definition tcp_submit :: "'d tcp_peer \<Rightarrow> tcp_backend_config \<Rightarrow> 'd tcp_state backend" where
  "tcp_submit peer config routed st =
     (case acquire_connection peer (tbc_pool_size config) st of
        None \<Rightarrow> None
      | Some (Inl e, st1) \<Rightarrow> Some (Inl e, routed, st1)
      | Some (Inr conn, st1) \<Rightarrow>
          (case tcp_exchange peer (tbc_id config) conn routed st1 of
             (Inl e, routed', st2) \<Rightarrow>
               Some (Inl (RuntimeError ''TCP backend exchange failed''), routed',
                 st2\<lparr>ts_pool := pool_retire conn (ts_pool st2), ts_closed := ts_closed st2 @ [conn]\<rparr>)
           | (Inr response, routed', st2) \<Rightarrow>
               Some (Inr response, routed', st2\<lparr>ts_pool := pool_release conn (ts_pool st2)\<rparr>)))"

text \<open>
  \<open>close\<close>: the idle connections first, then the remaining ones in some order (\<open>sorted\<close> here).
\<close>

definition tcp_close :: "'d tcp_state \<Rightarrow> 'd tcp_state" where
  "tcp_close st =
     st\<lparr>ts_pool := pool_init,
        ts_closed := ts_closed st @ tp_available (ts_pool st) @
          sorted_list_of_set (tp_connections (ts_pool st) - set (tp_available (ts_pool st)))\<rparr>"

section \<open>Lemmas about an exchange\<close>

lemma next_transaction_id_range:
  "0 \<le> c \<Longrightarrow> c < 65536 \<Longrightarrow> next_transaction_id c = (tid, c') \<Longrightarrow>
     c' = tid \<and> 1 \<le> tid \<and> tid < 65536"
  by (auto simp: next_transaction_id_def Let_def split: if_splits)

lemma backend_build_mbap_Inr_iff:
  "backend_build_mbap tid len = Inr header \<longleftrightarrow>
     0 \<le> tid \<and> tid < 65536 \<and> 0 \<le> len \<and> len < 65536 \<and> header = be16 tid @ [0, 0] @ be16 len"
  by (auto simp: backend_build_mbap_def bind_result_Inr_iff to_bytes_2_Inr_iff)

lemma tcp_receive_Inr:
  assumes "tcp_receive tid events = (Inr response, rest)"
  obtains header adu where "events = map Arrive (header @ adu) @ rest" "length header = 6"
    "from_bytes_big (take 2 header) = tid"
    "from_bytes_big (take 2 (drop 4 header)) = int (length adu)"
    "response_from_adu adu None = Inr response"
proof -
  from assms obtain header rest1 where h: "readexactly 6 events = (Inr header, rest1)"
    and tid: "from_bytes_big (take 2 header) = tid"
    by (auto simp: tcp_receive_def Let_def split: prod.splits sum.splits if_splits)
  define len where "len = from_bytes_big (take 2 (drop 4 header))"
  from assms h tid obtain u rest2 payload where l: "\<not> len < 1"
    and u: "readexactly 1 rest1 = (Inr u, rest2)"
    and p: "readexactly (nat (len - 1)) rest2 = (Inr payload, rest)"
    and r: "response_from_adu (u @ payload) None = Inr response"
    by (auto simp: tcp_receive_def Let_def len_def split: prod.splits sum.splits if_splits)
  from h u p have "events = map Arrive (header @ (u @ payload)) @ rest" "length header = 6"
    "length u = 1" "length payload = nat (len - 1)"
    by (simp_all add: readexactly_Inr_iff)
  with that [of header "u @ payload"] tid l r show thesis by (simp add: len_def)
qed

lemma tcp_receive_frame:
  assumes "length header = 6" "from_bytes_big (take 2 header) = tid"
    and "from_bytes_big (take 2 (drop 4 header)) = int (length adu)" "1 \<le> length adu"
  shows "tcp_receive tid (map Arrive (header @ adu) @ rest) = (response_from_adu adu None, rest)"
proof -
  obtain u payload where adu: "adu = u # payload" using assms(4) by (cases adu) auto
  have "readexactly 6 (map Arrive (header @ adu) @ rest) = (Inr header, map Arrive adu @ rest)"
    using assms(1) by (simp add: readexactly_Inr_iff)
  moreover have "readexactly 1 (map Arrive adu @ rest) = (Inr [u], map Arrive payload @ rest)"
    by (simp add: adu readexactly_Inr_iff)
  moreover have "readexactly (length payload) (map Arrive payload @ rest) = (Inr payload, rest)"
    by (simp add: readexactly_Inr_iff)
  moreover have "nat (int (length adu) - 1) = length payload" by (simp add: adu)
  ultimately show ?thesis using assms by (simp add: tcp_receive_def Let_def adu)
qed

lemma tcp_exchange_keeps:
  assumes "tcp_exchange peer name conn routed st = (res, routed', st')"
  shows "ts_pool st' = ts_pool st \<and> ts_closed st' = ts_closed st \<and> ts_next st' = ts_next st \<and>
    rr_context routed' = rr_context routed \<and>
    (\<exists>r. request_to_adu (rr_pdu routed) = (r, rr_pdu routed')) \<and>
    (0 \<le> ts_tx_counter st \<and> ts_tx_counter st < 65536 \<longrightarrow>
       0 \<le> ts_tx_counter st' \<and> ts_tx_counter st' < 65536)"
proof -
  obtain tid c where tc: "next_transaction_id (ts_tx_counter st) = (tid, c)"
    by (cases "next_transaction_id (ts_tx_counter st)")
  have "0 \<le> ts_tx_counter st \<and> ts_tx_counter st < 65536 \<Longrightarrow> 0 \<le> c \<and> c < 65536"
    using next_transaction_id_range [OF _ _ tc] by auto
  then show ?thesis
    using assms by (auto simp: tcp_exchange_def Let_def tc split: prod.splits sum.splits)
qed

text \<open>What an exchange writes: the frame of the request, unless that has no encoding, and nothing
  on any other connection.\<close>

definition frames_for :: "int \<Rightarrow> nat \<Rightarrow> routed_request \<Rightarrow> (nat \<times> bytes) list" where
  "frames_for tid conn routed =
     (case fst (request_to_adu (rr_pdu routed)) of
        Inl _ \<Rightarrow> []
      | Inr adu \<Rightarrow>
          if length adu < 65536 then [(conn, be16 tid @ [0, 0] @ be16 (int (length adu)) @ adu)] else [])"

lemma request_to_adu_length: "request_to_adu p = (Inr adu, p') \<Longrightarrow> 2 \<le> length adu"
  by (auto simp: request_to_adu_def to_adu_def Let_def py_bytes_Inr_iff split: sum.splits)

lemma tcp_exchange_sent:
  assumes "tcp_exchange peer name conn routed st = (res, routed', st')"
    and "0 \<le> ts_tx_counter st" and "ts_tx_counter st < 65536"
  shows "ts_sent st' = ts_sent st @ frames_for (fst (next_transaction_id (ts_tx_counter st))) conn routed"
    and "c \<noteq> conn \<Longrightarrow> ts_streams st' c = ts_streams st c"
proof -
  obtain tid counter where tc: "next_transaction_id (ts_tx_counter st) = (tid, counter)"
    by (cases "next_transaction_id (ts_tx_counter st)")
  have tid: "1 \<le> tid" "tid < 65536" using next_transaction_id_range [OF assms(2,3) tc] by auto
  obtain encoded p where e: "request_to_adu (rr_pdu routed) = (encoded, p)"
    by (cases "request_to_adu (rr_pdu routed)")
  have "ts_sent st' = ts_sent st @ frames_for tid conn routed \<and>
    (\<forall>c. c \<noteq> conn \<longrightarrow> ts_streams st' c = ts_streams st c)"
  proof (cases encoded)
    case (Inl err)
    with assms(1) e tc show ?thesis by (auto simp: tcp_exchange_def frames_for_def Let_def)
  next
    case (Inr adu)
    then have "2 \<le> length adu" using request_to_adu_length e by blast
    then obtain u rest where adu: "adu = u # rest" by (cases adu) auto
    show ?thesis
    proof (cases "length adu < 65536")
      case True
      then have "backend_build_mbap tid (int (length rest) + 1) = Inr (be16 tid @ [0, 0] @ be16 (int (length adu)))"
        using tid by (simp add: backend_build_mbap_Inr_iff adu add.commute)
      with assms(1) e tc Inr True show ?thesis
        by (auto simp: tcp_exchange_def frames_for_def Let_def adu split: prod.splits sum.splits)
    next
      case False
      then obtain err where "backend_build_mbap tid (int (length rest) + 1) = Inl err"
        using backend_build_mbap_Inr_iff [of tid "int (length rest) + 1"]
        by (cases "backend_build_mbap tid (int (length rest) + 1)") (auto simp: adu)
      with assms(1) e tc Inr False show ?thesis by (auto simp: tcp_exchange_def frames_for_def Let_def adu)
    qed
  qed
  then show "ts_sent st' = ts_sent st @ frames_for (fst (next_transaction_id (ts_tx_counter st))) conn routed"
    and "c \<noteq> conn \<Longrightarrow> ts_streams st' c = ts_streams st c"
    by (simp_all add: tc)
qed

lemma tcp_response_tagged:
  "answers (tcp_response name routed response) request \<longleftrightarrow>
     rc_frontend (rr_context routed) = rc_frontend (rr_context request) \<and>
     rc_request_id (rr_context routed) = rc_request_id (rr_context request)"
  "proper_answer name (tcp_response name routed response)"
  by (simp_all add: tcp_response_def answers_def proper_answer_def Let_def)

lemma tcp_exchange_Inr:
  assumes "tcp_exchange peer name conn routed st = (Inr out, routed', st')"
  obtains tid c adu response header events d
  where "next_transaction_id (ts_tx_counter st) = (tid, c)"
    "request_to_adu (rr_pdu routed) = (Inr adu, rr_pdu routed')"
    "backend_build_mbap tid (int (length (drop 1 adu)) + 1) = Inr header"
    "peer_react peer conn (header @ [adu ! 0] @ drop 1 adu) (ts_peer st) = (Inr (), events, d)"
    "tcp_receive tid (ts_streams st conn @ events) = (Inr response, ts_streams st' conn)"
    "out = tcp_response name routed' response"
    "ts_sent st' = ts_sent st @ [(conn, header @ [adu ! 0] @ drop 1 adu)]"
  using assms that
  by (auto simp: tcp_exchange_def Let_def map_sum_id_Inr_iff split: prod.splits sum.splits)


section \<open>The pool of a caller that runs alone\<close>

text \<open>No connection is held between two submits: those counted are those available.\<close>

definition tcp_idle :: "nat \<Rightarrow> 'd tcp_state \<Rightarrow> bool" where
  "tcp_idle pool_size st \<longleftrightarrow>
     distinct (tp_available (ts_pool st)) \<and>
     tp_connections (ts_pool st) = set (tp_available (ts_pool st)) \<and>
     tp_total (ts_pool st) = int (length (tp_available (ts_pool st))) \<and>
     tp_total (ts_pool st) \<le> int pool_size \<and>
     (\<forall>c \<in> tp_connections (ts_pool st). c < ts_next st) \<and>
     0 \<le> ts_tx_counter st \<and> ts_tx_counter st < 65536"

text \<open>The connection the next submit uses: the one idle the longest, or a new one.\<close>

definition next_connection :: "'d tcp_state \<Rightarrow> nat" where
  "next_connection st = (case tp_available (ts_pool st) of [] \<Rightarrow> ts_next st | c # _ \<Rightarrow> c)"

lemma acquire_idle:
  assumes "tcp_idle n st" "0 < n"
  obtains (refused) e d where "acquire_connection peer n st = Some (Inl e, st\<lparr>ts_peer := d\<rparr>)"
      "tp_available (ts_pool st) = []"
  | (got) c st1 cs where "acquire_connection peer n st = Some (Inr c, st1)"
      "tp_available (ts_pool st1) = cs" "c \<notin> set cs" "distinct cs"
      "tp_connections (ts_pool st1) = insert c (set cs)" "tp_total (ts_pool st1) = int (length cs) + 1"
      "tp_total (ts_pool st1) \<le> int n" "\<forall>c' \<in> insert c (set cs). c' < ts_next st1"
      "ts_tx_counter st1 = ts_tx_counter st" "ts_sent st1 = ts_sent st" "ts_closed st1 = ts_closed st"
      "c = next_connection st" "cs = tl (tp_available (ts_pool st))"
      "\<And>c'. c' \<noteq> c \<Longrightarrow> ts_streams st1 c' = ts_streams st c'"
      "tp_available (ts_pool st) \<noteq> [] \<Longrightarrow> ts_streams st1 = ts_streams st \<and> ts_peer st1 = ts_peer st"
proof (cases "tp_available (ts_pool st)")
  case (Cons c cs)
  with assms show thesis
    by (intro got [of c "st\<lparr>ts_pool := (ts_pool st)\<lparr>tp_available := cs\<rparr>\<rparr>" cs])
      (auto simp: acquire_connection_def pool_take_def tcp_idle_def next_connection_def)
next
  case Nil
  show thesis
  proof (cases "peer_connect peer (ts_peer st)")
    case (Pair r d)
    show thesis
    proof (cases r)
      case (Inl e)
      with Nil Pair assms show thesis
        by (intro refused [of e d])
          (auto simp: acquire_connection_def pool_take_def create_connection_def tcp_idle_def)
    next
      case (Inr events)
      let ?c = "ts_next st"
      let ?st1 = "st\<lparr>ts_peer := d, ts_next := ?c + 1, ts_streams := (ts_streams st)(?c := events),
          ts_pool := pool_add ?c (ts_pool st)\<rparr>"
      have "acquire_connection peer n st = Some (Inr ?c, ?st1)"
        using Nil Pair Inr assms
        by (auto simp: acquire_connection_def pool_take_def create_connection_def tcp_idle_def Let_def)
      with Nil assms show thesis
        by (intro got [of ?c ?st1 "[]"]) (auto simp: tcp_idle_def pool_add_def next_connection_def)
    qed
  qed
qed

lemma tcp_submit_cases:
  assumes "tcp_idle (tbc_pool_size config) st" "0 < tbc_pool_size config"
  obtains
    (refused) e d where "tcp_submit peer config routed st = Some (Inl e, routed, st\<lparr>ts_peer := d\<rparr>)"
      "tcp_idle (tbc_pool_size config) (st\<lparr>ts_peer := d\<rparr>)" "tp_available (ts_pool st) = []"
  | (failed) c st1 e routed' st2 st' where
      "acquire_connection peer (tbc_pool_size config) st = Some (Inr c, st1)"
      "tcp_exchange peer (tbc_id config) c routed st1 = (Inl e, routed', st2)"
      "tcp_submit peer config routed st =
         Some (Inl (RuntimeError ''TCP backend exchange failed''), routed', st')"
      "tcp_idle (tbc_pool_size config) st'" "c \<notin> tp_connections (ts_pool st')"
      "ts_closed st' = ts_closed st @ [c]" "ts_sent st' = ts_sent st2" "c = next_connection st"
      "tp_available (ts_pool st') = tl (tp_available (ts_pool st))" "ts_streams st' = ts_streams st2"
      "ts_sent st1 = ts_sent st" "\<And>c'. c' \<noteq> c \<Longrightarrow> ts_streams st1 c' = ts_streams st c'"
      "ts_tx_counter st1 = ts_tx_counter st"
  | (answered) c st1 out routed' st2 st' where
      "acquire_connection peer (tbc_pool_size config) st = Some (Inr c, st1)"
      "tcp_exchange peer (tbc_id config) c routed st1 = (Inr out, routed', st2)"
      "tcp_submit peer config routed st = Some (Inr out, routed', st')"
      "tcp_idle (tbc_pool_size config) st'" "ts_closed st' = ts_closed st" "ts_sent st' = ts_sent st2"
      "ts_streams st' = ts_streams st2" "c \<in> set (tp_available (ts_pool st'))" "ts_sent st1 = ts_sent st"
      "c = next_connection st" "tp_available (ts_pool st') = tl (tp_available (ts_pool st)) @ [c]"
      "\<And>c'. c' \<noteq> c \<Longrightarrow> ts_streams st1 c' = ts_streams st c'" "ts_tx_counter st1 = ts_tx_counter st"
      "ts_peer st' = ts_peer st2"
      "tp_available (ts_pool st) \<noteq> [] \<Longrightarrow> ts_streams st1 = ts_streams st \<and> ts_peer st1 = ts_peer st"
proof (cases rule: acquire_idle [OF assms, of peer])
  case (1 e d)
  with assms show thesis by (intro refused [of e d]) (auto simp: tcp_submit_def tcp_idle_def)
next
  case (2 c st1 cs)
  obtain res routed' st2 where x: "tcp_exchange peer (tbc_id config) c routed st1 = (res, routed', st2)"
    by (rule prod_cases3)
  note k = tcp_exchange_keeps [OF x]
  show thesis
  proof (cases res)
    case (Inl e)
    let ?st' = "st2\<lparr>ts_pool := pool_retire c (ts_pool st2), ts_closed := ts_closed st2 @ [c]\<rparr>"
    have "tcp_submit peer config routed st =
        Some (Inl (RuntimeError ''TCP backend exchange failed''), routed', ?st')"
      by (simp add: tcp_submit_def 2(1) x Inl)
    moreover have "tcp_idle (tbc_pool_size config) ?st'" "c \<notin> tp_connections (ts_pool ?st')"
      using 2 k assms by (auto simp: tcp_idle_def pool_retire_def)
    ultimately show thesis
      using k 2(2,9-14) by (intro failed [where st' = ?st', OF 2(1) x [unfolded Inl]])
        (simp_all add: pool_retire_def)
  next
    case (Inr out)
    let ?st' = "st2\<lparr>ts_pool := pool_release c (ts_pool st2)\<rparr>"
    have "tcp_submit peer config routed st = Some (Inr out, routed', ?st')"
      by (simp add: tcp_submit_def 2(1) x Inr)
    moreover have "tcp_idle (tbc_pool_size config) ?st'" "c \<in> set (tp_available (ts_pool ?st'))"
      using 2 k assms by (auto simp: tcp_idle_def pool_release_def)
    ultimately show thesis
      using k 2(2,9-15) by (intro answered [where st' = ?st', OF 2(1) x [unfolded Inr]])
        (simp_all add: pool_release_def)
  qed
qed

lemma tcp_submit_Inr:
  assumes "tcp_submit peer config routed st = Some (Inr out, routed', st')"
  obtains c st1 st2 where "acquire_connection peer (tbc_pool_size config) st = Some (Inr c, st1)"
    "tcp_exchange peer (tbc_id config) c routed st1 = (Inr out, routed', st2)"
    "st' = st2\<lparr>ts_pool := pool_release c (ts_pool st2)\<rparr>"
  using assms
  by (auto simp: tcp_submit_def split: option.splits sum.splits prod.splits)

lemma tcp_submit_request:
  assumes "tcp_submit peer config routed st = Some (res, routed', st')"
  shows "rr_context routed' = rr_context routed \<and> body (rr_pdu routed') = body (rr_pdu routed) \<and>
    unit_id (rr_pdu routed') = unit_id (rr_pdu routed)"
proof -
  from assms consider "routed' = routed"
    | c st1 r st2 where "tcp_exchange peer (tbc_id config) c routed st1 = (r, routed', st2)"
    by (auto simp: tcp_submit_def split: option.splits sum.splits prod.splits)
  then show ?thesis
  proof cases
    case 2
    from tcp_exchange_keeps [OF this] obtain r' where
      "request_to_adu (rr_pdu routed) = (r', rr_pdu routed')" "rr_context routed' = rr_context routed"
      by blast
    then show ?thesis using to_adu_keeps unfolding request_to_adu_def by blast
  qed simp
qed

interpretation tcp: backend_contract "tcp_submit peer config" "tbc_id config"
  "\<lambda>st. 0 < tbc_pool_size config \<and> tcp_idle (tbc_pool_size config) st"
  for peer :: "'d tcp_peer" and config
proof unfold_locales
  fix w :: "'d tcp_state" and routed
  assume ok: "0 < tbc_pool_size config \<and> tcp_idle (tbc_pool_size config) w"
  then have "tcp_idle (tbc_pool_size config) w" "0 < tbc_pool_size config" by blast+
  then show "\<exists>res routed' w'. tcp_submit peer config routed w = Some (res, routed', w') \<and>
      0 < tbc_pool_size config \<and> tcp_idle (tbc_pool_size config) w'"
    by (rule tcp_submit_cases [of config w peer routed]) (use ok in blast)+
next
  fix routed response routed' and w w' :: "'d tcp_state"
  assume s: "tcp_submit peer config routed w = Some (Inr response, routed', w')"
  then obtain c st1 st2 where "tcp_exchange peer (tbc_id config) c routed st1 = (Inr response, routed', st2)"
    by (rule tcp_submit_Inr)
  then obtain r where "response = tcp_response (tbc_id config) routed' r"
    by (rule tcp_exchange_Inr)
  then show "answers response routed \<and> proper_answer (tbc_id config) response"
    using tcp_submit_request [OF s] by (simp add: tcp_response_tagged)
next
  fix routed res routed' and w w' :: "'d tcp_state"
  assume "tcp_submit peer config routed w = Some (res, routed', w')"
  then show "rr_context routed' = rr_context routed \<and> body (rr_pdu routed') = body (rr_pdu routed) \<and>
      unit_id (rr_pdu routed') = unit_id (rr_pdu routed)"
    by (rule tcp_submit_request)
qed


section \<open>The pool under concurrent callers\<close>

text \<open>
  Callers are numbered; each is at one \<open>await\<close> of \<open>submit\<close>: waiting for the pool's lock,
  creating a connection with the lock held, waiting for a released connection, or exchanging
  on the connection it holds.
\<close>

datatype caller = Idle | WantLock | Creating | Waiting | Holding nat

record pool_sys =
  py_pool :: tcp_pool
  py_callers :: "nat \<Rightarrow> caller"
  py_next :: nat

definition lock_free :: "pool_sys \<Rightarrow> bool" where
  "lock_free s \<longleftrightarrow> (\<forall>i. py_callers s i \<noteq> Creating)"

inductive pool_step :: "nat \<Rightarrow> pool_sys \<Rightarrow> pool_sys \<Rightarrow> bool" for pool_size where
  begin_take: "py_callers s i = Idle \<Longrightarrow> pool_take (py_pool s) = Some (c, p) \<Longrightarrow>
     pool_step pool_size s (s\<lparr>py_pool := p, py_callers := (py_callers s)(i := Holding c)\<rparr>)"
| begin_slow: "py_callers s i = Idle \<Longrightarrow> pool_take (py_pool s) = None \<Longrightarrow>
     pool_step pool_size s (s\<lparr>py_callers := (py_callers s)(i := WantLock)\<rparr>)"
| lock_create: "py_callers s i = WantLock \<Longrightarrow> lock_free s \<Longrightarrow> tp_total (py_pool s) < int pool_size \<Longrightarrow>
     pool_step pool_size s (s\<lparr>py_callers := (py_callers s)(i := Creating)\<rparr>)"
| lock_full: "py_callers s i = WantLock \<Longrightarrow> lock_free s \<Longrightarrow> \<not> tp_total (py_pool s) < int pool_size \<Longrightarrow>
     pool_step pool_size s (s\<lparr>py_callers := (py_callers s)(i := Waiting)\<rparr>)"
| created: "py_callers s i = Creating \<Longrightarrow>
     pool_step pool_size s (s\<lparr>py_pool := pool_add (py_next s) (py_pool s), py_next := py_next s + 1,
       py_callers := (py_callers s)(i := Holding (py_next s))\<rparr>)"
| create_failed: "py_callers s i = Creating \<Longrightarrow>
     pool_step pool_size s (s\<lparr>py_callers := (py_callers s)(i := Idle)\<rparr>)"
| woken: "py_callers s i = Waiting \<Longrightarrow> pool_take (py_pool s) = Some (c, p) \<Longrightarrow>
     pool_step pool_size s (s\<lparr>py_pool := p, py_callers := (py_callers s)(i := Holding c)\<rparr>)"
| released: "py_callers s i = Holding c \<Longrightarrow>
     pool_step pool_size s (s\<lparr>py_pool := pool_release c (py_pool s),
       py_callers := (py_callers s)(i := Idle)\<rparr>)"
| retired: "py_callers s i = Holding c \<Longrightarrow>
     pool_step pool_size s (s\<lparr>py_pool := pool_retire c (py_pool s),
       py_callers := (py_callers s)(i := Idle)\<rparr>)"

inductive_cases pool_stepE: "pool_step pool_size s s'"

definition pool_sys_init :: pool_sys where
  "pool_sys_init = \<lparr>py_pool = pool_init, py_callers = (\<lambda>i. Idle), py_next = 0\<rparr>"

definition pool_reachable :: "nat \<Rightarrow> pool_sys \<Rightarrow> bool" where
  "pool_reachable pool_size s \<longleftrightarrow> (pool_step pool_size)\<^sup>*\<^sup>* pool_sys_init s"

text \<open>
  The accounting: every counted connection is idle or held by exactly one caller, and the
  caller that is creating one has a place for it.
\<close>

definition held :: "(nat \<Rightarrow> caller) \<Rightarrow> nat set" where
  "held f = {c. \<exists>i. f i = Holding c}"

definition one_holder :: "(nat \<Rightarrow> caller) \<Rightarrow> bool" where
  "one_holder f \<longleftrightarrow> (\<forall>i j c. f i = Holding c \<and> f j = Holding c \<longrightarrow> i = j)"

definition one_creator :: "(nat \<Rightarrow> caller) \<Rightarrow> bool" where
  "one_creator f \<longleftrightarrow> (\<forall>i j. f i = Creating \<and> f j = Creating \<longrightarrow> i = j)"

definition pool_ok :: "nat \<Rightarrow> tcp_pool \<Rightarrow> (nat \<Rightarrow> caller) \<Rightarrow> nat \<Rightarrow> bool" where
  "pool_ok pool_size p f m \<longleftrightarrow>
     finite (tp_connections p) \<and> tp_total p = int (card (tp_connections p)) \<and>
     tp_total p \<le> int pool_size \<and> distinct (tp_available p) \<and>
     tp_connections p = set (tp_available p) \<union> held f \<and> set (tp_available p) \<inter> held f = {} \<and>
     one_holder f \<and> (\<forall>c \<in> tp_connections p. c < m) \<and> one_creator f \<and>
     (\<forall>i. f i = Creating \<longrightarrow> tp_total p < int pool_size)"

definition pool_inv :: "nat \<Rightarrow> pool_sys \<Rightarrow> bool" where
  "pool_inv pool_size s \<longleftrightarrow> pool_ok pool_size (py_pool s) (py_callers s) (py_next s)"

lemma heldI: "f i = Holding c \<Longrightarrow> c \<in> held f"
  by (auto simp: held_def)

lemma held_hold:
  assumes "\<And>d. f i \<noteq> Holding d"
  shows "held (f(i := Holding c)) = insert c (held f)"
proof (rule set_eqI)
  fix x
  have "(\<exists>j. f j = Holding x) \<longleftrightarrow> (\<exists>j. j \<noteq> i \<and> f j = Holding x)" using assms by metis
  then show "x \<in> held (f(i := Holding c)) \<longleftrightarrow> x \<in> insert c (held f)"
    by (auto simp: held_def)
qed

lemma held_other:
  assumes "\<And>d. f i \<noteq> Holding d" "\<And>d. x \<noteq> Holding d"
  shows "held (f(i := x)) = held f"
proof (rule set_eqI)
  fix y
  have "(\<exists>j. f j = Holding y) \<longleftrightarrow> (\<exists>j. j \<noteq> i \<and> f j = Holding y)" using assms(1) by metis
  then show "y \<in> held (f(i := x)) \<longleftrightarrow> y \<in> held f" using assms(2) by (auto simp: held_def)
qed

lemma held_drop:
  assumes "f i = Holding c" and "one_holder f"
  shows "held (f(i := Idle)) = held f - {c}"
proof (rule set_eqI)
  fix y
  have "(\<exists>j. j \<noteq> i \<and> f j = Holding y) \<longleftrightarrow> (\<exists>j. f j = Holding y) \<and> y \<noteq> c"
    using assms unfolding one_holder_def by (metis caller.inject)
  then show "y \<in> held (f(i := Idle)) \<longleftrightarrow> y \<in> held f - {c}" by (auto simp: held_def)
qed

lemma one_holder_hold:
  assumes "one_holder f" "c \<notin> held f"
  shows "one_holder (f(i := Holding c))"
  using assms unfolding one_holder_def held_def by auto

lemma one_holder_other: "one_holder f \<Longrightarrow> (\<And>d. x \<noteq> Holding d) \<Longrightarrow> one_holder (f(i := x))"
  unfolding one_holder_def by simp

lemma one_creator_other: "one_creator f \<Longrightarrow> x \<noteq> Creating \<Longrightarrow> one_creator (f(i := x))"
  unfolding one_creator_def by simp

lemma one_creator_new: "(\<And>j. f j \<noteq> Creating) \<Longrightarrow> one_creator (f(i := Creating))"
  unfolding one_creator_def by simp

lemma pool_take_Some:
  "pool_take p = Some (c, p') \<longleftrightarrow>
     (\<exists>cs. tp_available p = c # cs \<and> p' = p\<lparr>tp_available := cs\<rparr>)"
  by (auto simp: pool_take_def split: list.splits)

lemma pool_okD:
  assumes "pool_ok n p f m"
  shows "finite (tp_connections p)" and "tp_total p = int (card (tp_connections p))"
    and "tp_total p \<le> int n" and "distinct (tp_available p)"
    and "tp_connections p = set (tp_available p) \<union> held f"
    and "set (tp_available p) \<inter> held f = {}" and "one_holder f"
    and "\<And>c. c \<in> tp_connections p \<Longrightarrow> c < m" and "one_creator f"
    and "\<And>i. f i = Creating \<Longrightarrow> tp_total p < int n"
  using assms unfolding pool_ok_def by blast+

lemma pool_okI:
  assumes "finite (tp_connections p)" "tp_total p = int (card (tp_connections p))"
    "tp_total p \<le> int n" "distinct (tp_available p)"
    "tp_connections p = set (tp_available p) \<union> held f"
    "set (tp_available p) \<inter> held f = {}" "one_holder f"
    "\<And>c. c \<in> tp_connections p \<Longrightarrow> c < m" "one_creator f"
    "\<And>i. f i = Creating \<Longrightarrow> tp_total p < int n"
  shows "pool_ok n p f m"
  unfolding pool_ok_def using assms by blast

lemma pool_ok_quiet:
  assumes "pool_ok n p f m" and "\<And>c. f i \<noteq> Holding c" and "\<And>c. x \<noteq> Holding c"
    and "x = Creating \<Longrightarrow> (\<forall>j. f j \<noteq> Creating) \<and> tp_total p < int n"
  shows "pool_ok n p (f(i := x)) m"
proof (rule pool_okI)
  note inv = pool_okD [OF assms(1)]
  have h: "held (f(i := x)) = held f" using assms(2,3) by (rule held_other)
  show "tp_connections p = set (tp_available p) \<union> held (f(i := x))"
    "set (tp_available p) \<inter> held (f(i := x)) = {}"
    unfolding h by (rule inv)+
  show "one_holder (f(i := x))" using inv(7) assms(3) by (rule one_holder_other)
  show "one_creator (f(i := x))"
    using inv(9) assms(4) one_creator_other one_creator_new by (cases "x = Creating") auto
  show "(f(i := x)) j = Creating \<Longrightarrow> tp_total p < int n" for j
    using inv(10) assms(4) by (cases "j = i") auto
qed (use pool_okD [OF assms(1)] in blast)+

lemma pool_ok_take:
  assumes "pool_ok n p f m" "pool_take p = Some (c, p')" "\<And>d. f i \<noteq> Holding d"
  shows "pool_ok n p' (f(i := Holding c)) m"
proof (rule pool_okI)
  note inv = pool_okD [OF assms(1)]
  obtain cs where av: "tp_available p = c # cs" and p': "p' = p\<lparr>tp_available := cs\<rparr>"
    using assms(2) by (auto simp: pool_take_Some)
  have h: "held (f(i := Holding c)) = insert c (held f)" using assms(3) by (rule held_hold)
  have c: "c \<notin> held f" "c \<notin> set cs" using inv(4,6) av by auto
  show "tp_connections p' = set (tp_available p') \<union> held (f(i := Holding c))"
    "set (tp_available p') \<inter> held (f(i := Holding c)) = {}" "distinct (tp_available p')"
    using inv(4,5,6) c by (auto simp: h p' av)
  show "one_holder (f(i := Holding c))" using inv(7) c(1) by (rule one_holder_hold)
  show "one_creator (f(i := Holding c))" using inv(9) by (rule one_creator_other) simp
  show "(f(i := Holding c)) j = Creating \<Longrightarrow> tp_total p' < int n" for j
    using inv(10) by (cases "j = i") (auto simp: p')
  show "finite (tp_connections p')" "tp_total p' = int (card (tp_connections p'))" "tp_total p' \<le> int n"
    using inv(1-3) by (simp_all add: p')
  show "d \<in> tp_connections p' \<Longrightarrow> d < m" for d using inv(8) by (simp add: p')
qed

lemma pool_ok_drop:
  assumes "pool_ok n p f m" "f i = Holding c"
  shows "c \<in> tp_connections p" "c \<notin> set (tp_available p)" "held (f(i := Idle)) = held f - {c}"
    "one_holder (f(i := Idle))" "one_creator (f(i := Idle))"
    "(f(i := Idle)) j = Creating \<Longrightarrow> tp_total p < int n"
proof -
  note inv = pool_okD [OF assms(1)]
  have "c \<in> held f" using assms(2) by (rule heldI)
  then show "c \<in> tp_connections p" "c \<notin> set (tp_available p)" using inv(5,6) by auto
  show "held (f(i := Idle)) = held f - {c}" using assms(2) inv(7) by (rule held_drop)
  show "one_holder (f(i := Idle))" using inv(7) by (rule one_holder_other) simp
  show "one_creator (f(i := Idle))" using inv(9) by (rule one_creator_other) simp
  show "(f(i := Idle)) j = Creating \<Longrightarrow> tp_total p < int n"
    using inv(10) by (cases "j = i") auto
qed

lemma pool_ok_release:
  assumes "pool_ok n p f m" "f i = Holding c"
  shows "pool_ok n (pool_release c p) (f(i := Idle)) m"
proof (rule pool_okI)
  note inv = pool_okD [OF assms(1)] and drop = pool_ok_drop [OF assms]
  show "tp_connections (pool_release c p) = set (tp_available (pool_release c p)) \<union> held (f(i := Idle))"
    "set (tp_available (pool_release c p)) \<inter> held (f(i := Idle)) = {}"
    using inv(5,6) drop(1,2) by (auto simp: pool_release_def drop(3))
  show "(f(i := Idle)) j = Creating \<Longrightarrow> tp_total (pool_release c p) < int n" for j
    using drop(6) by (simp add: pool_release_def)
qed (use pool_okD [OF assms(1)] pool_ok_drop [OF assms] in \<open>simp_all add: pool_release_def\<close>)

lemma pool_ok_retire:
  assumes "pool_ok n p f m" "f i = Holding c"
  shows "pool_ok n (pool_retire c p) (f(i := Idle)) m"
proof (rule pool_okI)
  note inv = pool_okD [OF assms(1)] and drop = pool_ok_drop [OF assms]
  have p': "pool_retire c p = p\<lparr>tp_connections := tp_connections p - {c}, tp_total := tp_total p - 1\<rparr>"
    using drop(1) by (simp add: pool_retire_def)
  have "0 < card (tp_connections p)" using drop(1) inv(1) by (auto simp: card_gt_0_iff)
  then show "tp_total (pool_retire c p) = int (card (tp_connections (pool_retire c p)))"
    using drop(1) inv(2) by (simp add: p' of_nat_diff)
  show "tp_connections (pool_retire c p) = set (tp_available (pool_retire c p)) \<union> held (f(i := Idle))"
    "set (tp_available (pool_retire c p)) \<inter> held (f(i := Idle)) = {}"
    using inv(5,6) drop(1,2) by (auto simp: p' drop(3))
  show "(f(i := Idle)) j = Creating \<Longrightarrow> tp_total (pool_retire c p) < int n" for j
    using drop(6) [of j] by (simp add: p')
  show "tp_total (pool_retire c p) \<le> int n" "finite (tp_connections (pool_retire c p))"
    "distinct (tp_available (pool_retire c p))"
    using inv(1,3,4) by (simp_all add: p')
  show "d \<in> tp_connections (pool_retire c p) \<Longrightarrow> d < m" for d using inv(8) by (simp add: p')
qed (use pool_ok_drop [OF assms] in blast)+

lemma pool_ok_created:
  assumes "pool_ok n p f m" "f i = Creating"
  shows "pool_ok n (pool_add m p) (f(i := Holding m)) (m + 1)"
proof (rule pool_okI)
  note inv = pool_okD [OF assms(1)]
  have h: "held (f(i := Holding m)) = insert m (held f)" using assms(2) by (intro held_hold) simp
  have fresh: "m \<notin> tp_connections p" using inv(8) by blast
  then have free: "m \<notin> held f" "m \<notin> set (tp_available p)" using inv(5) by auto
  show "tp_total (pool_add m p) = int (card (tp_connections (pool_add m p)))"
    using inv(1,2) fresh by (simp add: pool_add_def)
  show "tp_total (pool_add m p) \<le> int n" using inv(10) [OF assms(2)] by (simp add: pool_add_def)
  show "tp_connections (pool_add m p) = set (tp_available (pool_add m p)) \<union> held (f(i := Holding m))"
    "set (tp_available (pool_add m p)) \<inter> held (f(i := Holding m)) = {}"
    using inv(5,6) free by (auto simp: pool_add_def h)
  show "one_holder (f(i := Holding m))" using inv(7) free(1) by (rule one_holder_hold)
  show "one_creator (f(i := Holding m))" using inv(9) by (rule one_creator_other) simp
  show "(f(i := Holding m)) j = Creating \<Longrightarrow> tp_total (pool_add m p) < int n" for j
    using assms(2) inv(9) unfolding one_creator_def by (cases "j = i") auto
  show "finite (tp_connections (pool_add m p))" "distinct (tp_available (pool_add m p))"
    using inv(1,4) by (simp_all add: pool_add_def)
  show "d \<in> tp_connections (pool_add m p) \<Longrightarrow> d < m + 1" for d
    using inv(8) [of d] by (auto simp: pool_add_def)
qed

lemma pool_inv_step:
  assumes "pool_step n s s'" "pool_inv n s"
  shows "pool_inv n s'"
  using assms unfolding pool_inv_def
  by (cases rule: pool_step.cases)
    (auto simp: lock_free_def intro!: pool_ok_take pool_ok_quiet pool_ok_created [simplified]
      pool_ok_release pool_ok_retire)

lemma pool_reachable_inv: "pool_reachable n s \<Longrightarrow> pool_inv n s"
  unfolding pool_reachable_def
proof (induction rule: rtranclp_induct)
  case base
  show ?case
    by (simp add: pool_inv_def pool_ok_def pool_sys_init_def pool_init_def held_def one_holder_def
        one_creator_def)
qed (rule pool_inv_step)


section \<open>Properties\<close>

text \<open>The frames of an exchange that returns a response.\<close>

lemma tcp_exchange_frames:
  assumes "tcp_exchange peer name conn routed st = (Inr out, routed', st')" and "0 \<le> ts_tx_counter st" "ts_tx_counter st < 65536"
  obtains tid adu header reply response events where
    "fst (next_transaction_id (ts_tx_counter st)) = tid" "1 \<le> tid" "tid < 65536"
    "request_to_adu (rr_pdu routed) = (Inr adu, rr_pdu routed')"
    "ts_sent st' = ts_sent st @ [(conn, be16 tid @ [0, 0] @ be16 (int (length adu)) @ adu)]"
    "peer_react peer conn (be16 tid @ [0, 0] @ be16 (int (length adu)) @ adu) (ts_peer st) = (Inr (), events, ts_peer st')"
    "ts_streams st conn @ events = map Arrive (header @ reply) @ ts_streams st' conn" "length header = 6"
    "from_bytes_big (take 2 header) = tid" "response_from_adu reply None = Inr response"
    "out = tcp_response name routed' response"
proof -
  obtain tid ctr adu response mbap events d where
    x: "next_transaction_id (ts_tx_counter st) = (tid, ctr)"
    "request_to_adu (rr_pdu routed) = (Inr adu, rr_pdu routed')"
    "backend_build_mbap tid (int (length (drop 1 adu)) + 1) = Inr mbap"
    "peer_react peer conn (mbap @ [adu ! 0] @ drop 1 adu) (ts_peer st) = (Inr (), events, d)"
    "tcp_receive tid (ts_streams st conn @ events) = (Inr response, ts_streams st' conn)"
    "out = tcp_response name routed' response"
    "ts_sent st' = ts_sent st @ [(conn, mbap @ [adu ! 0] @ drop 1 adu)]"
    using assms(1) by (rule tcp_exchange_Inr)
  have tid: "1 \<le> tid" "tid < 65536"
    using x(1) next_transaction_id_range [of "ts_tx_counter st" tid ctr] assms(2,3) by auto
  have "2 \<le> length adu" by (rule request_to_adu_length [OF x(2)])
  then obtain u rest where adu: "adu = u # rest" by (cases adu) auto
  have frame: "mbap @ [adu ! 0] @ drop 1 adu = be16 tid @ [0, 0] @ be16 (int (length adu)) @ adu"
    using x(3) by (simp add: backend_build_mbap_Inr_iff adu add.commute)
  have "ts_peer st' = d"
    using assms(1) x(1-4) by (auto simp: tcp_exchange_def Let_def split: prod.splits)
  moreover obtain header reply where
    "ts_streams st conn @ events = map Arrive (header @ reply) @ ts_streams st' conn" "length header = 6"
    "from_bytes_big (take 2 header) = tid" "response_from_adu reply None = Inr response"
    using tcp_receive_Inr [OF x(5)] by metis
  ultimately show thesis
    using x(1,2,6) x(4,7) [unfolded frame] tid by (intro that [of tid adu events header reply response]) simp_all
qed

text \<open>C17. A submit that runs alone always returns, the pool invariant holds afterwards, and no
  connection but the one it used, the longest idle one or else a new one, is touched. Its outcomes are:
  no connection could be made, the pool and what was sent and closed are as before; or the exchange
  failed, the error is \<open>TCP backend exchange failed\<close>, the request's frame was sent at most once, on that
  connection and under the next transaction identifier, exactly when the request has an encoding,
  and the connection was closed and left the pool, so that late bytes on it can never be read by
  another request; or it succeeded, exactly one frame was sent in the same way with a transaction
  identifier in 1 to 65535, the response was decoded from bytes that the same connection had to
  deliver, under that very identifier, and the connection was kept: none was closed and it waits
  behind the other idle ones.\<close>

theorem tcp_submit_outcomes:
  assumes "tcp_idle (tbc_pool_size config) st" and "0 < tbc_pool_size config"
  defines "conn \<equiv> next_connection st" and "tid \<equiv> fst (next_transaction_id (ts_tx_counter st))"
  shows "\<exists>res routed' st'. tcp_submit peer config routed st = Some (res, routed', st') \<and>
    tcp_idle (tbc_pool_size config) st' \<and> 1 \<le> tid \<and> tid < 65536 \<and>
    (\<forall>c. c \<noteq> conn \<longrightarrow> ts_streams st' c = ts_streams st c) \<and>
    (case res of
       Inl e \<Rightarrow>
         routed' = routed \<and> ts_sent st' = ts_sent st \<and> ts_closed st' = ts_closed st \<and>
           ts_pool st' = ts_pool st \<and> tp_available (ts_pool st) = [] \<or>
         e = RuntimeError ''TCP backend exchange failed'' \<and>
           ts_sent st' = ts_sent st @ frames_for tid conn routed \<and>
           ts_closed st' = ts_closed st @ [conn] \<and> conn \<notin> tp_connections (ts_pool st') \<and>
           tp_available (ts_pool st') = tl (tp_available (ts_pool st))
     | Inr out \<Rightarrow> \<exists>adu header reply response before events d.
         request_to_adu (rr_pdu routed) = (Inr adu, rr_pdu routed') \<and>
         ts_sent st' = ts_sent st @ [(conn, be16 tid @ [0, 0] @ be16 (int (length adu)) @ adu)] \<and>
         peer_react peer conn (be16 tid @ [0, 0] @ be16 (int (length adu)) @ adu) d =
           (Inr (), events, ts_peer st') \<and>
         (tp_available (ts_pool st) \<noteq> [] \<longrightarrow> before = ts_streams st conn \<and> d = ts_peer st) \<and>
         before @ events = map Arrive (header @ reply) @ ts_streams st' conn \<and>
         length header = 6 \<and> from_bytes_big (take 2 header) = tid \<and>
         response_from_adu reply None = Inr response \<and>
         out = tcp_response (tbc_id config) routed' response \<and>
         ts_closed st' = ts_closed st \<and>
         tp_available (ts_pool st') = tl (tp_available (ts_pool st)) @ [conn])"
proof -
  have range: "0 \<le> ts_tx_counter st" "ts_tx_counter st < 65536"
    using assms(1) by (simp_all add: tcp_idle_def)
  have tid: "1 \<le> tid" "tid < 65536"
    using next_transaction_id_range [OF range] unfolding tid_def by (metis prod.collapse)+
  show ?thesis
  proof (cases rule: tcp_submit_cases [OF assms(1,2), of peer routed])
    case (1 e d)
    with tid show ?thesis by (intro exI conjI) auto
  next
    case (2 c st1 e routed' st2 st')
    note sent = tcp_exchange_sent [OF 2(2), unfolded 2(13), OF range]
    from 2 sent tid show ?thesis
      by (intro exI [of _ "Inl (RuntimeError ''TCP backend exchange failed'')"] exI [of _ routed'] exI [of _ st'])
        (simp add: conn_def tid_def)
  next
    case (3 c st1 out routed' st2 st')
    note others = tcp_exchange_sent(2) [OF 3(2), unfolded 3(13), OF range]
    from tcp_exchange_frames [OF 3(2), unfolded 3(13), OF range] obtain adu header reply response events where x:
      "request_to_adu (rr_pdu routed) = (Inr adu, rr_pdu routed')"
      "ts_sent st2 = ts_sent st1 @ [(c, be16 tid @ [0, 0] @ be16 (int (length adu)) @ adu)]"
      "peer_react peer c (be16 tid @ [0, 0] @ be16 (int (length adu)) @ adu) (ts_peer st1) =
        (Inr (), events, ts_peer st2)"
      "ts_streams st1 c @ events = map Arrive (header @ reply) @ ts_streams st2 c" "length header = 6"
      "from_bytes_big (take 2 header) = tid" "response_from_adu reply None = Inr response"
      "out = tcp_response (tbc_id config) routed' response"
      unfolding tid_def by metis
    show ?thesis
      by (rule exI [of _ "Inr out"], rule exI [of _ routed'], rule exI [of _ st'], simp only: sum.case,
          intro conjI exI [of _ adu] exI [of _ header] exI [of _ reply] exI [of _ response]
            exI [of _ "ts_streams st1 c"] exI [of _ events] exI [of _ "ts_peer st1"])
        (use 3 x others tid in \<open>simp_all add: conn_def\<close>)
  qed
qed

definition sample_tcp_config :: tcp_backend_config where
  "sample_tcp_config =
     \<lparr>tbc_id = ''ups'', tbc_host = ''10.0.0.9'', tbc_port = 502, tbc_use_tls = False, tbc_tls = None,
      tbc_connect_timeout = 2, tbc_pool_size = 4\<rparr>"

definition tcp_start :: "'d \<Rightarrow> 'd tcp_state" where
  "tcp_start d =
     \<lparr>ts_pool = pool_init, ts_tx_counter = 0, ts_next = 0, ts_streams = (\<lambda>c. []), ts_peer = d,
      ts_sent = [], ts_closed = []\<rparr>"

lemma tcp_start_idle: "tcp_idle n (tcp_start d)"
  by (simp add: tcp_idle_def tcp_start_def pool_init_def)

theorem tcp_submit_outcomes_witness:
  "\<exists>res routed' st'. tcp_submit \<lparr>peer_connect = (\<lambda>d. (Inr [], d)), peer_react = (\<lambda>c f d. (Inr (), [Silence], d))\<rparr>
     sample_tcp_config (request_on ''plc'' (new_pdu 1 (ReadCoilsRequest 0 8))) (tcp_start ()) =
     Some (res, routed', st') \<and> tcp_idle 4 st'"
proof -
  have "0 < tbc_pool_size sample_tcp_config" and n: "tbc_pool_size sample_tcp_config = 4"
    by (simp_all add: sample_tcp_config_def)
  from tcp_submit_outcomes [OF tcp_start_idle this(1),
      of "\<lparr>peer_connect = (\<lambda>d. (Inr [], d)), peer_react = (\<lambda>c f d. (Inr (), [Silence], d))\<rparr>"
        "request_on ''plc'' (new_pdu 1 (ReadCoilsRequest 0 8))" "()"]
  show ?thesis unfolding n by blast
qed

text \<open>An upstream that answers is answered for: when a connection with nothing left to read
  was obtained and the peer replies to the request's frame with a frame of the same transaction
  identifier around a response, whatever its protocol field, the submit returns that response,
  as an exception or a plain response, and the connection is available again.\<close>

theorem tcp_submit_returns_peer_response:
  assumes "acquire_connection peer (tbc_pool_size config) st = Some (Inr conn, st1)"
    and "ts_streams st1 conn = []"
    and "next_transaction_id (ts_tx_counter st1) = (tid, counter)" and "1 \<le> tid" and "tid < 65536"
    and "request_to_adu (rr_pdu routed) = (Inr adu, p)" and "length adu < 65536"
    and "peer_react peer conn (be16 tid @ [0, 0] @ be16 (int (length adu)) @ adu) (ts_peer st1) =
      (Inr (), map Arrive (be16 tid @ proto @ be16 (int (length reply)) @ reply) @ late, d)"
    and "length proto = 2" and "length reply < 65536"
    and "response_from_adu reply None = Inr response"
  shows "\<exists>st'. tcp_submit peer config routed st =
      Some (Inr (tcp_response (tbc_id config) (routed\<lparr>rr_pdu := p\<rparr>) response), routed\<lparr>rr_pdu := p\<rparr>, st') \<and>
    conn \<in> set (tp_available (ts_pool st')) \<and> ts_streams st' conn = late"
proof -
  have "2 \<le> length adu" using assms(6)
    by (auto simp: request_to_adu_def to_adu_def Let_def py_bytes_Inr_iff split: sum.splits)
  then obtain u rest where adu: "adu = u # rest" by (cases adu) auto
  have hdr: "backend_build_mbap tid (int (length (drop 1 adu)) + 1) = Inr (be16 tid @ [0, 0] @ be16 (int (length adu)))"
    using assms(4,5,7) by (simp add: backend_build_mbap_Inr_iff adu add.commute)
  have frame: "(be16 tid @ [0, 0] @ be16 (int (length adu))) @ [adu ! 0] @ drop 1 adu =
      be16 tid @ [0, 0] @ be16 (int (length adu)) @ adu"
    by (simp add: adu)
  let ?header = "be16 tid @ proto @ be16 (int (length reply))"
  have "2 \<le> length reply" by (rule response_from_adu_length [OF assms(11)])
  then have "tcp_receive tid (map Arrive (?header @ reply) @ late) = (response_from_adu reply None, late)"
    using assms(4,5,9,10) by (intro tcp_receive_frame) simp_all
  then have recv: "tcp_receive tid (map Arrive (be16 tid @ proto @ be16 (int (length reply)) @ reply) @ late) =
      (Inr response, late)"
    using assms(11) by simp
  define st2 where "st2 = st1\<lparr>ts_tx_counter := counter, ts_peer := d,
      ts_sent := ts_sent st1 @ [(conn, be16 tid @ [0, 0] @ be16 (int (length adu)) @ adu)],
      ts_streams := (ts_streams st1)(conn := late)\<rparr>"
  have "tcp_exchange peer (tbc_id config) conn routed st1 =
      (Inr (tcp_response (tbc_id config) (routed\<lparr>rr_pdu := p\<rparr>) response), routed\<lparr>rr_pdu := p\<rparr>, st2)"
    unfolding tcp_exchange_def assms(3) Let_def prod.case assms(6) sum.case hdr frame
    using assms(2,8) recv by (simp add: st2_def)
  then have "tcp_submit peer config routed st =
      Some (Inr (tcp_response (tbc_id config) (routed\<lparr>rr_pdu := p\<rparr>) response), routed\<lparr>rr_pdu := p\<rparr>,
        st2\<lparr>ts_pool := pool_release conn (ts_pool st2)\<rparr>)"
    by (simp add: tcp_submit_def assms(1))
  then show ?thesis by (auto simp: pool_release_def st2_def)
qed

definition register_peer :: "unit tcp_peer" where
  "register_peer =
     \<lparr>peer_connect = (\<lambda>d. (Inr [], d)),
      peer_react = (\<lambda>c frame d. (Inr (), map Arrive [0, 1, 0, 0, 0, 5, 1, 3, 2, 0, 7], d))\<rparr>"

theorem tcp_submit_returns_peer_response_witness:
  "\<exists>response p st'. tcp_submit register_peer sample_tcp_config
       (request_on ''plc'' (new_pdu 1 (ReadHoldingRegistersRequest 0 1))) (tcp_start ()) =
     Some (Inr (tcp_response ''ups'' ((request_on ''plc'' (new_pdu 1 (ReadHoldingRegistersRequest 0 1)))
         \<lparr>rr_pdu := p\<rparr>) response),
       (request_on ''plc'' (new_pdu 1 (ReadHoldingRegistersRequest 0 1)))\<lparr>rr_pdu := p\<rparr>, st') \<and>
     body response = ReadHoldingRegistersResponse [7] \<and> ts_streams st' 0 = []"
proof -
  let ?r = "request_on ''plc'' (new_pdu 1 (ReadHoldingRegistersRequest 0 1))"
  obtain p where f: "request_to_adu (rr_pdu ?r) = (Inr [1, 3, 0, 0, 0, 1], p)"
    by (simp add: codec_simps request_on_def)
  have "map_option body (case response_from_adu [1, 3, 2, 0, 7] None of
        Inr p \<Rightarrow> Some p | Inl e \<Rightarrow> None) = Some (ReadHoldingRegistersResponse [7])"
    by code_simp
  then obtain response where resp: "response_from_adu [1, 3, 2, 0, 7] None = Inr response"
    "body response = ReadHoldingRegistersResponse [7]"
    by (auto split: sum.splits)
  define st1 where "st1 = (tcp_start ())\<lparr>ts_next := 1, ts_streams := (\<lambda>c. [])(0 := []),
      ts_pool := pool_add 0 pool_init\<rparr>"
  have acq: "acquire_connection register_peer (tbc_pool_size sample_tcp_config) (tcp_start ()) = Some (Inr 0, st1)"
    by (simp add: acquire_connection_def create_connection_def register_peer_def tcp_start_def
        pool_init_def pool_take_def sample_tcp_config_def Let_def st1_def)
  have id: "tbc_id sample_tcp_config = ''ups''" by (simp add: sample_tcp_config_def)
  have tid: "next_transaction_id (ts_tx_counter st1) = (1, 1)"
    by (simp add: st1_def tcp_start_def next_transaction_id_def Let_def)
  have "be16 1 = [0, 1]" "be16 5 = [0, 5]" by code_simp+
  then have react: "peer_react register_peer 0 (be16 1 @ [0, 0] @ be16 (int (length [1 :: byte, 3, 0, 0, 0, 1])) @ [1, 3, 0, 0, 0, 1])
      (ts_peer st1) =
      (Inr (), map Arrive (be16 1 @ [0, 0] @ be16 (int (length [1 :: byte, 3, 2, 0, 7])) @ [1, 3, 2, 0, 7]) @ [], ())"
    by (simp add: register_peer_def)
  note returned = tcp_submit_returns_peer_response [OF acq _ tid _ _ f _ react _ _ resp(1), unfolded id]
  have "ts_streams st1 0 = []" by (simp add: st1_def)
  with returned obtain st' where "tcp_submit register_peer sample_tcp_config ?r (tcp_start ()) =
      Some (Inr (tcp_response ''ups'' (?r\<lparr>rr_pdu := p\<rparr>) response), ?r\<lparr>rr_pdu := p\<rparr>, st')"
    "ts_streams st' 0 = []"
    by auto
  with resp(2) show ?thesis by (intro exI conjI)
qed

text \<open>C18. Under every interleaving of callers the pool is accounted for: never more open
  connections than the pool size, the counter equals their number, and no connection is both
  idle and in use or in use by two callers at once.\<close>

theorem pool_accounting:
  assumes "pool_reachable pool_size s"
  shows "card (tp_connections (py_pool s)) \<le> pool_size \<and>
    tp_total (py_pool s) = int (card (tp_connections (py_pool s))) \<and>
    (\<forall>i c. py_callers s i = Holding c \<longrightarrow> c \<in> tp_connections (py_pool s) \<and>
       c \<notin> set (tp_available (py_pool s)) \<and> (\<forall>j. py_callers s j = Holding c \<longrightarrow> j = i))"
proof -
  note inv = pool_okD [OF pool_reachable_inv [OF assms, unfolded pool_inv_def]]
  have "c \<in> held (py_callers s)" if "py_callers s i = Holding c" for i c
    using that by (rule heldI)
  with inv show ?thesis unfolding one_holder_def by fastforce
qed

theorem pool_accounting_witness:
  "\<exists>s. pool_reachable 1 s \<and> py_callers s 0 = Creating \<and> card (tp_connections (py_pool s)) \<le> 1"
proof -
  have "pool_step 1 pool_sys_init (pool_sys_init\<lparr>py_callers := (\<lambda>i. Idle)(0 := WantLock)\<rparr>)"
    using begin_slow [of pool_sys_init 0 1] by (simp add: pool_sys_init_def pool_init_def pool_take_def)
  moreover have "pool_step 1 (pool_sys_init\<lparr>py_callers := (\<lambda>i. Idle)(0 := WantLock)\<rparr>)
      (pool_sys_init\<lparr>py_callers := (\<lambda>i. Idle)(0 := Creating)\<rparr>)"
    using lock_create [of "pool_sys_init\<lparr>py_callers := (\<lambda>i. Idle)(0 := WantLock)\<rparr>" 0 1]
    by (simp add: pool_sys_init_def pool_init_def lock_free_def)
  ultimately have r: "pool_reachable 1 (pool_sys_init\<lparr>py_callers := (\<lambda>i. Idle)(0 := Creating)\<rparr>)"
    unfolding pool_reachable_def by simp
  from pool_accounting [OF r] r show ?thesis by (intro exI conjI) (assumption, simp_all)
qed

text \<open>C19. A caller can be forgotten: with a pool of one connection, a caller that waits for it
  while another caller's exchange fails stays waiting although the pool is then empty and has
  room; no step but a new submit is possible. Retiring a connection wakes nobody.\<close>

theorem retired_connection_wakes_nobody:
  "\<exists>s. pool_reachable 1 s \<and> py_callers s 1 = Waiting \<and> tp_total (py_pool s) = 0 \<and>
     (\<forall>s'. pool_step 1 s s' \<longrightarrow> py_callers s' 1 = Waiting \<and> (\<exists>i. i \<noteq> 1 \<and> py_callers s i = Idle \<and> py_callers s' i = WantLock))"
proof -
  define f0 :: "nat \<Rightarrow> caller" where "f0 = (\<lambda>i. Idle)"
  define p0 where "p0 = pool_init"
  let ?mk = "\<lambda>p f n. \<lparr>py_pool = p, py_callers = f, py_next = n\<rparr>"
  have p0: "pool_take p0 = None" "tp_total p0 = 0" by (simp_all add: p0_def pool_init_def pool_take_def)
  have add: "pool_take (pool_add 0 p0) = None" "tp_total (pool_add 0 p0) = 1"
    by (simp_all add: p0_def pool_init_def pool_take_def pool_add_def)
  have ret: "pool_retire 0 (pool_add 0 p0) = p0"
    by (simp add: p0_def pool_init_def pool_add_def pool_retire_def)
  have upd: "(\<lambda>i. Idle)(Suc 0 := Waiting, 0 := Idle) = (\<lambda>i. Idle)(Suc 0 := Waiting)"
    by auto
  have s1: "pool_step 1 (?mk p0 f0 0) (?mk p0 (f0(0 := WantLock)) 0)"
    using begin_slow [of "?mk p0 f0 0" 0 1] p0 by (simp add: f0_def)
  have s2: "pool_step 1 (?mk p0 (f0(0 := WantLock)) 0) (?mk p0 (f0(0 := Creating)) 0)"
    using lock_create [of "?mk p0 (f0(0 := WantLock)) 0" 0 1] p0 by (simp add: f0_def lock_free_def)
  have s3: "pool_step 1 (?mk p0 (f0(0 := Creating)) 0) (?mk (pool_add 0 p0) (f0(0 := Holding 0)) 1)"
    using created [of "?mk p0 (f0(0 := Creating)) 0" 0 1] by simp
  have s4: "pool_step 1 (?mk (pool_add 0 p0) (f0(0 := Holding 0)) 1)
      (?mk (pool_add 0 p0) (f0(0 := Holding 0, 1 := WantLock)) 1)"
    using begin_slow [of "?mk (pool_add 0 p0) (f0(0 := Holding 0)) 1" 1 1] add by (simp add: f0_def)
  have s5: "pool_step 1 (?mk (pool_add 0 p0) (f0(0 := Holding 0, 1 := WantLock)) 1)
      (?mk (pool_add 0 p0) (f0(0 := Holding 0, 1 := Waiting)) 1)"
    using lock_full [of "?mk (pool_add 0 p0) (f0(0 := Holding 0, 1 := WantLock)) 1" 1 1] add
    by (simp add: f0_def lock_free_def)
  have s6: "pool_step 1 (?mk (pool_add 0 p0) (f0(0 := Holding 0, 1 := Waiting)) 1)
      (?mk p0 (f0(1 := Waiting)) 1)"
    using retired [of "?mk (pool_add 0 p0) (f0(0 := Holding 0, 1 := Waiting)) 1" 0 0 1] ret upd
    by (simp add: f0_def)
  let ?s = "?mk p0 (f0(1 := Waiting)) 1"
  have "pool_sys_init = ?mk p0 f0 0" by (simp add: pool_sys_init_def p0_def f0_def)
  then have "pool_reachable 1 ?s"
    unfolding pool_reachable_def using s1 s2 s3 s4 s5 s6
    by (simp del: fun_upd_apply)
  moreover have "py_callers s' 1 = Waiting \<and> (\<exists>i. i \<noteq> 1 \<and> py_callers ?s i = Idle \<and> py_callers s' i = WantLock)"
    if "pool_step 1 ?s s'" for s'
    using that p0(1) by (cases rule: pool_step.cases) (auto simp: f0_def split: if_splits)
  ultimately show ?thesis using p0(2) by (intro exI [of _ ?s]) simp
qed


theorem retired_connection_wakes_nobody_witness:
  "\<exists>s. pool_reachable 1 s \<and> py_callers s 1 = Waiting \<and> tp_total (py_pool s) = 0"
  using retired_connection_wakes_nobody by blast

end
