(* ===== verification/Application.thy ===== *)
theory Application
  imports Tcp_Frontend Unix_Frontend Rtu_Frontend Serial_Backend Tcp_Backend
begin

text \<open>
  \<open>modbusgw/app.py\<close>: building the components of a configuration, starting and stopping them, and
  the main loop with its signals. What the outside decides (the configuration read, whether
  directories and files can be written, whether a frontend can be started, how the \<open>stop\<close> of a
  component ends) is an argument of each reload and of the end of the process. \<open>app_live\<close> and
  \<open>app_files\<close> observe the components that were started and not stopped, and the pid files on disk with
  their text; a component is named by the generation of the runtime that started it, a frontend also by
  its position in the configuration.
\<close>

section \<open>Building components\<close>

datatype frontend =
    RtuFrontend rtu_frontend
  | TcpFrontend tcp_frontend
  | UnixFrontend unix_frontend

fun build_frontend :: "frontend_config \<Rightarrow> frontend result" where
  "build_frontend (SerialRtuSocketConfig c) = Inr (RtuFrontend (rtu_frontend_init c))"
| "build_frontend (TcpModbusFrontendConfig c) = map_sum id TcpFrontend (tcp_frontend_init c)"
| "build_frontend (UnixModbusTcpConfig c) = Inr (UnixFrontend (unix_frontend_init c))"

text \<open>The handler the responder calls, by the frontend's class.\<close>

fun frontend_handle :: "frontend frontend_handler" where
  "frontend_handle (RtuFrontend fe) m = (case rtu_handle_response fe m of (r, fe') \<Rightarrow> (r, RtuFrontend fe'))"
| "frontend_handle (TcpFrontend fe) m = (case tcp_handle_response fe m of (r, fe') \<Rightarrow> (r, TcpFrontend fe'))"
| "frontend_handle (UnixFrontend fe) m = (case unix_handle_response fe m of (r, fe') \<Rightarrow> (r, UnixFrontend fe'))"

text \<open>A later backend with the same identifier replaces an earlier one.\<close>

definition build_backends :: "backend_config list \<Rightarrow> (string \<times> backend_config) list" where
  "build_backends configs = foldl (\<lambda>backends c. dict_set (backend_id c) c backends) [] configs"

section \<open>The runtime\<close>

datatype component = DispatcherOf nat | ResponderOf nat | FrontendOf nat nat | BackendOf nat string

record runtime_bundle =
  rt_config :: gateway_config
  rt_router :: router
  rt_backends :: "(string \<times> backend_config) list"
  rt_frontends :: "(string \<times> nat) list"
  rt_generation :: nat

text \<open>\<open>app_pid\<close> is what \<open>os.getpid()\<close> yields.\<close>

record application =
  app_pid :: nat
  app_runtime :: "runtime_bundle option"
  app_stop_event :: bool
  app_reload_event :: bool
  app_pid_file :: "string option"
  app_log_level :: int
  app_generation :: nat
  app_live :: "component list"
  app_files :: "string \<Rightarrow> string option"

definition application_init :: "nat \<Rightarrow> application" where
  "application_init pid = \<lparr>app_pid = pid, app_runtime = None, app_stop_event = False, app_reload_event = False,
     app_pid_file = None, app_log_level = 30, app_generation = 0, app_live = [], app_files = Map.empty\<rparr>"

text \<open>The loop over the frontends: build, enter into the map, start.\<close>

fun start_frontends ::
  "(frontend_config \<Rightarrow> unit result) \<Rightarrow> nat \<Rightarrow> nat \<Rightarrow> frontend_config list \<Rightarrow> (string \<times> nat) list \<Rightarrow>
   component list \<Rightarrow> (string \<times> nat) list result \<times> component list" where
  "start_frontends starts gen i [] frontend_map live = (Inr frontend_map, live)"
| "start_frontends starts gen i (c # cs) frontend_map live =
     (case build_frontend c of
        Inl e \<Rightarrow> (Inl e, live)
      | Inr _ \<Rightarrow>
          (case starts c of
             Inl e \<Rightarrow> (Inl e, live)
           | Inr _ \<Rightarrow> start_frontends starts gen (Suc i) cs (dict_set (frontend_id c) i frontend_map)
                         (live @ [FrontendOf gen i])))"

definition start_runtime ::
  "(frontend_config \<Rightarrow> unit result) \<Rightarrow> gateway_config \<Rightarrow> application \<Rightarrow> runtime_bundle result \<times> application" where
  "start_runtime starts config app =
     (let gen = app_generation app in
      case start_frontends starts gen 0 (gc_frontends config) []
             (app_live app @ [DispatcherOf gen, ResponderOf gen]) of
        (Inl e, live) \<Rightarrow> (Inl e, app\<lparr>app_live := live, app_generation := gen + 1\<rparr>)
      | (Inr frontend_map, live) \<Rightarrow>
          (Inr \<lparr>rt_config = config, rt_router = build_router_from_config config,
                rt_backends = build_backends (gc_backends config), rt_frontends = frontend_map,
                rt_generation = gen\<rparr>,
           app\<lparr>app_live := live, app_generation := gen + 1\<rparr>))"

definition runtime_components :: "runtime_bundle \<Rightarrow> component set" where
  "runtime_components rt =
     FrontendOf (rt_generation rt) ` snd ` set (rt_frontends rt) \<union>
     {ResponderOf (rt_generation rt), DispatcherOf (rt_generation rt)}"

text \<open>
  How the \<open>stop\<close> of a component (the \<open>close\<close> of a backend) ends. \<open>StopRaises\<close>: with an exception, on the
  way; it is suppressed. \<open>StopHangs\<close>: not at all, like a server's \<open>wait_closed\<close> while a client stays
  connected (in Python since 3.12).
\<close>

datatype stop_outcome = Stops | StopRaises | StopHangs

text \<open>The order of \<open>_stop_runtime\<close>; of the backends only those of Modbus/TCP have a \<open>close\<close>.\<close>

fun has_close :: "backend_config \<Rightarrow> bool" where
  "has_close (TcpBackendConfig c) = True"
| "has_close (SerialBackendConfig c) = False"

definition stop_order :: "runtime_bundle \<Rightarrow> component list" where
  "stop_order rt =
     map (\<lambda>(name, i). FrontendOf (rt_generation rt) i) (rt_frontends rt) @
     [ResponderOf (rt_generation rt), DispatcherOf (rt_generation rt)] @
     map (\<lambda>(name, c). BackendOf (rt_generation rt) name) (filter (\<lambda>(name, c). has_close c) (rt_backends rt))"

text \<open>\<open>False\<close>: the loop waits for ever; the components after that point are not asked to stop.\<close>

fun stop_components ::
  "(component \<Rightarrow> stop_outcome) \<Rightarrow> component list \<Rightarrow> component list \<Rightarrow> bool \<times> component list" where
  "stop_components stops [] live = (True, live)"
| "stop_components stops (c # cs) live =
     (case stops c of
        StopHangs \<Rightarrow> (False, live)
      | StopRaises \<Rightarrow> stop_components stops cs live
      | Stops \<Rightarrow> stop_components stops cs (filter (\<lambda>d. d \<noteq> c) live))"

definition stop_runtime :: "(component \<Rightarrow> stop_outcome) \<Rightarrow> application \<Rightarrow> bool \<times> application" where
  "stop_runtime stops app =
     (case app_runtime app of
        None \<Rightarrow> (True, app)
      | Some rt \<Rightarrow>
          (case stop_components stops (stop_order rt) (app_live app) of
             (returned, live) \<Rightarrow> (returned, app\<lparr>app_runtime := None, app_live := live\<rparr>)))"

section \<open>Pid file and logging\<close>

text \<open>
  How writing the pid file ended: \<open>PidCut\<close>: it failed after the file was opened and emptied, with the
  text left in it.
\<close>

datatype pid_write = PidWritten | PidNotOpened exn | PidCut exn string

definition write_pid_file :: "pid_write \<Rightarrow> gateway_config \<Rightarrow> application \<Rightarrow> unit result \<times> application" where
  "write_pid_file written config app =
     (let path = svc_pid_file (gc_service config) in
      case written of
        PidNotOpened e \<Rightarrow> (Inl e, app)
      | PidCut e left \<Rightarrow> (Inl e, app\<lparr>app_files := (app_files app)(path \<mapsto> left)\<rparr>)
      | PidWritten \<Rightarrow>
          (Inr (), app\<lparr>app_files := (app_files app)(path \<mapsto> nat_str (app_pid app)), app_pid_file := Some path\<rparr>))"

text \<open>\<open>unlinked\<close>: how \<open>unlink\<close> ends if it is called; a failure is suppressed and leaves the file.\<close>

definition cleanup_pid_file :: "unit result \<Rightarrow> application \<Rightarrow> application" where
  "cleanup_pid_file unlinked app =
     (case app_pid_file app of
        None \<Rightarrow> app
      | Some path \<Rightarrow>
          (let app1 = app\<lparr>app_pid_file := None\<rparr> in
           if app_files app path = None then app1
           else (case unlinked of
                   Inl e \<Rightarrow> app1
                 | Inr _ \<Rightarrow> app1\<lparr>app_files := (app_files app1)(path := None)\<rparr>)))"

definition upper_char :: "char \<Rightarrow> char" where
  "upper_char c =
     (let n = (of_char c :: nat) in if 97 \<le> n \<and> n \<le> 122 then char_of (n - 32) else c)"

text \<open>
  \<open>getattr(logging, level_name, logging.INFO)\<close> followed by \<open>setLevel\<close>: the module also has two
  attributes in capitals that are no levels.
\<close>

definition logging_level :: "string \<Rightarrow> int result" where
  "logging_level level_name =
     (if level_name = ''DEBUG'' then Inr 10
      else if level_name = ''INFO'' then Inr 20
      else if level_name \<in> {''WARNING'', ''WARN''} then Inr 30
      else if level_name = ''ERROR'' then Inr 40
      else if level_name \<in> {''CRITICAL'', ''FATAL''} then Inr 50
      else if level_name = ''NOTSET'' then Inr 0
      else if level_name = ''BASIC_FORMAT'' then Inl (ValueError ''Unknown level'')
      else if level_name = ''_STYLES'' then Inl (TypeError ''Level not an integer or a valid string'')
      else Inr 20)"

definition configure_logging :: "gateway_config \<Rightarrow> application \<Rightarrow> unit result \<times> application" where
  "configure_logging config app =
     (case logging_level (map upper_char (svc_log_level (gc_service config))) of
        Inl e \<Rightarrow> (Inl e, app)
      | Inr level \<Rightarrow> (Inr (), app\<lparr>app_log_level := level\<rparr>))"

section \<open>Reload and the main loop\<close>

text \<open>
  What the outside answers during one reload, or at the end. \<open>rw_load\<close> is the configuration with the
  user's directory already expanded in its two service paths.
\<close>

record reload_world =
  rw_load :: "gateway_config result"
  rw_mkdir :: "unit result"
  rw_starts :: "frontend_config \<Rightarrow> unit result"
  rw_pid :: pid_write
  rw_stops :: "component \<Rightarrow> stop_outcome"
  rw_unlink :: "unit result"

text \<open>\<open>None\<close>: the reload waits for ever for a component to stop.\<close>

definition reload_runtime :: "bool \<Rightarrow> reload_world \<Rightarrow> application \<Rightarrow> unit result option \<times> application" where
  "reload_runtime initial world app =
     (case rw_load world of
        Inl e \<Rightarrow> (Some (if initial then Inl e else Inr ()), app)
      | Inr config \<Rightarrow>
          (case rw_mkdir world of
             Inl e \<Rightarrow> (Some (Inl e), app)
           | Inr _ \<Rightarrow>
               (case stop_runtime (rw_stops world) app of
                  (False, app0) \<Rightarrow> (None, app0)
                | (True, app0) \<Rightarrow>
                    (case start_runtime (rw_starts world) config app0 of
                       (Inl e, app1) \<Rightarrow> (Some (if initial then Inl e else Inr ()), app1)
                     | (Inr rt, app1) \<Rightarrow>
                         (case write_pid_file (rw_pid world) config (app1\<lparr>app_runtime := Some rt\<rparr>) of
                            (Inl e, app2) \<Rightarrow> (Some (Inl e), app2)
                          | (Inr _, app2) \<Rightarrow> (case configure_logging config app2 of (r, app3) \<Rightarrow> (Some r, app3)))))))"

definition request_shutdown :: "application \<Rightarrow> application" where
  "request_shutdown app = app\<lparr>app_stop_event := True\<rparr>"

definition request_reload :: "application \<Rightarrow> application" where
  "request_reload app = app\<lparr>app_reload_event := True\<rparr>"

text \<open>
  \<open>run\<close> after its first reload: waiting in the loop, over with a result, or waiting for ever for a
  component to stop, in which it looks at no signal any more.
\<close>

datatype app_status = Looping | Over "unit result" | Stuck

definition after_reload :: "unit result option \<Rightarrow> app_status" where
  "after_reload r = (case r of None \<Rightarrow> Stuck | Some (Inl e) \<Rightarrow> Over (Inl e) | Some (Inr _) \<Rightarrow> Looping)"

definition app_boot :: "reload_world \<Rightarrow> application \<Rightarrow> app_status \<times> application" where
  "app_boot world app = (case reload_runtime True world app of (r, app') \<Rightarrow> (after_reload r, app'))"

text \<open>
  One turn of the loop; \<open>None\<close>: no event it waits for is set. The reload event is waited for only
  while a runtime exists.
\<close>

definition app_turn :: "reload_world \<Rightarrow> application \<Rightarrow> (app_status \<times> application) option" where
  "app_turn world app =
     (if app_stop_event app then
        (case stop_runtime (rw_stops world) app of
           (False, app') \<Rightarrow> Some (Stuck, app')
         | (True, app') \<Rightarrow> Some (Over (Inr ()), cleanup_pid_file (rw_unlink world) app'))
      else if app_runtime app \<noteq> None \<and> app_reload_event app then
        (case reload_runtime False world (app\<lparr>app_reload_event := False\<rparr>) of
           (r, app') \<Rightarrow> Some (after_reload r, app'))
      else None)"

section \<open>Lemmas\<close>

lemma set_dict_set:
  "distinct (map fst d) \<Longrightarrow> set (dict_set k v d) = insert (k, v) {(k', v') \<in> set d. k' \<noteq> k}"
proof (induction k v d rule: dict_set.induct)
  case (2 k v k' v' d)
  then show ?case by (cases "k = k'") (auto simp: image_iff)
qed simp

text \<open>The frontends that are the last with their identifier.\<close>

lemma last_identifiers_Cons:
  "{(frontend_id ((c # cs) ! j), i + j) | j. j < length (c # cs) \<and>
      frontend_id ((c # cs) ! j) \<notin> frontend_id ` set (drop (Suc j) (c # cs))} =
    (if frontend_id c \<in> frontend_id ` set cs then {} else {(frontend_id c, i)}) \<union>
    {(frontend_id (cs ! j), Suc i + j) | j. j < length cs \<and> frontend_id (cs ! j) \<notin> frontend_id ` set (drop (Suc j) cs)}"
  (is "?l = ?r1 \<union> ?r2")
proof (intro set_eqI iffI)
  fix x assume "x \<in> ?l"
  then obtain j where j: "x = (frontend_id ((c # cs) ! j), i + j)" "j < length (c # cs)"
    "frontend_id ((c # cs) ! j) \<notin> frontend_id ` set (drop (Suc j) (c # cs))" by blast
  then show "x \<in> ?r1 \<union> ?r2" by (cases j) auto
next
  fix x assume "x \<in> ?r1 \<union> ?r2"
  then consider "x = (frontend_id c, i)" "frontend_id c \<notin> frontend_id ` set cs"
    | j where "x = (frontend_id (cs ! j), Suc i + j)" "j < length cs"
      "frontend_id (cs ! j) \<notin> frontend_id ` set (drop (Suc j) cs)"
    by (auto split: if_splits)
  then show "x \<in> ?l"
  proof cases
    case 1
    then show ?thesis by (intro CollectI exI [of _ 0]) simp
  next
    case (2 j)
    then show ?thesis by (intro CollectI exI [of _ "Suc j"]) simp
  qed
qed

text \<open>A successful start of all frontends, from position \<open>i\<close>.\<close>

lemma start_frontends_Inr:
  assumes "start_frontends starts gen i cs m live = (Inr m', live')" "distinct (map fst m)"
  shows "live' = live @ map (FrontendOf gen) [i..<i + length cs]"
    and "set m' = {(k, v) \<in> set m. k \<notin> frontend_id ` set cs} \<union>
      {(frontend_id (cs ! j), i + j) | j. j < length cs \<and> frontend_id (cs ! j) \<notin> frontend_id ` set (drop (Suc j) cs)}"
  using assms
proof (induction cs arbitrary: i m live)
  case Nil
  { case 1 then show ?case by simp next case 2 then show ?case by auto }
next
  case (Cons c cs)
  { case 1
    then have rest: "start_frontends starts gen (Suc i) cs (dict_set (frontend_id c) i m) (live @ [FrontendOf gen i]) = (Inr m', live')"
      by (auto split: sum.splits)
    from Cons.IH(1) [OF rest] 1(2) show ?case
      by (simp add: upt_conv_Cons del: upt_Suc)
  next
    case 2
    then have rest: "start_frontends starts gen (Suc i) cs (dict_set (frontend_id c) i m) (live @ [FrontendOf gen i]) = (Inr m', live')"
      by (auto split: sum.splits)
    from Cons.IH(2) [OF rest] 2(2) show ?case
      unfolding last_identifiers_Cons by (auto simp: set_dict_set) }
qed

text \<open>It fails as soon as one frontend cannot be built or started; what was started stays started.\<close>

lemma start_frontends_fails:
  assumes "c \<in> set cs" "isl (build_frontend c) \<or> isl (starts c)"
  shows "\<exists>e live'. start_frontends starts gen i cs m live = (Inl e, live') \<and> set live \<subseteq> set live'"
  using assms
proof (induction cs arbitrary: i m live)
  case (Cons d cs)
  show ?case
  proof (cases "isl (build_frontend d) \<or> isl (starts d)")
    case True
    then show ?thesis by (auto split: sum.splits)
  next
    case False
    then have "c \<in> set cs" using Cons.prems by auto
    from Cons.IH [OF this Cons.prems(2), of "Suc i" "dict_set (frontend_id d) i m" "live @ [FrontendOf gen i]"] False
    show ?thesis by (auto split: sum.splits)
  qed
qed simp

lemma start_frontends_succeeds:
  assumes "\<forall>c \<in> set cs. \<not> isl (build_frontend c) \<and> \<not> isl (starts c)"
  shows "\<exists>m' live'. start_frontends starts gen i cs m live = (Inr m', live')"
  using assms
proof (induction cs arbitrary: i m live)
  case (Cons c cs)
  then obtain f where "build_frontend c = Inr f" "starts c = Inr ()"
    by (cases "build_frontend c"; cases "starts c") auto
  with Cons show ?case by simp
qed simp

text \<open>The runtime of a started configuration and what it started.\<close>

lemma start_runtime_Inr:
  assumes "start_runtime starts config app = (Inr rt, app')"
  shows "rt_config rt = config" "rt_generation rt = app_generation app"
    "app' = app\<lparr>app_live := app_live app @ [DispatcherOf (app_generation app), ResponderOf (app_generation app)] @
       map (FrontendOf (app_generation app)) [0..<length (gc_frontends config)],
       app_generation := app_generation app + 1\<rparr>"
    "set (rt_frontends rt) = {(frontend_id (gc_frontends config ! j), j) | j. j < length (gc_frontends config) \<and>
       frontend_id (gc_frontends config ! j) \<notin> frontend_id ` set (drop (Suc j) (gc_frontends config))}"
proof -
  let ?gen = "app_generation app" and ?cs = "gc_frontends config"
  obtain m live where s: "start_frontends starts ?gen 0 ?cs [] (app_live app @ [DispatcherOf ?gen, ResponderOf ?gen]) = (Inr m, live)"
    using assms by (auto simp: start_runtime_def Let_def split: prod.splits sum.splits)
  note S = start_frontends_Inr [OF s]
  from s assms S show "rt_config rt = config" "rt_generation rt = app_generation app"
    "app' = app\<lparr>app_live := app_live app @ [DispatcherOf ?gen, ResponderOf ?gen] @
       map (FrontendOf ?gen) [0..<length ?cs], app_generation := ?gen + 1\<rparr>"
    "set (rt_frontends rt) = {(frontend_id (?cs ! j), j) | j. j < length ?cs \<and>
       frontend_id (?cs ! j) \<notin> frontend_id ` set (drop (Suc j) ?cs)}"
    by (auto simp: start_runtime_def Let_def)
qed

lemma distinct_ids_last:
  assumes "distinct (map frontend_id cs)" "j < length cs"
  shows "frontend_id (cs ! j) \<notin> frontend_id ` set (drop (Suc j) cs)"
proof
  assume "frontend_id (cs ! j) \<in> frontend_id ` set (drop (Suc j) cs)"
  then obtain c where "c \<in> set (drop (Suc j) cs)" "frontend_id c = frontend_id (cs ! j)" by auto
  then obtain k where k: "k < length (drop (Suc j) cs)" "drop (Suc j) cs ! k = c"
    by (metis in_set_conv_nth)
  then have i: "Suc j + k < length cs" "frontend_id (cs ! (Suc j + k)) = frontend_id (cs ! j)"
    using \<open>frontend_id c = _\<close> by simp_all
  with assms nth_eq_iff_index_eq [OF assms(1), of "Suc j + k" j] show False by simp
qed

text \<open>With distinct identifiers the runtime knows every component it started.\<close>

lemma start_runtime_components:
  assumes "start_runtime starts config app = (Inr rt, app')" "distinct (map frontend_id (gc_frontends config))"
  shows "set (app_live app') = set (app_live app) \<union> runtime_components rt"
proof -
  note S = start_runtime_Inr [OF assms(1)]
  have "snd ` set (rt_frontends rt) = {0..<length (gc_frontends config)}"
    unfolding S(4) using distinct_ids_last [OF assms(2)] by (force simp: image_iff)
  then show ?thesis by (auto simp: S(2,3) runtime_components_def)
qed

section \<open>The life of the process\<close>

text \<open>Signals come at any time while the loop runs; every reload meets a world that satisfies \<open>ok\<close>.\<close>

inductive app_reachable :: "(reload_world \<Rightarrow> bool) \<Rightarrow> nat \<Rightarrow> app_status \<Rightarrow> application \<Rightarrow> bool" for ok pid where
  app_booted: "ok world \<Longrightarrow> app_boot world (application_init pid) = (s, app) \<Longrightarrow> app_reachable ok pid s app"
| app_term: "app_reachable ok pid Looping app \<Longrightarrow> app_reachable ok pid Looping (request_shutdown app)"
| app_hup: "app_reachable ok pid Looping app \<Longrightarrow> app_reachable ok pid Looping (request_reload app)"
| app_turned: "app_reachable ok pid Looping app \<Longrightarrow> ok world \<Longrightarrow> app_turn world app = Some (s, app') \<Longrightarrow>
     app_reachable ok pid s app'"

text \<open>
  A world without accidents: a configuration that loads has distinct frontend identifiers, its
  frontends can be built and started, and it keeps its pid file at \<open>path\<close>; every \<open>stop\<close> returns without
  an exception, and the pid file can be removed and is not cut short.
\<close>

definition calm_world :: "string \<Rightarrow> reload_world \<Rightarrow> bool" where
  "calm_world path world \<longleftrightarrow> (\<forall>config. rw_load world = Inr config \<longrightarrow>
     distinct (map frontend_id (gc_frontends config)) \<and>
     (\<forall>c \<in> set (gc_frontends config). \<not> isl (build_frontend c) \<and> \<not> isl (rw_starts world c)) \<and>
     svc_pid_file (gc_service config) = path) \<and>
     (\<forall>c. rw_stops world c = Stops) \<and> rw_unlink world = Inr () \<and> (\<forall>e text. rw_pid world \<noteq> PidCut e text)"

definition tidy :: "string \<Rightarrow> nat \<Rightarrow> application \<Rightarrow> bool" where
  "tidy path pid app \<longleftrightarrow> app_pid app = pid \<and>
     set (app_live app) = (case app_runtime app of None \<Rightarrow> {} | Some rt \<Rightarrow> runtime_components rt) \<and>
     app_files app = (case app_pid_file app of None \<Rightarrow> Map.empty | Some p \<Rightarrow> [p \<mapsto> nat_str pid]) \<and>
     (\<forall>p. app_pid_file app = Some p \<longrightarrow> p = path)"

lemma stop_components_all:
  "\<forall>c \<in> set cs. stops c = Stops \<Longrightarrow> stop_components stops cs live = (True, filter (\<lambda>d. d \<notin> set cs) live)"
proof (induction cs arbitrary: live)
  case (Cons c cs)
  then show ?case by (simp add: conj_commute)
qed simp

lemma stop_components_returns:
  "fst (stop_components stops cs live) \<longleftrightarrow> (\<forall>c \<in> set cs. stops c \<noteq> StopHangs)"
  by (induction cs arbitrary: live) (auto split: stop_outcome.splits)

lemma stop_order_components: "runtime_components rt \<subseteq> set (stop_order rt)"
  by (force simp: runtime_components_def stop_order_def)

text \<open>What \<open>stop_runtime\<close> does to the application, whatever the components do.\<close>

lemma stop_runtime_keeps:
  assumes "stop_runtime stops app = (returned, app')"
  shows "app_runtime app' = None" "app_pid app' = app_pid app" "app_files app' = app_files app"
    "app_pid_file app' = app_pid_file app" "app_generation app' = app_generation app"
    "app_stop_event app' = app_stop_event app" "app_reload_event app' = app_reload_event app"
  using assms by (auto simp: stop_runtime_def split: option.splits prod.splits)

definition stop_hangs :: "(component \<Rightarrow> stop_outcome) \<Rightarrow> application \<Rightarrow> bool" where
  "stop_hangs stops app \<longleftrightarrow>
     (\<exists>rt. app_runtime app = Some rt \<and> (\<exists>c \<in> set (stop_order rt). stops c = StopHangs))"

lemma stop_runtime_returns: "fst (stop_runtime stops app) \<longleftrightarrow> \<not> stop_hangs stops app"
proof (cases "app_runtime app")
  case (Some rt)
  then have "fst (stop_runtime stops app) = fst (stop_components stops (stop_order rt) (app_live app))"
    by (simp add: stop_runtime_def split: prod.splits)
  with Some show ?thesis by (simp add: stop_components_returns stop_hangs_def)
qed (simp add: stop_runtime_def stop_hangs_def)

lemma tidy_stop:
  assumes "tidy path pid app" "\<forall>c. stops c = Stops"
  obtains app' where "stop_runtime stops app = (True, app')" "tidy path pid app'" "app_runtime app' = None"
proof (cases "app_runtime app")
  case None
  with assms(1) show thesis by (intro that [of app]) (simp_all add: stop_runtime_def)
next
  case (Some rt)
  have all: "stop_components stops (stop_order rt) (app_live app) =
      (True, filter (\<lambda>d. d \<notin> set (stop_order rt)) (app_live app))"
    by (rule stop_components_all) (simp add: assms(2))
  have "filter (\<lambda>d. d \<notin> set (stop_order rt)) (app_live app) = []"
    using assms(1) Some stop_order_components [of rt] by (auto simp: tidy_def filter_empty_conv)
  with assms(1) Some show thesis
    by (intro that [of "app\<lparr>app_runtime := None, app_live := []\<rparr>"])
      (simp_all add: stop_runtime_def tidy_def all)
qed

lemma tidy_reload:
  assumes "tidy path pid app" "calm_world path world" "reload_runtime initial world app = (r, app')"
  shows "tidy path pid app' \<and> r \<noteq> None"
proof (cases "rw_load world")
  case (Inl e)
  with assms(1,3) show ?thesis by (auto simp: reload_runtime_def)
next
  case (Inr config)
  note load = this
  show ?thesis
  proof (cases "rw_mkdir world")
    case (Inl e)
    with assms(1,3) load show ?thesis by (auto simp: reload_runtime_def)
  next
    case (Inr u)
    have calm: "distinct (map frontend_id (gc_frontends config))" "svc_pid_file (gc_service config) = path"
      "\<forall>c \<in> set (gc_frontends config). \<not> isl (build_frontend c) \<and> \<not> isl (rw_starts world c)"
      "\<forall>c. rw_stops world c = Stops" "\<And>e text. rw_pid world \<noteq> PidCut e text"
      using assms(2) load by (auto simp: calm_world_def)
    obtain app0 where app0: "stop_runtime (rw_stops world) app = (True, app0)" "tidy path pid app0" "app_runtime app0 = None"
      by (rule tidy_stop [OF assms(1) calm(4)])
    obtain m live where "start_frontends (rw_starts world) (app_generation app0) 0 (gc_frontends config) []
        (app_live app0 @ [DispatcherOf (app_generation app0), ResponderOf (app_generation app0)]) = (Inr m, live)"
      using start_frontends_succeeds [OF calm(3)] by blast
    then obtain rt app1 where s: "start_runtime (rw_starts world) config app0 = (Inr rt, app1)"
      by (simp add: start_runtime_def Let_def)
    note S = start_runtime_Inr [OF s] and C = start_runtime_components [OF s calm(1)]
    from app0 C have t1: "tidy path pid (app1\<lparr>app_runtime := Some rt\<rparr>)"
      unfolding tidy_def by (auto simp: S(3))
    let ?app = "app1\<lparr>app_runtime := Some rt\<rparr>"
    let ?written = "?app\<lparr>app_files := (app_files app1)(path \<mapsto> nat_str (app_pid app1)), app_pid_file := Some path\<rparr>"
    have result: "r \<noteq> None \<and> (app' = ?app \<or> app' = ?written \<or> (\<exists>level. app' = ?written\<lparr>app_log_level := level\<rparr>))"
    proof (cases "rw_pid world")
      case PidWritten
      with assms(3) load Inr s app0(1) calm(2) show ?thesis
        by (auto simp: reload_runtime_def write_pid_file_def configure_logging_def Let_def split: sum.splits)
    next
      case (PidNotOpened e)
      with assms(3) load Inr s app0(1) calm(2) show ?thesis
        by (auto simp: reload_runtime_def write_pid_file_def Let_def)
    qed (use calm(5) in simp)
    have "app_pid app1 = pid" "app_files app1 = (case app_pid_file app1 of None \<Rightarrow> Map.empty | Some p \<Rightarrow> [p \<mapsto> nat_str pid])"
      "\<And>p. app_pid_file app1 = Some p \<Longrightarrow> p = path"
      using t1 by (simp_all add: tidy_def)
    then have "(app_files app1)(path \<mapsto> nat_str (app_pid app1)) = [path \<mapsto> nat_str pid]"
      by (auto split: option.splits)
    then have "tidy path pid ?written" using t1 by (simp add: tidy_def)
    with t1 result show ?thesis by (auto simp: tidy_def)
  qed
qed

lemma tidy_reachable: "app_reachable (calm_world path) pid s app \<Longrightarrow> tidy path pid app \<and> s \<noteq> Stuck"
proof (induction rule: app_reachable.induct)
  case (app_booted world s app)
  have "tidy path pid (application_init pid)" by (simp add: tidy_def application_init_def)
  with app_booted tidy_reload [of path pid "application_init pid" world True] show ?case
    by (auto simp: app_boot_def after_reload_def split: prod.splits option.splits sum.splits)
next
  case (app_turned app world s app')
  then have calm: "\<forall>c. rw_stops world c = Stops" "rw_unlink world = Inr ()" by (auto simp: calm_world_def)
  show ?case
  proof (cases "app_stop_event app")
    case True
    from app_turned.IH have "tidy path pid app" by blast
    then obtain app0 where "stop_runtime (rw_stops world) app = (True, app0)" "tidy path pid app0"
      by (rule tidy_stop [OF _ calm(1)])
    moreover from this have "s = Over (Inr ())" "app' = cleanup_pid_file (Inr ()) app0"
      using True app_turned.hyps calm(2) by (auto simp: app_turn_def)
    ultimately show ?thesis
      by (auto simp: tidy_def cleanup_pid_file_def Let_def split: option.splits)
  next
    case False
    have "tidy path pid (app\<lparr>app_reload_event := False\<rparr>)" using app_turned.IH by (simp add: tidy_def)
    with False app_turned.hyps tidy_reload [of path pid "app\<lparr>app_reload_event := False\<rparr>" world False]
    show ?thesis by (auto simp: app_turn_def after_reload_def split: if_splits prod.splits option.splits sum.splits)
  qed
qed (simp_all add: tidy_def request_shutdown_def request_reload_def)

lemma over_means_stopped:
  "app_reachable ok pid s app \<Longrightarrow> s = Over (Inr ()) \<Longrightarrow> app_runtime app = None \<and> app_pid_file app = None"
proof (induction rule: app_reachable.induct)
  case (app_turned app world s app')
  then obtain app0 where "stop_runtime (rw_stops world) app = (True, app0)" "app' = cleanup_pid_file (rw_unlink world) app0"
    by (auto simp: app_turn_def after_reload_def split: if_splits prod.splits bool.splits option.splits sum.splits)
  then show ?case using stop_runtime_keeps(1) [of "rw_stops world" app True app0]
    by (auto simp: cleanup_pid_file_def Let_def split: option.splits sum.splits)
qed (auto simp: app_boot_def after_reload_def split: prod.splits option.splits sum.splits)

section \<open>Properties\<close>


text \<open>Accidents at the end: a pid file that cannot be removed stays, with the identifier of a process that is
  gone; and a \<open>stop\<close> that does not return keeps the process, which heeds no signal, the components
  after it unstopped and the pid file in place.\<close>

lemma pid_file_left_behind:
  assumes "app_stop_event app" and "stop_runtime (rw_stops world) app = (True, app0)" and "rw_unlink world = Inl e"
  shows "\<exists>app'. app_turn world app = Some (Over (Inr ()), app') \<and> app_files app' = app_files app"
  using assms stop_runtime_keeps(3) [OF assms(2)]
  by (auto simp: app_turn_def cleanup_pid_file_def Let_def split: option.splits)

lemma stop_that_hangs:
  assumes "app_stop_event app" and "app_runtime app = Some rt" and "stop_order rt = before @ c # after"
    and "rw_stops world c = StopHangs" and "\<forall>d \<in> set before. rw_stops world d = Stops"
  shows "\<exists>app'. app_turn world app = Some (Stuck, app') \<and> app_files app' = app_files app \<and>
    set (app_live app') = set (app_live app) - set before"
proof -
  have "stop_components (rw_stops world) (before @ c # after) live = (False, filter (\<lambda>d. d \<notin> set before) live)" for live
    using assms(5)
  proof (induction before arbitrary: live)
    case Nil
    then show ?case using assms(4) by simp
  next
    case (Cons d ds)
    then show ?case by (simp add: conj_commute)
  qed
  with assms(1-3) show ?thesis by (auto simp: app_turn_def stop_runtime_def)
qed

definition quiet_world :: reload_world where
  "quiet_world = \<lparr>rw_load = Inr (sample_config []), rw_mkdir = Inr (), rw_starts = (\<lambda>_. Inr ()), rw_pid = PidWritten,
     rw_stops = (\<lambda>_. Stops), rw_unlink = Inr ()\<rparr>"

lemma quiet_world_calm: "calm_world ''/var/run/modbusgw.pid'' quiet_world"
  by (simp add: calm_world_def quiet_world_def sample_config_def)

definition booted :: application where
  "booted = snd (app_boot quiet_world (application_init 42))"

lemma upper_info: "map upper_char ''INFO'' = ''INFO''"
  by (simp add: upper_char_def)

lemma quiet_boot:
  "app_boot quiet_world (application_init 42) = (Looping, booted)" "app_runtime booted \<noteq> None"
  "\<not> app_stop_event booted" "app_generation booted = 1" "app_files booted = [''/var/run/modbusgw.pid'' \<mapsto> nat_str 42]"
  unfolding booted_def
  by (simp_all add: app_boot_def after_reload_def reload_runtime_def quiet_world_def start_runtime_def Let_def
      application_init_def stop_runtime_def write_pid_file_def configure_logging_def sample_config_def
      upper_char_def logging_level_def)


text \<open>C26. A reload that cannot start its configuration puts the gateway out of service for good: the old
  runtime is already stopped, the process stays, no later reload request has any effect, and the
  dispatcher and responder of the failed attempt are still alive when the process is terminated.
  (Where the old runtime cannot even be stopped because a component's \<open>stop\<close> never returns, the process
  waits for it for ever.) A configuration that cannot even be loaded, in contrast, changes nothing.\<close>

theorem failed_reload_is_final:
  assumes "app_runtime app \<noteq> None" and "app_reload_event app" and "\<not> app_stop_event app"
  shows "(rw_load world = Inl e \<longrightarrow> app_turn world app = Some (Looping, app\<lparr>app_reload_event := False\<rparr>)) \<and>
    (rw_load world = Inr config \<and> rw_mkdir world = Inr () \<and>
       (\<exists>c \<in> set (gc_frontends config). isl (build_frontend c) \<or> isl (rw_starts world c)) \<longrightarrow>
     (\<exists>s app'. app_turn world app = Some (s, app') \<and>
       s = (if stop_hangs (rw_stops world) app then Stuck else Looping) \<and>
       app_runtime app' = None \<and>
       (\<forall>w. app_turn w (request_reload app') = None) \<and>
       (s = Looping \<longrightarrow> (\<forall>w. \<exists>app''. app_turn w (request_shutdown app') = Some (Over (Inr ()), app'') \<and>
          {DispatcherOf (app_generation app), ResponderOf (app_generation app)} \<subseteq> set (app_live app'')))))"
proof (intro conjI impI)
  assume "rw_load world = Inl e"
  then show "app_turn world app = Some (Looping, app\<lparr>app_reload_event := False\<rparr>)"
    using assms by (simp add: app_turn_def reload_runtime_def after_reload_def)
next
  let ?hangs = "stop_hangs (rw_stops world) app"
  obtain returned app0 where stop: "stop_runtime (rw_stops world) (app\<lparr>app_reload_event := False\<rparr>) = (returned, app0)"
    by fastforce
  note kept = stop_runtime_keeps [OF stop]
  have returned: "returned \<longleftrightarrow> \<not> ?hangs"
    using stop_runtime_returns [of "rw_stops world" "app\<lparr>app_reload_event := False\<rparr>"] stop
    by (auto simp: stop_hangs_def)
  have dead: "app_turn v (request_reload app') = None" if "app_runtime app' = None" "\<not> app_stop_event app'" for v app'
    using that by (simp add: app_turn_def request_reload_def)
  assume w: "rw_load world = Inr config \<and> rw_mkdir world = Inr () \<and>
       (\<exists>c \<in> set (gc_frontends config). isl (build_frontend c) \<or> isl (rw_starts world c))"
  then obtain c where "c \<in> set (gc_frontends config)" "isl (build_frontend c) \<or> isl (rw_starts world c)" by blast
  from start_frontends_fails [where starts = "rw_starts world", OF this, of "app_generation app" 0 "[]"
      "app_live app0 @ [DispatcherOf (app_generation app), ResponderOf (app_generation app)]"]
  obtain e' live where s: "start_frontends (rw_starts world) (app_generation app) 0 (gc_frontends config) []
      (app_live app0 @ [DispatcherOf (app_generation app), ResponderOf (app_generation app)]) = (Inl e', live)"
    "{DispatcherOf (app_generation app), ResponderOf (app_generation app)} \<subseteq> set live"
    by auto
  let ?app' = "app0\<lparr>app_live := live, app_generation := app_generation app + 1\<rparr>"
  show "\<exists>s app'. app_turn world app = Some (s, app') \<and> s = (if ?hangs then Stuck else Looping) \<and>
       app_runtime app' = None \<and> (\<forall>w. app_turn w (request_reload app') = None) \<and>
       (s = Looping \<longrightarrow> (\<forall>w. \<exists>app''. app_turn w (request_shutdown app') = Some (Over (Inr ()), app'') \<and>
          {DispatcherOf (app_generation app), ResponderOf (app_generation app)} \<subseteq> set (app_live app'')))"
  proof (cases returned)
    case False
    with assms w stop have "app_turn world app = Some (Stuck, app0)"
      by (simp add: app_turn_def reload_runtime_def after_reload_def)
    moreover have "\<not> app_stop_event app0" using kept(6) assms(3) by simp
    ultimately show ?thesis using False returned kept(1) dead [of app0]
      by (intro exI [of _ Stuck] exI [of _ app0]) auto
  next
    case True
    with assms w stop s(1) kept(5) have turn: "app_turn world app = Some (Looping, ?app')"
      by (simp add: app_turn_def reload_runtime_def start_runtime_def Let_def after_reload_def)
    have "\<exists>app''. app_turn v (request_shutdown ?app') = Some (Over (Inr ()), app'') \<and>
        {DispatcherOf (app_generation app), ResponderOf (app_generation app)} \<subseteq> set (app_live app'')" for v
      using kept(1) s(2)
      by (simp add: app_turn_def request_shutdown_def stop_runtime_def cleanup_pid_file_def Let_def
          split: option.split sum.split)
    moreover have "\<not> app_stop_event ?app'" "app_runtime ?app' = None" using kept(1,6) assms(3) by simp_all
    ultimately show ?thesis using True turn returned dead [of ?app']
      by (intro exI [of _ Looping] exI [of _ ?app']) auto
  qed
qed

text \<open>The port of the new frontend is taken.\<close>

definition busy_world :: reload_world where
  "busy_world = quiet_world\<lparr>rw_load := Inr ((sample_config [])\<lparr>gc_frontends := [UnixModbusTcpConfig local_config]\<rparr>),
     rw_starts := (\<lambda>_. Inl (OSError ''address in use''))\<rparr>"

theorem failed_reload_is_final_witness:
  "\<exists>app'. app_turn busy_world (request_reload booted) = Some (Looping, app') \<and> app_runtime app' = None \<and>
     (\<forall>w. app_turn w (request_reload app') = None)"
proof -
  have a: "app_runtime (request_reload booted) \<noteq> None" "app_reload_event (request_reload booted)"
    "\<not> app_stop_event (request_reload booted)"
    using quiet_boot by (simp_all add: request_reload_def)
  have w: "rw_load busy_world = Inr ((sample_config [])\<lparr>gc_frontends := [UnixModbusTcpConfig local_config]\<rparr>) \<and>
      rw_mkdir busy_world = Inr () \<and>
      (\<exists>c \<in> set (gc_frontends ((sample_config [])\<lparr>gc_frontends := [UnixModbusTcpConfig local_config]\<rparr>)).
        isl (build_frontend c) \<or> isl (rw_starts busy_world c))"
    by (simp add: busy_world_def quiet_world_def)
  from conjunct2 [OF failed_reload_is_final [OF a], THEN mp, OF w] obtain s app' where
    "app_turn busy_world (request_reload booted) = Some (s, app')" "app_runtime app' = None"
    "\<forall>w. app_turn w (request_reload app') = None"
    "s = (if stop_hangs (rw_stops busy_world) (request_reload booted) then Stuck else Looping)"
    by blast
  moreover have "\<not> stop_hangs (rw_stops busy_world) app" for app
    by (simp add: stop_hangs_def busy_world_def quiet_world_def)
  ultimately show ?thesis by auto
qed

text \<open>Two frontends with one identifier are both started but only the later one is known: stopping
  the runtime leaves the earlier one alive.\<close>

theorem duplicate_frontend_is_never_stopped:
  assumes "start_runtime starts config app = (Inr rt, app')"
    and "i < j" and "j < length (gc_frontends config)"
    and "frontend_id (gc_frontends config ! i) = frontend_id (gc_frontends config ! j)"
  shows "FrontendOf (app_generation app) i \<in> set (app_live (snd (stop_runtime stops (app'\<lparr>app_runtime := Some rt\<rparr>))))"
proof -
  note S = start_runtime_Inr [OF assms(1)]
  have "gc_frontends config ! j \<in> set (drop (Suc i) (gc_frontends config))"
    using assms(2,3) by (auto simp: in_set_conv_nth intro: exI [of _ "j - Suc i"])
  then have "i \<notin> snd ` set (rt_frontends rt)" unfolding S(4) using assms(4) by (auto simp: image_iff)
  then have unknown: "FrontendOf (app_generation app) i \<notin> set (stop_order rt)"
    by (force simp: stop_order_def S(2))
  have "d \<in> set (snd (stop_components stops cs live))" if "d \<in> set live" "d \<notin> set cs" for d cs live
    using that by (induction cs arbitrary: live) (auto split: stop_outcome.splits)
  from this [OF _ unknown, of "app_live app'"] assms(2,3)
  show ?thesis
    by (cases "stop_components stops (stop_order rt) (app_live app')") (simp add: stop_runtime_def S(3))
qed

theorem duplicate_frontend_is_never_stopped_witness:
  "\<exists>rt app'. start_runtime (\<lambda>_. Inr ()) ((sample_config [])\<lparr>gc_frontends :=
       [UnixModbusTcpConfig local_config, SerialRtuSocketConfig (pty_config\<lparr>srs_id := ''ux''\<rparr>)]\<rparr>) (application_init 42) = (Inr rt, app') \<and>
     FrontendOf 0 0 \<in> set (app_live (snd (stop_runtime (\<lambda>_. Stops) (app'\<lparr>app_runtime := Some rt\<rparr>))))"
proof -
  let ?config = "(sample_config [])\<lparr>gc_frontends :=
       [UnixModbusTcpConfig local_config, SerialRtuSocketConfig (pty_config\<lparr>srs_id := ''ux''\<rparr>)]\<rparr>"
  have gen: "app_generation (application_init 42) = 0" by (simp add: application_init_def)
  obtain rt app' where s: "start_runtime (\<lambda>_. Inr ()) ?config (application_init 42) = (Inr rt, app')"
    by (simp add: start_runtime_def Let_def)
  have same: "frontend_id (gc_frontends ?config ! 0) = frontend_id (gc_frontends ?config ! 1)"
    by (simp add: local_config_def)
  from duplicate_frontend_is_never_stopped [OF s, of 0 1] same s gen show ?thesis by auto
qed

end
