(* ===== verification/Gateway_Path.thy ===== *)
theory Gateway_Path
  imports Application
begin

text \<open>
  The way of a request through the gateway: from the connection of a Modbus/TCP client over the
  bus, the dispatcher, the router and the serial backend to a device, and back over the responder.
\<close>

lemma routed_to_with_unit:
  assumes "plan_unit_id plan = PyInt unit"
  shows "rr_pdu (routed_to plan r) = with_unit (rr_pdu r) unit"
  using assms by (simp add: routed_to_def routed_with_unit_def with_unit_def)

lemma has_room_empty: "contents b k = [] \<Longrightarrow> has_room b k"
  by (simp add: has_room_def queue_full_def)

text \<open>The dispatcher's work for a route to a serial backend whose device answers.\<close>

lemma serial_route_handled:
  assumes "request_from_adu adu None = Inr request" and "rr_pdu routed = request"
    and "request_register (body request) = PyInt a"
    and "find (\<lambda>rule. rule_admits rule routed) rules = Some rule" and "rule_backend rule = sbc_id config"
    and "unit = (case rule_unit_override rule of Some u \<Rightarrow> u | None \<Rightarrow> unit_id request)"
    and "0 \<le> unit" "unit < 256"
    and "dict_get backends (sbc_id config) = Some (serial_submit (line_ops dev config) config)"
    and "dev_open dev (line_device l) = (Inr [], d1)"
    and "\<And>frame q. request_from_adu frame None = Inr q \<Longrightarrow> body q = body request \<Longrightarrow> unit_id q = unit \<Longrightarrow>
      dev_react dev (frame @ le16 (crc16_modbus frame)) d1 =
        (Inr (), map Arrive (reply @ le16 (crc16_modbus reply)) @ late, duration, d2)"
    and "response_from_adu reply None = Inr response" and "length reply \<le> 254"
    and "\<And>n. 4 \<le> n \<Longrightarrow> n < length reply + 2 \<Longrightarrow>
      \<not> has_valid_crc (take n (reply @ le16 (crc16_modbus reply)))"
    and "0 < max_attempts (sbc_retry config)"
  obtains message w' sent q where "handle_request rules backends routed (None, l) = Some (Inr message, w')"
    "rsc_frontend (rs_context message) = rc_frontend (rr_context routed)"
    "rsc_request_id (rs_context message) = rc_request_id (rr_context routed)"
    "rs_response message = Some response \<or> rs_response message = None \<and> rs_exception message = Some response"
    "line_sent (snd w') = line_sent l @ [(line_now l, sent @ le16 (crc16_modbus sent))]"
    "request_from_adu sent None = Inr q" "body q = body request" "unit_id q = unit"
proof -
  let ?plan = "make_plan rule (routed_value routed)"
  have register: "request_register (body (rr_pdu routed)) = PyInt a" using assms(2,3) by simp
  have res: "resolve rules (routed_value routed) = Inr (Some ?plan)"
    using resolve_find [of rules "routed_value routed" "\<lambda>rule. rule_admits rule routed"]
      rule_matches_typed [OF register] assms(4) by simp
  have "plan_unit_id ?plan = PyInt unit"
    using assms(2,6) by (simp only: make_plan_routed)
  then have pdu: "rr_pdu (routed_to ?plan routed) = with_unit request unit"
    using assms(2) by (simp add: routed_to_with_unit)
  have "from_adu request_from_payload adu None = Inr request"
    using assms(1) by (simp add: request_from_adu_def)
  then obtain sent p where f: "to_adu encode_request request_function_code (with_unit request unit) = (Inr sent, p)"
    "from_adu request_from_payload sent None = Inr p" "body p = body request" "unit_id p = unit"
    using req.forward_total [OF _ assms(7,8)] by blast
  then have enc: "request_to_adu (rr_pdu (routed_to ?plan routed)) = (Inr sent, p)"
    and sent: "request_from_adu sent None = Inr p"
    by (simp_all add: pdu request_to_adu_def request_from_adu_def)
  obtain session' l' where s: "serial_submit (line_ops dev config) config (routed_to ?plan routed) (None, l) =
      Some (Inr (serial_response (sbc_id config) ((routed_to ?plan routed)\<lparr>rr_pdu := p\<rparr>)
         (if is_exception (body response) then (None, Some response) else (Some response, None))),
       (routed_to ?plan routed)\<lparr>rr_pdu := p\<rparr>, Some session', l')"
    "line_sent l' = line_sent l @ [(line_now l, sent @ le16 (crc16_modbus sent))]"
    by (rule answered_submit [OF enc assms(10) assms(11) [OF sent f(3,4)] assms(12-15)]) (assumption | blast)+
  have "plan_backend ?plan = sbc_id config" by (simp add: make_plan_def assms(5))
  then have "handle_request rules backends routed (None, l) =
      Some (Inr (serial_response (sbc_id config) ((routed_to ?plan routed)\<lparr>rr_pdu := p\<rparr>)
         (if is_exception (body response) then (None, Some response) else (Some response, None))), (Some session', l'))"
    by (simp add: handle_request_def res assms(9) s(1))
  then show thesis
    by (rule that [OF _ _ _ _ _ sent f(3,4)]) (simp_all add: serial_response_def s(2))
qed

lemma responder_two_steps:
  assumes "contents b ''responses'' = ResponseMsg message # rest"
    and "dict_get frontends (rsc_frontend (rs_context message)) = Some f"
  obtains b' frontends' where "responder_steps 2 handle RWaiting b frontends = Some (RWaiting, b', frontends')"
    "contents b' = (contents b)(''responses'' := rest)"
    "dict_get frontends' = (dict_get frontends)(rsc_frontend (rs_context message) \<mapsto> snd (handle f message))"
proof -
  let ?name = "rsc_frontend (rs_context message)"
  obtain b' where t: "responder_step handle RWaiting b frontends = Some (RDelivering ?name message, b', frontends)"
    "contents b' = (contents b)(''responses'' := rest)"
    using responder_step_take [OF assms(1), of handle frontends] assms(2) by auto
  obtain frontends' where d: "responder_step handle (RDelivering ?name message) b' frontends = Some (RWaiting, b', frontends')"
    "dict_get frontends' = (dict_get frontends)(?name \<mapsto> snd (handle f message))"
    using responder_step_deliver [of handle ?name message b' frontends] assms(2) by auto
  have "responder_steps 2 handle RWaiting b frontends = Some (RWaiting, b', frontends')"
    by (simp add: numeral_2_eq_2 t(1) d(1))
  then show thesis by (rule that [OF _ t(2) d(2)])
qed

section \<open>Properties\<close>

text \<open>The one request that waits is answered: the dispatcher takes it and publishes the answer, which the
  responder hands to the frontend.\<close>

lemma answer_is_carried:
  assumes "contents b ''requests'' = [RequestMsg request]" and "contents b ''responses'' = []"
    and "handle_request rules backends request w = Some (Inr message, w')"
    and "rsc_frontend (rs_context message) = name" and "\<And>t k m. run_tracer t k m = None"
  obtains b2 b3 frontends' where
    "dispatcher_steps 3 run_tracer rules backends DWaiting b w = Some (DWaiting, b2, w')"
    "responder_steps 2 server_handle_response RWaiting b2 (dict_set name fe frontends) = Some (RWaiting, b3, frontends')"
    "dict_get frontends' name = Some (snd (server_handle_response fe message))"
    "contents b3 ''requests'' = []" "contents b3 ''responses'' = []"
proof -
  obtain b2 where one: "dispatcher_steps 3 run_tracer rules backends DWaiting b w = Some (DWaiting, b2, w')"
    "contents b2 = (contents b)(''requests'' := [], ''responses'' := contents b ''responses'' @ [ResponseMsg message])"
    by (rule dispatcher_three_steps [where run_tracer = run_tracer, OF assms(1,3) has_room_empty [OF assms(2)] assms(5)])
  have b2: "contents b2 ''responses'' = ResponseMsg message # []" using one(2) assms(2) by simp
  have fe: "dict_get (dict_set name fe frontends) (rsc_frontend (rs_context message)) = Some fe"
    by (simp add: assms(4))
  obtain b3 frontends' where "responder_steps 2 server_handle_response RWaiting b2 (dict_set name fe frontends) =
      Some (RWaiting, b3, frontends')" "contents b3 = (contents b2)(''responses'' := [])"
    "dict_get frontends' = (dict_get (dict_set name fe frontends))
      (rsc_frontend (rs_context message) \<mapsto> snd (server_handle_response fe message))"
    by (rule responder_two_steps [OF b2 fe])
  with one show thesis by (intro that [of b2 b3 frontends']) (simp_all add: assms(4))
qed

text \<open>The frontend writes the answer of a device as a frame under the transaction of the request.\<close>

lemma answer_is_written:
  assumes "server_ok tag fe"
    and "dict_get (ms_pending fe) rid = Some (pending_frame client conn tid request)"
    and "rsc_request_id (rs_context message) = Some rid"
    and "response_from_adu reply None = Inr response" and "length reply \<le> 254"
    and "rs_response message = Some response \<or> rs_response message = None \<and> rs_exception message = Some response"
    and "0 \<le> tid" "tid < 65536"
  obtains out p where "ms_written (snd (server_handle_response fe message)) =
      ms_written fe @ [(conn, be16 tid @ [0, 0] @ be16 (int (length out)) @ out)]"
    "2 \<le> length out" "length out < 65536"
    "response_from_adu out None = Inr p" "body p = body response" "unit_id p = unit_id response"
proof -
  have short: "length reply < 65536" using assms(5) by simp
  obtain out p where r: "server_handle_response fe message = (Inr (), fe\<lparr>ms_pending := dict_pop rid (ms_pending fe),
       ms_written := ms_written fe @ [(pr_writer (pending_frame client conn tid request),
         be16 (pr_transaction_id (pending_frame client conn tid request)) @ [0, 0] @
         be16 (int (length out)) @ out)]\<rparr>)"
    "2 \<le> length out" "length out < 65536" "response_from_adu out None = Inr p" "body p = body response"
    "unit_id p = unit_id response"
    by (rule response_delivered [OF assms(1-4) short assms(6)])
  with r show thesis by (intro that [of out p]) (simp_all add: pending_frame_def)
qed

text \<open>One round of the gateway: from the frame of a client to the frame with the answer.\<close>

lemma request_round:
  assumes "server_reachable run_tracer tag fe b"
    and "dict_get (ms_conns fe) conn = Some c" and "cc_task c = AwaitHeader"
    and "cc_incoming c = map Arrive (be16 tid @ [0, 0] @ be16 (int (length adu)) @ adu) @ rest"
    and "0 \<le> tid" "tid < 65536" "length adu < 65536"
    and "request_from_adu adu None = Inr request" and "request_register (body request) = PyInt a"
    and "contents b ''requests'' = []" and "contents b ''responses'' = []"
    and "\<And>t k m. run_tracer t k m = None"
    and "find (\<lambda>rule. rule_admits rule (routed_frame metadata (ms_name fe) (cc_client_id c) tid request)) rules =
      Some rule" and "rule_backend rule = sbc_id config"
    and "unit = (case rule_unit_override rule of Some u \<Rightarrow> u | None \<Rightarrow> unit_id request)"
    and "0 \<le> unit" "unit < 256"
    and "dict_get backends (sbc_id config) = Some (serial_submit (line_ops dev config) config)"
    and "dev_open dev (line_device l) = (Inr [], d1)"
    and "\<And>frame q. request_from_adu frame None = Inr q \<Longrightarrow> body q = body request \<Longrightarrow> unit_id q = unit \<Longrightarrow>
      dev_react dev (frame @ le16 (crc16_modbus frame)) d1 =
        (Inr (), map Arrive (reply @ le16 (crc16_modbus reply)) @ late, duration, d2)"
    and "response_from_adu reply None = Inr response" and "length reply \<le> 254"
    and "\<And>n. 4 \<le> n \<Longrightarrow> n < length reply + 2 \<Longrightarrow>
      \<not> has_valid_crc (take n (reply @ le16 (crc16_modbus reply)))"
    and "0 < max_attempts (sbc_retry config)"
  obtains fe1 b1 b2 w' b3 frontends' fe2 out p sent q where
    "client_steps 3 run_tracer metadata conn fe b = Some (fe1, b1)"
    "dispatcher_steps 3 run_tracer rules backends DWaiting b1 (None, l) = Some (DWaiting, b2, w')"
    "responder_steps 2 server_handle_response RWaiting b2 (dict_set (ms_name fe) fe1 frontends) = Some (RWaiting, b3, frontends')"
    "dict_get frontends' (ms_name fe) = Some fe2"
    "ms_written fe2 = ms_written fe @ [(conn, be16 tid @ [0, 0] @ be16 (int (length out)) @ out)]"
    "2 \<le> length out" "length out < 65536"
    "response_from_adu out None = Inr p" "body p = body response" "unit_id p = unit_id response"
    "line_sent (snd w') = line_sent l @ [(line_now l, sent @ le16 (crc16_modbus sent))]"
    "request_from_adu sent None = Inr q" "body q = body request" "unit_id q = unit"
    "contents b3 ''requests'' = []" "contents b3 ''responses'' = []"
proof -
  let ?routed = "routed_frame metadata (ms_name fe) (cc_client_id c) tid request"
  let ?rid = "make_request_id (cc_client_id c) tid"
  have routed: "rr_pdu ?routed = request" "rc_frontend (rr_context ?routed) = ms_name fe"
    "rc_request_id (rr_context ?routed) = Some ?rid"
    by (simp_all add: routed_frame_def)
  obtain fe1 b1 where one: "client_steps 3 run_tracer metadata conn fe b = Some (fe1, b1)"
    "contents b1 = (contents b)(''requests'' := contents b ''requests'' @ [RequestMsg ?routed])"
    "dict_get (ms_pending fe1) = (dict_get (ms_pending fe))(?rid \<mapsto> pending_frame (cc_client_id c) conn tid request)"
    "ms_written fe1 = ms_written fe"
    by (rule client_publishes [OF assms(2-8) has_room_empty [OF assms(10)], of run_tracer metadata])
      (use assms(12) in auto)
  obtain message w' sent q where two: "handle_request rules backends ?routed (None, l) = Some (Inr message, w')"
    "rsc_frontend (rs_context message) = ms_name fe" "rsc_request_id (rs_context message) = Some ?rid"
    "rs_response message = Some response \<or> rs_response message = None \<and> rs_exception message = Some response"
    "line_sent (snd w') = line_sent l @ [(line_now l, sent @ le16 (crc16_modbus sent))]"
    "request_from_adu sent None = Inr q" "body q = body request" "unit_id q = unit"
    by (rule serial_route_handled [OF assms(8) routed(1) assms(9,13-19,20) assms(21-24)])
      (simp_all add: routed)
  have b1: "contents b1 ''requests'' = [RequestMsg ?routed]" "contents b1 ''responses'' = []"
    using one(2) assms(10,11) by simp_all
  obtain b2 b3 frontends' where three:
    "dispatcher_steps 3 run_tracer rules backends DWaiting b1 (None, l) = Some (DWaiting, b2, w')"
    "responder_steps 2 server_handle_response RWaiting b2 (dict_set (ms_name fe) fe1 frontends) = Some (RWaiting, b3, frontends')"
    "dict_get frontends' (ms_name fe) = Some (snd (server_handle_response fe1 message))"
    "contents b3 ''requests'' = []" "contents b3 ''responses'' = []"
    by (rule answer_is_carried [where run_tracer = run_tracer, OF b1 two(1) two(2) assms(12)])
  have ok: "server_ok tag fe1"
    by (rule server_reachable_ok [OF client_steps_reachable [OF assms(1) one(1)]])
  have pending: "dict_get (ms_pending fe1) ?rid = Some (pending_frame (cc_client_id c) conn tid request)"
    by (simp add: one(3))
  obtain out p where "ms_written (snd (server_handle_response fe1 message)) =
      ms_written fe1 @ [(conn, be16 tid @ [0, 0] @ be16 (int (length out)) @ out)]"
    "2 \<le> length out" "length out < 65536"
    "response_from_adu out None = Inr p" "body p = body response" "unit_id p = unit_id response"
    by (rule answer_is_written [OF ok pending two(3) assms(21,22) two(4) assms(5,6)])
  with one(1,4) three two(5-8) show thesis
    by (intro that [of fe1 b1 b2 w' b3 frontends' "snd (server_handle_response fe1 message)" out p sent q]) simp_all
qed

text \<open>C2. A request crosses the gateway: in any reachable state of a Modbus/TCP frontend, when a client
  that is waited for sends a complete frame with a request that the first admitting rule routes to a
  serial backend, and the device answers that request (under the unit of the route) with a response
  frame that has no shorter valid prefix, then three steps of the connection, three of the dispatcher
  and two of the responder write exactly one frame to that client: under its transaction identifier,
  holding the device's response. One frame went to the device, which decodes to the client's request
  under the unit of the route, and the bus is empty again.\<close>

theorem request_crosses_the_gateway:
  assumes "server_reachable run_tracer tag fe b"
    and "dict_get (ms_conns fe) conn = Some c" and "cc_task c = AwaitHeader"
    and "cc_incoming c = map Arrive (be16 tid @ [0, 0] @ be16 (int (length adu)) @ adu) @ rest"
    and "0 \<le> tid" "tid < 65536" "length adu < 65536"
    and "request_from_adu adu None = Inr request" and "request_register (body request) = PyInt a"
    and "contents b ''requests'' = []" and "contents b ''responses'' = []"
    and "\<And>t k m. run_tracer t k m = None"
    and "find (\<lambda>rule. rule_admits rule (routed_frame metadata (ms_name fe) (cc_client_id c) tid request)) rules =
      Some rule" and "rule_backend rule = sbc_id config"
    and "unit = (case rule_unit_override rule of Some u \<Rightarrow> u | None \<Rightarrow> unit_id request)"
    and "0 \<le> unit" "unit < 256"
    and "dict_get backends (sbc_id config) = Some (serial_submit (line_ops dev config) config)"
    and "dev_open dev (line_device l) = (Inr [], d1)"
    and "\<And>frame q. request_from_adu frame None = Inr q \<Longrightarrow> body q = body request \<Longrightarrow> unit_id q = unit \<Longrightarrow>
      dev_react dev (frame @ le16 (crc16_modbus frame)) d1 =
        (Inr (), map Arrive (reply @ le16 (crc16_modbus reply)) @ late, duration, d2)"
    and "response_from_adu reply None = Inr response" and "length reply \<le> 254"
    and "\<And>n. 4 \<le> n \<Longrightarrow> n < length reply + 2 \<Longrightarrow>
      \<not> has_valid_crc (take n (reply @ le16 (crc16_modbus reply)))"
    and "0 < max_attempts (sbc_retry config)"
  shows "\<exists>fe1 b1 b2 w' b3 frontends' fe2 frame out p sent q.
    client_steps 3 run_tracer metadata conn fe b = Some (fe1, b1) \<and>
    dispatcher_steps 3 run_tracer rules backends DWaiting b1 (None, l) = Some (DWaiting, b2, w') \<and>
    responder_steps 2 server_handle_response RWaiting b2 (dict_set (ms_name fe) fe1 frontends) =
      Some (RWaiting, b3, frontends') \<and>
    dict_get frontends' (ms_name fe) = Some fe2 \<and> ms_written fe2 = ms_written fe @ [(conn, frame)] \<and>
    parse_mbap_frame (take 7 frame) (drop 7 frame) = Inr (tid, out) \<and>
    response_from_adu out None = Inr p \<and> body p = body response \<and> unit_id p = unit_id response \<and>
    line_sent (snd w') = line_sent l @ [(line_now l, sent @ le16 (crc16_modbus sent))] \<and>
    request_from_adu sent None = Inr q \<and> body q = body request \<and> unit_id q = unit \<and>
    contents b3 ''requests'' = [] \<and> contents b3 ''responses'' = []"
proof (rule request_round [OF assms, where frontends = frontends])
  fix fe1 b1 b2 w' b3 frontends' fe2 out p sent q
  let ?frame = "be16 tid @ [0, 0] @ be16 (int (length out)) @ out"
  assume r: "client_steps 3 run_tracer metadata conn fe b = Some (fe1, b1)"
    "dispatcher_steps 3 run_tracer rules backends DWaiting b1 (None, l) = Some (DWaiting, b2, w')"
    "responder_steps 2 server_handle_response RWaiting b2 (dict_set (ms_name fe) fe1 frontends) = Some (RWaiting, b3, frontends')"
    "dict_get frontends' (ms_name fe) = Some fe2" "ms_written fe2 = ms_written fe @ [(conn, ?frame)]"
    "2 \<le> length out" "length out < 65536"
    "response_from_adu out None = Inr p" "body p = body response" "unit_id p = unit_id response"
    "line_sent (snd w') = line_sent l @ [(line_now l, sent @ le16 (crc16_modbus sent))]"
    "request_from_adu sent None = Inr q" "body q = body request" "unit_id q = unit"
    "contents b3 ''requests'' = []" "contents b3 ''responses'' = []"
  moreover from r(6,7) assms(5,6) have "parse_mbap_frame (take 7 ?frame) (drop 7 ?frame) = Inr (tid, out)"
    by (intro parse_server_frame) simp_all
  ultimately show ?thesis by blast
qed

theorem request_crosses_the_gateway_witness:
  "\<exists>fe1 b1 b2 w' b3 frontends' fe2 frame out p.
    client_steps 3 (\<lambda>_ _ _. None) (\<lambda>_ _. []) 0 served_server (bus_init 10 :: (unit, gateway_message) bus) = Some (fe1, b1) \<and>
    dispatcher_steps 3 (\<lambda>_ _ _. None) [rule_to ''tcp'' ''line'' any_match]
      [(''line'', serial_submit (line_ops (replying_device [1, 3, 2, 0, 7, 0xF9, 0x86]) sample_serial_config) sample_serial_config)]
      DWaiting b1 (None, quiet_line ()) = Some (DWaiting, b2, w') \<and>
    responder_steps 2 server_handle_response RWaiting b2 [(''tcp'', fe1)] = Some (RWaiting, b3, frontends') \<and>
    dict_get frontends' ''tcp'' = Some fe2 \<and> ms_written fe2 = [(0, frame)] \<and>
    parse_mbap_frame (take 7 frame) (drop 7 frame) = Inr (9, out) \<and>
    response_from_adu out None = Inr p \<and> body p = ReadHoldingRegistersResponse [7]"
proof -
  let ?run = "\<lambda>_ _ _. None" and ?meta = "\<lambda>_ _. []"
  let ?rule = "rule_to ''tcp'' ''line'' any_match"
  let ?dev = "replying_device [1, 3, 2, 0, 7, 0xF9, 0x86]"
  let ?adu = "[1, 3, 0, 0, 0, 1] :: bytes" and ?reply = "[1, 3, 2, 0, 7] :: bytes"
  obtain q where q: "request_from_adu ?adu None = Inr q" "body q = ReadHoldingRegistersRequest 0 1" "unit_id q = 1"
    using read_request_decoded by blast
  obtain r where r: "response_from_adu ?reply None = Inr r" "body r = ReadHoldingRegistersResponse [7]"
    using register_response_decoded by blast
  have c: "cc_task sample_client = AwaitHeader" "cc_client_id sample_client = ''tcp-c1''" "ms_name served_server = ''tcp''"
    "cc_incoming sample_client = map Arrive (be16 9 @ [0, 0] @ be16 (int (length ?adu)) @ ?adu) @ []"
    by (simp_all add: sample_client_def read_frame_split served_server_def admit_client_def idle_server_def)
  have bus: "contents (bus_init 10 :: (unit, gateway_message) bus) ''requests'' = []"
    "contents (bus_init 10 :: (unit, gateway_message) bus) ''responses'' = []"
    by (simp_all add: bus_init_def contents_def)
  have id: "sbc_id sample_serial_config = ''line''" "0 < max_attempts (sbc_retry sample_serial_config)"
    by (simp_all add: sample_serial_config_def retry_default_def)
  have rule: "find (\<lambda>rule. rule_admits rule (routed_frame ?meta (ms_name served_server) (cc_client_id sample_client) 9 q)) [?rule] =
      Some ?rule" "rule_backend ?rule = sbc_id sample_serial_config"
    "1 = (case rule_unit_override ?rule of Some u \<Rightarrow> u | None \<Rightarrow> unit_id q)"
    by (simp_all add: rule_to_def any_match_def rule_admits_def pattern_admits_def routed_frame_def c id q)
  have backend: "dict_get [(''line'', serial_submit (line_ops ?dev sample_serial_config) sample_serial_config)]
      (sbc_id sample_serial_config) = Some (serial_submit (line_ops ?dev sample_serial_config) sample_serial_config)"
    by (simp add: id)
  have reg: "request_register (body q) = PyInt 0" by (simp add: q(2))
  have none: "ms_written served_server = []" by (simp add: served_server_def admit_client_def idle_server_def)
  have dict: "dict_set (ms_name served_server) fe1 [] = [(''tcp'', fe1)]" for fe1 :: mbap_server
    by (simp add: c(3))
  show ?thesis
    using request_crosses_the_gateway [where frontends = "[]" and run_tracer = ?run and metadata = ?meta,
        OF served_server_reachable served_server_conn c(1,4) _ _ _ q(1) reg bus refl rule _ _ backend seven_reply(1)
          seven_reply(2) r(1) _ seven_reply(3) id(2)]
    by (simp add: none dict r(2) c(3) del: dispatcher_steps.simps responder_steps.simps client_steps.simps) blast
qed

end
