(* ===== verification/Gateway_System.thy ===== *)
theory Gateway_System
  imports Mbap_Frontend
begin

text \<open>
  The gateway as one system: any number of Modbus/TCP frontends with any number of connections,
  the bus, the dispatcher and the responder, whose tasks take their steps in any order. The
  components are those of the theories before; here only their interleaving is new.

  \<open>gs_asked\<close> and \<open>gs_answered\<close> observe the run: which request was registered for which frontend,
  connection and transaction, and which response the handling of which request gave.
\<close>

section \<open>The system\<close>

record ('t, 'w, 'a) gateway_sys =
  gs_frontends :: "(string \<times> 'a mbap_server_scheme) list"
  gs_bus :: "('t, gateway_message) bus"
  gs_dispatching :: dispatcher_task
  gs_responding :: responder_task
  gs_world :: 'w
  gs_asked :: "(string \<times> nat \<times> int \<times> routed_request) list"
  gs_answered :: "(routed_request \<times> routed_response) list"

definition set_frontend :: "string \<Rightarrow> 'a mbap_server_scheme \<Rightarrow> ('t, 'w, 'a) gateway_sys \<Rightarrow> ('t, 'w, 'a) gateway_sys" where
  "set_frontend name fe s = s\<lparr>gs_frontends := dict_set name fe (gs_frontends s)\<rparr>"

text \<open>The request that a step of the task of \<open>conn\<close> registered, seen in the change of that task.\<close>

fun task_asked :: "client_task \<Rightarrow> client_task \<Rightarrow> (int \<times> routed_request) list" where
  "task_asked (AwaitPayload tid proto n unit) (AwaitPublish routed) = [(tid, routed)]"
| "task_asked _ _ = []"

definition newly_asked ::
  "nat \<Rightarrow> 'a mbap_server_scheme \<Rightarrow> 'a mbap_server_scheme \<Rightarrow> (string \<times> nat \<times> int \<times> routed_request) list" where
  "newly_asked conn fe fe' =
     (case (dict_get (ms_conns fe) conn, dict_get (ms_conns fe') conn) of
        (Some c, Some c') \<Rightarrow>
          map (\<lambda>(tid, routed). (ms_name fe, conn, tid, routed)) (task_asked (cc_task c) (cc_task c'))
      | _ \<Rightarrow> [])"

fun newly_answered :: "dispatcher_task \<Rightarrow> dispatcher_task \<Rightarrow> (routed_request \<times> routed_response) list" where
  "newly_answered (DHandling request) (DPublishing response) = [(request, response)]"
| "newly_answered _ _ = []"

definition fresh_server :: "'a mbap_server_scheme \<Rightarrow> bool" where
  "fresh_server fe \<longleftrightarrow> ms_client_counter fe = 0 \<and> ms_pending fe = [] \<and> ms_conns fe = [] \<and>
     ms_written fe = [] \<and> ms_received fe = []"

text \<open>
  The steps. A connection is a writer object that was not used before. The world (devices, their
  connections, the backends' state) changes at any time; a frontend of another kind publishes
  requests under its own name; \<open>tag\<close> gives the text between name and number of a client identifier.
\<close>

inductive gateway_reachable ::
  "('t \<Rightarrow> string \<Rightarrow> gateway_message \<Rightarrow> exn option) \<Rightarrow> router \<Rightarrow> 'w backends \<Rightarrow> (string \<Rightarrow> string) \<Rightarrow>
   ('t, 'w, 'a) gateway_sys \<Rightarrow> bool" for run_tracer rules backends tag where
  gw_start: "(\<And>name fe. dict_get frontends name = Some fe \<Longrightarrow> ms_name fe = name \<and> fresh_server fe) \<Longrightarrow>
     contents b ''requests'' = [] \<Longrightarrow> contents b ''responses'' = [] \<Longrightarrow>
     gateway_reachable run_tracer rules backends tag
       \<lparr>gs_frontends = frontends, gs_bus = b, gs_dispatching = DWaiting, gs_responding = RWaiting,
        gs_world = w, gs_asked = [], gs_answered = []\<rparr>"
| gw_connect: "gateway_reachable run_tracer rules backends tag s \<Longrightarrow>
     dict_get (gs_frontends s) name = Some fe \<Longrightarrow>
     dict_get (ms_conns fe) conn = None \<Longrightarrow> conn \<notin> fst ` set (ms_received fe) \<Longrightarrow>
     gateway_reachable run_tracer rules backends tag
       (set_frontend name (admit_client (tag name) conn incoming fe) s)"
| gw_refuse: "gateway_reachable run_tracer rules backends tag s \<Longrightarrow>
     dict_get (gs_frontends s) name = Some fe \<Longrightarrow>
     gateway_reachable run_tracer rules backends tag
       (set_frontend name (fe\<lparr>ms_client_counter := ms_client_counter fe + 1\<rparr>) s)"
| gw_arrive: "gateway_reachable run_tracer rules backends tag s \<Longrightarrow>
     dict_get (gs_frontends s) name = Some fe \<Longrightarrow> dict_get (ms_conns fe) conn = Some c \<Longrightarrow>
     gateway_reachable run_tracer rules backends tag
       (set_frontend name (set_client conn (c\<lparr>cc_incoming := cc_incoming c @ events\<rparr>) fe) s)"
| gw_client: "gateway_reachable run_tracer rules backends tag s \<Longrightarrow>
     dict_get (gs_frontends s) name = Some fe \<Longrightarrow>
     client_step run_tracer metadata conn fe (gs_bus s) = Some (fe', b') \<Longrightarrow>
     gateway_reachable run_tracer rules backends tag
       (set_frontend name fe' (s\<lparr>gs_bus := b', gs_asked := gs_asked s @ newly_asked conn fe fe'\<rparr>))"
| gw_dispatch: "gateway_reachable run_tracer rules backends tag s \<Longrightarrow>
     dispatcher_step run_tracer rules backends (gs_dispatching s) (gs_bus s) (gs_world s) =
       Some (task', b', w') \<Longrightarrow>
     gateway_reachable run_tracer rules backends tag
       (s\<lparr>gs_dispatching := task', gs_bus := b', gs_world := w',
          gs_answered := gs_answered s @ newly_answered (gs_dispatching s) task'\<rparr>)"
| gw_respond: "gateway_reachable run_tracer rules backends tag s \<Longrightarrow>
     responder_step server_handle_response (gs_responding s) (gs_bus s) (gs_frontends s) =
       Some (task', b', frontends') \<Longrightarrow>
     gateway_reachable run_tracer rules backends tag
       (s\<lparr>gs_responding := task', gs_bus := b', gs_frontends := frontends'\<rparr>)"
| gw_world: "gateway_reachable run_tracer rules backends tag s \<Longrightarrow>
     gateway_reachable run_tracer rules backends tag (s\<lparr>gs_world := w\<rparr>)"
| gw_foreign: "gateway_reachable run_tracer rules backends tag s \<Longrightarrow>
     dict_get (gs_frontends s) (rc_frontend (rr_context routed)) = None \<Longrightarrow>
     bus_publish run_tracer (gs_bus s) ''requests'' (RequestMsg routed) = (r, b') \<Longrightarrow>
     gateway_reachable run_tracer rules backends tag (s\<lparr>gs_bus := b'\<rparr>)"
| gw_stop: "gateway_reachable run_tracer rules backends tag s \<Longrightarrow>
     dict_get (gs_frontends s) name = Some fe \<Longrightarrow>
     gateway_reachable run_tracer rules backends tag (set_frontend name (server_stop fe) s)"
| gw_more: "gateway_reachable run_tracer rules backends tag s \<Longrightarrow>
     dict_get (gs_frontends s) name = Some fe \<Longrightarrow>
     mbap_server.truncate fe' = mbap_server.truncate fe \<Longrightarrow>
     gateway_reachable run_tracer rules backends tag (set_frontend name fe' s)"

section \<open>The invariant\<close>

text \<open>
  A request under way was registered (or is of another kind of frontend); a response under way
  is the outcome of handling a request that was.
\<close>

type_synonym asked_log = "(string \<times> nat \<times> int \<times> routed_request) list"
type_synonym answered_log = "(routed_request \<times> routed_response) list"

definition known :: "string set \<Rightarrow> asked_log \<Rightarrow> routed_request \<Rightarrow> bool" where
  "known names asked r \<longleftrightarrow> rc_frontend (rr_context r) \<notin> names \<or>
     (\<exists>conn tid. (rc_frontend (rr_context r), conn, tid, r) \<in> set asked)"

definition derived :: "string set \<Rightarrow> asked_log \<Rightarrow> answered_log \<Rightarrow> routed_response \<Rightarrow> bool" where
  "derived names asked answered m \<longleftrightarrow>
     (\<exists>r. (r, m) \<in> set answered \<and> known names asked r \<and> answers m r)"

text \<open>
  A registered request carries the identifier made of its transaction and of the identifier that
  only the client on its connection has.
\<close>

definition asked_ok :: "string \<Rightarrow> 'a mbap_server_scheme \<Rightarrow> nat \<Rightarrow> int \<Rightarrow> routed_request \<Rightarrow> bool" where
  "asked_ok tag fe conn tid r \<longleftrightarrow>
     (\<exists>k \<le> ms_client_counter fe.
        rc_request_id (rr_context r) = Some (make_request_id (ms_name fe @ tag @ nat_str k) tid) \<and>
        (\<forall>w c. dict_get (ms_conns fe) w = Some c \<longrightarrow> cc_client_id c = ms_name fe @ tag @ nat_str k \<longrightarrow> w = conn))"

text \<open>A frame that is the response to a request of its receiver.\<close>

definition own_answer :: "asked_log \<Rightarrow> answered_log \<Rightarrow> string \<Rightarrow> nat \<times> bytes \<Rightarrow> bool" where
  "own_answer asked answered name sent \<longleftrightarrow>
     (\<exists>tid r m adu. (name, fst sent, tid, r) \<in> set asked \<and> (r, m) \<in> set answered \<and>
        0 \<le> tid \<and> tid < 65536 \<and> response_adu m = Inr (Some adu) \<and>
        snd sent = be16 tid @ [0, 0] @ be16 (int (length adu)) @ adu)"

definition frontend_ok ::
  "string set \<Rightarrow> asked_log \<Rightarrow> answered_log \<Rightarrow> string \<Rightarrow> string \<Rightarrow> 'a mbap_server_scheme \<Rightarrow> bool" where
  "frontend_ok names asked answered tag name fe \<longleftrightarrow>
     ms_name fe = name \<and> server_ok tag fe \<and>
     (\<forall>conn c r. dict_get (ms_conns fe) conn = Some c \<longrightarrow> cc_task c = AwaitPublish r \<longrightarrow> known names asked r) \<and>
     (\<forall>conn tid r. (name, conn, tid, r) \<in> set asked \<longrightarrow> asked_ok tag fe conn tid r) \<and>
     (\<forall>sent \<in> set (ms_written fe). own_answer asked answered name sent)"

lemma frontend_okD:
  assumes "frontend_ok names asked answered tag name fe"
  shows "ms_name fe = name" and "server_ok tag fe"
    and "\<And>conn c r. dict_get (ms_conns fe) conn = Some c \<Longrightarrow> cc_task c = AwaitPublish r \<Longrightarrow> known names asked r"
    and "\<And>conn tid r. (name, conn, tid, r) \<in> set asked \<Longrightarrow> asked_ok tag fe conn tid r"
    and "\<And>sent. sent \<in> set (ms_written fe) \<Longrightarrow> own_answer asked answered name sent"
  using assms unfolding frontend_ok_def by blast+

lemma frontend_okI:
  assumes "ms_name fe = name" and "server_ok tag fe"
    and "\<And>conn c r. dict_get (ms_conns fe) conn = Some c \<Longrightarrow> cc_task c = AwaitPublish r \<Longrightarrow> known names asked r"
    and "\<And>conn tid r. (name, conn, tid, r) \<in> set asked \<Longrightarrow> asked_ok tag fe conn tid r"
    and "\<And>sent. sent \<in> set (ms_written fe) \<Longrightarrow> own_answer asked answered name sent"
  shows "frontend_ok names asked answered tag name fe"
  using assms unfolding frontend_ok_def by blast

section \<open>Every step keeps it\<close>

lemma known_mono: "known names asked r \<Longrightarrow> set asked \<subseteq> set asked' \<Longrightarrow> known names asked' r"
  unfolding known_def by blast

lemma derived_mono:
  "derived names asked answered m \<Longrightarrow> set asked \<subseteq> set asked' \<Longrightarrow> set answered \<subseteq> set answered' \<Longrightarrow>
     derived names asked' answered' m"
  unfolding derived_def using known_mono by blast

lemma own_answer_mono:
  "own_answer asked answered name sent \<Longrightarrow> set asked \<subseteq> set asked' \<Longrightarrow> set answered \<subseteq> set answered' \<Longrightarrow>
     own_answer asked' answered' name sent"
  unfolding own_answer_def by blast

lemma frontend_ok_extend:
  assumes "frontend_ok names asked answered tag name fe"
    and "set asked \<subseteq> set asked'" "set answered \<subseteq> set answered'"
    and "\<And>conn tid r. (name, conn, tid, r) \<in> set asked' \<Longrightarrow> (name, conn, tid, r) \<in> set asked"
  shows "frontend_ok names asked' answered' tag name fe"
proof (rule frontend_okI)
  note ok = frontend_okD [OF assms(1)]
  show "ms_name fe = name" "server_ok tag fe" by (fact ok(1,2))+
  show "known names asked' r" if "dict_get (ms_conns fe) conn = Some c" "cc_task c = AwaitPublish r" for conn c r
    using known_mono [OF ok(3) [OF that] assms(2)] .
  show "asked_ok tag fe conn tid r" if "(name, conn, tid, r) \<in> set asked'" for conn tid r
    using ok(4) [OF assms(4) [OF that]] .
  show "own_answer asked' answered' name sent" if "sent \<in> set (ms_written fe)" for sent
    using own_answer_mono [OF ok(5) [OF that] assms(2,3)] .
qed

text \<open>
  Steps that register and write nothing: a connection after the step was there before, with the
  same client, and did not begin to publish; or it is new.
\<close>

definition from_client :: "string \<Rightarrow> 'a mbap_server_scheme \<Rightarrow> nat \<Rightarrow> client_conn \<Rightarrow> bool" where
  "from_client tag fe w c' \<longleftrightarrow>
     (\<exists>c. dict_get (ms_conns fe) w = Some c \<and> cc_client_id c' = cc_client_id c \<and>
        (cc_task c' = cc_task c \<or> (\<forall>r. cc_task c' \<noteq> AwaitPublish r))) \<or>
     (\<exists>j > ms_client_counter fe. cc_client_id c' = ms_name fe @ tag @ nat_str j \<and> cc_task c' = AwaitHeader)"

lemma asked_ok_keep:
  assumes "asked_ok tag fe conn tid r"
    and "ms_name fe' = ms_name fe" "ms_client_counter fe \<le> ms_client_counter fe'"
    and "\<And>w c'. dict_get (ms_conns fe') w = Some c' \<Longrightarrow>
      (\<exists>c. dict_get (ms_conns fe) w = Some c \<and> cc_client_id c' = cc_client_id c) \<or>
      (\<exists>j > ms_client_counter fe. cc_client_id c' = ms_name fe @ tag @ nat_str j)"
  shows "asked_ok tag fe' conn tid r"
proof -
  obtain k where k: "k \<le> ms_client_counter fe"
    "rc_request_id (rr_context r) = Some (make_request_id (ms_name fe @ tag @ nat_str k) tid)"
    "\<And>w c. dict_get (ms_conns fe) w = Some c \<Longrightarrow> cc_client_id c = ms_name fe @ tag @ nat_str k \<Longrightarrow> w = conn"
    using assms(1) unfolding asked_ok_def by blast
  have "w = conn" if "dict_get (ms_conns fe') w = Some c'" "cc_client_id c' = ms_name fe @ tag @ nat_str k" for w c'
    using assms(4) [OF that(1)] that(2) k(1,3) by (auto simp: nat_str_inject)
  with k(1,2) assms(2,3) show ?thesis
    unfolding asked_ok_def by (intro exI [of _ k]) auto
qed

lemma frontend_ok_quiet:
  assumes "frontend_ok names asked answered tag name fe"
    and "server_ok tag fe'" "ms_name fe' = ms_name fe" "ms_client_counter fe \<le> ms_client_counter fe'"
    and "ms_written fe' = ms_written fe"
    and "\<And>w c'. dict_get (ms_conns fe') w = Some c' \<Longrightarrow> from_client tag fe w c'"
  shows "frontend_ok names asked answered tag name fe'"
proof (rule frontend_okI)
  note ok = frontend_okD [OF assms(1)]
  show "ms_name fe' = name" "server_ok tag fe'" using ok(1) assms(2,3) by simp_all
  show "known names asked r" if "dict_get (ms_conns fe') conn = Some c" "cc_task c = AwaitPublish r" for conn c r
    using assms(6) [OF that(1)] that(2) ok(3) unfolding from_client_def by (metis client_task.distinct(3))
  show "asked_ok tag fe' conn tid r" if "(name, conn, tid, r) \<in> set asked" for conn tid r
    by (rule asked_ok_keep [OF ok(4) [OF that] assms(3,4)]) (use assms(6) in \<open>unfold from_client_def, blast\<close>)
  show "own_answer asked answered name sent" if "sent \<in> set (ms_written fe')" for sent
    using ok(5) that assms(5) by simp
qed

lemma from_client_same: "dict_get (ms_conns fe) w = Some c \<Longrightarrow> from_client tag fe w c"
  unfolding from_client_def by blast

lemma from_client_set:
  assumes "dict_get (ms_conns fe) conn = Some c0" "cc_client_id c = cc_client_id c0"
    and "cc_task c = cc_task c0 \<or> (\<forall>r. cc_task c \<noteq> AwaitPublish r)"
    and "dict_get (ms_conns (set_client conn c fe)) w = Some c'"
  shows "from_client tag fe w c'"
  using assms from_client_same [of fe w c' tag]
  by (cases "w = conn") (auto simp: set_client_def from_client_def)

text \<open>A frame that is accepted registers exactly one request.\<close>

lemma make_request_id_inject:
  "make_request_id cid tid = make_request_id cid' tid' \<longleftrightarrow> cid = cid' \<and> tid = tid'"
proof
  assume "make_request_id cid tid = make_request_id cid' tid'"
  then have "cid @ CHR '':'' # int_str tid = cid' @ CHR '':'' # int_str tid'"
    by (simp add: make_request_id_def)
  from append_separator_inject [OF _ _ this] show "cid = cid' \<and> tid = tid'"
    using int_str_chars by (force simp: int_str_inject)
qed simp

lemma accept_frame_cases:
  obtains (skipped) "accept_frame metadata conn c tid proto unit payload fe = set_client conn (c\<lparr>cc_task := AwaitHeader\<rparr>) fe"
  | (accepted) request info where "request_from_adu (unit # payload) None = Inr request"
    "pr_writer info = conn" "pr_transaction_id info = tid" "pr_client_id info = cc_client_id c"
    "accept_frame metadata conn c tid proto unit payload fe =
       set_client conn (c\<lparr>cc_task := AwaitPublish (routed_frame (\<lambda>_. metadata) (ms_name fe) (cc_client_id c) tid request)\<rparr>)
         (fe\<lparr>ms_pending := dict_set (make_request_id (cc_client_id c) tid) info (ms_pending fe),
            ms_received := ms_received fe @ [(conn, tid)]\<rparr>)"
proof (cases "proto \<noteq> 0 \<or> isl (request_from_adu (unit # payload) None)")
  case True
  then show thesis by (intro skipped) (auto simp: accept_frame_def split: sum.splits)
next
  case False
  then obtain request where "request_from_adu (unit # payload) None = Inr request" "proto = 0"
    by (cases "request_from_adu (unit # payload) None") auto
  then show thesis
    by (intro accepted [of request "\<lparr>pr_request_id = make_request_id (cc_client_id c) tid, pr_writer = conn,
        pr_transaction_id = tid, pr_protocol_id = 0, pr_unit_id = unit_id request, pr_client_id = cc_client_id c\<rparr>"])
      (simp_all add: accept_frame_def routed_frame_def Let_def)
qed

lemma frontend_ok_accepted:
  assumes "frontend_ok names asked answered tag name fe" and "dict_get (ms_conns fe) conn = Some c0"
    and "cc_client_id c = cc_client_id c0" and "cc_task c = AwaitPublish r"
    and "r = routed_frame metadata name (cc_client_id c0) tid request"
    and "fe' = set_client conn c (fe\<lparr>ms_pending := pending, ms_received := received\<rparr>)"
    and "server_ok tag fe'"
  shows "frontend_ok names (asked @ [(name, conn, tid, r)]) answered tag name fe'"
proof (rule frontend_okI)
  note ok = frontend_okD [OF assms(1)]
  have r: "rc_frontend (rr_context r) = name" "rc_request_id (rr_context r) = Some (make_request_id (cc_client_id c0) tid)"
    by (simp_all add: assms(5) routed_frame_def)
  have conns: "dict_get (ms_conns fe') = (dict_get (ms_conns fe))(conn \<mapsto> c)"
    by (rule ext) (simp add: assms(6) set_client_def)
  have same: "ms_name fe' = ms_name fe" "ms_client_counter fe' = ms_client_counter fe" "ms_written fe' = ms_written fe"
    by (simp_all add: assms(6) set_client_def)
  have ids: "\<exists>c. dict_get (ms_conns fe) w = Some c \<and> cc_client_id c' = cc_client_id c"
    if "dict_get (ms_conns fe') w = Some c'" for w c'
    using that assms(2,3) by (cases "w = conn") (auto simp: conns)
  show "ms_name fe' = name" using ok(1) same(1) by simp
  show "server_ok tag fe'" by (fact assms(7))
  show "known names (asked @ [(name, conn, tid, r)]) r'"
    if "dict_get (ms_conns fe') w = Some c'" "cc_task c' = AwaitPublish r'" for w c' r'
  proof (cases "w = conn")
    case True
    then have "r' = r" using that assms(4) by (simp add: conns)
    then show ?thesis using r(1) by (auto simp: known_def)
  next
    case False
    then have "known names asked r'" using that ok(3) [of w c' r'] by (simp add: conns)
    then show ?thesis by (rule known_mono) auto
  qed
  show "asked_ok tag fe' w tid' r'" if asked: "(name, w, tid', r') \<in> set (asked @ [(name, conn, tid, r)])" for w tid' r'
  proof (cases "(name, w, tid', r') \<in> set asked")
    case True
    from ok(4) [OF this] show ?thesis by (rule asked_ok_keep) (use ids same in auto)
  next
    case False
    obtain k where "k \<le> ms_client_counter fe" "cc_client_id c0 = ms_name fe @ tag @ nat_str k"
      using server_okD(4) [OF ok(2) assms(2)] by blast
    moreover have "u = conn" if "dict_get (ms_conns fe') u = Some c'" "cc_client_id c' = cc_client_id c0" for u c'
      using ids [OF that(1)] that(2) server_okD(5) [OF ok(2) _ assms(2)] by auto
    ultimately show ?thesis using False asked r(2) same by (auto simp: asked_ok_def)
  qed
  show "own_answer (asked @ [(name, conn, tid, r)]) answered name sent" if "sent \<in> set (ms_written fe')" for sent
    by (rule own_answer_mono [OF ok(5)]) (use that same in auto)
qed

text \<open>A response under way for a frontend is written to the client that asked, or not at all.\<close>

lemma frontend_ok_answer:
  assumes "frontend_ok names asked answered tag name fe" and "derived names asked answered m"
    and "rsc_frontend (rs_context m) = name" "name \<in> names"
  shows "frontend_ok names asked answered tag name (snd (server_handle_response fe m))"
proof (cases "\<exists>rid. rsc_request_id (rs_context m) = Some rid \<and> rid \<in> waiting_ids fe")
  case True
  then obtain rid where rid: "rsc_request_id (rs_context m) = Some rid" "rid \<in> waiting_ids fe" by blast
  note ok = frontend_okD [OF assms(1)]
  obtain r conn tid where r: "(r, m) \<in> set answered" "(name, conn, tid, r) \<in> set asked"
    "rc_request_id (rr_context r) = Some rid"
    using assms(2-4) rid(1) unfolding derived_def known_def answers_def by auto
  obtain k where k: "rid = make_request_id (name @ tag @ nat_str k) tid"
    "\<And>w c. dict_get (ms_conns fe) w = Some c \<Longrightarrow> cc_client_id c = name @ tag @ nat_str k \<Longrightarrow> w = conn"
    using ok(4) [OF r(2)] r(3) ok(1) unfolding asked_ok_def by auto
  show ?thesis
  proof (cases rule: handle_response_waiting [OF rid])
    case (1 info x frames)
    have "info_ok fe rid info" using server_okD(2) [OF ok(2) map_of_SomeD [OF 1(1)]] .
    then have info: "pr_writer info = conn" "pr_transaction_id info = tid" "pr_protocol_id info = 0"
      "0 \<le> tid" "tid < 65536"
      using k by (auto simp: info_ok_def make_request_id_inject)
    let ?fe = "fe\<lparr>ms_pending := dict_pop rid (ms_pending fe), ms_written := ms_written fe @ frames\<rparr>"
    have own: "own_answer asked answered name sent" if "sent \<in> set frames" for sent
      using 1(3) that r(1,2) info
      by (auto simp: own_answer_def build_mbap_Inr_iff be16_def) blast
    have "frontend_ok names asked answered tag name ?fe"
    proof (rule frontend_okI)
      show "server_ok tag ?fe" using server_ok_answer [OF ok(2), of m] 1(2) by simp
      show "asked_ok tag ?fe w t q" if "(name, w, t, q) \<in> set asked" for w t q
        using ok(4) [OF that] by (simp add: asked_ok_def)
      show "own_answer asked answered name sent" if w: "sent \<in> set (ms_written ?fe)" for sent
      proof -
        from w have "sent \<in> set (ms_written fe) \<or> sent \<in> set frames" by simp
        then show ?thesis using own ok(5) by blast
      qed
    qed (use ok in auto)
    with 1(2) show ?thesis by simp
  qed
next
  case False
  then have "server_handle_response fe m = (Inr (), fe)" by (intro handle_response_not_waiting) auto
  with assms show ?thesis by simp
qed

text \<open>A step of a connection: it registers at most what it read, and publishes what it registered.\<close>

lemma newly_asked_quiet:
  assumes "dict_get (ms_conns fe) conn = Some c"
    and "\<And>c'. dict_get (ms_conns fe') conn = Some c' \<Longrightarrow> \<forall>r. cc_task c' \<noteq> AwaitPublish r"
  shows "newly_asked conn fe fe' = []"
proof (cases "dict_get (ms_conns fe') conn")
  case (Some c')
  with assms(2) have "\<forall>r. cc_task c' \<noteq> AwaitPublish r" by blast
  then have "task_asked (cc_task c) (cc_task c') = []"
    by (cases "(cc_task c, cc_task c')" rule: task_asked.cases) auto
  with Some assms(1) show ?thesis by (simp add: newly_asked_def)
qed (simp add: newly_asked_def assms(1))

lemma newly_asked_name: "x \<in> set (newly_asked conn fe fe') \<Longrightarrow> fst x = ms_name fe"
  by (auto simp: newly_asked_def split: option.splits)

lemma frontend_ok_client_step:
  assumes "frontend_ok names asked answered tag name fe"
    and "client_step run_tracer metadata conn fe b = Some (fe', b')"
  shows "frontend_ok names (asked @ newly_asked conn fe fe') answered tag name fe'"
proof -
  note ok = frontend_okD [OF assms(1)] and step = server_ok_step [OF frontend_okD(2) [OF assms(1)] assms(2)]
  have quiet: "frontend_ok names (asked @ newly_asked conn fe fe') answered tag name fe'"
    if "dict_get (ms_conns fe) conn = Some c"
      "\<And>c'. dict_get (ms_conns fe') conn = Some c' \<Longrightarrow> \<forall>r. cc_task c' \<noteq> AwaitPublish r"
      "ms_name fe' = ms_name fe" "ms_client_counter fe' = ms_client_counter fe" "ms_written fe' = ms_written fe"
      "\<And>w c'. dict_get (ms_conns fe') w = Some c' \<Longrightarrow> from_client tag fe w c'" for c
    using frontend_ok_quiet [OF assms(1) step] that newly_asked_quiet [of fe conn c fe'] by simp
  show ?thesis
  proof (cases rule: client_step_cases [OF assms(2)])
    case (1 c)
    show ?thesis
      by (rule quiet [OF 1(1)]) (auto simp: 1(2) end_client_def from_client_same split: if_splits)
  next
    case (2 c rest tid proto len unit)
    then obtain c' where c': "fe' = set_client conn c' fe" "cc_client_id c' = cc_client_id c"
      "\<forall>r. cc_task c' \<noteq> AwaitPublish r" by auto
    show ?thesis
      by (rule quiet [OF 2(1)]) (use c' from_client_set [OF 2(1) c'(2)] in \<open>auto simp: set_client_def\<close>)
  next
    case (4 c routed)
    let ?c = "c\<lparr>cc_task := AwaitHeader\<rparr>"
    show ?thesis
      by (rule quiet [OF 4(1)]) (use 4(3) from_client_set [OF 4(1), of ?c] in \<open>auto simp: set_client_def\<close>)
  next
    case (3 c rest tid proto n unit payload)
    let ?c = "c\<lparr>cc_incoming := rest\<rparr>"
    show ?thesis
    proof (cases rule: accept_frame_cases [of "metadata (cc_client_id c)" conn ?c tid proto unit payload fe])
      case skipped
      then have fe': "fe' = set_client conn (?c\<lparr>cc_task := AwaitHeader\<rparr>) fe" using 3(4) by simp
      show ?thesis
        by (rule quiet [OF 3(1)])
          (use fe' from_client_set [OF 3(1), of "?c\<lparr>cc_task := AwaitHeader\<rparr>"] in \<open>auto simp: set_client_def\<close>)
    next
      case (accepted request info)
      let ?r = "routed_frame (\<lambda>_. metadata (cc_client_id c)) (ms_name fe) (cc_client_id c) tid request"
      have "newly_asked conn fe fe' = [(name, conn, tid, ?r)]"
        using accepted(5) 3(1,2,4) ok(1) by (simp add: newly_asked_def set_client_def)
      moreover have "frontend_ok names (asked @ [(name, conn, tid, ?r)]) answered tag name fe'"
        by (rule frontend_ok_accepted [OF assms(1) 3(1) _ _ _ trans [OF 3(4) accepted(5)] step])
          (simp_all add: ok(1))
      ultimately show ?thesis by simp
    qed
  qed
qed

lemma client_step_bus:
  assumes "client_step run_tracer metadata conn fe b = Some (fe', b')"
  shows "contents b' = contents b \<or>
    (\<exists>c r. dict_get (ms_conns fe) conn = Some c \<and> cc_task c = AwaitPublish r \<and>
       contents b' = (contents b)(''requests'' := contents b ''requests'' @ [RequestMsg r]))"
  using assms
  by (auto simp: client_step_def Let_def dest: busq.put_Some_items(2)
      split: option.splits client_task.splits sum.splits prod.splits if_splits)

section \<open>The whole system\<close>

abbreviation names_of :: "('t, 'w, 'a) gateway_sys \<Rightarrow> string set" where
  "names_of s \<equiv> dom (dict_get (gs_frontends s))"

abbreviation known_in :: "('t, 'w, 'a) gateway_sys \<Rightarrow> routed_request \<Rightarrow> bool" where
  "known_in s \<equiv> known (names_of s) (gs_asked s)"

abbreviation derived_in :: "('t, 'w, 'a) gateway_sys \<Rightarrow> routed_response \<Rightarrow> bool" where
  "derived_in s \<equiv> derived (names_of s) (gs_asked s) (gs_answered s)"

definition frontends_ok :: "(string \<Rightarrow> string) \<Rightarrow> ('t, 'w, 'a) gateway_sys \<Rightarrow> bool" where
  "frontends_ok tag s \<longleftrightarrow> (\<forall>name fe. dict_get (gs_frontends s) name = Some fe \<longrightarrow>
     frontend_ok (names_of s) (gs_asked s) (gs_answered s) (tag name) name fe)"

text \<open>What is on the bus and in the hands of the dispatcher and the responder.\<close>

definition pipeline_ok :: "('t, 'w, 'a) gateway_sys \<Rightarrow> bool" where
  "pipeline_ok s \<longleftrightarrow>
     (\<forall>r. RequestMsg r \<in> set (contents (gs_bus s) ''requests'') \<longrightarrow> known_in s r) \<and>
     (\<forall>r. gs_dispatching s = DHandling r \<longrightarrow> known_in s r) \<and>
     (\<forall>m. gs_dispatching s = DPublishing m \<longrightarrow> derived_in s m) \<and>
     (\<forall>m. ResponseMsg m \<in> set (contents (gs_bus s) ''responses'') \<longrightarrow> derived_in s m) \<and>
     (\<forall>name m. gs_responding s = RDelivering name m \<longrightarrow>
        derived_in s m \<and> name = rsc_frontend (rs_context m))"

lemma names_of_set_frontend:
  "dict_get (gs_frontends s) name = Some fe \<Longrightarrow> names_of (set_frontend name fe' s) = names_of s"
  by (auto simp: set_frontend_def split: if_splits)

lemma frontends_ok_set:
  assumes "frontends_ok tag s" "dict_get (gs_frontends s) name = Some fe"
    and "frontend_ok (names_of s) (gs_asked s) (gs_answered s) (tag name) name fe'"
  shows "frontends_ok tag (set_frontend name fe' s)"
  using assms(1,3) unfolding frontends_ok_def names_of_set_frontend [OF assms(2)]
  by (simp add: set_frontend_def)

lemma pipeline_ok_set:
  "dict_get (gs_frontends s) name = Some fe \<Longrightarrow> pipeline_ok (set_frontend name fe' s) \<longleftrightarrow> pipeline_ok s"
  by (simp only: pipeline_ok_def names_of_set_frontend) (simp add: set_frontend_def)

text \<open>A longer history of other frontends, or of the dispatcher, changes nothing for a frontend.\<close>

lemma frontends_ok_log:
  assumes "frontends_ok tag s" "gs_frontends s' = gs_frontends s" "set (gs_answered s) \<subseteq> set (gs_answered s')"
    and "gs_asked s' = gs_asked s"
  shows "frontends_ok tag s'"
  using assms frontend_ok_extend unfolding frontends_ok_def by (metis order_refl)

lemma pipeline_okD:
  assumes "pipeline_ok s"
  shows "\<And>r. RequestMsg r \<in> set (contents (gs_bus s) ''requests'') \<Longrightarrow> known_in s r"
    and "\<And>r. gs_dispatching s = DHandling r \<Longrightarrow> known_in s r"
    and "\<And>m. gs_dispatching s = DPublishing m \<Longrightarrow> derived_in s m"
    and "\<And>m. ResponseMsg m \<in> set (contents (gs_bus s) ''responses'') \<Longrightarrow> derived_in s m"
    and "\<And>name m. gs_responding s = RDelivering name m \<Longrightarrow> derived_in s m \<and> name = rsc_frontend (rs_context m)"
  using assms unfolding pipeline_ok_def by blast+

lemma pipeline_okI:
  assumes "\<And>r. RequestMsg r \<in> set (contents (gs_bus s) ''requests'') \<Longrightarrow> known_in s r"
    and "\<And>r. gs_dispatching s = DHandling r \<Longrightarrow> known_in s r"
    and "\<And>m. gs_dispatching s = DPublishing m \<Longrightarrow> derived_in s m"
    and "\<And>m. ResponseMsg m \<in> set (contents (gs_bus s) ''responses'') \<Longrightarrow> derived_in s m"
    and "\<And>name m. gs_responding s = RDelivering name m \<Longrightarrow> derived_in s m \<and> name = rsc_frontend (rs_context m)"
  shows "pipeline_ok s"
  using assms unfolding pipeline_ok_def by blast

text \<open>A step of a connection.\<close>

lemma ok_client_step:
  assumes "frontends_ok tag s" "pipeline_ok s" "dict_get (gs_frontends s) name = Some fe"
    and "client_step run_tracer metadata conn fe (gs_bus s) = Some (fe', b')"
    and "s' = set_frontend name fe' (s\<lparr>gs_bus := b', gs_asked := gs_asked s @ newly_asked conn fe fe'\<rparr>)"
  shows "frontends_ok tag s' \<and> pipeline_ok s'"
proof
  have fe: "frontend_ok (names_of s) (gs_asked s) (gs_answered s) (tag name) name fe"
    using assms(1,3) by (simp add: frontends_ok_def)
  let ?new = "newly_asked conn fe fe'"
  let ?s = "s\<lparr>gs_bus := b', gs_asked := gs_asked s @ ?new\<rparr>"
  have names: "names_of s' = names_of s" using assms(3) by (auto simp: assms(5) set_frontend_def split: if_splits)
  have "frontend_ok (names_of s) (gs_asked s @ ?new) (gs_answered s) (tag n) n f"
    if "dict_get (gs_frontends s) n = Some f" "n \<noteq> name" for n f
    by (rule frontend_ok_extend [of _ "gs_asked s" "gs_answered s"])
      (use assms(1) that newly_asked_name frontend_okD(1) [OF fe] in \<open>force simp: frontends_ok_def\<close>)+
  moreover have "frontend_ok (names_of s) (gs_asked s @ ?new) (gs_answered s) (tag name) name fe'"
    by (rule frontend_ok_client_step [OF fe assms(4)])
  ultimately show "frontends_ok tag s'"
    unfolding frontends_ok_def names by (simp add: assms(5) set_frontend_def)
  note pipe = pipeline_okD [OF assms(2)]
  have mono: "known_in s r \<Longrightarrow> known_in s' r" "derived_in s m \<Longrightarrow> derived_in s' m" for r m
    unfolding names using known_mono [of "names_of s" "gs_asked s" r] derived_mono [of "names_of s" "gs_asked s" "gs_answered s" m]
    by (simp_all add: assms(5) set_frontend_def)
  show "pipeline_ok s'"
  proof (rule pipeline_okI)
    show "known_in s' r" if "RequestMsg r \<in> set (contents (gs_bus s') ''requests'')" for r
      using client_step_bus [OF assms(4)] that pipe(1) frontend_okD(3) [OF fe]
      by (intro mono) (auto simp: assms(5) set_frontend_def)
    show "derived_in s' m" if "ResponseMsg m \<in> set (contents (gs_bus s') ''responses'')" for m
      using client_step_bus [OF assms(4)] that pipe(4)
      by (intro mono) (auto simp: assms(5) set_frontend_def)
  qed (use pipe(2,3,5) mono in \<open>auto simp: assms(5) set_frontend_def\<close>)
qed

lemma bus_get_keeps:
  assumes "bus_get b k = (Some m, b')"
  shows "m \<in> set (contents b k)" and "set (contents b' k') \<subseteq> set (contents b k')"
proof -
  show "m \<in> set (contents b k)" by (subst busq.get_Some_items(1) [OF assms]) simp
  show "set (contents b' k') \<subseteq> set (contents b k')"
    unfolding busq.get_Some_items(2) [OF assms] by (cases "contents b k") auto
qed

text \<open>A step of the dispatcher: the response it made answers the request it took.\<close>

lemma pipeline_ok_dispatch:
  assumes "pipeline_ok s"
    and "s' = s\<lparr>gs_dispatching := t, gs_bus := b', gs_world := w', gs_answered := gs_answered s @ new\<rparr>"
    and "\<And>r. RequestMsg r \<in> set (contents b' ''requests'') \<Longrightarrow> RequestMsg r \<in> set (contents (gs_bus s) ''requests'')"
    and "\<And>r. t = DHandling r \<Longrightarrow> known_in s r"
    and "\<And>m. t = DPublishing m \<Longrightarrow> derived_in s' m"
    and "\<And>m. ResponseMsg m \<in> set (contents b' ''responses'') \<Longrightarrow>
      ResponseMsg m \<in> set (contents (gs_bus s) ''responses'') \<or> derived_in s m"
  shows "pipeline_ok s'"
proof (rule pipeline_okI)
  note pipe = pipeline_okD [OF assms(1)]
  have mono: "derived_in s m \<Longrightarrow> derived_in s' m" for m
    using derived_mono [of "names_of s" "gs_asked s" "gs_answered s" m] by (simp add: assms(2))
  show "known_in s' r" if "RequestMsg r \<in> set (contents (gs_bus s') ''requests'')" for r
    using pipe(1) [OF assms(3)] that by (simp add: assms(2))
  show "known_in s' r" if "gs_dispatching s' = DHandling r" for r
    using assms(4) [of r] that by (simp add: assms(2))
  show "derived_in s' m" if "gs_dispatching s' = DPublishing m" for m
    by (rule assms(5)) (use that in \<open>simp add: assms(2)\<close>)
  show "derived_in s' m" if "ResponseMsg m \<in> set (contents (gs_bus s') ''responses'')" for m
    using assms(6) [of m] that pipe(4) [of m] mono [of m] by (auto simp: assms(2))
  show "derived_in s' m \<and> name = rsc_frontend (rs_context m)" if "gs_responding s' = RDelivering name m" for name m
    using pipe(5) [of name m] that mono [of m] by (simp add: assms(2))
qed

lemma ok_dispatcher_step:
  assumes "backends_ok ok backends" and "frontends_ok tag s" "pipeline_ok s"
    and "dispatcher_step run_tracer rules backends (gs_dispatching s) (gs_bus s) (gs_world s) = Some (task', b', w')"
    and "s' = s\<lparr>gs_dispatching := task', gs_bus := b', gs_world := w',
      gs_answered := gs_answered s @ newly_answered (gs_dispatching s) task'\<rparr>"
  shows "frontends_ok tag s' \<and> pipeline_ok s'"
proof
  show "frontends_ok tag s'" by (rule frontends_ok_log [OF assms(2)]) (auto simp: assms(5))
  note pipe = pipeline_okD [OF assms(3)] and step = pipeline_ok_dispatch [OF assms(3,5)]
  from assms(4) show "pipeline_ok s'"
  proof (cases rule: dispatcher_step_cases)
    case (took request)
    note got = bus_get_keeps [OF took(2)]
    show ?thesis by (rule step) (use got took(3) pipe(1) [of request] in auto)
  next
    case (alien m e)
    note got = bus_get_keeps [OF alien(2)]
    show ?thesis by (rule step) (use got alien(4) in auto)
  next
    case (handled request response)
    have "derived_in s' response"
      using handled pipe(2) [OF handled(1)] handle_request_answers [OF assms(1) handled(2)]
      unfolding derived_def by (intro exI [of _ request]) (simp add: assms(5))
    then show ?thesis by (intro step) (use handled(3,4) in simp_all)
  next
    case (raised request e)
    then show ?thesis by (intro step) simp_all
  next
    case (published response r)
    note items = busq.put_Some_items(2) [OF published(2)]
    show ?thesis
      by (rule step) (use pipe(3) [OF published(1)] items published(3) in \<open>auto split: sum.splits\<close>)
  qed
qed

text \<open>A step of the responder.\<close>

lemma ok_responder_step:
  assumes "frontends_ok tag s" "pipeline_ok s"
    and "responder_step server_handle_response (gs_responding s) (gs_bus s) (gs_frontends s) =
      Some (task', b', frontends')"
    and "s' = s\<lparr>gs_responding := task', gs_bus := b', gs_frontends := frontends'\<rparr>"
  shows "frontends_ok tag s' \<and> pipeline_ok s'"
  using assms(3)
proof (cases rule: responder_step_cases)
  case (took m)
  note pipe = pipeline_okD [OF assms(2)] and got = bus_get_keeps [OF took(2)]
  have "pipeline_ok s'"
  proof (rule pipeline_okI)
    show "derived_in s' m'" if "ResponseMsg m' \<in> set (contents (gs_bus s') ''responses'')" for m'
      using that pipe(4) [of m'] got(2) [of "''responses''"] took(3) by (auto simp: assms(4))
    show "derived_in s' m' \<and> name = rsc_frontend (rs_context m')" if "gs_responding s' = RDelivering name m'" for name m'
      using that pipe(4) [of m'] got(1) took(3,4) by (auto simp: assms(4))
    show "known_in s' r" if "RequestMsg r \<in> set (contents (gs_bus s') ''requests'')" for r
      using that pipe(1) [of r] got(2) [of "''requests''"] took(3) by (auto simp: assms(4))
  qed (use pipe(2,3) took(3) in \<open>simp_all add: assms(4)\<close>)
  moreover have "frontends_ok tag s'" by (rule frontends_ok_log [OF assms(1)]) (simp_all add: assms(4) took(3))
  ultimately show ?thesis by blast
next
  case (gone name message)
  then have "s' = s\<lparr>gs_responding := RWaiting\<rparr>" by (simp add: assms(4))
  then show ?thesis using assms(1,2) by (simp add: frontends_ok_def pipeline_ok_def)
next
  case (delivered name message f)
  let ?s = "s\<lparr>gs_responding := RWaiting\<rparr>"
  have s': "s' = set_frontend name (snd (server_handle_response f message)) ?s"
    using delivered(3-5) by (simp add: assms(4) set_frontend_def)
  have f: "dict_get (gs_frontends ?s) name = Some f" using delivered(2) by simp
  have ok: "frontends_ok tag ?s" "pipeline_ok ?s"
    using assms(1,2) by (simp_all add: frontends_ok_def pipeline_ok_def)
  have "frontend_ok (names_of ?s) (gs_asked ?s) (gs_answered ?s) (tag name) name (snd (server_handle_response f message))"
    by (rule frontend_ok_answer)
      (use ok(1) f delivered(2) pipeline_okD(5) [OF assms(2) delivered(1)] in \<open>auto simp: frontends_ok_def\<close>)
  then show ?thesis using frontends_ok_set [OF ok(1) f] ok(2) pipeline_ok_set [OF f] by (simp add: s')
qed

text \<open>A change within one frontend.\<close>

lemma ok_set_frontend:
  assumes "frontends_ok tag s \<and> pipeline_ok s" "dict_get (gs_frontends s) name = Some fe"
    and "frontend_ok (names_of s) (gs_asked s) (gs_answered s) (tag name) name fe \<Longrightarrow>
      frontend_ok (names_of s) (gs_asked s) (gs_answered s) (tag name) name fe'"
  shows "frontends_ok tag (set_frontend name fe' s) \<and> pipeline_ok (set_frontend name fe' s)"
  using assms frontends_ok_set pipeline_ok_set unfolding frontends_ok_def by blast

lemma frontend_ok_admit:
  assumes "frontend_ok names asked answered tag name fe" "dict_get (ms_conns fe) conn = None"
  shows "frontend_ok names asked answered tag name (admit_client tag conn incoming fe)"
proof (rule frontend_ok_quiet [OF assms(1) server_ok_admit [OF frontend_okD(2) [OF assms(1)] assms(2)]])
  show "from_client tag fe w c" if "dict_get (ms_conns (admit_client tag conn incoming fe)) w = Some c" for w c
    using that from_client_same [of fe w c]
    by (cases "w = conn") (auto simp: from_client_def admit_client_def Let_def)
qed (simp_all add: admit_client_def Let_def)

lemma frontend_ok_same:
  assumes "frontend_ok names asked answered tag name fe"
    and "ms_pending fe' = ms_pending fe" "ms_conns fe' = ms_conns fe" "ms_name fe' = ms_name fe"
    and "ms_written fe' = ms_written fe" "ms_client_counter fe \<le> ms_client_counter fe'"
  shows "frontend_ok names asked answered tag name fe'"
  by (rule frontend_ok_quiet [OF assms(1) server_ok_same [OF frontend_okD(2) [OF assms(1)]]])
    (use assms from_client_same in simp_all)

lemma frontend_ok_arrive:
  assumes "frontend_ok names asked answered tag name fe" "dict_get (ms_conns fe) conn = Some c"
  shows "frontend_ok names asked answered tag name (set_client conn (c\<lparr>cc_incoming := incoming\<rparr>) fe)"
proof (rule frontend_ok_quiet [OF assms(1)])
  show "server_ok tag (set_client conn (c\<lparr>cc_incoming := incoming\<rparr>) fe)"
    by (rule server_ok_set_client [OF frontend_okD(2) [OF assms(1)] assms(2)])
      (simp_all add: server_okD(3) [OF frontend_okD(2) [OF assms(1)] assms(2)])
  show "from_client tag fe w c'"
    if "dict_get (ms_conns (set_client conn (c\<lparr>cc_incoming := incoming\<rparr>) fe)) w = Some c'" for w c'
    by (rule from_client_set [OF assms(2) _ _ that]) simp_all
qed (simp_all add: set_client_def)

lemma gateway_reachable_ok:
  assumes "backends_ok ok backends"
  shows "gateway_reachable run_tracer rules backends tag s \<Longrightarrow> frontends_ok tag s \<and> pipeline_ok s"
proof (induction rule: gateway_reachable.induct)
  case (gw_start frontends b w)
  have "frontend_ok (dom (dict_get frontends)) [] [] (tag name) name fe" if "dict_get frontends name = Some fe" for name fe
    using gw_start(1) [OF that] by (simp add: frontend_ok_def fresh_server_def server_ok_idle)
  with gw_start(2,3) show ?case by (simp add: frontends_ok_def pipeline_ok_def)
next
  case (gw_connect s name fe conn incoming)
  show ?case by (rule ok_set_frontend [OF gw_connect.IH gw_connect.hyps(2) frontend_ok_admit]) (assumption, rule gw_connect.hyps(3))
next
  case (gw_refuse s name fe)
  show ?case by (rule ok_set_frontend [OF gw_refuse.IH gw_refuse.hyps(2) frontend_ok_same]) (assumption, simp_all)
next
  case (gw_arrive s name fe conn c events)
  show ?case by (rule ok_set_frontend [OF gw_arrive.IH gw_arrive.hyps(2) frontend_ok_arrive]) (assumption, rule gw_arrive.hyps(3))
next
  case (gw_client s name fe metadata conn fe' b')
  then show ?case using ok_client_step [OF _ _ gw_client.hyps(2,3) refl] by blast
next
  case (gw_dispatch s task' b' w')
  then show ?case using ok_dispatcher_step [OF assms _ _ gw_dispatch.hyps(2) refl] by blast
next
  case (gw_respond s task' b' frontends')
  then show ?case using ok_responder_step [OF _ _ gw_respond.hyps(2) refl] by blast
next
  case (gw_world s w)
  then show ?case by (simp add: frontends_ok_def pipeline_ok_def)
next
  case (gw_foreign s routed r b')
  have "contents b' = contents (gs_bus s) \<or>
      contents b' = (contents (gs_bus s))(''requests'' := contents (gs_bus s) ''requests'' @ [RequestMsg routed])"
    using gw_foreign.hyps(3) busq.put_Some_items(2) [of run_tracer "gs_bus s" "''requests''" "RequestMsg routed"]
      bus_publish_None [of run_tracer "gs_bus s" "''requests''" "RequestMsg routed"] by (cases r) auto
  moreover have "known_in s routed" using gw_foreign.hyps(2) by (auto simp: known_def)
  ultimately show ?case
    using gw_foreign.IH by (auto simp: frontends_ok_def pipeline_ok_def)
next
  case (gw_stop s name fe)
  show ?case
    by (rule ok_set_frontend [OF gw_stop.IH gw_stop.hyps(2) frontend_ok_quiet])
      (simp_all add: server_stop_def server_ok_idle)
next
  case (gw_more s name fe fe')
  show ?case
    by (rule ok_set_frontend [OF gw_more.IH gw_more.hyps(2) frontend_ok_same])
      (assumption, simp_all add: same_server [OF gw_more.hyps(3)])
qed

text \<open>What the two logs hold: requests decoded from a frame, and outcomes of the dispatcher's work.\<close>

lemma newly_asked_decoded:
  assumes "client_step run_tracer metadata conn fe b = Some (fe', b')"
    and "(name, conn', tid, r) \<in> set (newly_asked conn fe fe')"
  shows "\<exists>adu. request_from_adu adu None = Inr (rr_pdu r)"
proof (cases rule: client_step_cases [OF assms(1)])
  case (3 c rest tid' proto n unit payload)
  show ?thesis
  proof (cases rule: accept_frame_cases [of "metadata (cc_client_id c)" conn "c\<lparr>cc_incoming := rest\<rparr>" tid' proto unit payload fe])
    case skipped
    with 3 assms(2) show ?thesis by (simp add: newly_asked_def set_client_def)
  next
    case (accepted request info)
    with 3 assms(2) have "rr_pdu r = request" by (simp add: newly_asked_def set_client_def routed_frame_def)
    with accepted(1) show ?thesis by blast
  qed
qed (use assms(2) in \<open>auto simp: newly_asked_def end_client_def set_client_def\<close>)

lemma newly_answered_handled:
  assumes "dispatcher_step run_tracer rules backends task b w = Some (task', b', w')"
    and "(r, m) \<in> set (newly_answered task task')"
  shows "handle_request rules backends r w = Some (Inr m, w')"
  using assms(1) by (cases rule: dispatcher_step_cases) (use assms(2) in \<open>auto split: sum.splits\<close>)

lemma gateway_logs:
  assumes "gateway_reachable run_tracer rules backends tag s"
  shows "(\<forall>r m. (r, m) \<in> set (gs_answered s) \<longrightarrow> (\<exists>w w'. handle_request rules backends r w = Some (Inr m, w'))) \<and>
    (\<forall>name conn tid r. (name, conn, tid, r) \<in> set (gs_asked s) \<longrightarrow>
       (\<exists>adu. request_from_adu adu None = Inr (rr_pdu r)))"
  using assms
proof (induction rule: gateway_reachable.induct)
  case (gw_client s name fe metadata conn fe' b')
  then show ?case using newly_asked_decoded [OF gw_client.hyps(3)] by (auto simp: set_frontend_def)
next
  case (gw_dispatch s task' b' w')
  then show ?case using newly_answered_handled [OF gw_dispatch.hyps(2)] by (simp add: all_conj_distrib) blast
qed (simp_all add: set_frontend_def)

section \<open>The system as a program\<close>

text \<open>The steps as functions, to run the system on a schedule.\<close>

datatype gateway_move =
    Connect string nat "stream_event list"
  | ClientTurn string nat
  | DispatcherTurn
  | ResponderTurn

fun gateway_turn ::
  "('t \<Rightarrow> string \<Rightarrow> gateway_message \<Rightarrow> exn option) \<Rightarrow> router \<Rightarrow> 'w backends \<Rightarrow> (string \<Rightarrow> string) \<Rightarrow>
   gateway_move \<Rightarrow> ('t, 'w, 'a) gateway_sys \<Rightarrow> ('t, 'w, 'a) gateway_sys option" where
  "gateway_turn run_tracer rules backends tag (Connect name conn incoming) s =
     (case dict_get (gs_frontends s) name of
        None \<Rightarrow> None
      | Some fe \<Rightarrow>
          if dict_get (ms_conns fe) conn = None \<and> conn \<notin> set (map fst (ms_received fe))
          then Some (set_frontend name (admit_client (tag name) conn incoming fe) s) else None)"
| "gateway_turn run_tracer rules backends tag (ClientTurn name conn) s =
     (case dict_get (gs_frontends s) name of
        None \<Rightarrow> None
      | Some fe \<Rightarrow>
          (case client_step run_tracer (\<lambda>_ _. []) conn fe (gs_bus s) of
             None \<Rightarrow> None
           | Some (fe', b') \<Rightarrow>
               Some (set_frontend name fe' (s\<lparr>gs_bus := b', gs_asked := gs_asked s @ newly_asked conn fe fe'\<rparr>))))"
| "gateway_turn run_tracer rules backends tag DispatcherTurn s =
     (case dispatcher_step run_tracer rules backends (gs_dispatching s) (gs_bus s) (gs_world s) of
        None \<Rightarrow> None
      | Some (task', b', w') \<Rightarrow>
          Some (s\<lparr>gs_dispatching := task', gs_bus := b', gs_world := w',
            gs_answered := gs_answered s @ newly_answered (gs_dispatching s) task'\<rparr>))"
| "gateway_turn run_tracer rules backends tag ResponderTurn s =
     (case responder_step server_handle_response (gs_responding s) (gs_bus s) (gs_frontends s) of
        None \<Rightarrow> None
      | Some (task', b', frontends') \<Rightarrow>
          Some (s\<lparr>gs_responding := task', gs_bus := b', gs_frontends := frontends'\<rparr>))"

fun gateway_run ::
  "('t \<Rightarrow> string \<Rightarrow> gateway_message \<Rightarrow> exn option) \<Rightarrow> router \<Rightarrow> 'w backends \<Rightarrow> (string \<Rightarrow> string) \<Rightarrow>
   gateway_move list \<Rightarrow> ('t, 'w, 'a) gateway_sys \<Rightarrow> ('t, 'w, 'a) gateway_sys option" where
  "gateway_run run_tracer rules backends tag [] s = Some s"
| "gateway_run run_tracer rules backends tag (m # ms) s =
     (case gateway_turn run_tracer rules backends tag m s of
        None \<Rightarrow> None
      | Some s' \<Rightarrow> gateway_run run_tracer rules backends tag ms s')"

lemma gateway_turn_reachable:
  assumes "gateway_reachable run_tracer rules backends tag s"
    and "gateway_turn run_tracer rules backends tag m s = Some s'"
  shows "gateway_reachable run_tracer rules backends tag s'"
proof (cases m)
  case (Connect name conn incoming)
  with assms show ?thesis by (auto split: option.splits if_splits intro: gw_connect)
next
  case (ClientTurn name conn)
  with assms show ?thesis by (auto split: option.splits intro: gw_client)
next
  case DispatcherTurn
  with assms show ?thesis by (auto split: option.splits intro: gw_dispatch)
next
  case ResponderTurn
  with assms show ?thesis by (auto split: option.splits intro: gw_respond)
qed

lemma gateway_run_reachable:
  "gateway_reachable run_tracer rules backends tag s \<Longrightarrow>
   gateway_run run_tracer rules backends tag ms s = Some s' \<Longrightarrow>
   gateway_reachable run_tracer rules backends tag s'"
  by (induction ms arbitrary: s) (auto split: option.splits intro: gateway_turn_reachable)

section \<open>Properties\<close>

text \<open>C1. No answer reaches the wrong client, in any interleaving of any number of clients and frontends
  with the dispatcher and the responder: every frame written to a connection carries a transaction
  identifier under which that connection sent a request that was decoded from one of its frames,
  and holds the encoded response that the dispatcher got by handling exactly that request. Clients
  may reuse and share transaction identifiers, connect and disconnect at any time.\<close>

theorem no_answer_goes_astray:
  assumes "backends_ok ok backends" and "gateway_reachable run_tracer rules backends tag s"
    and "dict_get (gs_frontends s) name = Some fe" and "(conn, frame) \<in> set (ms_written fe)"
  shows "\<exists>tid r m adu sent w w'. (name, conn, tid, r) \<in> set (gs_asked s) \<and> 0 \<le> tid \<and> tid < 65536 \<and>
    request_from_adu sent None = Inr (rr_pdu r) \<and>
    handle_request rules backends r w = Some (Inr m, w') \<and>
    response_adu m = Inr (Some adu) \<and> frame = be16 tid @ [0, 0] @ be16 (int (length adu)) @ adu"
proof -
  have "own_answer (gs_asked s) (gs_answered s) name (conn, frame)"
    using gateway_reachable_ok [OF assms(1,2)] assms(3,4) frontend_okD(5) unfolding frontends_ok_def by blast
  then obtain tid r m adu where "(name, conn, tid, r) \<in> set (gs_asked s)" "(r, m) \<in> set (gs_answered s)"
    "0 \<le> tid" "tid < 65536" "response_adu m = Inr (Some adu)" "frame = be16 tid @ [0, 0] @ be16 (int (length adu)) @ adu"
    unfolding own_answer_def by auto
  with gateway_logs [OF assms(2)] show ?thesis by blast
qed

text \<open>Two clients use the same transaction identifier at the same time; the second is served first.\<close>

definition two_clients :: "gateway_move list" where
  "two_clients =
     [Connect ''tcp'' 0 (map Arrive (be16 9 @ [0, 0] @ be16 6 @ [1, 3, 0, 0, 0, 1])),
      Connect ''tcp'' 1 (map Arrive (be16 9 @ [0, 0] @ be16 6 @ [2, 3, 0, 0, 0, 1])),
      ClientTurn ''tcp'' 0, ClientTurn ''tcp'' 0, ClientTurn ''tcp'' 1, ClientTurn ''tcp'' 1,
      ClientTurn ''tcp'' 1, ClientTurn ''tcp'' 0,
      DispatcherTurn, DispatcherTurn, DispatcherTurn, DispatcherTurn, ResponderTurn,
      DispatcherTurn, DispatcherTurn, ResponderTurn, ResponderTurn, ResponderTurn]"

definition idle_gateway :: "(unit, int list, unit) gateway_sys" where
  "idle_gateway = \<lparr>gs_frontends = [(''tcp'', idle_server)], gs_bus = bus_init 10, gs_dispatching = DWaiting,
     gs_responding = RWaiting, gs_world = [7], gs_asked = [], gs_answered = []\<rparr>"

theorem no_answer_goes_astray_witness:
  "\<exists>s r1 r2. gateway_run (\<lambda>_ _ _. None) [rule_to ''tcp'' ''line'' any_match] [(''line'', echo_backend ''line'')] (\<lambda>_. ''-c'')
      two_clients idle_gateway = Some s \<and>
    map_option ms_written (dict_get (gs_frontends s) ''tcp'') =
      Some [(1, be16 9 @ [0, 0] @ be16 5 @ [2, 3, 2, 0, 7]), (0, be16 9 @ [0, 0] @ be16 5 @ [1, 3, 2, 0, 7])] \<and>
    (''tcp'', 1, 9, r1) \<in> set (gs_asked s) \<and> (''tcp'', 0, 9, r2) \<in> set (gs_asked s)"
proof -
  let ?run = "\<lambda>_ _ _. None" and ?tag = "\<lambda>_ :: string. ''-c''"
  let ?rules = "[rule_to ''tcp'' ''line'' any_match]" and ?backends = "[(''line'', echo_backend ''line'')]"
  have "case gateway_run ?run ?rules ?backends ?tag two_clients idle_gateway of
      None \<Rightarrow> False
    | Some s \<Rightarrow> map_option ms_written (dict_get (gs_frontends s) ''tcp'') =
        Some [(1, be16 9 @ [0, 0] @ be16 5 @ [2, 3, 2, 0, 7]), (0, be16 9 @ [0, 0] @ be16 5 @ [1, 3, 2, 0, 7])]"
    by code_simp
  then obtain s where s: "gateway_run ?run ?rules ?backends ?tag two_clients idle_gateway = Some s"
    "map_option ms_written (dict_get (gs_frontends s) ''tcp'') =
      Some [(1, be16 9 @ [0, 0] @ be16 5 @ [2, 3, 2, 0, 7]), (0, be16 9 @ [0, 0] @ be16 5 @ [1, 3, 2, 0, 7])]"
    by (auto split: option.splits)
  have "gateway_reachable ?run ?rules ?backends ?tag idle_gateway"
    unfolding idle_gateway_def
    by (rule gw_start) (auto simp: idle_server_def fresh_server_def bus_init_def contents_def split: if_splits)
  then have r: "gateway_reachable ?run ?rules ?backends ?tag s" by (rule gateway_run_reachable) (fact s(1))
  from s(2) obtain fe where fe: "dict_get (gs_frontends s) ''tcp'' = Some fe"
    "ms_written fe = [(1, be16 9 @ [0, 0] @ be16 5 @ [2, 3, 2, 0, 7]), (0, be16 9 @ [0, 0] @ be16 5 @ [1, 3, 2, 0, 7])]"
    by auto
  have asked: "\<exists>r. (''tcp'', conn, 9, r) \<in> set (gs_asked s)"
    if w: "(conn, be16 9 @ rest) \<in> set (ms_written fe)" for conn rest
  proof -
    obtain tid r adu where "(''tcp'', conn, tid, r) \<in> set (gs_asked s)" "0 \<le> tid" "tid < 65536"
      "be16 9 @ rest = be16 tid @ [0, 0] @ be16 (int (length adu)) @ adu"
      using no_answer_goes_astray [OF backends_ok_echo r fe(1) w] by blast
    moreover from this have "be16 9 = be16 tid" by (simp add: append_eq_append_conv)
    then have "tid = 9" using be16_inject [of 9 tid] calculation(2,3) by simp
    ultimately show ?thesis by blast
  qed
  obtain r1 r2 where "(''tcp'', 1, 9, r1) \<in> set (gs_asked s)" "(''tcp'', 0, 9, r2) \<in> set (gs_asked s)"
    using asked [of 1 "[0, 0] @ be16 5 @ [2, 3, 2, 0, 7]"] asked [of 0 "[0, 0] @ be16 5 @ [1, 3, 2, 0, 7]"] fe(2)
    by auto
  with s show ?thesis by blast
qed

end
