(* ===== verification/Py_Values.thy ===== *)
theory Py_Values
  imports Complex_Main Py_Bytes
begin

text \<open>
  What the client library and the command line use of Python's values: arguments of any of the
  builtin types, \<open>int()\<close> of a value or a text, \<open>bool()\<close>, iteration, \<open>str.strip\<close>, and the module
  \<open>struct\<close> for a format chosen by the user. Texts are ASCII; a float is its rational value.
\<close>

section \<open>Texts\<close>

definition int_space :: "char \<Rightarrow> bool" where
  "int_space c \<longleftrightarrow> (of_char c :: nat) \<in> {9, 10, 11, 12, 13, 32}"

definition str_space :: "char \<Rightarrow> bool" where
  "str_space c \<longleftrightarrow> int_space c \<or> (of_char c :: nat) \<in> {28, 29, 30, 31}"

definition strip_chars :: "(char \<Rightarrow> bool) \<Rightarrow> string \<Rightarrow> string" where
  "strip_chars space s = rev (dropWhile space (rev (dropWhile space s)))"

definition decimal_char :: "char \<Rightarrow> bool" where
  "decimal_char c \<longleftrightarrow> (48 :: nat) \<le> of_char c \<and> of_char c \<le> (57 :: nat)"

definition digit_of :: "int \<Rightarrow> char \<Rightarrow> int option" where
  "digit_of base c =
     (if decimal_char c \<and> of_char c - 48 < base then Some (of_char c - 48) else None)"

text \<open>Digits, with single underscores between them.\<close>

fun digit_run :: "int \<Rightarrow> int \<Rightarrow> string \<Rightarrow> int option" where
  "digit_run base acc [] = None"
| "digit_run base acc (c # cs) =
     (case digit_of base c of
        None \<Rightarrow> None
      | Some d \<Rightarrow>
          (case cs of
             [] \<Rightarrow> Some (base * acc + d)
           | x # ys \<Rightarrow> if x = CHR ''_'' then digit_run base (base * acc + d) ys
                       else digit_run base (base * acc + d) (x # ys)))"

text \<open>A leading \<open>0o\<close>, which \<open>int(text, 8)\<close> allows, with an underscore after it.\<close>

definition drop_octal_prefix :: "string \<Rightarrow> string" where
  "drop_octal_prefix s =
     (case s of
        z # x # rest \<Rightarrow>
          if z = CHR ''0'' \<and> (x = CHR ''o'' \<or> x = CHR ''O'')
          then (case rest of [] \<Rightarrow> [] | u # rest' \<Rightarrow> if u = CHR ''_'' then rest' else rest)
          else s
      | _ \<Rightarrow> s)"

definition int_of_text :: "int \<Rightarrow> string \<Rightarrow> int option" where
  "int_of_text base s =
     (let t = strip_chars int_space s;
          neg = (t \<noteq> [] \<and> hd t = CHR ''-'');
          u = (if t \<noteq> [] \<and> (hd t = CHR ''-'' \<or> hd t = CHR ''+'') then tl t else t);
          ds = (if base = 8 then drop_octal_prefix u else u)
      in if base = 10 \<and> 4300 < length (filter decimal_char ds) then None
         else map_option (\<lambda>v. if neg then - v else v) (digit_run base 0 ds))"

section \<open>Arguments\<close>

datatype py_arg =
    IntArg int
  | BoolArg bool
  | FloatArg rat
  | BytesArg bytes
  | StrArg string
  | ListArg "py_arg list"

definition int_literal :: "string \<Rightarrow> int result" where
  "int_literal s =
     (case int_of_text 10 s of
        Some v \<Rightarrow> Inr v
      | None \<Rightarrow> Inl (ValueError ''invalid literal for int() with base 10''))"

fun py_int :: "py_arg \<Rightarrow> int result" where
  "py_int (IntArg k) = Inr k"
| "py_int (BoolArg b) = Inr (of_bool b)"
| "py_int (FloatArg q) = Inr (if 0 \<le> q then \<lfloor>q\<rfloor> else \<lceil>q\<rceil>)"
| "py_int (BytesArg bs) = int_literal (map (char_of \<circ> uint) bs)"
| "py_int (StrArg s) = int_literal s"
| "py_int (ListArg _) = Inl (TypeError ''int() argument must be a string, a bytes-like object or a real number'')"

fun py_bool :: "py_arg \<Rightarrow> bool" where
  "py_bool (IntArg k) = (k \<noteq> 0)"
| "py_bool (BoolArg b) = b"
| "py_bool (FloatArg q) = (q \<noteq> 0)"
| "py_bool (BytesArg bs) = (bs \<noteq> [])"
| "py_bool (StrArg s) = (s \<noteq> [])"
| "py_bool (ListArg xs) = (xs \<noteq> [])"

fun py_iter :: "py_arg \<Rightarrow> py_arg list result" where
  "py_iter (ListArg xs) = Inr xs"
| "py_iter (BytesArg bs) = Inr (map (IntArg \<circ> uint) bs)"
| "py_iter (StrArg s) = Inr (map (\<lambda>c. StrArg [c]) s)"
| "py_iter _ = Inl (TypeError ''object is not iterable'')"

text \<open>A generator consumed by \<open>tuple\<close>: the values, or the first exception.\<close>

fun traverse :: "('a \<Rightarrow> 'b result) \<Rightarrow> 'a list \<Rightarrow> 'b list result" where
  "traverse f [] = Inr []"
| "traverse f (x # xs) = bind_result (f x) (\<lambda>y. bind_result (traverse f xs) (\<lambda>ys. Inr (y # ys)))"

text \<open>\<open>xs[:n]\<close>.\<close>

definition slice_to :: "'a list \<Rightarrow> int \<Rightarrow> 'a list" where
  "slice_to xs n = (if 0 \<le> n then take (nat n) xs else take (nat (int (length xs) + n)) xs)"

section \<open>The module struct\<close>

record struct_module =
  sm_calcsize :: "string \<Rightarrow> nat result"
  sm_pack :: "string \<Rightarrow> py_arg list \<Rightarrow> bytes result"
  sm_unpack :: "string \<Rightarrow> bytes \<Rightarrow> py_arg list result"

text \<open>
  What the documentation of the module promises: what was packed has the calculated size, and a
  format of integer codes gives the integers back that were packed.
\<close>

definition int_format :: "string \<Rightarrow> bool" where
  "int_format fmt \<longleftrightarrow> set fmt \<subseteq> set ''<>!bBhHiIlLqQ''"

locale struct_laws =
  fixes struct :: struct_module
  assumes pack_size: "sm_pack struct fmt args = Inr raw \<Longrightarrow> sm_calcsize struct fmt = Inr (length raw)"
    and unpack_pack: "int_format fmt \<Longrightarrow> sm_pack struct fmt (map IntArg ks) = Inr raw \<Longrightarrow>
      sm_unpack struct fmt raw = Inr (map IntArg ks)"

text \<open>The module on the formats of standard size without padding, made of integer codes.\<close>

definition code_size :: "char \<Rightarrow> nat option" where
  "code_size c =
     (if c = CHR ''b'' \<or> c = CHR ''B'' then Some 1
      else if c = CHR ''h'' \<or> c = CHR ''H'' then Some 2
      else if c \<in> set ''iIlL'' then Some 4
      else if c = CHR ''q'' \<or> c = CHR ''Q'' then Some 8 else None)"

definition code_signed :: "char \<Rightarrow> bool" where
  "code_signed c \<longleftrightarrow> c \<in> set ''bhilq''"

fun big_endian :: "nat \<Rightarrow> int \<Rightarrow> bytes" where
  "big_endian 0 v = []"
| "big_endian (Suc n) v = big_endian n (v div 256) @ [word_of_int v]"

definition code_range :: "char \<Rightarrow> nat \<Rightarrow> int \<Rightarrow> bool" where
  "code_range c n v \<longleftrightarrow>
     (if code_signed c then - (2 ^ (8 * n - 1)) \<le> v \<and> v < 2 ^ (8 * n - 1) else 0 \<le> v \<and> v < 2 ^ (8 * n))"

definition pack_code :: "bool \<Rightarrow> char \<Rightarrow> py_arg \<Rightarrow> bytes result" where
  "pack_code little c x =
     (case (code_size c, x) of
        (Some n, IntArg v) \<Rightarrow>
          if code_range c n v then Inr ((if little then rev else id) (big_endian n v))
          else Inl (StructError ''argument out of range'')
      | (None, _) \<Rightarrow> Inl (StructError ''bad char in struct format'')
      | _ \<Rightarrow> Inl (StructError ''required argument is not an integer''))"

definition unpack_code :: "bool \<Rightarrow> char \<Rightarrow> bytes \<Rightarrow> int" where
  "unpack_code little c raw =
     (let v = from_bytes_big ((if little then rev else id) raw); n = 8 * length raw
      in if code_signed c \<and> 2 ^ (n - 1) \<le> v then v - 2 ^ n else v)"

fun pack_codes :: "bool \<Rightarrow> string \<Rightarrow> py_arg list \<Rightarrow> bytes result" where
  "pack_codes little [] [] = Inr []"
| "pack_codes little (c # cs) (x # xs) =
     bind_result (pack_code little c x) (\<lambda>raw. bind_result (pack_codes little cs xs) (\<lambda>rest. Inr (raw @ rest)))"
| "pack_codes little _ _ = Inl (StructError ''pack expected another number of items for packing'')"

fun codes_size :: "string \<Rightarrow> nat result" where
  "codes_size [] = Inr 0"
| "codes_size (c # cs) =
     (case code_size c of
        None \<Rightarrow> Inl (StructError ''bad char in struct format'')
      | Some n \<Rightarrow> map_sum id ((+) n) (codes_size cs))"

fun unpack_codes :: "bool \<Rightarrow> string \<Rightarrow> bytes \<Rightarrow> int list" where
  "unpack_codes little [] raw = []"
| "unpack_codes little (c # cs) raw =
     (let n = the (code_size c) in unpack_code little c (take n raw) # unpack_codes little cs (drop n raw))"

definition byte_order :: "string \<Rightarrow> bool result" where
  "byte_order fmt =
     (if fmt \<noteq> [] \<and> (hd fmt = CHR ''>'' \<or> hd fmt = CHR ''!'') then Inr False
      else if fmt \<noteq> [] \<and> hd fmt = CHR ''<'' then Inr True
      else Inl (StructError ''bad char in struct format''))"

definition int_struct :: struct_module where
  "int_struct =
     \<lparr>sm_calcsize = (\<lambda>fmt. bind_result (byte_order fmt) (\<lambda>_. codes_size (tl fmt))),
      sm_pack = (\<lambda>fmt args. bind_result (byte_order fmt) (\<lambda>little. pack_codes little (tl fmt) args)),
      sm_unpack = (\<lambda>fmt raw. bind_result (byte_order fmt) (\<lambda>little.
        bind_result (codes_size (tl fmt)) (\<lambda>n.
          if length raw \<noteq> n then Inl (StructError ''unpack requires a buffer of the format's size'')
          else Inr (map IntArg (unpack_codes little (tl fmt) raw)))))\<rparr>"

lemma length_big_endian [simp]: "length (big_endian n v) = n"
  by (induction n v rule: big_endian.induct) simp_all

lemma from_bytes_big_snoc: "from_bytes_big (bs @ [b]) = 256 * from_bytes_big bs + uint b"
  by (simp add: from_bytes_big_def)

lemma from_bytes_big_endian: "from_bytes_big (big_endian n v) = v mod 256 ^ n"
proof (induction n v rule: big_endian.induct)
  case (2 n v)
  have "v mod 256 ^ Suc n = 256 * (v div 256 mod 256 ^ n) + v mod 256"
    using mod_mult2_eq' [of v 256 "256 ^ n"] by (simp add: zmod_zmult2_eq)
  with 2 show ?case by (simp add: from_bytes_big_snoc)
qed (simp add: from_bytes_big_def)

lemma code_size_pos: "code_size c = Some n \<Longrightarrow> 0 < n"
  by (auto simp: code_size_def split: if_splits)

lemma unpack_pack_code:
  assumes "code_size c = Some n" "code_range c n v"
  shows "unpack_code little c ((if little then rev else id) (big_endian n v)) = v"
proof -
  define m where "m = 8 * n - 1"
  have m: "8 * n = Suc m" using code_size_pos [OF assms(1)] by (simp add: m_def)
  have range: "if code_signed c then - (2 ^ m) \<le> v \<and> v < 2 ^ m else 0 \<le> v \<and> v < 2 ^ Suc m"
    using assms(2) unfolding code_range_def m diff_Suc_1 .
  have pow: "(256 :: int) ^ n = 2 ^ (8 * n)" by (simp add: power_mult)
  have len: "length ((if little then rev else id) (big_endian n v)) = n" by simp
  have val: "from_bytes_big ((if little then rev else id) ((if little then rev else id) (big_endian n v))) =
      v mod 2 ^ Suc m"
    by (simp add: from_bytes_big_endian pow m)
  have "(if code_signed c \<and> 2 ^ m \<le> v mod 2 ^ Suc m then v mod 2 ^ Suc m - 2 ^ Suc m
      else v mod 2 ^ Suc m) = v"
  proof (cases "v < 0")
    case True
    then have s: "code_signed c" "- (2 ^ m) \<le> v"
      using range by (auto split: if_splits)
    have "v mod 2 ^ Suc m = (v + 2 ^ Suc m) mod 2 ^ Suc m" by simp
    also have "\<dots> = v + 2 ^ Suc m" using s(2) True by (intro mod_pos_pos_trivial) simp_all
    finally show ?thesis using s True by simp
  next
    case False
    have "(2 :: int) ^ m \<le> 2 ^ Suc m" by simp
    moreover have "v < 2 ^ m \<or> v < 2 ^ Suc m" using range by (auto split: if_splits)
    ultimately have "v < 2 ^ Suc m" by linarith
    with False have "v mod 2 ^ Suc m = v" by (intro mod_pos_pos_trivial) simp_all
    moreover have "code_signed c \<Longrightarrow> v < 2 ^ m" using range by simp
    ultimately show ?thesis by (auto simp: not_le simp del: power_Suc)
  qed
  then show ?thesis unfolding unpack_code_def Let_def len val m by simp
qed

lemma pack_code_Inr:
  assumes "pack_code little c x = Inr raw"
  shows "\<exists>n v. code_size c = Some n \<and> x = IntArg v \<and> code_range c n v \<and>
    raw = (if little then rev else id) (big_endian n v)"
  using assms by (cases "code_size c"; cases x) (simp_all add: pack_code_def split: if_split_asm)

lemma pack_code_size:
  "pack_code little c x = Inr raw \<Longrightarrow> code_size c = Some (length raw)"
  using pack_code_Inr [of little c x raw] by (auto split: if_splits)

lemma pack_codes_size: "pack_codes little cs xs = Inr raw \<Longrightarrow> codes_size cs = Inr (length raw)"
  by (induction little cs xs arbitrary: raw rule: pack_codes.induct)
    (auto simp: bind_result_Inr_iff dest: pack_code_size)

lemma unpack_pack_codes:
  "pack_codes little cs (map IntArg ks) = Inr raw \<Longrightarrow> unpack_codes little cs raw = ks"
proof (induction cs arbitrary: ks raw)
  case Nil
  then show ?case by (cases ks) simp_all
next
  case (Cons c cs)
  then obtain k ks' where ks: "ks = k # ks'" by (cases ks) auto
  with Cons.prems obtain r rs where r: "pack_code little c (IntArg k) = Inr r"
    "pack_codes little cs (map IntArg ks') = Inr rs" "raw = r @ rs"
    by (auto simp: bind_result_Inr_iff)
  obtain n where n: "code_size c = Some n" "code_range c n k" "r = (if little then rev else id) (big_endian n k)"
    using pack_code_Inr [OF r(1)] by auto
  have "length r = n" using n(3) by simp
  then show ?case
    using Cons.IH [OF r(2)] unpack_pack_code [OF n(1,2), of little] by (simp add: ks r(3) n(1,3) Let_def)
qed

interpretation int_struct: struct_laws int_struct
proof unfold_locales
  fix fmt args raw assume p: "sm_pack int_struct fmt args = Inr raw"
  then obtain little where "byte_order fmt = Inr little" "pack_codes little (tl fmt) args = Inr raw"
    by (auto simp: int_struct_def bind_result_Inr_iff)
  then show "sm_calcsize int_struct fmt = Inr (length raw)"
    by (simp add: int_struct_def pack_codes_size)
next
  fix fmt ks raw assume p: "sm_pack int_struct fmt (map IntArg ks) = Inr raw"
  then obtain little where "byte_order fmt = Inr little" "pack_codes little (tl fmt) (map IntArg ks) = Inr raw"
    by (auto simp: int_struct_def bind_result_Inr_iff)
  then show "sm_unpack int_struct fmt raw = Inr (map IntArg ks)"
    by (simp add: int_struct_def pack_codes_size unpack_pack_codes)
qed

end
