(* ===== verification/Service_Control.thy ===== *)
theory Service_Control
  imports Config Py_Values
begin

text \<open>
  \<open>modbusgw/cli.py\<close>: the service commands start, stop, reload, status and restart, which find the
  gateway by its pid file and talk to it by signals. The machine is the record \<open>world\<close> (clock, files,
  processes; \<open>w_signals\<close> and \<open>w_output\<close> record what was sent and printed) and the record
  \<open>environment\<close>, which says what happens in it meanwhile. Paths are normalised POSIX paths.
\<close>

section \<open>The machine\<close>

datatype process_status = Absent | Permitted | Forbidden

datatype file_content = Readable string | NotUtf8

text \<open>
  \<open>w_procs\<close> is about processes, by their positive identifiers; \<open>w_members\<close>: the processes, other than
  the command itself, that \<open>os.kill\<close> addresses by a number that is not positive (a process group, or
  every process for \<open>-1\<close>).
\<close>

record world =
  w_now :: rat
  w_files :: "string \<Rightarrow> file_content option"
  w_procs :: "int \<Rightarrow> process_status"
  w_members :: "int \<Rightarrow> int list"
  w_signals :: "(int \<times> int) list"
  w_output :: "string list"

datatype json = JsonString string | JsonObject "(string \<times> json) list" | JsonOther

text \<open>What \<open>float\<close> makes of an argument.\<close>

datatype py_float = Finite rat | PosInf | NegInf | NotANumber

text \<open>\<open>env_foreground\<close>: a gateway in the foreground; \<open>None\<close>: it is never ended.\<close>

record environment =
  env_sleep :: "rat \<Rightarrow> world \<Rightarrow> world"
  env_signal :: "int \<Rightarrow> int \<Rightarrow> world \<Rightarrow> world"
  env_can_unlink :: "string \<Rightarrow> world \<Rightarrow> bool"
  env_can_mkdir :: "string \<Rightarrow> world \<Rightarrow> bool"
  env_expanduser :: "string \<Rightarrow> string"
  env_load_config :: "string \<Rightarrow> world \<Rightarrow> gateway_config result"
  env_str_float :: "py_float \<Rightarrow> string"
  env_load_json :: "string \<Rightarrow> world \<Rightarrow> json option"
  env_foreground :: "string \<Rightarrow> world \<Rightarrow> (unit result \<times> world) option"
  env_daemonize :: "string \<Rightarrow> string option \<Rightarrow> string \<Rightarrow> int \<Rightarrow> world \<Rightarrow> unit result \<times> world"

definition unlink_suppressed :: "environment \<Rightarrow> string \<Rightarrow> world \<Rightarrow> world" where
  "unlink_suppressed env path w =
     (if env_can_unlink env path w then w\<lparr>w_files := (w_files w)(path := None)\<rparr> else w)"

definition print_line :: "string \<Rightarrow> world \<Rightarrow> world" where
  "print_line line w = w\<lparr>w_output := w_output w @ [line]\<rparr>"

text \<open>
  \<open>os.kill\<close>: the signal goes to every process addressed that the user may signal; there must be one,
  or else the call fails. Signal 0 only asks.
\<close>

datatype kill_result = Killed | LookupFailed | PermissionDenied | PidTooLarge

definition kill_targets :: "int \<Rightarrow> world \<Rightarrow> int list" where
  "kill_targets pid w = filter (\<lambda>p. w_procs w p \<noteq> Absent) (if 0 < pid then [pid] else w_members w pid)"

definition permitted_targets :: "int \<Rightarrow> world \<Rightarrow> int list" where
  "permitted_targets pid w = filter (\<lambda>p. w_procs w p = Permitted) (kill_targets pid w)"

definition send_signal :: "environment \<Rightarrow> int \<Rightarrow> world \<Rightarrow> int \<Rightarrow> world" where
  "send_signal env sig w p = env_signal env p sig (w\<lparr>w_signals := w_signals w @ [(p, sig)]\<rparr>)"

definition os_kill :: "environment \<Rightarrow> int \<Rightarrow> int \<Rightarrow> world \<Rightarrow> kill_result \<times> world" where
  "os_kill env pid sig w =
     (if pid < - 2147483648 \<or> 2147483647 < pid then (PidTooLarge, w)
      else if kill_targets pid w = [] then (LookupFailed, w)
      else if permitted_targets pid w = [] then (PermissionDenied, w)
      else (Killed, if sig = 0 then w else foldl (send_signal env sig) w (permitted_targets pid w)))"

fun kill_error :: "kill_result \<Rightarrow> exn" where
  "kill_error PidTooLarge = OverflowError ''Python int too large to convert to C int''"
| "kill_error LookupFailed = OSError ''No such process''"
| "kill_error _ = OSError ''Operation not permitted''"

section \<open>Arguments and files\<close>

definition lower_char :: "char \<Rightarrow> char" where
  "lower_char c = (if (65 :: nat) \<le> of_char c \<and> of_char c \<le> (90 :: nat) then char_of ((of_char c :: nat) + 32) else c)"

text \<open>\<open>Inl\<close>: the text of the \<open>ArgumentTypeError\<close> that argparse reports.\<close>

definition parse_umask :: "string \<Rightarrow> string + int" where
  "parse_umask val =
     (let raw0 = map lower_char (strip_chars str_space val);
          raw = (if take 2 raw0 = ''0o'' then drop 2 raw0 else raw0)
      in case int_of_text 8 raw of
        None \<Rightarrow> Inl ''umask must be an octal value''
      | Some msk \<Rightarrow>
          if msk < 0 \<or> 0x1FF < msk then Inl ''umask must be between 000 and 777''
          else Inr msk)"

definition read_pid_file :: "string \<Rightarrow> world \<Rightarrow> int option result" where
  "read_pid_file path w =
     (case w_files w path of
        None \<Rightarrow> Inr None
      | Some NotUtf8 \<Rightarrow> Inl (ValueError ''invalid start byte'')
      | Some (Readable text) \<Rightarrow>
          (let content = strip_chars str_space text in
           if content = [] then Inr None else Inr (int_of_text 10 content)))"

definition pid_is_running :: "environment \<Rightarrow> int \<Rightarrow> world \<Rightarrow> bool result \<times> world" where
  "pid_is_running env pid w =
     (case os_kill env pid 0 w of
        (LookupFailed, w1) \<Rightarrow> (Inr False, w1)
      | (PermissionDenied, w1) \<Rightarrow> (Inr True, w1)
      | (Killed, w1) \<Rightarrow> (Inr True, w1)
      | (PidTooLarge, w1) \<Rightarrow> (Inl (kill_error PidTooLarge), w1))"

text \<open>\<open>time.monotonic() + timeout\<close>, and the comparison with it.\<close>

fun deadline_after :: "rat \<Rightarrow> py_float \<Rightarrow> py_float" where
  "deadline_after now (Finite t) = Finite (now + t)"
| "deadline_after now t = t"

fun earlier :: "rat \<Rightarrow> py_float \<Rightarrow> bool" where
  "earlier now (Finite d) \<longleftrightarrow> now < d"
| "earlier now PosInf \<longleftrightarrow> True"
| "earlier now d \<longleftrightarrow> False"

text \<open>The loop of \<open>_wait_for_exit\<close> may run for ever.\<close>

partial_function (option) wait_loop :: "environment \<Rightarrow> int \<Rightarrow> py_float \<Rightarrow> world \<Rightarrow> (bool result \<times> world) option" where
  "wait_loop env pid deadline w =
     (if earlier (w_now w) deadline then
        (case pid_is_running env pid w of
           (Inl e, w1) \<Rightarrow> Some (Inl e, w1)
         | (Inr running, w1) \<Rightarrow>
             if \<not> running then Some (Inr True, w1)
             else wait_loop env pid deadline (env_sleep env (1 / 5) w1))
      else
        (case pid_is_running env pid w of (r, w1) \<Rightarrow> Some (map_sum id Not r, w1)))"

definition wait_for_exit :: "environment \<Rightarrow> int \<Rightarrow> py_float \<Rightarrow> world \<Rightarrow> (bool result \<times> world) option" where
  "wait_for_exit env pid timeout w = wait_loop env pid (deadline_after (w_now w) timeout) w"

definition pid_file_from_raw_config :: "environment \<Rightarrow> string \<Rightarrow> world \<Rightarrow> string option result" where
  "pid_file_from_raw_config env config_path w =
     (case env_load_json env (env_expanduser env config_path) w of
        None \<Rightarrow> Inr None
      | Some (JsonObject data) \<Rightarrow>
          (case dict_get data ''service'' of
             Some (JsonObject service) \<Rightarrow>
               (case dict_get service ''pid_file'' of
                  Some (JsonString p) \<Rightarrow> Inr (Some (env_expanduser env p))
                | _ \<Rightarrow> Inr None)
           | _ \<Rightarrow> Inr None)
      | Some _ \<Rightarrow> Inl (AttributeError ''object has no attribute get''))"

text \<open>\<open>Path.is_absolute\<close>, \<open>Path.parent\<close> and the operator \<open>/\<close>.\<close>

definition is_absolute :: "string \<Rightarrow> bool" where
  "is_absolute p \<longleftrightarrow> p \<noteq> [] \<and> hd p = CHR ''/''"

definition path_parent :: "string \<Rightarrow> string" where
  "path_parent p =
     (let up = rev (dropWhile (\<lambda>c. c \<noteq> CHR ''/'') (rev p)) in
      if up = [] then ''.'' else if length up = 1 then up else butlast up)"

definition path_join :: "string \<Rightarrow> string \<Rightarrow> string" where
  "path_join a b =
     (if is_absolute b then b else if a = ''.'' then b
      else if last a = CHR ''/'' then a @ b else a @ [CHR ''/''] @ b)"

definition mkdir_parents :: "environment \<Rightarrow> string \<Rightarrow> world \<Rightarrow> unit result" where
  "mkdir_parents env path w =
     (if env_can_mkdir env path w then Inr () else Inl (OSError ''Permission denied''))"

definition resolve_log_path :: "environment \<Rightarrow> string option \<Rightarrow> string \<Rightarrow> world \<Rightarrow> string option result" where
  "resolve_log_path env log_file config_path w =
     (case log_file of
        None \<Rightarrow> Inr None
      | Some f \<Rightarrow>
          if f = [] then Inr None
          else let candidate0 = env_expanduser env f;
                   candidate = (if is_absolute candidate0 then candidate0
                                else path_join (path_parent (env_expanduser env config_path)) candidate0)
               in bind_result (mkdir_parents env (path_parent candidate) w) (\<lambda>_. Inr (Some candidate)))"

definition start_daemon ::
  "environment \<Rightarrow> string \<Rightarrow> string \<Rightarrow> string option \<Rightarrow> string \<Rightarrow> int \<Rightarrow> world \<Rightarrow> unit result \<times> world" where
  "start_daemon env config_path pid_file log_path chdir umask w =
     (let daemon_pid = pid_file @ ''.daemon''; w1 = unlink_suppressed env daemon_pid w in
      case env_daemonize env config_path log_path chdir umask w1 of
        (Inl e, w2) \<Rightarrow> (Inl (CLIError (''Failed to daemonize gateway: '' @ exn_str e)), w2)
      | (Inr _, w2) \<Rightarrow> (Inr (), w2))"

section \<open>ServiceController\<close>

record controller =
  sc_config_path :: string
  sc_config :: "gateway_config option"

definition controller_init :: "environment \<Rightarrow> string \<Rightarrow> controller" where
  "controller_init env config_path = \<lparr>sc_config_path = env_expanduser env config_path, sc_config = None\<rparr>"

definition controller_config :: "environment \<Rightarrow> controller \<Rightarrow> world \<Rightarrow> gateway_config result \<times> controller" where
  "controller_config env sc w =
     (case sc_config sc of
        Some cfg \<Rightarrow> (Inr cfg, sc)
      | None \<Rightarrow>
          (case env_load_config env (sc_config_path sc) w of
             Inl e \<Rightarrow> (Inl e, sc)
           | Inr cfg \<Rightarrow> (Inr cfg, sc\<lparr>sc_config := Some cfg\<rparr>)))"

definition default_pid_file :: string where
  "default_pid_file = ''/var/run/modbusgw.pid''"

definition pid_file_path :: "environment \<Rightarrow> bool \<Rightarrow> controller \<Rightarrow> world \<Rightarrow> string result \<times> controller" where
  "pid_file_path env strict sc w =
     (case controller_config env sc w of
        (Inr cfg, sc1) \<Rightarrow> (Inr (env_expanduser env (svc_pid_file (gc_service cfg))), sc1)
      | (Inl e, sc1) \<Rightarrow>
          if strict then (Inl e, sc1)
          else (bind_result (pid_file_from_raw_config env (sc_config_path sc) w) (\<lambda>fallback.
                  case fallback of
                    Some p \<Rightarrow> Inr p
                  | None \<Rightarrow> Inr (env_expanduser env default_pid_file)), sc1))"

definition service_log_file :: "environment \<Rightarrow> controller \<Rightarrow> world \<Rightarrow> string option result \<times> controller" where
  "service_log_file env sc w =
     (case controller_config env sc w of
        (Inl e, sc1) \<Rightarrow> (Inl e, sc1)
      | (Inr cfg, sc1) \<Rightarrow> (Inr (map_option (env_expanduser env) (svc_log_file (gc_service cfg))), sc1))"

record start_options =
  so_foreground :: bool
  so_log_file :: "string option"
  so_chdir :: string
  so_umask :: int

text \<open>\<open>_run_foreground\<close>: an interrupt from the keyboard is not an exception of the environment.\<close>

definition service_start ::
  "environment \<Rightarrow> start_options \<Rightarrow> controller \<Rightarrow> world \<Rightarrow> (unit result \<times> world) option \<times> controller" where
  "service_start env opts sc w =
     (case pid_file_path env True sc w of
        (Inl e, sc1) \<Rightarrow> (Some (Inl e, w), sc1)
      | (Inr pid_file, sc1) \<Rightarrow>
          (case bind_result (mkdir_parents env (path_parent pid_file) w) (\<lambda>_. read_pid_file pid_file w) of
             Inl e \<Rightarrow> (Some (Inl e, w), sc1)
           | Inr existing \<Rightarrow>
               (case (case existing of
                        None \<Rightarrow> (Inr False, w)
                      | Some pid \<Rightarrow> if pid = 0 then (Inr False, w) else pid_is_running env pid w) of
                  (Inl e, w1) \<Rightarrow> (Some (Inl e, w1), sc1)
                | (Inr running, w1) \<Rightarrow>
                    if running
                    then (Some (Inl (CLIError (''Gateway already running (PID '' @ int_str (the existing) @ '')'')), w1), sc1)
                    else
                      let w2 = unlink_suppressed env pid_file w1 in
                      if so_foreground opts then
                        (env_foreground env (sc_config_path sc1)
                           (print_line (''modbusgw starting in foreground using '' @ sc_config_path sc1) w2), sc1)
                      else
                        (case (if so_log_file opts \<noteq> None then (Inr (so_log_file opts), sc1)
                               else service_log_file env sc1 w2) of
                           (resolved, sc2) \<Rightarrow>
                             (case bind_result resolved (\<lambda>f. resolve_log_path env f (sc_config_path sc2) w2) of
                                Inl e \<Rightarrow> (Some (Inl e, w2), sc2)
                              | Inr log_path \<Rightarrow>
                                  (case start_daemon env (sc_config_path sc2) pid_file log_path
                                      (so_chdir opts) (so_umask opts) w2 of
                                     (Inl e, w3) \<Rightarrow> (Some (Inl e, w3), sc2)
                                   | (Inr _, w3) \<Rightarrow>
                                       (case read_pid_file pid_file w3 of
                                          Inl e \<Rightarrow> (Some (Inl e, w3), sc2)
                                        | Inr found \<Rightarrow>
                                            (Some (Inr (), print_line
                                               ((if found \<noteq> None \<and> found \<noteq> Some 0
                                                 then ''modbusgw daemonized (PID '' @ int_str (the found) @ '') using ''
                                                 else ''modbusgw daemonized using '') @ sc_config_path sc2) w3), sc2))))))))"

text \<open>The part of \<open>stop\<close> after a running process was found.\<close>

definition terminate_process ::
  "environment \<Rightarrow> py_float \<Rightarrow> string \<Rightarrow> int \<Rightarrow> world \<Rightarrow> (unit result \<times> world) option" where
  "terminate_process env timeout pid_file pid w =
     (case os_kill env pid 15 w of
        (Killed, w1) \<Rightarrow>
          (case wait_for_exit env pid timeout w1 of
             None \<Rightarrow> None
           | Some (Inl e, w2) \<Rightarrow> Some (Inl e, w2)
           | Some (Inr True, w2) \<Rightarrow> Some (Inr (), unlink_suppressed env pid_file w2)
           | Some (Inr False, w2) \<Rightarrow>
               (case os_kill env pid 9 w2 of
                  (Killed, w3) \<Rightarrow>
                    (case wait_for_exit env pid (Finite 5) w3 of
                       None \<Rightarrow> None
                     | Some (Inl e, w4) \<Rightarrow> Some (Inl e, w4)
                     | Some (Inr True, w4) \<Rightarrow> Some (Inr (), unlink_suppressed env pid_file w4)
                     | Some (Inr False, w4) \<Rightarrow>
                         Some (Inl (CLIError (''Gateway did not exit within '' @ env_str_float env timeout @ '' seconds'')), w4))
                | (failed, w3) \<Rightarrow> Some (Inl (kill_error failed), w3)))
      | (failed, w1) \<Rightarrow> Some (Inl (kill_error failed), w1))"

definition service_stop ::
  "environment \<Rightarrow> py_float \<Rightarrow> controller \<Rightarrow> world \<Rightarrow> (unit result \<times> world) option \<times> controller" where
  "service_stop env timeout sc w =
     (case pid_file_path env False sc w of
        (Inl e, sc1) \<Rightarrow> (Some (Inl e, w), sc1)
      | (Inr pid_file, sc1) \<Rightarrow>
          (case read_pid_file pid_file w of
             Inl e \<Rightarrow> (Some (Inl e, w), sc1)
           | Inr pid_opt \<Rightarrow>
               (case pid_opt of
                  None \<Rightarrow> (Some (Inl (CLIError ''Gateway is not running (pidfile missing or unreadable)''), w), sc1)
                | Some pid \<Rightarrow>
                    if pid = 0
                    then (Some (Inl (CLIError ''Gateway is not running (pidfile missing or unreadable)''), w), sc1)
                    else
                      (case pid_is_running env pid w of
                         (Inl e, w1) \<Rightarrow> (Some (Inl e, w1), sc1)
                       | (Inr False, w1) \<Rightarrow>
                           (Some (Inl (CLIError ''Gateway pidfile exists but process is not running''),
                                  unlink_suppressed env pid_file w1), sc1)
                       | (Inr True, w1) \<Rightarrow> (terminate_process env timeout pid_file pid w1, sc1)))))"

definition service_reload :: "environment \<Rightarrow> controller \<Rightarrow> world \<Rightarrow> (unit result \<times> world) \<times> controller" where
  "service_reload env sc w =
     (case pid_file_path env False sc w of
        (Inl e, sc1) \<Rightarrow> ((Inl e, w), sc1)
      | (Inr pid_file, sc1) \<Rightarrow>
          (case read_pid_file pid_file w of
             Inl e \<Rightarrow> ((Inl e, w), sc1)
           | Inr None \<Rightarrow> ((Inl (CLIError ''Gateway is not running''), w), sc1)
           | Inr (Some pid) \<Rightarrow>
               if pid = 0 then ((Inl (CLIError ''Gateway is not running''), w), sc1)
               else
                 (case pid_is_running env pid w of
                    (Inl e, w1) \<Rightarrow> ((Inl e, w1), sc1)
                  | (Inr False, w1) \<Rightarrow> ((Inl (CLIError ''Gateway is not running''), w1), sc1)
                  | (Inr True, w1) \<Rightarrow>
                      (case os_kill env pid 1 w1 of
                         (Killed, w2) \<Rightarrow> ((Inr (), w2), sc1)
                       | (failed, w2) \<Rightarrow> ((Inl (kill_error failed), w2), sc1)))))"

definition service_status ::
  "environment \<Rightarrow> controller \<Rightarrow> world \<Rightarrow> ((bool \<times> string) result \<times> world) \<times> controller" where
  "service_status env sc w =
     (case pid_file_path env False sc w of
        (Inl e, sc1) \<Rightarrow> ((Inl e, w), sc1)
      | (Inr pid_file, sc1) \<Rightarrow>
          (case read_pid_file pid_file w of
             Inl e \<Rightarrow> ((Inl e, w), sc1)
           | Inr None \<Rightarrow> ((Inr (False, ''modbusgw is not running''), w), sc1)
           | Inr (Some pid) \<Rightarrow>
               if pid = 0 then ((Inr (False, ''modbusgw is not running''), w), sc1)
               else
                 (case pid_is_running env pid w of
                    (Inl e, w1) \<Rightarrow> ((Inl e, w1), sc1)
                  | (Inr True, w1) \<Rightarrow> ((Inr (True, ''modbusgw running as PID '' @ int_str pid), w1), sc1)
                  | (Inr False, w1) \<Rightarrow>
                      ((Inr (False, ''modbusgw pidfile exists but process not running''), w1), sc1))))"

section \<open>Commands\<close>

datatype command =
    NoCommand "string option"
  | CommandStart start_options
  | CommandStop py_float
  | CommandReload
  | CommandStatus
  | CommandRestart py_float start_options

definition default_umask :: int where
  "default_umask = 0x12"

fun run_command :: "environment \<Rightarrow> command \<Rightarrow> controller \<Rightarrow> world \<Rightarrow> (unit result \<times> world) option" where
  "run_command env (NoCommand log_file) sc w =
     fst (service_start env
       \<lparr>so_foreground = True, so_log_file = log_file, so_chdir = ''/'', so_umask = default_umask\<rparr> sc w)"
| "run_command env (CommandStart opts) sc w = fst (service_start env opts sc w)"
| "run_command env (CommandStop timeout) sc w =
     (case fst (service_stop env timeout sc w) of
        None \<Rightarrow> None
      | Some (Inl e, w1) \<Rightarrow> Some (Inl e, w1)
      | Some (Inr _, w1) \<Rightarrow> Some (Inr (), print_line ''modbusgw stopped'' w1))"
| "run_command env CommandReload sc w =
     (case fst (service_reload env sc w) of
        (Inl e, w1) \<Rightarrow> Some (Inl e, w1)
      | (Inr _, w1) \<Rightarrow> Some (Inr (), print_line ''modbusgw reload requested'' w1))"
| "run_command env CommandStatus sc w =
     (case fst (service_status env sc w) of
        (Inl e, w1) \<Rightarrow> Some (Inl e, w1)
      | (Inr (running, message), w1) \<Rightarrow>
          Some (if running then Inr () else Inl (CLIError ''Service not running''), print_line message w1))"
| "run_command env (CommandRestart timeout opts) sc w =
     (case service_stop env timeout sc w of
        (None, _) \<Rightarrow> None
      | (Some (Inr _, w1), sc1) \<Rightarrow> fst (service_start env opts sc1 w1)
      | (Some (Inl (CLIError m), w1), sc1) \<Rightarrow> fst (service_start env opts sc1 w1)
      | (Some (Inl e, w1), sc1) \<Rightarrow> Some (Inl e, w1))"

text \<open>\<open>main\<close>: the exit status, or an exception that escapes.\<close>

definition cli_main :: "environment \<Rightarrow> string \<Rightarrow> command \<Rightarrow> world \<Rightarrow> (int result \<times> world) option" where
  "cli_main env config cmd w =
     (case run_command env cmd (controller_init env config) w of
        None \<Rightarrow> None
      | Some (Inr _, w1) \<Rightarrow> Some (Inr 0, w1)
      | Some (Inl (CLIError m), w1) \<Rightarrow> Some (Inr 1, print_line (''[error] '' @ m) w1)
      | Some (Inl e, w1) \<Rightarrow> Some (Inl e, w1))"

section \<open>Lemmas\<close>

text \<open>
  What the commands rely on: a sleep lasts at least as long as asked and a signal takes no negative
  time, and the record of signals is only written by \<open>os_kill\<close>.
\<close>

definition sane_environment :: "environment \<Rightarrow> bool" where
  "sane_environment env \<longleftrightarrow>
     (\<forall>d w. w_now w + d \<le> w_now (env_sleep env d w) \<and> w_signals (env_sleep env d w) = w_signals w) \<and>
     (\<forall>pid sig w. w_signals (env_signal env pid sig w) = w_signals w)"

lemma kill_targets_process [simp]:
  "0 < pid \<Longrightarrow> kill_targets pid w = (if w_procs w pid = Absent then [] else [pid])"
  "0 < pid \<Longrightarrow> permitted_targets pid w = (if w_procs w pid = Permitted then [pid] else [])"
  by (simp_all add: kill_targets_def permitted_targets_def)

lemma permitted_targets_addressed: "kill_targets pid w = [] \<Longrightarrow> permitted_targets pid w = []"
  by (simp add: permitted_targets_def)

lemma pid_is_running_eq:
  "pid_is_running env pid w =
     (if pid < - 2147483648 \<or> 2147483647 < pid then Inl (kill_error PidTooLarge)
      else Inr (kill_targets pid w \<noteq> []), w)"
  by (simp add: pid_is_running_def os_kill_def permitted_targets_addressed del: kill_error.simps kill_targets_process)

lemma pid_is_running_world: "pid_is_running env pid w = (r, w1) \<Longrightarrow> w1 = w"
  by (simp add: pid_is_running_eq)

lemma wait_loop_total:
  assumes sane: "sane_environment env" and "deadline - w_now w \<le> of_nat n / 5"
  shows "wait_loop env pid (Finite deadline) w \<noteq> None"
  using assms(2)
proof (induction n arbitrary: w)
  case 0
  then show ?case by (subst wait_loop.simps) (simp split: prod.splits)
next
  case (Suc n)
  have "w_now w + 1 / 5 \<le> w_now (env_sleep env (1 / 5) w)" using sane by (simp add: sane_environment_def)
  with Suc.prems have "deadline - w_now (env_sleep env (1 / 5) w) \<le> of_nat n / 5"
    by (simp add: field_simps)
  from Suc.IH [OF this] show ?case
    by (subst wait_loop.simps) (auto split: prod.splits sum.splits dest!: pid_is_running_world)
qed

lemma wait_for_exit_total:
  assumes "sane_environment env" and "timeout \<noteq> PosInf"
  shows "wait_for_exit env pid timeout w \<noteq> None"
proof (cases timeout)
  case (Finite t)
  obtain n :: nat where "t * 5 \<le> of_nat n" using real_arch_simple by blast
  then have "w_now w + t - w_now w \<le> of_nat n / 5" by (simp add: field_simps)
  from wait_loop_total [OF assms(1) this] Finite show ?thesis by (simp add: wait_for_exit_def)
qed (use assms(2) in \<open>simp_all add: wait_for_exit_def wait_loop.simps split: prod.splits\<close>)

text \<open>With an infinite timeout the loop is left by the end of the process only.\<close>

definition outlives :: "environment \<Rightarrow> int \<Rightarrow> (world \<Rightarrow> bool) \<Rightarrow> bool" where
  "outlives env pid alive \<longleftrightarrow> \<not> (pid < - 2147483648 \<or> 2147483647 < pid) \<and>
     (\<forall>w. alive w \<longrightarrow> kill_targets pid w \<noteq> [] \<and> alive (env_sleep env (1 / 5) w))"

lemma wait_loop_infinite:
  assumes "outlives env pid alive" and "alive w"
  shows "wait_loop env pid PosInf w = None"
proof -
  have "\<not> (\<exists>alive. deadline = PosInf \<and> outlives env pid alive \<and> alive w)"
    if "wait_loop env pid deadline w = Some y" for env pid deadline w y
    using that
  proof (rule wait_loop.raw_induct [rotated], goal_cases)
    case (1 f env pid deadline w y)
    show ?case
    proof
      assume "\<exists>alive. deadline = PosInf \<and> outlives env pid alive \<and> alive w"
      then obtain alive where a: "deadline = PosInf" "outlives env pid alive" "alive w" by blast
      then have "f env pid deadline (env_sleep env (1 / 5) w) = Some y"
        using 1(2) by (auto simp: outlives_def pid_is_running_eq)
      with 1(1) a show False unfolding outlives_def by blast
    qed
  qed
  note endless = this
  show ?thesis
  proof (cases "wait_loop env pid PosInf w")
    case (Some y)
    from endless [OF this] assms show ?thesis by blast
  qed
qed

definition wait_verdict :: "environment \<Rightarrow> int \<Rightarrow> py_float \<Rightarrow> world \<Rightarrow> bool result \<times> world \<Rightarrow> bool" where
  "wait_verdict env pid deadline w y \<longleftrightarrow> (sane_environment env \<longrightarrow>
     w_signals (snd y) = w_signals w \<and> (fst y = Inr True \<longrightarrow> kill_targets pid (snd y) = []))"

lemma wait_loop_verdict:
  assumes "wait_loop env pid deadline w = Some y"
  shows "wait_verdict env pid deadline w y"
proof (rule wait_loop.raw_induct [where P = wait_verdict, OF _ assms], goal_cases)
  case (1 f env pid deadline w y)
  have keeps: "sane_environment env \<Longrightarrow> w_signals (env_sleep env d w) = w_signals w" for d
    by (simp add: sane_environment_def)
  consider "pid < - 2147483648 \<or> 2147483647 < pid" | "kill_targets pid w = []"
    | "\<not> (pid < - 2147483648 \<or> 2147483647 < pid)" "kill_targets pid w \<noteq> []" "earlier (w_now w) deadline"
    | "\<not> (pid < - 2147483648 \<or> 2147483647 < pid)" "kill_targets pid w \<noteq> []" "\<not> earlier (w_now w) deadline"
    by blast
  then show ?case
  proof cases
    case 3
    with 1(2) have "f env pid deadline (env_sleep env (1 / 5) w) = Some y"
      by (simp add: pid_is_running_eq)
    from 1(1) [OF this] show ?thesis by (simp add: wait_verdict_def keeps)
  qed (use 1(2) in \<open>auto simp: wait_verdict_def pid_is_running_eq split: if_splits\<close>)
qed

lemma wait_for_exit_result:
  assumes "wait_for_exit env pid timeout w = Some (r, w')" and "sane_environment env"
  shows "w_signals w' = w_signals w" and "r = Inr True \<Longrightarrow> kill_targets pid w' = []"
  using wait_loop_verdict [of env pid "deadline_after (w_now w) timeout" w "(r, w')"] assms
  by (simp_all add: wait_for_exit_def wait_verdict_def)

lemma unlink_suppressed_keeps [simp]:
  "w_signals (unlink_suppressed env path w) = w_signals w"
  "kill_targets pid (unlink_suppressed env path w) = kill_targets pid w"
  by (simp_all add: unlink_suppressed_def kill_targets_def)

lemma os_kill_failed: "os_kill env pid sig w = (k, w1) \<Longrightarrow> k \<noteq> Killed \<Longrightarrow> w1 = w"
  by (auto simp: os_kill_def split: if_splits)

lemma signals_sent:
  assumes "sane_environment env"
  shows "w_signals (foldl (send_signal env sig) w ps) = w_signals w @ map (\<lambda>p. (p, sig)) ps"
  using assms by (induction ps arbitrary: w) (simp_all add: send_signal_def sane_environment_def)

lemma os_kill_sent:
  assumes "os_kill env pid sig w = (Killed, w1)" "sig \<noteq> 0" "sane_environment env"
  shows "w_signals w1 = w_signals w @ map (\<lambda>p. (p, sig)) (permitted_targets pid w) \<and> permitted_targets pid w \<noteq> []"
  using assms(1,2) signals_sent [OF assms(3)] by (auto simp: os_kill_def split: if_splits)

lemma terminate_process_total:
  assumes "sane_environment env" and "timeout \<noteq> PosInf"
  shows "terminate_process env timeout pid_file pid w \<noteq> None"
  by (auto simp: terminate_process_def wait_for_exit_total [OF assms] wait_for_exit_total [OF assms(1)] split: prod.splits kill_result.splits option.splits sum.splits bool.splits)

text \<open>
  What was sent so far, and what a normal return means: nothing, or SIGTERM to every process that the
  number addresses and the user may signal, and then perhaps SIGKILL to those that it addresses at
  that later time.
\<close>

definition stopped_by :: "environment \<Rightarrow> string \<Rightarrow> int \<Rightarrow> world \<Rightarrow> (int \<times> int) list \<Rightarrow> unit result \<Rightarrow> world \<Rightarrow> bool" where
  "stopped_by env pid_file pid w l r w' \<longleftrightarrow>
     w_signals w' = w_signals w @ l \<and>
     (l = [] \<or> permitted_targets pid w \<noteq> [] \<and>
       (\<exists>killed. l = map (\<lambda>p. (p, 15)) (permitted_targets pid w) @ map (\<lambda>p. (p, 9)) killed \<and>
         (killed = [] \<or> (\<exists>w2. killed = permitted_targets pid w2)))) \<and>
     (r = Inr () \<longrightarrow> l \<noteq> [] \<and> kill_targets pid w' = [] \<and>
        (\<exists>w2. w' = unlink_suppressed env pid_file w2))"

lemma stopped_byI:
  assumes "w_signals w' = w_signals w @ map (\<lambda>p. (p, 15)) (permitted_targets pid w) @ map (\<lambda>p. (p, 9)) killed"
    and "permitted_targets pid w \<noteq> []" and "killed = [] \<or> (\<exists>w2. killed = permitted_targets pid w2)"
    and "r = Inr () \<Longrightarrow> kill_targets pid w' = [] \<and> (\<exists>w2. w' = unlink_suppressed env pid_file w2)"
  shows "stopped_by env pid_file pid w (map (\<lambda>p. (p, 15)) (permitted_targets pid w) @ map (\<lambda>p. (p, 9)) killed) r w'"
  using assms unfolding stopped_by_def by auto

text \<open>A positive number is one process.\<close>

lemma stopped_by_process:
  assumes "stopped_by env pid_file pid w l r w'" and "0 < pid"
  shows "l \<in> {[], [(pid, 15)], [(pid, 15), (pid, 9)]}" and "r = Inr () \<Longrightarrow> w_procs w' pid = Absent"
  using assms by (auto simp: stopped_by_def split: if_splits)

lemma terminate_process_outcome:
  assumes "terminate_process env timeout pid_file pid w = Some (r, w')" and sane: "sane_environment env"
  shows "\<exists>l. stopped_by env pid_file pid w l r w' \<and> (l = [] \<longrightarrow> fst (os_kill env pid 15 w) \<noteq> Killed)"
proof -
  obtain k1 w1 where k1: "os_kill env pid 15 w = (k1, w1)" by (cases "os_kill env pid 15 w")
  show ?thesis
  proof (cases "k1 = Killed")
    case False
    with assms(1) k1 have "r = Inl (kill_error k1)" "w' = w1"
      by (cases k1; simp add: terminate_process_def)+
    with os_kill_failed [OF k1 False] k1 False show ?thesis by (auto simp: stopped_by_def)
  next
    case True
    with k1 have k1': "os_kill env pid 15 w = (Killed, w1)" by simp
    let ?terms = "map (\<lambda>p. (p, 15)) (permitted_targets pid w)"
    have s1: "w_signals w1 = w_signals w @ ?terms" "permitted_targets pid w \<noteq> []"
      using os_kill_sent [OF k1' _ sane] by simp_all
    have only_terms: "\<exists>l. stopped_by env pid_file pid w l r w' \<and> (l = [] \<longrightarrow> fst (os_kill env pid 15 w) \<noteq> Killed)"
      if "w_signals w' = w_signals w @ ?terms"
        "r = Inr () \<Longrightarrow> kill_targets pid w' = [] \<and> (\<exists>w2. w' = unlink_suppressed env pid_file w2)"
      using stopped_byI [of w' w pid "[]" r env pid_file] that s1(2) by fastforce
    obtain r2 w2 where r2: "wait_for_exit env pid timeout w1 = Some (r2, w2)"
      using assms(1) k1' by (cases "wait_for_exit env pid timeout w1") (auto simp: terminate_process_def)
    note v2 = wait_for_exit_result [OF r2 sane]
    consider e where "r2 = Inl e" | "r2 = Inr True" | "r2 = Inr False" by (cases r2) auto
    then show ?thesis
    proof cases
      case 1
      with assms(1) k1' r2 have "r = Inl e" "w' = w2" by (simp_all add: terminate_process_def)
      with s1 v2 show ?thesis by (intro only_terms) simp_all
    next
      case 2
      with assms(1) k1' r2 have "r = Inr ()" "w' = unlink_suppressed env pid_file w2"
        by (simp_all add: terminate_process_def)
      with s1 v2 2 show ?thesis by (intro only_terms) auto
    next
      case 3
      obtain k3 w3 where k3: "os_kill env pid 9 w2 = (k3, w3)" by (cases "os_kill env pid 9 w2")
      show ?thesis
      proof (cases "k3 = Killed")
        case False
        with assms(1) k1' r2 3 k3 have "r = Inl (kill_error k3)" "w' = w3"
          by (cases k3; simp add: terminate_process_def)+
        with os_kill_failed [OF k3 False] s1 v2 show ?thesis by (intro only_terms) simp_all
      next
        case True
        with k3 have k3': "os_kill env pid 9 w2 = (Killed, w3)" by simp
        let ?killed = "permitted_targets pid w2"
        have s3: "w_signals w3 = w_signals w @ ?terms @ map (\<lambda>p. (p, 9)) ?killed"
          using os_kill_sent [OF k3' _ sane] s1 v2 by simp
        obtain r4 w4 where r4: "wait_for_exit env pid (Finite 5) w3 = Some (r4, w4)"
          using assms(1) k1' r2 3 k3'
          by (cases "wait_for_exit env pid (Finite 5) w3") (auto simp: terminate_process_def)
        note v4 = wait_for_exit_result [OF r4 sane]
        have "w_signals w' = w_signals w @ ?terms @ map (\<lambda>p. (p, 9)) ?killed \<and>
            (r = Inr () \<longrightarrow> kill_targets pid w' = [] \<and> (\<exists>w2. w' = unlink_suppressed env pid_file w2))"
          using assms(1) k1' r2 3 k3' r4 s3 v4
          by (cases r4) (auto simp: terminate_process_def split: bool.splits)
        with stopped_byI [of w' w pid ?killed r env pid_file] s1(2) show ?thesis by blast
      qed
    qed
  qed
qed

section \<open>Decimal text\<close>

lemma decimal_digit_char:
  assumes "d < 10"
  shows "decimal_char (digit_char d)" "of_char (digit_char d) = 48 + int d"
proof -
  have "list_all (\<lambda>d. decimal_char (digit_char d) \<and> of_char (digit_char d) = 48 + int d) [0..<10]"
    by code_simp
  with assms show "decimal_char (digit_char d)" "of_char (digit_char d) = 48 + int d"
    by (simp_all add: list_all_iff)
qed

lemma nat_str_digits_value:
  "\<exists>ds. ds \<noteq> [] \<and> list_all (\<lambda>d. d < 10) ds \<and> nat_str n = map digit_char ds \<and>
     foldl (\<lambda>v d. 10 * v + int d) 0 ds = int n"
proof (induction n rule: nat_str.induct)
  case (1 n)
  show ?case
  proof (cases "n < 10")
    case True
    then show ?thesis by (intro exI [of _ "[n]"]) (simp add: nat_str.simps [of n])
  next
    case False
    from 1 [OF False] obtain ds where "ds \<noteq> []" "list_all (\<lambda>d. d < 10) ds"
      "nat_str (n div 10) = map digit_char ds" "foldl (\<lambda>v d. 10 * v + int d) 0 ds = int (n div 10)" by blast
    then show ?thesis using False
      by (intro exI [of _ "ds @ [n mod 10]"]) (simp add: nat_str.simps [of n] zdiv_int zmod_int)
  qed
qed

lemma digit_run_decimal:
  "ds \<noteq> [] \<Longrightarrow> list_all (\<lambda>d. d < 10) ds \<Longrightarrow>
     digit_run 10 acc (map digit_char ds) = Some (foldl (\<lambda>v d. 10 * v + int d) acc ds)"
proof (induction ds arbitrary: acc)
  case (Cons d ds)
  then have d: "digit_of 10 (digit_char d) = Some (int d)"
    by (simp add: digit_of_def decimal_digit_char)
  show ?case
  proof (cases ds)
    case (Cons d' ds')
    have "digit_char d' \<noteq> CHR ''_''"
      using decimal_digit_char(1) [of d'] Cons.prems(2) Cons by (auto simp: decimal_char_def)
    with d Cons.IH Cons.prems Cons show ?thesis by simp
  qed (simp add: d)
qed simp

lemma strip_chars_clean: "list_all (\<lambda>c. \<not> space c) s \<Longrightarrow> strip_chars space s = s"
proof -
  assume "list_all (\<lambda>c. \<not> space c) s"
  then have "dropWhile space s = s" "dropWhile space (rev s) = rev s"
    using hd_in_set [of "rev s"] by (auto simp: dropWhile_eq_self_iff list_all_iff)
  then show ?thesis by (simp add: strip_chars_def)
qed

lemma nat_str_no_space: "list_all (\<lambda>c. \<not> str_space c) (nat_str n)" "list_all (\<lambda>c. \<not> int_space c) (nat_str n)"
proof -
  have "decimal_char c" if "c \<in> set (nat_str n)" for c
    using that nat_str_digits_value [of n] by (auto simp: decimal_digit_char list_all_iff)
  then show "list_all (\<lambda>c. \<not> str_space c) (nat_str n)" "list_all (\<lambda>c. \<not> int_space c) (nat_str n)"
    by (force simp: list_all_iff str_space_def int_space_def decimal_char_def)+
qed

lemma length_nat_str: "n < 10 ^ k \<Longrightarrow> 0 < k \<Longrightarrow> length (nat_str n) \<le> k"
proof (induction n arbitrary: k rule: nat_str.induct)
  case (1 n)
  show ?case
  proof (cases "n < 10")
    case True
    with "1.prems" show ?thesis by (simp add: nat_str.simps [of n])
  next
    case False
    with "1.prems" obtain j where j: "k = Suc j" "0 < j" by (cases k; cases "k - 1") auto
    with "1.prems" have "n div 10 < 10 ^ j" by (simp add: div_less_iff_less_mult)
    with "1.IH" [OF False] j False show ?thesis by (simp add: nat_str.simps [of n])
  qed
qed

text \<open>The text of a process identifier reads back as the identifier.\<close>

lemma int_of_text_nat_str:
  assumes "n < 10 ^ 4300"
  shows "int_of_text 10 (nat_str n) = Some (int n)"
proof -
  obtain ds where ds: "ds \<noteq> []" "list_all (\<lambda>d. d < 10) ds" "nat_str n = map digit_char ds"
    "foldl (\<lambda>v d. 10 * v + int d) 0 ds = int n" using nat_str_digits_value by blast
  then obtain d ds' where c: "nat_str n = digit_char d # map digit_char ds'" "d < 10" by (cases ds) auto
  have "nat_str n \<noteq> []" "hd (nat_str n) \<noteq> CHR ''-''" "hd (nat_str n) \<noteq> CHR ''+''"
    using decimal_digit_char(1) [OF c(2)] c(1) by (auto simp: decimal_char_def)
  moreover have "length (filter decimal_char (nat_str n)) \<le> 4300"
    by (rule le_trans [OF length_filter_le length_nat_str [OF assms]]) simp
  moreover have "digit_run 10 0 (nat_str n) = Some (int n)"
    using digit_run_decimal [OF ds(1,2), of 0] ds(3,4) by simp
  ultimately show ?thesis
    by (simp add: int_of_text_def strip_chars_clean [OF nat_str_no_space(2)] Let_def)
qed

lemma read_pid_file_nat_str:
  assumes "w_files w path = Some (Readable (nat_str n))" "n < 10 ^ 4300"
  shows "read_pid_file path w = Inr (Some (int n))"
  using assms(1)
  by (simp add: read_pid_file_def strip_chars_clean [OF nat_str_no_space(1)] Let_def nat_str_nonempty
      int_of_text_nat_str [OF assms(2)])

section \<open>Properties\<close>

text \<open>
  When a command does not return: a gateway that it runs in the foreground is never ended, or it waits
  for the end of a process with an infinite timeout. Otherwise the waiting loops of \<open>stop\<close> and \<open>restart\<close>
  end, since a sleep lasts at least as long as asked and each turn brings the deadline nearer by a
  fifth of a second. The result is an exit status of 0 or 1 or an exception that is not a \<open>CLIError\<close>.
\<close>

fun patient :: "command \<Rightarrow> bool" where
  "patient (CommandStop timeout) \<longleftrightarrow> timeout = PosInf"
| "patient (CommandRestart timeout opts) \<longleftrightarrow> timeout = PosInf"
| "patient _ \<longleftrightarrow> False"

fun in_foreground :: "command \<Rightarrow> bool" where
  "in_foreground (NoCommand log_file) \<longleftrightarrow> True"
| "in_foreground (CommandStart opts) \<longleftrightarrow> so_foreground opts"
| "in_foreground (CommandRestart timeout opts) \<longleftrightarrow> so_foreground opts"
| "in_foreground _ \<longleftrightarrow> False"

lemma pid_file_path_keeps: "pid_file_path env strict sc w = (r, sc1) \<Longrightarrow> sc_config_path sc1 = sc_config_path sc"
  by (auto simp: pid_file_path_def controller_config_def split: option.splits sum.splits if_splits)

lemma service_stop_keeps: "service_stop env timeout sc w = (r, sc1) \<Longrightarrow> sc_config_path sc1 = sc_config_path sc"
  by (auto simp: service_stop_def dest: pid_file_path_keeps split: prod.splits option.splits sum.splits bool.splits if_splits)

lemma service_start_endless:
  assumes "fst (service_start env opts sc w) = None"
  shows "so_foreground opts \<and> (\<exists>w'. env_foreground env (sc_config_path sc) w' = None)"
  using assms
  by (auto simp: service_start_def pid_is_running_eq Let_def dest!: pid_file_path_keeps
      split: prod.splits sum.splits option.splits if_splits)

lemma terminate_process_endless:
  "sane_environment env \<Longrightarrow> terminate_process env timeout pid_file pid w = None \<Longrightarrow> timeout = PosInf"
  using terminate_process_total by blast

lemma service_stop_endless:
  assumes "sane_environment env" and "service_stop env timeout sc w = (None, sc')"
  shows "timeout = PosInf"
  using assms(2)
  by (auto simp: service_stop_def pid_is_running_eq dest: terminate_process_endless [OF assms(1)]
      split: prod.splits sum.splits option.splits bool.splits if_splits)

lemma every_command_returns:
  assumes "sane_environment env"
  shows "case cli_main env config cmd w of
      Some (r, w') \<Rightarrow> (case r of Inr status \<Rightarrow> status \<in> {0, 1} | Inl e \<Rightarrow> \<forall>m. e \<noteq> CLIError m)
    | None \<Rightarrow> in_foreground cmd \<and> (\<exists>w'. env_foreground env (env_expanduser env config) w' = None) \<or> patient cmd"
proof (cases "run_command env cmd (controller_init env config) w")
  case None
  have path: "sc_config_path (controller_init env config) = env_expanduser env config"
    by (simp add: controller_init_def)
  have "in_foreground cmd \<and> (\<exists>w'. env_foreground env (env_expanduser env config) w' = None) \<or> patient cmd"
  proof (cases cmd)
    case (CommandStop timeout)
    with None show ?thesis
      by (cases "service_stop env timeout (controller_init env config) w")
        (auto dest: service_stop_endless [OF assms] split: option.splits sum.splits)
  next
    case (CommandRestart timeout opts)
    obtain y sc1 where y: "service_stop env timeout (controller_init env config) w = (y, sc1)" by fastforce
    then have "sc_config_path sc1 = env_expanduser env config" using service_stop_keeps path by metis
    with y None CommandRestart show ?thesis
      by (auto dest: service_stop_endless [OF assms] dest!: service_start_endless
          split: option.splits prod.splits sum.splits exn.splits)
  qed (use None in \<open>auto simp: path dest!: service_start_endless split: prod.splits sum.splits\<close>)
  with None show ?thesis by (simp add: cli_main_def)
next
  case (Some y)
  obtain r w' where y: "y = (r, w')" by (cases y)
  show ?thesis
  proof (cases r)
    case (Inl e)
    with Some y show ?thesis by (cases e) (simp_all add: cli_main_def)
  qed (use Some y in \<open>simp add: cli_main_def\<close>)
qed

text \<open>C39. \<open>stop\<close> signals only what the pid file names: whatever the outcome, it sends nothing, or SIGTERM,
  or SIGTERM and then SIGKILL, to the processes that the number in the file addresses and the user may
  signal, and that number is not 0. When the number is positive, as the gateway writes it, this is the
  one process with this identifier. When \<open>stop\<close> returns normally every process addressed is gone and the
  pid file was removed (as far as it can be).\<close>

theorem stop_signals_only_the_recorded_process:
  assumes "sane_environment env" and "service_stop env timeout sc w = (Some (r, w'), sc')"
  shows "w_signals w' = w_signals w \<and> r \<noteq> Inr () \<or>
    (\<exists>path pid l. fst (pid_file_path env False sc w) = Inr path \<and> read_pid_file path w = Inr (Some pid) \<and>
       pid \<noteq> 0 \<and> stopped_by env path pid w l r w' \<and>
       (0 < pid \<longrightarrow> l \<in> {[], [(pid, 15)], [(pid, 15), (pid, 9)]} \<and> (r = Inr () \<longrightarrow> w_procs w' pid = Absent)))"
proof -
  obtain p sc1 where p: "pid_file_path env False sc w = (p, sc1)" by (cases "pid_file_path env False sc w")
  show ?thesis
  proof (cases "\<exists>path pid. p = Inr path \<and> read_pid_file path w = Inr (Some pid) \<and> pid \<noteq> 0 \<and>
      fst (pid_is_running env pid w) = Inr True")
    case True
    then obtain path pid where r: "p = Inr path" "read_pid_file path w = Inr (Some pid)" "pid \<noteq> 0"
      "pid_is_running env pid w = (Inr True, w)" by (auto simp: pid_is_running_eq)
    with assms(2) p have "terminate_process env timeout path pid w = Some (r, w')"
      by (simp add: service_stop_def)
    from terminate_process_outcome [OF this assms(1)] obtain l where l: "stopped_by env path pid w l r w'" by blast
    show ?thesis
      by (intro disjI2 exI [of _ path] exI [of _ pid] exI [of _ l])
        (use p r l stopped_by_process [OF l] in simp)
  next
    case False
    with assms(2) p show ?thesis
      by (auto simp: service_stop_def pid_is_running_eq split: sum.splits option.splits if_splits)
  qed
qed

text \<open>The pid of the gateway, in the file where the configuration says, read as the application wrote it.\<close>

lemma pid_file_read_back:
  assumes "env_load_config env (sc_config_path sc) w = Inr config" and "sc_config sc = None"
    and "pid \<le> 2147483647"
    and "w_files w (env_expanduser env (svc_pid_file (gc_service config))) = Some (Readable (nat_str pid))"
  shows "pid_file_path env False sc w =
      (Inr (env_expanduser env (svc_pid_file (gc_service config))), sc\<lparr>sc_config := Some config\<rparr>)"
    and "read_pid_file (env_expanduser env (svc_pid_file (gc_service config))) w = Inr (Some (int pid))"
proof -
  have "(2147483647 :: nat) < 10 ^ 10" by simp
  also have "(10 :: nat) ^ 10 \<le> 10 ^ 4300" by (rule power_increasing) simp_all
  finally have "pid < 10 ^ 4300" using assms(3) by linarith
  then show "read_pid_file (env_expanduser env (svc_pid_file (gc_service config))) w = Inr (Some (int pid))"
    by (rule read_pid_file_nat_str [OF assms(4)])
  show "pid_file_path env False sc w =
      (Inr (env_expanduser env (svc_pid_file (gc_service config))), sc\<lparr>sc_config := Some config\<rparr>)"
    using assms(1,2) by (simp add: pid_file_path_def controller_config_def)
qed

text \<open>\<open>stop\<close> finds the gateway: after the gateway wrote its identifier (the decimal text of
  \<open>os.getpid()\<close>) to the configured file, \<open>stop\<close> with this configuration sends SIGTERM to exactly this
  process, if it may, and returns.\<close>

lemma gateway_is_reached:
  assumes "sane_environment env" and "timeout \<noteq> PosInf" and "env_load_config env (sc_config_path sc) w = Inr config"
    and "sc_config sc = None" and "0 < pid" and "pid \<le> 2147483647"
    and "w_files w (env_expanduser env (svc_pid_file (gc_service config))) = Some (Readable (nat_str pid))"
    and "w_procs w (int pid) = Permitted"
  shows "\<exists>r w' rest. fst (service_stop env timeout sc w) = Some (r, w') \<and>
    w_signals w' = w_signals w @ (int pid, 15) # rest \<and> rest \<in> {[], [(int pid, 9)]}"
proof -
  let ?path = "env_expanduser env (svc_pid_file (gc_service config))"
  note found = pid_file_read_back [OF assms(3,4,6,7)]
  from found have stop: "fst (service_stop env timeout sc w) = terminate_process env timeout ?path (int pid) w"
    using assms(5,6,8) by (simp add: service_stop_def pid_is_running_eq)
  obtain r w' where t: "terminate_process env timeout ?path (int pid) w = Some (r, w')"
    using terminate_process_total [OF assms(1,2)] by fastforce
  have "fst (os_kill env (int pid) 15 w) = Killed" using assms(5,6,8) by (simp add: os_kill_def)
  then obtain l where l: "stopped_by env ?path (int pid) w l r w'" "l \<noteq> []"
    using terminate_process_outcome [OF t assms(1)] by blast
  from stopped_by_process(1) [OF l(1)] assms(5) l(2)
  have "\<exists>rest. l = (int pid, 15) # rest \<and> rest \<in> {[], [(int pid, 9)]}" by auto
  with l t stop show ?thesis unfolding stopped_by_def by auto
qed

text \<open>An environment in which a process ends at the first signal.\<close>

definition plain_environment :: environment where
  "plain_environment =
     \<lparr>env_sleep = (\<lambda>d w. w\<lparr>w_now := w_now w + d\<rparr>),
      env_signal = (\<lambda>pid sig w. w\<lparr>w_procs := (w_procs w)(pid := Absent)\<rparr>),
      env_can_unlink = (\<lambda>path w. True), env_can_mkdir = (\<lambda>path w. True), env_expanduser = (\<lambda>path. path),
      env_load_config = (\<lambda>path w. Inr (sample_config [])), env_str_float = (\<lambda>t. ''15.0''), env_load_json = (\<lambda>path w. None),
      env_foreground = (\<lambda>path w. Some (Inr (), w)), env_daemonize = (\<lambda>path log dir mask w. (Inr (), w))\<rparr>"

lemma plain_environment_sane: "sane_environment plain_environment"
  by (simp add: sane_environment_def plain_environment_def)

definition running_world :: "string \<Rightarrow> world" where
  "running_world text =
     \<lparr>w_now = 0, w_files = [''/var/run/modbusgw.pid'' \<mapsto> Readable text],
      w_procs = (\<lambda>pid. if pid \<in> {42, 43} then Permitted else Absent),
      w_members = (\<lambda>pid. if pid = - 1 then [42, 43] else []), w_signals = [], w_output = []\<rparr>"

lemma running_world_path:
  "pid_file_path plain_environment False (controller_init plain_environment ''gw.cfg'') (running_world text) =
     (Inr ''/var/run/modbusgw.pid'',
      \<lparr>sc_config_path = ''gw.cfg'', sc_config = Some (sample_config [])\<rparr>)"
  by (simp add: pid_file_path_def controller_config_def controller_init_def plain_environment_def sample_config_def)

lemma stop_plain_world:
  assumes "read_pid_file ''/var/run/modbusgw.pid'' (running_world text) = Inr (Some pid)" "pid \<in> {- 1, 42}"
  shows "\<exists>w'. fst (service_stop plain_environment (Finite 15) (controller_init plain_environment ''gw.cfg'') (running_world text)) =
     Some (Inr (), w') \<and> w_signals w' = (if pid = 42 then [(42, 15)] else [(42, 15), (43, 15)])"
proof -
  have p: "pid \<noteq> 0" "kill_targets pid (running_world text) = (if pid = 42 then [42] else [42, 43])"
    "permitted_targets pid (running_world text) = (if pid = 42 then [42] else [42, 43])"
    "\<not> (pid < - 2147483648 \<or> 2147483647 < pid)" "w_signals (running_world text) = []"
    using assms(2) by (auto simp: running_world_def kill_targets_def permitted_targets_def)
  have running: "pid_is_running plain_environment pid (running_world text) = (Inr True, running_world text)"
    using p by (simp add: pid_is_running_eq)
  let ?w1 = "foldl (send_signal plain_environment 15) (running_world text) (if pid = 42 then [42] else [42, 43])"
  have kill: "os_kill plain_environment pid 15 (running_world text) = (Killed, ?w1)"
    using p by (simp add: os_kill_def)
  have gone: "kill_targets pid ?w1 = []" "w_signals ?w1 = (if pid = 42 then [(42, 15)] else [(42, 15), (43, 15)])"
    using assms(2) by (auto simp: plain_environment_def send_signal_def kill_targets_def running_world_def)
  have "wait_for_exit plain_environment pid (Finite 15) ?w1 = Some (Inr True, ?w1)"
    using gone p(4) unfolding wait_for_exit_def by (subst wait_loop.simps) (simp add: pid_is_running_eq)
  then have t: "terminate_process plain_environment (Finite 15) ''/var/run/modbusgw.pid'' pid (running_world text) =
      Some (Inr (), unlink_suppressed plain_environment ''/var/run/modbusgw.pid'' ?w1)"
    by (simp add: terminate_process_def kill)
  have "fst (service_stop plain_environment (Finite 15) (controller_init plain_environment ''gw.cfg'') (running_world text)) =
      Some (Inr (), unlink_suppressed plain_environment ''/var/run/modbusgw.pid'' ?w1)"
    using assms(1) p(1) running by (simp add: service_stop_def running_world_path t del: foldl.simps)
  then show ?thesis using gone(2) by (intro exI conjI) (assumption, simp only: unlink_suppressed_keeps)
qed

lemma pid_texts:
  "read_pid_file ''/var/run/modbusgw.pid'' (running_world ''42'') = Inr (Some 42)"
  "read_pid_file ''/var/run/modbusgw.pid'' (running_world ''-1'') = Inr (Some (- 1))"
  by code_simp+

theorem stop_signals_only_the_recorded_process_witness:
  "\<exists>r w' path pid l. fst (service_stop plain_environment (Finite 15) (controller_init plain_environment ''gw.cfg'')
      (running_world ''42'')) = Some (r, w') \<and>
    read_pid_file path (running_world ''42'') = Inr (Some pid) \<and> pid \<noteq> 0 \<and>
    stopped_by plain_environment path pid (running_world ''42'') l r w'"
proof -
  obtain w' sc' where s: "service_stop plain_environment (Finite 15) (controller_init plain_environment ''gw.cfg'')
      (running_world ''42'') = (Some (Inr (), w'), sc')"
    using stop_plain_world [OF pid_texts(1)] by (metis insertCI prod.collapse)
  from stop_signals_only_the_recorded_process [OF plain_environment_sane s]
  show ?thesis unfolding s fst_conv by blast
qed

text \<open>
  A pid file with a negative number is taken at its word: \<open>os.kill\<close> of \<open>-1\<close> addresses every process
  the user may signal.
\<close>

lemma negative_pid_is_signalled:
  "\<exists>w'. fst (service_stop plain_environment (Finite 15) (controller_init plain_environment ''gw.cfg'')
      (running_world ''-1'')) = Some (Inr (), w') \<and> w_signals w' = [(42, 15), (43, 15)]"
  using stop_plain_world [OF pid_texts(2)] by auto

text \<open>With an infinite timeout \<open>stop\<close> does not return while the process lives, and never sends SIGKILL.\<close>

lemma infinite_timeout_waits:
  assumes "pid_file_path env False sc w = (Inr path, sc1)" and "read_pid_file path w = Inr (Some pid)" and "pid \<noteq> 0"
    and "os_kill env pid 15 w = (Killed, w1)" and "outlives env pid alive" and "alive w1"
  shows "fst (service_stop env PosInf sc w) = None"
proof -
  have "pid_is_running env pid w = (Inr True, w)"
    using assms(4,5) by (auto simp: pid_is_running_eq os_kill_def outlives_def split: if_splits)
  moreover have "wait_for_exit env pid PosInf w1 = None"
    using wait_loop_infinite [OF assms(5,6)] by (simp add: wait_for_exit_def)
  ultimately show ?thesis using assms(1-4) by (simp add: service_stop_def terminate_process_def)
qed

end
