(* ===== verification/Gateway_Service.thy ===== *)
theory Gateway_Service
  imports Application Service_Control
begin

text \<open>
  The command line and the running gateway together: which handlers \<open>GatewayApplication\<close> installs
  (\<open>_install_signal_handlers\<close> of \<open>modbusgw/app.py\<close>), and what the signals that the commands stop and
  reload of \<open>modbusgw/cli.py\<close> send make of it. A signal without a handler ends the process.
\<close>

section \<open>Signal handlers\<close>

datatype installation = Installed | NotSupported | Refused exn

type_synonym signal_handlers = "(int \<times> (application \<Rightarrow> application)) list"

text \<open>The loop of \<open>_install_signal_handlers\<close>; \<open>NotSupported\<close> is the \<open>NotImplementedError\<close> it catches.\<close>

fun install_handlers ::
  "(int \<Rightarrow> installation) \<Rightarrow> signal_handlers \<Rightarrow> signal_handlers \<Rightarrow> unit result \<times> signal_handlers" where
  "install_handlers add [] installed = (Inr (), installed)"
| "install_handlers add ((sig, handler) # rest) installed =
     (case add sig of
        Refused e \<Rightarrow> (Inl e, installed)
      | NotSupported \<Rightarrow> install_handlers add rest installed
      | Installed \<Rightarrow> install_handlers add rest (dict_set sig handler installed))"

definition install_signal_handlers :: "(int \<Rightarrow> installation) \<Rightarrow> unit result \<times> signal_handlers" where
  "install_signal_handlers add =
     install_handlers add [(15, request_shutdown), (2, request_shutdown), (1, request_reload)] []"

text \<open>Delivering a signal; \<open>None\<close>: the default action ends the process.\<close>

definition deliver_signal :: "signal_handlers \<Rightarrow> int \<Rightarrow> application \<Rightarrow> application option" where
  "deliver_signal handlers sig app = map_option (\<lambda>handler. handler app) (dict_get handlers sig)"

fun deliver_signals :: "signal_handlers \<Rightarrow> int list \<Rightarrow> application \<Rightarrow> application option" where
  "deliver_signals handlers [] app = Some app"
| "deliver_signals handlers (sig # sigs) app =
     Option.bind (deliver_signal handlers sig app) (deliver_signals handlers sigs)"

lemma all_installed:
  "install_signal_handlers (\<lambda>_. Installed) =
     (Inr (), [(15, request_shutdown), (2, request_shutdown), (1, request_reload)])"
  by (simp add: install_signal_handlers_def)

text \<open>The signals sent to a process.\<close>

definition sent_to :: "int \<Rightarrow> (int \<times> int) list \<Rightarrow> int list" where
  "sent_to pid signals = map snd (filter (\<lambda>(p, _). p = pid) signals)"

section \<open>Shutdown\<close>

lemma stop_runtime_calm:
  assumes "tidy path pid app" "\<forall>c. stops c = Stops" "stop_runtime stops app = (returned, app')"
  shows "app_live app' = []"
proof -
  obtain app0 where "stop_runtime stops app = (True, app0)" "tidy path pid app0" "app_runtime app0 = None"
    by (rule tidy_stop [OF assms(1,2)])
  with assms(3) show ?thesis by (simp add: tidy_def)
qed

lemma shutdown_turn:
  assumes "app_reachable (calm_world path) pid Looping app"
  shows "\<exists>app'. app_turn world (request_shutdown app) = Some (if stop_hangs (rw_stops world) app then Stuck else Over (Inr ()), app') \<and>
    app_runtime app' = None \<and>
    app_files app' = (if stop_hangs (rw_stops world) app \<or> rw_unlink world \<noteq> Inr () then app_files app else Map.empty) \<and>
    ((\<forall>c. rw_stops world c = Stops) \<longrightarrow> \<not> stop_hangs (rw_stops world) app \<and> app_live app' = [])"
proof -
  let ?app = "request_shutdown app"
  obtain returned app0 where stop: "stop_runtime (rw_stops world) ?app = (returned, app0)" by fastforce
  have returned: "returned \<longleftrightarrow> \<not> stop_hangs (rw_stops world) app"
    using stop_runtime_returns [of "rw_stops world" ?app] stop by (auto simp: stop_hangs_def request_shutdown_def)
  have turn: "app_turn world ?app =
      Some (if stop_hangs (rw_stops world) app then (Stuck, app0) else (Over (Inr ()), cleanup_pid_file (rw_unlink world) app0))"
    using stop returned by (cases returned) (simp_all add: app_turn_def, simp_all add: request_shutdown_def)
  have "tidy path pid ?app" using tidy_reachable [OF app_term [OF assms(1)]] by blast
  then have files: "app_files app0 = (case app_pid_file app0 of None \<Rightarrow> Map.empty | Some p \<Rightarrow> [p \<mapsto> nat_str pid])"
    and live: "(\<forall>c. rw_stops world c = Stops) \<longrightarrow> app_live app0 = []"
    using stop_runtime_keeps(3,4) [OF stop] stop_runtime_calm [OF _ _ stop] by (auto simp: tidy_def)
  have same: "app_files app0 = app_files app"
    using stop_runtime_keeps(3) [OF stop] by (simp add: request_shutdown_def)
  have "app_files (cleanup_pid_file (rw_unlink world) app0) =
      (if rw_unlink world \<noteq> Inr () then app_files app0 else Map.empty)"
    using files by (cases "rw_unlink world") (auto simp: cleanup_pid_file_def Let_def split: option.splits)
  moreover have "app_runtime (cleanup_pid_file u app0) = None" "app_live (cleanup_pid_file u app0) = app_live app0" for u
    using stop_runtime_keeps(1) [OF stop] by (auto simp: cleanup_pid_file_def Let_def split: option.splits sum.splits)
  moreover have "(\<forall>c. rw_stops world c = Stops) \<longrightarrow> \<not> stop_hangs (rw_stops world) app" by (simp add: stop_hangs_def)
  ultimately show ?thesis
    using turn same live stop_runtime_keeps(1) [OF stop] by (cases "stop_hangs (rw_stops world) app") auto
qed

lemma reload_turn:
  assumes "app_runtime app \<noteq> None" "\<not> app_stop_event app"
  shows "app_turn world (request_reload app) =
    Some (case reload_runtime False world (app\<lparr>app_reload_event := False\<rparr>) of
        (r, app') \<Rightarrow> (after_reload r, app'))"
  using assms by (simp add: app_turn_def request_reload_def split: prod.splits)

section \<open>Properties\<close>

text \<open>C40. The command stop ends the gateway: while a gateway that lives in a calm world has its pid file at
  the path that the configuration of the command names, and its process exists, the command reads the
  identifier that the gateway wrote there and sends that process SIGTERM, and nothing else but SIGKILL
  after its timeout. The gateway handles SIGTERM at whatever point of its life, and its next turn ends
  the process without an exception, unless the \<open>stop\<close> of one of its components never returns: then it
  is stuck in it. When every \<open>stop\<close> returns and raises nothing no component is alive afterwards, and when
  the pid file can be removed it is gone.\<close>

theorem stop_command_ends_the_gateway:
  assumes "sane_environment env" and "timeout \<noteq> PosInf"
    and "env_load_config env (sc_config_path sc) w = Inr config" and "sc_config sc = None"
    and "path = env_expanduser env (svc_pid_file (gc_service config))"
    and "app_reachable (calm_world path) pid Looping app" and "app_files app path \<noteq> None"
    and "w_files w path = map_option Readable (app_files app path)"
    and "0 < pid" and "pid \<le> 2147483647" and "w_procs w (int pid) = Permitted"
  shows "\<exists>r w' rest app1 app2. fst (service_stop env timeout sc w) = Some (r, w') \<and>
    w_signals w' = w_signals w @ (int pid, 15) # rest \<and> rest \<in> {[], [(int pid, 9)]} \<and>
    deliver_signal (snd (install_signal_handlers (\<lambda>_. Installed))) 15 app = Some app1 \<and>
    app_turn world app1 = Some (if stop_hangs (rw_stops world) app then Stuck else Over (Inr ()), app2) \<and> app_runtime app2 = None \<and>
    ((\<forall>c. rw_stops world c = Stops) \<longrightarrow> \<not> stop_hangs (rw_stops world) app \<and> app_live app2 = []) \<and>
    (\<not> stop_hangs (rw_stops world) app \<and> rw_unlink world = Inr () \<longrightarrow> app_files app2 = Map.empty)"
proof -
  have "tidy path pid app" using tidy_reachable [OF assms(6)] by blast
  with assms(7) have "app_files app path = Some (nat_str pid)"
    by (auto simp: tidy_def split: option.splits if_splits)
  with assms(5,8) have stored: "w_files w (env_expanduser env (svc_pid_file (gc_service config))) = Some (Readable (nat_str pid))"
    by simp
  have d: "deliver_signal (snd (install_signal_handlers (\<lambda>_. Installed))) 15 app = Some (request_shutdown app)"
    by (simp add: all_installed deliver_signal_def)
  obtain r w' rest where "fst (service_stop env timeout sc w) = Some (r, w')"
    "w_signals w' = w_signals w @ (int pid, 15) # rest" "rest \<in> {[], [(int pid, 9)]}"
    using gateway_is_reached [OF assms(1-4,9,10) stored assms(11)] by blast
  moreover obtain app2 where
    over: "app_turn world (request_shutdown app) = Some (if stop_hangs (rw_stops world) app then Stuck else Over (Inr ()), app2)"
      "app_runtime app2 = None"
      "app_files app2 = (if stop_hangs (rw_stops world) app \<or> rw_unlink world \<noteq> Inr () then app_files app else Map.empty)"
      "(\<forall>c. rw_stops world c = Stops) \<longrightarrow> \<not> stop_hangs (rw_stops world) app \<and> app_live app2 = []"
    using shutdown_turn [OF assms(6), of world] by blast
  moreover have "\<not> stop_hangs (rw_stops world) app \<and> rw_unlink world = Inr () \<longrightarrow> app_files app2 = Map.empty"
    by (simp add: over(3))
  ultimately show ?thesis using d by blast
qed

text \<open>The command reload makes a running gateway load its configuration again.\<close>

theorem reload_command_reloads_the_gateway:
  assumes "env_load_config env (sc_config_path sc) w = Inr config"
    and "sc_config sc = None" and "0 < pid" and "pid \<le> 2147483647"
    and "w_files w (env_expanduser env (svc_pid_file (gc_service config))) = Some (Readable (nat_str pid))"
    and "w_procs w (int pid) = Permitted" and "app_runtime app \<noteq> None" and "\<not> app_stop_event app"
  shows "\<exists>w' app1. fst (service_reload env sc w) = (Inr (), w') \<and>
    w' = env_signal env (int pid) 1 (w\<lparr>w_signals := w_signals w @ [(int pid, 1)]\<rparr>) \<and>
    deliver_signal (snd (install_signal_handlers (\<lambda>_. Installed))) 1 app = Some app1 \<and>
    app_turn world app1 = Some (case reload_runtime False world (app\<lparr>app_reload_event := False\<rparr>) of
        (r, app') \<Rightarrow> (after_reload r, app'))"
proof -
  have d: "deliver_signal (snd (install_signal_handlers (\<lambda>_. Installed))) 1 app = Some (request_reload app)"
    by (simp add: all_installed deliver_signal_def)
  have "fst (service_reload env sc w) =
      (Inr (), env_signal env (int pid) 1 (w\<lparr>w_signals := w_signals w @ [(int pid, 1)]\<rparr>))"
    using assms(3,4,6) pid_file_read_back [OF assms(1,2,4,5)]
    by (simp add: service_reload_def pid_is_running_eq) (simp add: os_kill_def send_signal_def)
  with d reload_turn [OF assms(7,8)] show ?thesis by blast
qed

theorem stop_command_ends_the_gateway_witness:
  "\<exists>r w' app1 app2. fst (service_stop plain_environment (Finite 15) (controller_init plain_environment ''gw.cfg'')
      (running_world ''42'')) = Some (r, w') \<and> (42, 15) \<in> set (w_signals w') \<and>
    deliver_signal (snd (install_signal_handlers (\<lambda>_. Installed))) 15 booted = Some app1 \<and>
    app_turn quiet_world app1 = Some (Over (Inr ()), app2) \<and> app_live app2 = [] \<and> app_files app2 = Map.empty"
proof -
  let ?sc = "controller_init plain_environment ''gw.cfg''" and ?path = "''/var/run/modbusgw.pid''"
  have digits: "nat_str 42 = ''42''" by code_simp
  have c: "env_load_config plain_environment (sc_config_path ?sc) (running_world ''42'') = Inr (sample_config [])"
    "sc_config ?sc = None" by (simp_all add: plain_environment_def controller_init_def)
  have f: "?path = env_expanduser plain_environment (svc_pid_file (gc_service (sample_config [])))"
    by (simp add: plain_environment_def sample_config_def)
  have app: "app_reachable (calm_world ?path) 42 Looping booted"
    by (rule app_booted [where ok = "calm_world ?path" and world = quiet_world, OF quiet_world_calm quiet_boot(1)])
  have g: "app_files booted ?path \<noteq> None"
    "w_files (running_world ''42'') ?path = map_option Readable (app_files booted ?path)"
    by (simp_all add: quiet_boot(5) digits running_world_def)
  have p: "0 < (42 :: nat)" "(42 :: nat) \<le> 2147483647" "w_procs (running_world ''42'') (int 42) = Permitted"
    by (simp_all add: running_world_def)
  have calm: "rw_stops quiet_world c = Stops" "rw_unlink quiet_world = Inr ()" for c
    by (simp_all add: quiet_world_def)
  have finite: "Finite 15 \<noteq> PosInf" by simp
  from stop_command_ends_the_gateway [OF plain_environment_sane finite c f app g p, of quiet_world]
  show ?thesis by (auto simp: calm)
qed

end
