(* ===== verification/Tls_Contexts.thy ===== *)
theory Tls_Contexts
  imports Tcp_Frontend
begin

text \<open>
  The TLS settings of the program: \<open>_build_ssl_context\<close> of \<open>modbusgw/frontends/tcp_modbus.py\<close>,
  \<open>modbusgw/backends/tcp.py\<close> and \<open>modbusgw_client/tcp_client.py\<close>, and how the latter two open their
  connections. Of the module \<open>ssl\<close> the settings of a context are modelled, with the errors of
  setting them, and what the settings make a handshake accept; which files can be loaded is an
  argument. A certificate is issued under some roots, for some host names, with a subject.
\<close>

section \<open>The module ssl\<close>

datatype verify_mode = CERT_NONE | CERT_OPTIONAL | CERT_REQUIRED

datatype trust_root = SystemRoots | CaFile string

datatype purpose = SERVER_AUTH | CLIENT_AUTH

record ssl_context =
  ctx_check_hostname :: bool
  ctx_verify_mode :: verify_mode
  ctx_roots :: "trust_root list"
  ctx_chain :: "(string \<times> string) option"

text \<open>Whether a file of authorities, and a certificate with its key, can be loaded.\<close>

record ssl_files =
  sf_ca :: "string \<Rightarrow> unit result"
  sf_chain :: "string \<Rightarrow> string \<Rightarrow> unit result"

text \<open>A client's context verifies by default, and then the system's roots are loaded.\<close>

definition create_default_context :: "purpose \<Rightarrow> ssl_context" where
  "create_default_context p =
     (case p of
        SERVER_AUTH \<Rightarrow> \<lparr>ctx_check_hostname = True, ctx_verify_mode = CERT_REQUIRED,
          ctx_roots = [SystemRoots], ctx_chain = None\<rparr>
      | CLIENT_AUTH \<Rightarrow> \<lparr>ctx_check_hostname = False, ctx_verify_mode = CERT_NONE,
          ctx_roots = [], ctx_chain = None\<rparr>)"

definition load_verify_locations :: "ssl_files \<Rightarrow> string \<Rightarrow> ssl_context \<Rightarrow> ssl_context result" where
  "load_verify_locations files ca ctx =
     map_sum id (\<lambda>_. ctx\<lparr>ctx_roots := ctx_roots ctx @ [CaFile ca]\<rparr>) (sf_ca files ca)"

definition load_cert_chain :: "ssl_files \<Rightarrow> string \<Rightarrow> string \<Rightarrow> ssl_context \<Rightarrow> ssl_context result" where
  "load_cert_chain files cert key ctx =
     map_sum id (\<lambda>_. ctx\<lparr>ctx_chain := Some (cert, key)\<rparr>) (sf_chain files cert key)"

text \<open>The two settings depend on each other: host names are checked of verified certificates only.\<close>

definition set_check_hostname :: "bool \<Rightarrow> ssl_context \<Rightarrow> ssl_context" where
  "set_check_hostname v ctx =
     (if v \<and> ctx_verify_mode ctx = CERT_NONE
      then ctx\<lparr>ctx_check_hostname := True, ctx_verify_mode := CERT_REQUIRED\<rparr>
      else ctx\<lparr>ctx_check_hostname := v\<rparr>)"

definition set_verify_mode :: "verify_mode \<Rightarrow> ssl_context \<Rightarrow> ssl_context result" where
  "set_verify_mode m ctx =
     (if m = CERT_NONE \<and> ctx_check_hostname ctx
      then Inl (ValueError ''Cannot set verify_mode to CERT_NONE when check_hostname is enabled.'')
      else Inr (ctx\<lparr>ctx_verify_mode := m\<rparr>))"

section \<open>The contexts of the program\<close>

text \<open>A step that is made only when an optional text is there, or two are.\<close>

definition when_some :: "'v option \<Rightarrow> ('v \<Rightarrow> 'c \<Rightarrow> 'c result) \<Rightarrow> 'c \<Rightarrow> 'c result" where
  "when_some v f c = (case v of None \<Rightarrow> Inr c | Some x \<Rightarrow> f x c)"

definition both :: "'v option \<Rightarrow> 'w option \<Rightarrow> ('v \<times> 'w) option" where
  "both v w = (case (v, w) of (Some x, Some y) \<Rightarrow> Some (x, y) | _ \<Rightarrow> None)"

definition backend_ssl_context :: "ssl_files \<Rightarrow> tls_config option \<Rightarrow> ssl_context result" where
  "backend_ssl_context files tls =
     (case tls of
        None \<Rightarrow> Inr (create_default_context SERVER_AUTH)
      | Some t \<Rightarrow>
          bind_result (when_some (tls_ca_file t) (load_verify_locations files) (create_default_context SERVER_AUTH)) (\<lambda>ctx.
          bind_result (if \<not> tls_verify_server_cert t then set_verify_mode CERT_NONE (set_check_hostname False ctx)
                       else Inr ctx) (\<lambda>ctx.
          when_some (both (tls_cert_file t) (tls_key_file t)) (\<lambda>(cert, key). load_cert_chain files cert key) ctx)))"

definition frontend_ssl_context :: "ssl_files \<Rightarrow> tls_config option \<Rightarrow> ssl_context option result" where
  "frontend_ssl_context files tls =
     (case tls of
        None \<Rightarrow> Inr None
      | Some t \<Rightarrow>
          bind_result (when_some (both (tls_cert_file t) (tls_key_file t)) (\<lambda>(cert, key). load_cert_chain files cert key)
            (create_default_context CLIENT_AUTH)) (\<lambda>ctx.
          bind_result (when_some (tls_ca_file t) (load_verify_locations files) ctx) (\<lambda>ctx.
          bind_result (set_verify_mode (if tls_require_client_cert t then CERT_REQUIRED else CERT_OPTIONAL) ctx) (\<lambda>ctx.
          Inr (Some (set_check_hostname False ctx))))))"

text \<open>The client's \<open>TLSConfig\<close> holds texts, of which the empty one counts as absent.\<close>

record client_tls_config =
  ctl_ca_file :: "string option"
  ctl_cert_file :: "string option"
  ctl_key_file :: "string option"
  ctl_verify :: bool

definition truthy :: "string option \<Rightarrow> string option" where
  "truthy s = (if s = Some [] then None else s)"

definition client_ssl_context :: "ssl_files \<Rightarrow> client_tls_config \<Rightarrow> ssl_context result" where
  "client_ssl_context files config =
     bind_result (when_some (truthy (ctl_ca_file config)) (load_verify_locations files) (create_default_context SERVER_AUTH)) (\<lambda>ctx.
     bind_result (if \<not> ctl_verify config then set_verify_mode CERT_NONE (set_check_hostname False ctx)
                  else Inr ctx) (\<lambda>ctx.
     when_some (both (truthy (ctl_cert_file config)) (truthy (ctl_key_file config)))
       (\<lambda>(cert, key). load_cert_chain files cert key) ctx))"

section \<open>Opening a connection\<close>

text \<open>
  The arguments with which \<open>asyncio.open_connection\<close> is called; without a \<open>server_hostname\<close> it
  takes the host for a connection with TLS.
\<close>

record connect_args =
  ca_host :: string
  ca_port :: nat
  ca_ssl :: "ssl_context option"
  ca_server_hostname :: "string option"

definition backend_connect_args :: "ssl_files \<Rightarrow> tcp_backend_config \<Rightarrow> connect_args result" where
  "backend_connect_args files config =
     bind_result (if tbc_use_tls config then map_sum id Some (backend_ssl_context files (tbc_tls config)) else Inr None) (\<lambda>ctx.
       Inr \<lparr>ca_host = tbc_host config, ca_port = tbc_port config, ca_ssl = ctx,
            ca_server_hostname = (case ctx of
                Some c \<Rightarrow> if ctx_check_hostname c then Some (tbc_host config) else None
              | None \<Rightarrow> None)\<rparr>)"

text \<open>\<open>_create_socket\<close> after the raw connection to the host was made: plain, or wrapped.\<close>

definition client_wrap_args :: "ssl_files \<Rightarrow> string \<Rightarrow> client_tls_config option \<Rightarrow> (ssl_context \<times> string option) option result" where
  "client_wrap_args files host tls =
     (case tls of
        None \<Rightarrow> Inr None
      | Some t \<Rightarrow>
          bind_result (client_ssl_context files t) (\<lambda>ctx.
            Inr (Some (ctx, if ctl_verify t then Some host else None))))"

section \<open>Specification: which peers a handshake accepts\<close>

record certificate =
  crt_roots :: "trust_root set"
  crt_hosts :: "string set"
  crt_subject :: "(string \<times> string) list list option"

definition trusted :: "ssl_context \<Rightarrow> certificate \<Rightarrow> bool" where
  "trusted ctx c \<longleftrightarrow> (\<exists>root \<in> set (ctx_roots ctx). root \<in> crt_roots c)"

definition handshake_accepts :: "ssl_context \<Rightarrow> string option \<Rightarrow> certificate option \<Rightarrow> bool" where
  "handshake_accepts ctx hostname cert \<longleftrightarrow>
     (case cert of
        None \<Rightarrow> ctx_verify_mode ctx \<noteq> CERT_REQUIRED
      | Some c \<Rightarrow> (ctx_verify_mode ctx \<noteq> CERT_NONE \<longrightarrow> trusted ctx c) \<and>
          (ctx_check_hostname ctx \<longrightarrow> (\<exists>h. hostname = Some h \<and> h \<in> crt_hosts c)))"

text \<open>\<open>getpeercert\<close> after the handshake: empty when the certificate was not verified.\<close>

definition getpeercert :: "ssl_context \<Rightarrow> certificate option \<Rightarrow> peer_cert" where
  "getpeercert ctx cert =
     (case cert of
        None \<Rightarrow> NoCert
      | Some c \<Rightarrow> if ctx_verify_mode ctx = CERT_NONE then NoCert else Cert (crt_subject c))"

section \<open>Lemmas\<close>

definition ca_roots :: "string option \<Rightarrow> trust_root list" where
  "ca_roots ca = (case ca of None \<Rightarrow> [] | Some f \<Rightarrow> [CaFile f])"

lemma load_verify_locations_Inr:
  "when_some ca (load_verify_locations files) ctx = Inr ctx' \<longleftrightarrow>
     (\<forall>f. ca = Some f \<longrightarrow> sf_ca files f = Inr ()) \<and> ctx' = ctx\<lparr>ctx_roots := ctx_roots ctx @ ca_roots ca\<rparr>"
  by (cases ca) (auto simp: when_some_def load_verify_locations_def ca_roots_def map_sum_id_Inr_iff)

lemma load_cert_chain_Inr:
  "when_some v (\<lambda>(cert, key). load_cert_chain files cert key) ctx = Inr ctx' \<longleftrightarrow>
     (\<forall>cert key. v = Some (cert, key) \<longrightarrow> sf_chain files cert key = Inr ()) \<and>
     ctx' = (if v = None then ctx else ctx\<lparr>ctx_chain := v\<rparr>)"
  by (cases v) (auto simp: when_some_def load_cert_chain_def map_sum_id_Inr_iff)

lemma verification_setting:
  assumes "ctx_check_hostname ctx" "ctx_verify_mode ctx = CERT_REQUIRED"
  shows "(if \<not> verify then set_verify_mode CERT_NONE (set_check_hostname False ctx) else Inr ctx) =
    Inr (ctx\<lparr>ctx_check_hostname := verify, ctx_verify_mode := if verify then CERT_REQUIRED else CERT_NONE\<rparr>)"
  using assms by (simp add: set_verify_mode_def set_check_hostname_def)

text \<open>What a backend's context is, when its files can be loaded.\<close>

definition verifies :: "tls_config option \<Rightarrow> bool" where
  "verifies tls \<longleftrightarrow> (case tls of None \<Rightarrow> True | Some t \<Rightarrow> tls_verify_server_cert t)"

lemma backend_ssl_context_Inr:
  assumes "backend_ssl_context files tls = Inr ctx"
  shows "ctx_check_hostname ctx = verifies tls"
    and "ctx_verify_mode ctx = (if verifies tls then CERT_REQUIRED else CERT_NONE)"
    and "ctx_roots ctx = SystemRoots # ca_roots (Option.bind tls tls_ca_file)"
  using assms
  by (cases tls; auto simp: backend_ssl_context_def bind_result_Inr_iff load_verify_locations_Inr load_cert_chain_Inr
      verification_setting create_default_context_def verifies_def ca_roots_def split: if_splits)+

lemma frontend_ssl_context_Inr:
  assumes "frontend_ssl_context files (Some t) = Inr (Some ctx)"
  shows "ctx_verify_mode ctx = (if tls_require_client_cert t then CERT_REQUIRED else CERT_OPTIONAL)"
    and "\<not> ctx_check_hostname ctx" and "ctx_roots ctx = ca_roots (tls_ca_file t)"
    and "ctx_chain ctx = both (tls_cert_file t) (tls_key_file t)"
  using assms
  by (auto simp: frontend_ssl_context_def bind_result_Inr_iff load_verify_locations_Inr load_cert_chain_Inr
      set_verify_mode_def set_check_hostname_def create_default_context_def split: if_splits)

section \<open>Properties\<close>


definition tls_sample :: tls_config where
  "tls_sample = \<lparr>tls_ca_file = Some ''ca.pem'', tls_cert_file = Some ''gw.pem'', tls_key_file = Some ''gw.key'',
     tls_require_client_cert = True, tls_client_dn_allow = ['' CN=HMI ''], tls_verify_server_cert = True\<rparr>"

definition tls_plant_config :: tcp_modbus_frontend_config where
  "tls_plant_config = plant_config\<lparr>tmf_tls := Some tls_sample, tmf_cidr_allow := []\<rparr>"

definition all_files :: ssl_files where
  "all_files = \<lparr>sf_ca = \<lambda>_. Inr (), sf_chain = \<lambda>_ _. Inr ()\<rparr>"

definition hmi_certificate :: certificate where
  "hmi_certificate = \<lparr>crt_roots = {CaFile ''ca.pem''}, crt_hosts = {}, crt_subject = Some [[(''commonName'', ''hmi'')]]\<rparr>"


text \<open>A connection of a backend under TLS goes to a server with a verified certificate for the configured
  host, unless verification is switched off; without a \<open>tls\<close> section it is on. The authority of
  \<open>ca_file\<close> is added to those of the system, it does not replace them.\<close>

theorem backend_server_is_verified:
  assumes "backend_connect_args files config = Inr args" and "ca_ssl args = Some ctx"
  shows "handshake_accepts ctx (ca_server_hostname args) (Some c) \<longleftrightarrow>
    (verifies (tbc_tls config) \<longrightarrow> tbc_host config \<in> crt_hosts c \<and>
      (SystemRoots \<in> crt_roots c \<or>
       (\<exists>t ca. tbc_tls config = Some t \<and> tls_ca_file t = Some ca \<and> CaFile ca \<in> crt_roots c)))"
    and "tbc_use_tls config"
proof -
  have ctx: "backend_ssl_context files (tbc_tls config) = Inr ctx" and tls: "tbc_use_tls config"
    and host: "ca_server_hostname args = (if ctx_check_hostname ctx then Some (tbc_host config) else None)"
    using assms by (auto simp: backend_connect_args_def bind_result_Inr_iff map_sum_id_Inr_iff split: if_splits)
  note set = backend_ssl_context_Inr [OF ctx]
  show "tbc_use_tls config" by (rule tls)
  have "trusted ctx c \<longleftrightarrow> SystemRoots \<in> crt_roots c \<or>
      (\<exists>t ca. tbc_tls config = Some t \<and> tls_ca_file t = Some ca \<and> CaFile ca \<in> crt_roots c)"
    by (cases "tbc_tls config") (auto simp: trusted_def set(3) ca_roots_def split: option.splits)
  then show "handshake_accepts ctx (ca_server_hostname args) (Some c) \<longleftrightarrow>
    (verifies (tbc_tls config) \<longrightarrow> tbc_host config \<in> crt_hosts c \<and>
      (SystemRoots \<in> crt_roots c \<or>
       (\<exists>t ca. tbc_tls config = Some t \<and> tls_ca_file t = Some ca \<and> CaFile ca \<in> crt_roots c)))"
    by (auto simp: handshake_accepts_def host set(1,2))
qed

text \<open>The client library builds the context that the gateway builds for the same settings.\<close>

lemma client_context_as_backend:
  "client_ssl_context files config = backend_ssl_context files (Some
     \<lparr>tls_ca_file = truthy (ctl_ca_file config), tls_cert_file = truthy (ctl_cert_file config),
      tls_key_file = truthy (ctl_key_file config), tls_require_client_cert = r, tls_client_dn_allow = dns,
      tls_verify_server_cert = ctl_verify config\<rparr>)"
  by (simp add: client_ssl_context_def backend_ssl_context_def)

text \<open>A certificate that is presented is verified even where none is required, with or without an authority.\<close>

lemma optional_certificates_are_verified:
  assumes "frontend_ssl_context files (Some t) = Inr (Some ctx)" and "\<not> tls_require_client_cert t"
  shows "handshake_accepts ctx None None"
    and "handshake_accepts ctx None (Some c) \<longleftrightarrow> (\<exists>ca. tls_ca_file t = Some ca \<and> CaFile ca \<in> crt_roots c)"
  using assms(2) frontend_ssl_context_Inr [OF assms(1)]
  by (auto simp: handshake_accepts_def trusted_def ca_roots_def split: option.splits)

text \<open>A frontend with a certificate but no key, or neither, starts without an identity.\<close>

lemma tls_frontend_without_identity:
  assumes "frontend_ssl_context files (Some t) = Inr (Some ctx)" and "tls_cert_file t = None \<or> tls_key_file t = None"
  shows "ctx_chain ctx = None"
  using assms(2) frontend_ssl_context_Inr(4) [OF assms(1)] by (auto simp: both_def split: option.splits)

end
