(* ===== verification/Daemon_Process.thy ===== *)
theory Daemon_Process
  imports Service_Control
begin

text \<open>
  The action of the daemon, \<open>_run\<close> in \<open>_start_daemon\<close> of \<open>modbusgw/cli.py\<close>: it sets the file mode
  mask, redirects the standard streams to the log file, runs the gateway and undoes this in its
  \<open>finally\<close> block. \<open>Service_Control\<close> leaves what the package \<open>daemonize\<close> does with the action to its
  environment. What the operating system answers is the record \<open>daemon_env\<close>; the run of the
  gateway may change the process in any way.
\<close>

section \<open>The process\<close>

datatype io_stream = StdStream nat | LogStream string

record process_io =
  io_umask :: int
  io_stdout :: io_stream
  io_stderr :: io_stream
  io_descriptors :: "nat \<Rightarrow> io_stream"
  io_open_logs :: "string list"
  io_log_handler :: "io_stream option"

record daemon_env =
  de_open :: "string \<Rightarrow> unit result"
  de_dup2 :: "string \<Rightarrow> nat \<Rightarrow> unit result"
  de_flush :: "unit result"
  de_gateway :: "process_io \<Rightarrow> unit result \<times> process_io"

text \<open>\<open>fileno\<close> of a standard stream, and of a log: a number that is no standard one.\<close>

fun stream_fileno :: "io_stream \<Rightarrow> nat" where
  "stream_fileno (StdStream n) = n"
| "stream_fileno (LogStream path) = 3"

definition dup_log :: "daemon_env \<Rightarrow> string \<Rightarrow> io_stream \<Rightarrow> process_io \<Rightarrow> unit result \<times> process_io" where
  "dup_log env path target io =
     (case de_dup2 env path (stream_fileno target) of
        Inl e \<Rightarrow> (Inl e, io)
      | Inr _ \<Rightarrow> (Inr (), io\<lparr>io_descriptors := (io_descriptors io)(stream_fileno target := LogStream path)\<rparr>))"

text \<open>The redirection; the flag says whether \<open>log_handle\<close> is bound afterwards.\<close>

definition redirect_output :: "daemon_env \<Rightarrow> string \<Rightarrow> process_io \<Rightarrow> unit result \<times> bool \<times> process_io" where
  "redirect_output env path io =
     (case de_open env path of
        Inl (OSError err) \<Rightarrow> (Inl (CLIError (''Unable to open log file '' @ path @ '': '' @ err)), False, io)
      | Inl e \<Rightarrow> (Inl e, False, io)
      | Inr _ \<Rightarrow>
          (let io1 = io\<lparr>io_open_logs := io_open_logs io @ [path]\<rparr> in
           case dup_log env path (io_stdout io1) io1 of
             (Inl e, io2) \<Rightarrow> (Inl e, True, io2)
           | (Inr _, io2) \<Rightarrow>
               (case dup_log env path (io_stderr io2) io2 of
                  (Inl e, io3) \<Rightarrow> (Inl e, True, io3)
                | (Inr _, io3) \<Rightarrow> (Inr (), True, io3\<lparr>io_stdout := LogStream path, io_stderr := LogStream path\<rparr>))))"

text \<open>The \<open>finally\<close> block; a log that cannot be flushed is not closed.\<close>

definition restore_process ::
  "daemon_env \<Rightarrow> string option \<Rightarrow> bool \<Rightarrow> process_io \<Rightarrow> process_io \<Rightarrow> process_io" where
  "restore_process env log_path opened before io =
     (let io1 = (case log_path of
          None \<Rightarrow> io
        | Some path \<Rightarrow>
            if \<not> opened then io
            else (if isl (de_flush env) then io else io\<lparr>io_open_logs := removeAll path (io_open_logs io)\<rparr>)
              \<lparr>io_stdout := io_stdout before, io_stderr := io_stderr before\<rparr>)
      in io1\<lparr>io_umask := io_umask before\<rparr>)"

definition daemon_run :: "daemon_env \<Rightarrow> string option \<Rightarrow> int \<Rightarrow> process_io \<Rightarrow> unit result \<times> process_io" where
  "daemon_run env log_path umask io =
     (let io1 = io\<lparr>io_umask := umask\<rparr> in
      case (case log_path of
              None \<Rightarrow> (Inr (), False, io1)
            | Some path \<Rightarrow> redirect_output env path io1) of
        (Inl e, opened, io2) \<Rightarrow> (Inl e, restore_process env log_path opened io io2)
      | (Inr _, opened, io2) \<Rightarrow>
          (case de_gateway env (io2\<lparr>io_log_handler := Some (io_stderr io2)\<rparr>) of
             (r, io3) \<Rightarrow> (r, restore_process env log_path opened io io3)))"

section \<open>Lemmas\<close>

lemma restore_process_io:
  "io_umask (restore_process env log_path opened before io) = io_umask before"
  "opened \<Longrightarrow> log_path \<noteq> None \<Longrightarrow>
     io_stdout (restore_process env log_path opened before io) = io_stdout before \<and>
     io_stderr (restore_process env log_path opened before io) = io_stderr before"
  by (auto simp: restore_process_def Let_def split: option.splits)

lemma redirect_output_cases:
  obtains (failed) e where "redirect_output env path io = (Inl e, False, io)"
  | (partly) e io' where "redirect_output env path io = (Inl e, True, io')" "io_stdout io' = io_stdout io" "io_stderr io' = io_stderr io"
  | (redirected) io' where "redirect_output env path io = (Inr (), True, io')" "io_stdout io' = LogStream path" "io_stderr io' = LogStream path"
      "io_umask io' = io_umask io" "de_open env path = Inr ()"
      "io_descriptors io' = (io_descriptors io)(stream_fileno (io_stdout io) := LogStream path, stream_fileno (io_stderr io) := LogStream path)"
proof (cases "de_open env path")
  case (Inl e)
  then show thesis by (cases e) (auto simp: redirect_output_def intro: failed)
next
  case (Inr u)
  show thesis
  proof (cases "de_dup2 env path (stream_fileno (io_stdout io))")
    case (Inl e)
    with \<open>de_open env path = Inr u\<close> show thesis
      by (intro partly [of e "io\<lparr>io_open_logs := io_open_logs io @ [path]\<rparr>"])
        (simp_all add: redirect_output_def dup_log_def Let_def)
  next
    case (Inr v)
    show thesis
    proof (cases "de_dup2 env path (stream_fileno (io_stderr io))")
      case (Inl e)
      with Inr \<open>de_open env path = Inr u\<close> show thesis
        by (intro partly [of e "io\<lparr>io_open_logs := io_open_logs io @ [path],
            io_descriptors := (io_descriptors io)(stream_fileno (io_stdout io) := LogStream path)\<rparr>"])
          (simp_all add: redirect_output_def dup_log_def Let_def)
    next
      case (Inr x)
      with \<open>de_dup2 env path (stream_fileno (io_stdout io)) = Inr v\<close> \<open>de_open env path = Inr u\<close> show thesis
        by (intro redirected [of "io\<lparr>io_open_logs := io_open_logs io @ [path],
            io_descriptors := (io_descriptors io)(stream_fileno (io_stdout io) := LogStream path,
              stream_fileno (io_stderr io) := LogStream path),
            io_stdout := LogStream path, io_stderr := LogStream path\<rparr>"])
          (simp_all add: redirect_output_def dup_log_def Let_def)
    qed
  qed
qed

section \<open>Restoration\<close>

text \<open>Whatever the run of the gateway does and however it ends, the action leaves the mask as it was, and
  with a log file also the standard streams of Python; the gateway does not run when the log cannot be
  opened, which is reported as a \<open>CLIError\<close>. Not restored are the descriptors: they still refer to
  the log when the gateway has run.\<close>

theorem daemon_run_restores:
  assumes "daemon_run env log_path umask io = (r, io')"
  shows "io_umask io' = io_umask io"
    and "log_path = Some path \<Longrightarrow> de_open env path = Inr () \<Longrightarrow>
      io_stdout io' = io_stdout io \<and> io_stderr io' = io_stderr io"
    and "log_path = Some path \<Longrightarrow> de_open env path = Inl (OSError err) \<Longrightarrow>
      r = Inl (CLIError (''Unable to open log file '' @ path @ '': '' @ err)) \<and> io' = io"
proof -
  show "io_umask io' = io_umask io"
    using assms by (auto simp: daemon_run_def Let_def restore_process_io split: prod.splits sum.splits)
  show "io_stdout io' = io_stdout io \<and> io_stderr io' = io_stderr io"
    if "log_path = Some path" "de_open env path = Inr ()"
  proof (cases rule: redirect_output_cases [of env path "io\<lparr>io_umask := umask\<rparr>"])
    case (failed e)
    with that(2) show ?thesis by (auto simp: redirect_output_def Let_def split: prod.splits sum.splits)
  next
    case (partly e io2)
    with assms that(1) show ?thesis by (auto simp: daemon_run_def Let_def restore_process_io)
  next
    case (redirected io2)
    with assms that(1) show ?thesis by (auto simp: daemon_run_def Let_def restore_process_io split: prod.splits)
  qed
  show "r = Inl (CLIError (''Unable to open log file '' @ path @ '': '' @ err)) \<and> io' = io"
    if "log_path = Some path" "de_open env path = Inl (OSError err)"
    using assms that by (auto simp: daemon_run_def redirect_output_def restore_process_def Let_def)
qed

lemma descriptors_keep_the_log:
  assumes "de_open env path = Inr ()" "de_dup2 env path 1 = Inr ()" "de_dup2 env path 2 = Inr ()"
    and "io_stdout io = StdStream 1" "io_stderr io = StdStream 2" and "\<And>io. de_gateway env io = (Inr (), io)"
  shows "io_descriptors (snd (daemon_run env (Some path) umask io)) 1 = LogStream path"
    and "io_log_handler (snd (daemon_run env (Some path) umask io)) = Some (LogStream path)"
  using assms
  by (auto simp: daemon_run_def redirect_output_def dup_log_def restore_process_def Let_def)

end
