(* ===== verification/Command_Line.thy ===== *)
theory Command_Line
  imports Service_Control
begin

text \<open>
  The command line of \<open>modbusgw/cli.py\<close>: the parsers of \<open>build_parser\<close>, how the module \<open>argparse\<close>
  reads the arguments with them, and \<open>main\<close>. Of \<open>argparse\<close> the parts are written out that these
  parsers use: exact and abbreviated options, values in the same or the next argument, commands
  with parsers of their own, arguments nobody knows, \<open>--help\<close>. Vectors with the separator \<open>--\<close> or
  with letters attached to \<open>-h\<close>, which its versions read differently, and \<open>float\<close> of a text are
  parameters. The texts of usage and help are left out.
\<close>

section \<open>The module argparse\<close>

datatype handler = HandleStart | HandleStop | HandleReload | HandleStatus | HandleRestart

datatype arg_value =
    ArgNone
  | ArgText string
  | ArgInt int
  | ArgFloat py_float
  | ArgBool bool
  | ArgHandler handler

datatype arg_action = StoreAction "string \<Rightarrow> arg_value option" | StoreTrueAction | HelpAction

text \<open>The default \<open>None\<close> is \<open>argparse.SUPPRESS\<close>.\<close>

record argument =
  arg_names :: "string list"
  arg_dest :: string
  arg_action :: arg_action
  arg_default :: "arg_value option"

type_synonym namespace = "(string \<times> arg_value) list"

record arg_parser =
  ap_arguments :: "argument list"
  ap_defaults :: namespace

definition help_argument :: argument where
  "help_argument = \<lparr>arg_names = [''-h'', ''--help''], arg_dest = ''help'', arg_action = HelpAction, arg_default = None\<rparr>"

definition text_argument :: "string list \<Rightarrow> string \<Rightarrow> arg_value option \<Rightarrow> argument" where
  "text_argument names dest initial =
     \<lparr>arg_names = names, arg_dest = dest, arg_action = StoreAction (Some \<circ> ArgText), arg_default = initial\<rparr>"

text \<open>What a parse ends with: help or usage was printed and the program exits, or a value.\<close>

datatype 'a parsed = HelpShown | UsageError | Parsed 'a

datatype token =
    PositionalToken
  | OptionToken argument "string option"
  | UnknownToken
  | AmbiguousToken

fun is_positional :: "token \<Rightarrow> bool" where
  "is_positional PositionalToken = True"
| "is_positional _ = False"

fun is_ambiguous :: "token \<Rightarrow> bool" where
  "is_ambiguous AmbiguousToken = True"
| "is_ambiguous _ = False"

definition find_option :: "argument list \<Rightarrow> string \<Rightarrow> argument option" where
  "find_option args s = List.find (\<lambda>a. s \<in> set (arg_names a)) args"

text \<open>\<open>str.partition('=')\<close>\<close>

definition partition_equals :: "string \<Rightarrow> string \<times> string option" where
  "partition_equals s =
     (case dropWhile (\<lambda>c. c \<noteq> CHR ''='') s of
        [] \<Rightarrow> (s, None)
      | _ # v \<Rightarrow> (takeWhile (\<lambda>c. c \<noteq> CHR ''='') s, Some v))"

definition has_prefix :: "string \<Rightarrow> string \<Rightarrow> bool" where
  "has_prefix p s \<longleftrightarrow> take (length p) s = p"

text \<open>\<open>_get_option_tuples\<close>: what an abbreviation, or a letter with its value, can stand for.\<close>

definition option_tuples :: "argument list \<Rightarrow> string \<Rightarrow> (argument \<times> string option) list" where
  "option_tuples args s =
     (let names = concat (map (\<lambda>a. map (Pair a) (arg_names a)) args) in
      if has_prefix ''--'' s
      then (case partition_equals s of (p, v) \<Rightarrow>
              map (\<lambda>(a, _). (a, v)) (filter (\<lambda>(_, n). has_prefix p n) names))
      else map (\<lambda>(a, n). if n = take 2 s then (a, Some (drop 2 s)) else (a, None))
             (filter (\<lambda>(_, n). n = take 2 s \<or> has_prefix s n) names))"

text \<open>The pattern \<open>^-\d+$|^-\d*\.\d+$\<close>.\<close>

definition negative_number :: "string \<Rightarrow> bool" where
  "negative_number s \<longleftrightarrow>
     (let u = (if s \<noteq> [] \<and> last s = CHR 0x0A then butlast s else s);
          digits = takeWhile decimal_char (tl u); rest = dropWhile decimal_char (tl u)
      in take 1 u = ''-'' \<and>
         (rest = [] \<and> digits \<noteq> [] \<or> take 1 rest = ''.'' \<and> tl rest \<noteq> [] \<and> list_all decimal_char (tl rest)))"

text \<open>\<open>_parse_optional\<close>\<close>

definition classify :: "argument list \<Rightarrow> string \<Rightarrow> token" where
  "classify args s =
     (if take 1 s \<noteq> ''-'' then PositionalToken
      else case find_option args s of
        Some a \<Rightarrow> OptionToken a None
      | None \<Rightarrow>
          if length s = 1 then PositionalToken
          else (case partition_equals s of (p, v) \<Rightarrow>
            (case (if v = None then None else find_option args p) of
               Some a \<Rightarrow> OptionToken a v
             | None \<Rightarrow>
                 (case option_tuples args s of
                    [] \<Rightarrow> if negative_number s \<or> CHR '' '' \<in> set s then PositionalToken else UnknownToken
                  | [(a, v')] \<Rightarrow> OptionToken a v'
                  | _ \<Rightarrow> AmbiguousToken))))"

text \<open>
  \<open>_parse_known_args\<close> from left to right. \<open>command\<close> is what the parser makes of a positional argument
  and all that follow it; without commands the argument is one of the unrecognised ones, which are
  collected.
\<close>

fun parse_tokens ::
  "argument list \<Rightarrow> (string \<Rightarrow> string list \<Rightarrow> namespace \<Rightarrow> (namespace \<times> string list) parsed) option \<Rightarrow>
   string list \<Rightarrow> namespace \<Rightarrow> string list \<Rightarrow> (namespace \<times> string list) parsed" where
  "parse_tokens args command [] ns extras = Parsed (ns, extras)"
| "parse_tokens args command (s # rest) ns extras =
     (case classify args s of
        AmbiguousToken \<Rightarrow> UsageError
      | UnknownToken \<Rightarrow> parse_tokens args command rest ns (extras @ [s])
      | PositionalToken \<Rightarrow>
          (case command of
             None \<Rightarrow> parse_tokens args command rest ns (extras @ [s])
           | Some run \<Rightarrow>
               (case run s rest ns of
                  HelpShown \<Rightarrow> HelpShown
                | UsageError \<Rightarrow> UsageError
                | Parsed (ns', unknown) \<Rightarrow> Parsed (ns', extras @ unknown)))
      | OptionToken a explicit \<Rightarrow>
          (case arg_action a of
             HelpAction \<Rightarrow> if explicit = None then HelpShown else UsageError
           | StoreTrueAction \<Rightarrow>
               if explicit = None
               then parse_tokens args command rest (dict_set (arg_dest a) (ArgBool True) ns) extras
               else UsageError
           | StoreAction convert \<Rightarrow>
               (case explicit of
                  Some text \<Rightarrow>
                    (case convert text of
                       None \<Rightarrow> UsageError
                     | Some v \<Rightarrow> parse_tokens args command rest (dict_set (arg_dest a) v ns) extras)
                | None \<Rightarrow>
                    (case rest of
                       [] \<Rightarrow> UsageError
                     | text # rest' \<Rightarrow>
                         if is_positional (classify args text)
                         then (case convert text of
                                 None \<Rightarrow> UsageError
                               | Some v \<Rightarrow> parse_tokens args command rest' (dict_set (arg_dest a) v ns) extras)
                         else UsageError))))"

definition initial_namespace :: "arg_parser \<Rightarrow> namespace" where
  "initial_namespace p =
     (let with_actions = foldl (\<lambda>ns a. case arg_default a of
            None \<Rightarrow> ns
          | Some v \<Rightarrow> if dict_get ns (arg_dest a) = None then dict_set (arg_dest a) v ns else ns) [] (ap_arguments p)
      in foldl (\<lambda>ns (k, v). if dict_get ns k = None then dict_set k v ns else ns) with_actions (ap_defaults p))"

text \<open>All arguments are classified before the first is used: an ambiguous one counts wherever it is.\<close>

definition parse_known_args ::
  "arg_parser \<Rightarrow> (string \<Rightarrow> string list \<Rightarrow> namespace \<Rightarrow> (namespace \<times> string list) parsed) option \<Rightarrow>
   string list \<Rightarrow> (namespace \<times> string list) parsed" where
  "parse_known_args p command argv =
     (if list_ex (\<lambda>s. is_ambiguous (classify (ap_arguments p) s)) argv then UsageError
      else parse_tokens (ap_arguments p) command argv (initial_namespace p) [])"

text \<open>\<open>_SubParsersAction\<close>: the command's namespace is copied over the one of the program.\<close>

definition merge_namespace :: "namespace \<Rightarrow> namespace \<Rightarrow> namespace" where
  "merge_namespace ns sub = foldl (\<lambda>d (k, v). dict_set k v d) ns sub"

definition run_subparser ::
  "(string \<times> arg_parser) list \<Rightarrow> string \<Rightarrow> string list \<Rightarrow> namespace \<Rightarrow> (namespace \<times> string list) parsed" where
  "run_subparser subparsers name rest ns =
     (case dict_get subparsers name of
        None \<Rightarrow> UsageError
      | Some p \<Rightarrow>
          (case parse_known_args p None rest of
             HelpShown \<Rightarrow> HelpShown
           | UsageError \<Rightarrow> UsageError
           | Parsed (sub, unknown) \<Rightarrow> Parsed (merge_namespace (dict_set ''command'' (ArgText name) ns) sub, unknown)))"

section \<open>The parsers of the program\<close>

definition default_config :: string where
  "default_config = ''~/.config/modbusgateway.cfg''"

definition log_option_parent :: "argument list" where
  "log_option_parent = [text_argument [''--log-file''] ''log_file'' None]"

definition start_parent :: "argument list" where
  "start_parent =
     [\<lparr>arg_names = [''--foreground''], arg_dest = ''foreground'', arg_action = StoreTrueAction,
       arg_default = Some (ArgBool False)\<rparr>,
      text_argument [''--chdir''] ''chdir'' (Some (ArgText ''/'')),
      \<lparr>arg_names = [''--umask''], arg_dest = ''umask'',
       arg_action = StoreAction (\<lambda>s. case parse_umask s of Inl _ \<Rightarrow> None | Inr m \<Rightarrow> Some (ArgInt m)),
       arg_default = Some (ArgInt default_umask)\<rparr>]"

definition stop_parent :: "(string \<Rightarrow> py_float option) \<Rightarrow> argument list" where
  "stop_parent to_float =
     [\<lparr>arg_names = [''--timeout''], arg_dest = ''timeout'',
       arg_action = StoreAction (\<lambda>s. map_option ArgFloat (to_float s)), arg_default = Some (ArgFloat (Finite 15))\<rparr>]"

definition command_parser :: "argument list \<Rightarrow> handler \<Rightarrow> arg_parser" where
  "command_parser parents h =
     \<lparr>ap_arguments = help_argument # parents, ap_defaults = [(''handler'', ArgHandler h)]\<rparr>"

definition command_parsers :: "(string \<Rightarrow> py_float option) \<Rightarrow> (string \<times> arg_parser) list" where
  "command_parsers to_float =
     [(''start'', command_parser (log_option_parent @ start_parent) HandleStart),
      (''stop'', command_parser (log_option_parent @ stop_parent to_float) HandleStop),
      (''reload'', command_parser log_option_parent HandleReload),
      (''status'', command_parser log_option_parent HandleStatus),
      (''restart'', command_parser (log_option_parent @ start_parent @ stop_parent to_float) HandleRestart)]"

text \<open>The program's own parser; \<open>subparsers\<close> adds the default of \<open>command\<close>.\<close>

definition main_parser :: "environment \<Rightarrow> arg_parser" where
  "main_parser env =
     \<lparr>ap_arguments =
       [help_argument,
        text_argument [''-c'', ''--config''] ''config'' (Some (ArgText (env_expanduser env default_config))),
        text_argument [''--log-file''] ''log_file'' (Some ArgNone)],
      ap_defaults = [(''command'', ArgNone)]\<rparr>"

text \<open>The vectors that are left to the parameter \<open>other\<close>.\<close>

definition odd_token :: "string \<Rightarrow> bool" where
  "odd_token s \<longleftrightarrow> s = ''--'' \<or> has_prefix ''-h'' s \<and> s \<noteq> ''-h''"

definition parse_args ::
  "environment \<Rightarrow> (string \<Rightarrow> py_float option) \<Rightarrow> (string list \<Rightarrow> namespace parsed) \<Rightarrow> string list \<Rightarrow> namespace parsed" where
  "parse_args env to_float other argv =
     (if list_ex odd_token argv then other argv
      else case parse_known_args (main_parser env) (Some (run_subparser (command_parsers to_float))) argv of
        HelpShown \<Rightarrow> HelpShown
      | UsageError \<Rightarrow> UsageError
      | Parsed (ns, extras) \<Rightarrow> if extras = [] then Parsed ns else UsageError)"

section \<open>The program\<close>

definition text_of :: "arg_value option \<Rightarrow> string option" where
  "text_of v = (case v of Some (ArgText s) \<Rightarrow> Some s | _ \<Rightarrow> None)"

definition options_of :: "namespace \<Rightarrow> start_options" where
  "options_of ns =
     \<lparr>so_foreground = (dict_get ns ''foreground'' = Some (ArgBool True)),
      so_log_file = text_of (dict_get ns ''log_file''),
      so_chdir = (case text_of (dict_get ns ''chdir'') of None \<Rightarrow> ''/'' | Some d \<Rightarrow> d),
      so_umask = (case dict_get ns ''umask'' of Some (ArgInt m) \<Rightarrow> m | _ \<Rightarrow> default_umask)\<rparr>"

definition timeout_of :: "namespace \<Rightarrow> py_float" where
  "timeout_of ns = (case dict_get ns ''timeout'' of Some (ArgFloat t) \<Rightarrow> t | _ \<Rightarrow> Finite 0)"

text \<open>The handler of the arguments with what it reads of them; without one the gateway is started in the
  foreground.\<close>

definition command_of :: "namespace \<Rightarrow> command" where
  "command_of ns =
     (case dict_get ns ''handler'' of
        Some (ArgHandler HandleStart) \<Rightarrow> CommandStart (options_of ns)
      | Some (ArgHandler HandleStop) \<Rightarrow> CommandStop (timeout_of ns)
      | Some (ArgHandler HandleReload) \<Rightarrow> CommandReload
      | Some (ArgHandler HandleStatus) \<Rightarrow> CommandStatus
      | Some (ArgHandler HandleRestart) \<Rightarrow> CommandRestart (timeout_of ns) (options_of ns)
      | _ \<Rightarrow> NoCommand (text_of (dict_get ns ''log_file'')))"

definition config_of :: "namespace \<Rightarrow> string" where
  "config_of ns = (case text_of (dict_get ns ''config'') of None \<Rightarrow> [] | Some path \<Rightarrow> path)"

definition program ::
  "environment \<Rightarrow> (string \<Rightarrow> py_float option) \<Rightarrow> (string list \<Rightarrow> namespace parsed) \<Rightarrow> string list \<Rightarrow> world \<Rightarrow>
   (int result \<times> world) option" where
  "program env to_float other argv w =
     (case parse_args env to_float other argv of
        HelpShown \<Rightarrow> Some (Inr 0, w)
      | UsageError \<Rightarrow> Some (Inr 2, w)
      | Parsed ns \<Rightarrow> cli_main env (config_of ns) (command_of ns) w)"

section \<open>Spelling a command line\<close>

text \<open>A command line with every option written as \<open>name=value\<close>, which allows any value.\<close>

record spelling =
  sp_config :: "string option"
  sp_log_before :: "string option"
  sp_log :: "string option"
  sp_foreground :: bool
  sp_chdir :: "string option"
  sp_umask :: "string option"
  sp_timeout :: "string option"

definition assigned :: "string \<Rightarrow> string option \<Rightarrow> string list" where
  "assigned n v = (case v of None \<Rightarrow> [] | Some x \<Rightarrow> [n @ ''='' @ x])"

definition start_words :: "spelling \<Rightarrow> string list" where
  "start_words sp = (if sp_foreground sp then [''--foreground''] else []) @
     assigned ''--chdir'' (sp_chdir sp) @ assigned ''--umask'' (sp_umask sp)"

definition option_words :: "spelling \<Rightarrow> handler \<Rightarrow> string list" where
  "option_words sp h = assigned ''--log-file'' (sp_log sp) @
     (if h \<in> {HandleStart, HandleRestart} then start_words sp else []) @
     (if h \<in> {HandleStop, HandleRestart} then assigned ''--timeout'' (sp_timeout sp) else [])"

fun handler_name :: "handler \<Rightarrow> string" where
  "handler_name HandleStart = ''start''"
| "handler_name HandleStop = ''stop''"
| "handler_name HandleReload = ''reload''"
| "handler_name HandleStatus = ''status''"
| "handler_name HandleRestart = ''restart''"

definition spelled :: "spelling \<Rightarrow> handler option \<Rightarrow> string list" where
  "spelled sp h = assigned ''--config'' (sp_config sp) @ assigned ''--log-file'' (sp_log_before sp) @
     (case h of None \<Rightarrow> [] | Some c \<Rightarrow> handler_name c # option_words sp c)"

definition meant_options :: "spelling \<Rightarrow> start_options" where
  "meant_options sp =
     \<lparr>so_foreground = sp_foreground sp,
      so_log_file = (if sp_log sp = None then sp_log_before sp else sp_log sp),
      so_chdir = (case sp_chdir sp of None \<Rightarrow> ''/'' | Some d \<Rightarrow> d),
      so_umask = (case sp_umask sp of None \<Rightarrow> default_umask | Some u \<Rightarrow> projr (parse_umask u))\<rparr>"

fun meant_command :: "(string \<Rightarrow> py_float option) \<Rightarrow> spelling \<Rightarrow> handler option \<Rightarrow> command" where
  "meant_command to_float sp None = NoCommand (sp_log_before sp)"
| "meant_command to_float sp (Some HandleStart) = CommandStart (meant_options sp)"
| "meant_command to_float sp (Some HandleStop) = CommandStop (case sp_timeout sp of None \<Rightarrow> Finite 15 | Some t \<Rightarrow> the (to_float t))"
| "meant_command to_float sp (Some HandleReload) = CommandReload"
| "meant_command to_float sp (Some HandleStatus) = CommandStatus"
| "meant_command to_float sp (Some HandleRestart) =
     CommandRestart (case sp_timeout sp of None \<Rightarrow> Finite 15 | Some t \<Rightarrow> the (to_float t)) (meant_options sp)"

section \<open>Lemmas\<close>

lemma partition_equals_assigned:
  "CHR ''='' \<notin> set n \<Longrightarrow> partition_equals (n @ CHR ''='' # v) = (n, Some v)"
  by (simp add: partition_equals_def dropWhile_append takeWhile_append)

lemma find_option_no_equals:
  assumes "\<forall>a \<in> set args. \<forall>m \<in> set (arg_names a). CHR ''='' \<notin> set m" and "CHR ''='' \<in> set s"
  shows "find_option args s = None"
  using assms by (auto simp: find_option_def find_None_iff)

definition known_option :: "argument list \<Rightarrow> string \<Rightarrow> argument \<Rightarrow> bool" where
  "known_option args n a \<longleftrightarrow> take 1 n = ''-'' \<and> CHR ''='' \<notin> set n \<and> find_option args n = Some a \<and>
     (\<forall>a \<in> set args. \<forall>m \<in> set (arg_names a). CHR ''='' \<notin> set m)"

lemma classify_assigned:
  assumes "known_option args n a"
  shows "classify args (n @ CHR ''='' # v) = OptionToken a (Some v)"
proof -
  from assms obtain m where n: "n = CHR ''-'' # m" by (cases n) (auto simp: known_option_def)
  note known = assms [unfolded n known_option_def]
  then show ?thesis
    unfolding n using partition_equals_assigned [of "CHR ''-'' # m" v]
    by (simp add: classify_def find_option_no_equals)
qed

definition set_given :: "string \<Rightarrow> arg_value option \<Rightarrow> namespace \<Rightarrow> namespace" where
  "set_given dest v ns = (case v of None \<Rightarrow> ns | Some x \<Rightarrow> dict_set dest x ns)"

lemma set_given_simps [simp]:
  "map_of (set_given dest v ns) k = (if k = dest \<and> v \<noteq> None then v else map_of ns k)"
  "distinct (map fst ns) \<Longrightarrow> distinct (map fst (set_given dest v ns))"
  by (auto simp: set_given_def split: option.splits)

lemma parse_assigned:
  assumes "known_option args n a" and "arg_action a = StoreAction convert" and "\<And>x. v = Some x \<Longrightarrow> convert x = Some (f x)"
  shows "parse_tokens args command (assigned n v @ rest) ns extras =
    parse_tokens args command rest (set_given (arg_dest a) (map_option f v) ns) extras"
  using assms(2,3) classify_assigned [OF assms(1)]
  by (cases v) (auto simp: assigned_def set_given_def)

lemma map_of_merge_namespace:
  "distinct (map fst sub) \<Longrightarrow> map_of (merge_namespace ns sub) = map_of ns ++ map_of sub"
proof (induction sub arbitrary: ns)
  case (Cons kv sub)
  obtain k v where kv: "kv = (k, v)" by (cases kv)
  with Cons.prems have "map_of sub k = None" by (auto simp: map_of_eq_None_iff)
  with Cons kv show ?case
    by (auto simp: merge_namespace_def fun_eq_iff map_add_def split: option.splits)
qed (simp add: merge_namespace_def)

definition command_arguments :: "(string \<Rightarrow> py_float option) \<Rightarrow> handler \<Rightarrow> argument list" where
  "command_arguments to_float h = log_option_parent @
     (if h \<in> {HandleStart, HandleRestart} then start_parent else []) @
     (if h \<in> {HandleStop, HandleRestart} then stop_parent to_float else [])"

lemma command_parser_named:
  "map_of (command_parsers to_float) (handler_name h) = Some (command_parser (command_arguments to_float h) h)"
  by (cases h) (simp_all add: command_parsers_def command_arguments_def)

lemmas parser_defs = command_parser_def command_arguments_def log_option_parent_def start_parent_def stop_parent_def
  text_argument_def help_argument_def main_parser_def

lemma known_option_of:
  assumes "find_option args n = Some a" and "take 1 n = ''-''" and "CHR ''='' \<notin> set n"
    and "CHR ''='' \<notin> set (concat (concat (map arg_names args)))"
  shows "known_option args n a"
  using assms by (auto simp: known_option_def)

lemma known_log_file:
  "known_option (ap_arguments (command_parser (command_arguments to_float h) h)) ''--log-file''
     (text_argument [''--log-file''] ''log_file'' None)"
  by (rule known_option_of) (cases h; simp add: parser_defs find_option_def)+

lemma known_start_options:
  assumes "h \<in> {HandleStart, HandleRestart}"
  shows "known_option (ap_arguments (command_parser (command_arguments to_float h) h)) ''--chdir'' (start_parent ! 1)"
    and "known_option (ap_arguments (command_parser (command_arguments to_float h) h)) ''--umask'' (start_parent ! 2)"
    and "classify (ap_arguments (command_parser (command_arguments to_float h) h)) ''--foreground'' =
      OptionToken (start_parent ! 0) None"
  using assms
  by (auto intro!: known_option_of simp: parser_defs find_option_def classify_def)

lemma known_timeout:
  assumes "h \<in> {HandleStop, HandleRestart}"
  shows "known_option (ap_arguments (command_parser (command_arguments to_float h) h)) ''--timeout'' (stop_parent to_float ! 0)"
  using assms
  by (auto intro!: known_option_of simp: parser_defs find_option_def)

lemma known_main_options:
  "known_option (ap_arguments (main_parser env)) ''--config''
     (text_argument [''-c'', ''--config''] ''config'' (Some (ArgText (env_expanduser env default_config))))"
  "known_option (ap_arguments (main_parser env)) ''--log-file'' (text_argument [''--log-file''] ''log_file'' (Some ArgNone))"
  by (auto intro!: known_option_of simp: parser_defs find_option_def)

text \<open>The namespace of a command.\<close>

definition command_namespace :: "(string \<Rightarrow> py_float option) \<Rightarrow> spelling \<Rightarrow> handler \<Rightarrow> namespace" where
  "command_namespace to_float sp h =
     (let ns0 = initial_namespace (command_parser (command_arguments to_float h) h);
          ns1 = set_given ''log_file'' (map_option ArgText (sp_log sp)) ns0;
          ns2 = (if h \<in> {HandleStart, HandleRestart}
                 then set_given ''umask'' (map_option (ArgInt \<circ> projr \<circ> parse_umask) (sp_umask sp))
                   (set_given ''chdir'' (map_option ArgText (sp_chdir sp))
                     (set_given ''foreground'' (if sp_foreground sp then Some (ArgBool True) else None) ns1))
                 else ns1)
      in if h \<in> {HandleStop, HandleRestart}
         then set_given ''timeout'' (map_option (ArgFloat \<circ> the \<circ> to_float) (sp_timeout sp)) ns2
         else ns2)"

text \<open>The values that a command converts can be converted.\<close>

definition convertible :: "(string \<Rightarrow> py_float option) \<Rightarrow> spelling \<Rightarrow> bool" where
  "convertible to_float sp \<longleftrightarrow> (\<forall>u. sp_umask sp = Some u \<longrightarrow> \<not> isl (parse_umask u)) \<and>
     (\<forall>t. sp_timeout sp = Some t \<longrightarrow> to_float t \<noteq> None)"

lemma assigned_not_ambiguous:
  "known_option args n a \<Longrightarrow> \<not> list_ex (\<lambda>s. is_ambiguous (classify args s)) (assigned n v)"
  by (auto simp: assigned_def classify_assigned split: option.splits)

lemma option_words_not_ambiguous:
  "\<not> list_ex (\<lambda>s. is_ambiguous (classify (ap_arguments (command_parser (command_arguments to_float h) h)) s)) (option_words sp h)"
  by (auto simp: option_words_def start_words_def known_start_options
      assigned_not_ambiguous [OF known_log_file] assigned_not_ambiguous [OF known_start_options(1)]
      assigned_not_ambiguous [OF known_start_options(2)] assigned_not_ambiguous [OF known_timeout])

lemma parse_start_words:
  assumes "h \<in> {HandleStart, HandleRestart}" and "convertible to_float sp"
  shows "parse_tokens (ap_arguments (command_parser (command_arguments to_float h) h)) command (start_words sp @ rest) ns extras =
    parse_tokens (ap_arguments (command_parser (command_arguments to_float h) h)) command rest
      (set_given ''umask'' (map_option (ArgInt \<circ> projr \<circ> parse_umask) (sp_umask sp))
         (set_given ''chdir'' (map_option ArgText (sp_chdir sp))
           (set_given ''foreground'' (if sp_foreground sp then Some (ArgBool True) else None) ns))) extras"
proof -
  let ?args = "ap_arguments (command_parser (command_arguments to_float h) h)"
  have umask: "parse_tokens ?args command (assigned ''--umask'' (sp_umask sp) @ rest) ns extras =
      parse_tokens ?args command rest (set_given ''umask'' (map_option (ArgInt \<circ> projr \<circ> parse_umask) (sp_umask sp)) ns) extras" for ns
    using assms(2)
    by (subst parse_assigned [OF known_start_options(2) [OF assms(1)], where f = "ArgInt \<circ> projr \<circ> parse_umask"
          and convert = "\<lambda>s. case parse_umask s of Inl _ \<Rightarrow> None | Inr m \<Rightarrow> Some (ArgInt m)"])
      (auto simp: start_parent_def convertible_def split: sum.splits)
  have "parse_tokens ?args command (assigned ''--chdir'' (sp_chdir sp) @ rest) ns extras =
      parse_tokens ?args command rest (set_given ''chdir'' (map_option ArgText (sp_chdir sp)) ns) extras" for ns rest
    by (subst parse_assigned [OF known_start_options(1) [OF assms(1)], where f = ArgText])
      (auto simp: start_parent_def text_argument_def)
  with umask show ?thesis
    by (simp add: start_words_def known_start_options(3) [OF assms(1)] start_parent_def) (simp add: set_given_def)
qed

lemma parse_timeout_words:
  assumes "h \<in> {HandleStop, HandleRestart}" and "convertible to_float sp"
  shows "parse_tokens (ap_arguments (command_parser (command_arguments to_float h) h)) command
      (assigned ''--timeout'' (sp_timeout sp)) ns extras =
    Parsed (set_given ''timeout'' (map_option (ArgFloat \<circ> the \<circ> to_float) (sp_timeout sp)) ns, extras)"
  using parse_assigned [OF known_timeout [OF assms(1)], where f = "ArgFloat \<circ> the \<circ> to_float" and v = "sp_timeout sp" and rest = "[]"] assms(2)
  by (auto simp: stop_parent_def convertible_def)

lemma parse_option_words:
  assumes "convertible to_float sp"
  shows "parse_known_args (command_parser (command_arguments to_float h) h) None (option_words sp h) =
    Parsed (command_namespace to_float sp h, [])"
proof -
  have log: "parse_tokens (ap_arguments (command_parser (command_arguments to_float h) h)) None
      (assigned ''--log-file'' (sp_log sp) @ rest) ns [] =
    parse_tokens (ap_arguments (command_parser (command_arguments to_float h) h)) None rest
      (set_given ''log_file'' (map_option ArgText (sp_log sp)) ns) []" for rest ns
    by (subst parse_assigned [OF known_log_file, where f = ArgText]) (auto simp: text_argument_def)
  note log log [of "[]", unfolded append_Nil2]
  moreover note parse_start_words [OF _ assms, of h None "[]", unfolded append_Nil2]
  ultimately show ?thesis
    using option_words_not_ambiguous [of to_float h sp] parse_timeout_words [OF _ assms, of h None]
    by (cases "h \<in> {HandleStart, HandleRestart}"; cases "h \<in> {HandleStop, HandleRestart}")
      (simp_all add: parse_known_args_def option_words_def parse_start_words [OF _ assms] command_namespace_def Let_def)
qed

definition main_namespace :: "environment \<Rightarrow> spelling \<Rightarrow> namespace" where
  "main_namespace env sp = set_given ''log_file'' (map_option ArgText (sp_log_before sp))
     (set_given ''config'' (map_option ArgText (sp_config sp)) (initial_namespace (main_parser env)))"

lemma no_odd_words: "\<not> list_ex odd_token (spelled sp h)"
proof -
  have a: "\<not> list_ex odd_token (assigned n v)" if "n \<in> {''--config'', ''--log-file'', ''--chdir'', ''--umask'', ''--timeout''}" for n v
    using that by (auto simp: assigned_def odd_token_def has_prefix_def split: option.splits)
  have "\<not> odd_token (handler_name c)" for c by (cases c) (simp_all add: odd_token_def has_prefix_def)
  moreover have "\<not> odd_token ''--foreground''" by (simp add: odd_token_def has_prefix_def)
  ultimately show ?thesis
    by (auto simp: spelled_def option_words_def start_words_def a split: option.splits)
qed

lemma classify_command: "take 1 s \<noteq> ''-'' \<Longrightarrow> classify args s = PositionalToken"
  by (simp add: classify_def)

lemma handler_name_no_option: "take 1 (handler_name c) \<noteq> ''-''"
  by (cases c) simp_all

text \<open>A long name that no option begins with.\<close>

lemma classify_foreign:
  assumes "has_prefix ''--'' n" and "CHR ''='' \<notin> set n" and "\<forall>a \<in> set args. \<forall>m \<in> set (arg_names a). \<not> has_prefix n m"
  shows "\<not> is_ambiguous (classify args n)" and "\<not> is_ambiguous (classify args (n @ CHR ''='' # v))"
proof -
  obtain m where n: "n = CHR ''-'' # CHR ''-'' # m"
    using assms(1) by (cases n; cases "tl n") (auto simp: has_prefix_def)
  have no: "find_option args s = None" if "has_prefix n s" for s
    using assms(3) that by (auto simp: find_option_def find_None_iff)
  have p: "partition_equals n = (n, None)"
  proof -
    have "dropWhile (\<lambda>c. c \<noteq> CHR ''='') n = []" using assms(2) by (auto simp: dropWhile_eq_Nil_conv)
    then show ?thesis unfolding partition_equals_def by (simp only: list.case)
  qed
  note q = partition_equals_assigned [OF assms(2), of v]
  have t: "filter (\<lambda>(_, k). has_prefix n k) (concat (map (\<lambda>a. map (Pair a) (arg_names a)) args)) = []"
    using assms(3) by (auto simp: filter_empty_conv)
  have "option_tuples args n = []" "option_tuples args (n @ CHR ''='' # v) = []"
    using t p q by (simp_all add: option_tuples_def n has_prefix_def [of "''--''"])
  moreover have "find_option args n = None" "find_option args (n @ CHR ''='' # v) = None"
    by (rule no; simp add: has_prefix_def)+
  ultimately show "\<not> is_ambiguous (classify args n)" "\<not> is_ambiguous (classify args (n @ CHR ''='' # v))"
    using p q by (simp_all add: classify_def)
qed

lemma main_unambiguous_words:
  assumes "n \<in> {''--chdir'', ''--umask'', ''--timeout'', ''--foreground''}"
  shows "\<not> list_ex (\<lambda>s. is_ambiguous (classify (ap_arguments (main_parser env)) s)) (assigned n v)"
    and "\<not> is_ambiguous (classify (ap_arguments (main_parser env)) n)"
proof -
  have "has_prefix ''--'' n" "CHR ''='' \<notin> set n"
    "\<forall>a \<in> set (ap_arguments (main_parser env)). \<forall>m \<in> set (arg_names a). \<not> has_prefix n m"
    using assms by (auto simp: parser_defs has_prefix_def)
  from classify_foreign [OF this]
  show "\<not> list_ex (\<lambda>s. is_ambiguous (classify (ap_arguments (main_parser env)) s)) (assigned n v)"
    "\<not> is_ambiguous (classify (ap_arguments (main_parser env)) n)"
    by (auto simp: assigned_def split: option.splits)
qed

lemma main_never_ambiguous:
  "\<not> list_ex (\<lambda>s. is_ambiguous (classify (ap_arguments (main_parser env)) s)) (spelled sp h)"
  using classify_command [OF handler_name_no_option, of "ap_arguments (main_parser env)"]
  by (cases h) (simp_all add: spelled_def option_words_def start_words_def main_unambiguous_words
      known_main_options [THEN assigned_not_ambiguous])

lemma parse_spelled:
  assumes "convertible to_float sp"
  shows "parse_args env to_float other (spelled sp h) = Parsed (case h of
      None \<Rightarrow> main_namespace env sp
    | Some c \<Rightarrow> merge_namespace (dict_set ''command'' (ArgText (handler_name c)) (main_namespace env sp))
        (command_namespace to_float sp c))"
proof -
  let ?args = "ap_arguments (main_parser env)"
  have main: "parse_tokens ?args command (assigned ''--config'' (sp_config sp) @ assigned ''--log-file'' (sp_log_before sp) @ rest)
      (initial_namespace (main_parser env)) [] =
    parse_tokens ?args command rest (main_namespace env sp) []" for command rest
    by (subst parse_assigned [OF known_main_options(1), where f = ArgText], simp add: text_argument_def comp_def, simp)
      (subst parse_assigned [OF known_main_options(2), where f = ArgText];
        simp add: text_argument_def comp_def main_namespace_def)
  show ?thesis
    using no_odd_words [of sp h] main_never_ambiguous [of env sp h] main [of _ "[]"]
    by (cases h) (simp_all add: parse_args_def parse_known_args_def [of "main_parser env"] spelled_def main
        classify_command [OF handler_name_no_option] run_subparser_def command_parser_named parse_option_words [OF assms])
qed

lemma distinct_initial_namespace: "distinct (map fst (initial_namespace p))"
proof -
  have a: "distinct (map fst ns) \<Longrightarrow> distinct (map fst (foldl (\<lambda>ns a. case arg_default a of
      None \<Rightarrow> ns
    | Some v \<Rightarrow> if dict_get ns (arg_dest a) = None then dict_set (arg_dest a) v ns else ns) ns args))" for ns args
    by (induction args arbitrary: ns) (auto split: option.split)
  have b: "distinct (map fst ns) \<Longrightarrow>
      distinct (map fst (foldl (\<lambda>ns (k, v). if dict_get ns k = None then dict_set k v ns else ns) ns ds))" for ns ds
    by (induction ds arbitrary: ns) auto
  show ?thesis unfolding initial_namespace_def Let_def by (rule b [OF a]) simp
qed

lemma distinct_command_namespace: "distinct (map fst (command_namespace to_float sp h))"
  by (simp add: command_namespace_def Let_def distinct_initial_namespace)

lemma main_defaults:
  "map_of (initial_namespace (main_parser env)) =
    [''config'' \<mapsto> ArgText (env_expanduser env default_config), ''log_file'' \<mapsto> ArgNone, ''command'' \<mapsto> ArgNone]"
  by (simp add: initial_namespace_def parser_defs fun_upd_twist)

lemma main_namespace_get:
  "dict_get (main_namespace env sp) ''handler'' = None"
  "dict_get (main_namespace env sp) ''config'' = Some (ArgText (case sp_config sp of None \<Rightarrow> env_expanduser env default_config | Some c \<Rightarrow> c))"
  "dict_get (main_namespace env sp) ''log_file'' = Some (case sp_log_before sp of None \<Rightarrow> ArgNone | Some f \<Rightarrow> ArgText f)"
  by (auto simp: main_namespace_def main_defaults split: option.splits)

lemma command_namespace_get:
  "dict_get (command_namespace to_float sp c) ''handler'' = Some (ArgHandler c)"
  "dict_get (command_namespace to_float sp c) ''config'' = None"
  "dict_get (command_namespace to_float sp c) ''log_file'' = map_option ArgText (sp_log sp)"
  "c \<in> {HandleStart, HandleRestart} \<Longrightarrow>
    dict_get (command_namespace to_float sp c) ''foreground'' = Some (ArgBool (sp_foreground sp)) \<and>
    dict_get (command_namespace to_float sp c) ''chdir'' = Some (ArgText (case sp_chdir sp of None \<Rightarrow> ''/'' | Some d \<Rightarrow> d)) \<and>
    dict_get (command_namespace to_float sp c) ''umask'' =
      Some (ArgInt (case sp_umask sp of None \<Rightarrow> default_umask | Some u \<Rightarrow> projr (parse_umask u)))"
  "c \<in> {HandleStop, HandleRestart} \<Longrightarrow>
    dict_get (command_namespace to_float sp c) ''timeout'' =
      Some (ArgFloat (case sp_timeout sp of None \<Rightarrow> Finite 15 | Some t \<Rightarrow> the (to_float t)))"
  by (cases c; auto simp: command_namespace_def initial_namespace_def parser_defs split: option.splits)+

lemma spelled_command_line_is_read:
  assumes "convertible to_float sp"
  shows "\<exists>ns. parse_args env to_float other (spelled sp h) = Parsed ns \<and>
    config_of ns = (case sp_config sp of None \<Rightarrow> env_expanduser env default_config | Some path \<Rightarrow> path) \<and>
    command_of ns = meant_command to_float sp h"
proof (cases h)
  case None
  with parse_spelled [OF assms, of env other h] show ?thesis
    by (auto simp: config_of_def command_of_def main_namespace_get text_of_def split: option.splits)
next
  case (Some c)
  with parse_spelled [OF assms, of env other h] show ?thesis
    by (cases c)
      (auto simp: config_of_def command_of_def map_of_merge_namespace distinct_command_namespace map_add_def
        main_namespace_get command_namespace_get text_of_def options_of_def meant_options_def timeout_of_def split: option.splits)
qed

section \<open>Properties\<close>

text \<open>C31. The program does what its command line spells: with each option written as \<open>name=value\<close>,
  whatever the values, it runs the command that was named on the configuration that was named, with
  the options that were given and the documented defaults for the others; a log file named after the
  command overrides one named before it, which counts otherwise.\<close>

theorem command_line_is_obeyed:
  assumes "convertible to_float sp"
  shows "program env to_float other (spelled sp h) w =
    cli_main env (case sp_config sp of None \<Rightarrow> env_expanduser env default_config | Some path \<Rightarrow> path)
      (meant_command to_float sp h) w"
  using spelled_command_line_is_read [OF assms, of env other h] by (auto simp: program_def)

theorem command_line_is_obeyed_witness:
  "program plain_environment (\<lambda>s. if s = ''20'' then Some (Finite 20) else None) (\<lambda>_. UsageError)
     [''--config=gw.cfg'', ''--log-file=a.log'', ''restart'', ''--foreground'', ''--umask=077'', ''--timeout=20''] (running_world ''42'') =
   cli_main plain_environment ''gw.cfg'' (CommandRestart (Finite 20)
     \<lparr>so_foreground = True, so_log_file = Some ''a.log'', so_chdir = ''/'', so_umask = 63\<rparr>) (running_world ''42'')"
proof -
  let ?sp = "\<lparr>sp_config = Some ''gw.cfg'', sp_log_before = Some ''a.log'', sp_log = None, sp_foreground = True,
    sp_chdir = None, sp_umask = Some ''077'', sp_timeout = Some ''20''\<rparr>"
  let ?to_float = "\<lambda>s. if s = ''20'' then Some (Finite 20) else None"
  have u: "parse_umask ''077'' = Inr 63" by code_simp
  then have "convertible ?to_float ?sp" by (simp add: convertible_def)
  from command_line_is_obeyed [OF this, of plain_environment "\<lambda>_. UsageError" "Some HandleRestart" "running_world ''42''"] u
  show ?thesis by (simp add: spelled_def option_words_def start_words_def assigned_def meant_options_def)
qed

text \<open>C38. When an invocation of the program returns, whatever its arguments and whatever the gateway
  process does with the signals: a sleep lasting as long as asked, it always does, but for two cases. It
  may run the gateway in the foreground, which is never ended; or its command is \<open>stop\<close> or \<open>restart\<close> with
  a timeout that \<open>float\<close> reads as infinity, which ends with the process only (\<open>infinite_timeout_waits\<close>).
  It returns exit status 0, 1 (an error of the service) or 2 (a misuse of the command line), or an
  exception that is not a \<open>CLIError\<close>.\<close>

theorem every_invocation_returns:
  assumes "sane_environment env"
  shows "case program env to_float other argv w of
      Some (r, w') \<Rightarrow> (case r of Inr status \<Rightarrow> status \<in> {0, 1, 2} | Inl e \<Rightarrow> \<forall>m. e \<noteq> CLIError m)
    | None \<Rightarrow> \<exists>ns. parse_args env to_float other argv = Parsed ns \<and>
        (in_foreground (command_of ns) \<and>
           (\<exists>w'. env_foreground env (env_expanduser env (config_of ns)) w' = None) \<or>
         timeout_of ns = PosInf \<and>
           dict_get ns ''handler'' \<in> {Some (ArgHandler HandleStop), Some (ArgHandler HandleRestart)})"
proof (cases "parse_args env to_float other argv")
  case (Parsed ns)
  have "timeout_of ns = PosInf \<and>
      dict_get ns ''handler'' \<in> {Some (ArgHandler HandleStop), Some (ArgHandler HandleRestart)}"
    if "patient (command_of ns)"
    using that by (auto simp: command_of_def split: option.splits arg_value.splits handler.splits)
  with every_command_returns [OF assms, where config = "config_of ns" and cmd = "command_of ns" and w = w] Parsed
  show ?thesis by (auto simp: program_def split: option.splits sum.splits)
qed (simp_all add: program_def)

theorem every_invocation_returns_witness:
  "\<exists>r w'. program plain_environment (\<lambda>_. None) (\<lambda>_. UsageError) [''stop'', ''--timeout=soon''] (running_world ''42'') = Some (r, w')"
proof (cases "program plain_environment (\<lambda>_. None) (\<lambda>_. UsageError) [''stop'', ''--timeout=soon''] (running_world ''42'')")
  case None
  have "parse_args plain_environment (\<lambda>_. None) (\<lambda>_. UsageError) [''stop'', ''--timeout=soon''] \<noteq> Parsed ns" for ns
    by code_simp
  then show ?thesis
    using every_invocation_returns [OF plain_environment_sane, of "\<lambda>_. None" "\<lambda>_. UsageError"
      "[''stop'', ''--timeout=soon'']" "running_world ''42''"] None by simp
qed auto

text \<open>Without a command the gateway runs in the foreground, as with \<open>start --foreground\<close>.\<close>

theorem no_command_starts_in_foreground:
  assumes "sp_chdir sp = None" "sp_umask sp = None" "sp_timeout sp = None" "sp_log sp = None" "sp_foreground sp"
  shows "program env to_float other (spelled sp None) w = program env to_float other (spelled sp (Some HandleStart)) w"
proof -
  have "convertible to_float sp" using assms by (simp add: convertible_def)
  from spelled_command_line_is_read [OF this, of env other None] spelled_command_line_is_read [OF this, of env other "Some HandleStart"]
  show ?thesis using assms by (auto simp: program_def cli_main_def meant_options_def)
qed

text \<open>Options of the program are not known after the command.\<close>

lemma config_after_command_is_refused:
  assumes "take 1 path \<noteq> ''-''"
  shows "parse_args env to_float other [''start'', ''-c'', path] = UsageError"
proof -
  have "\<not> odd_token path" using assms by (cases path) (auto simp: odd_token_def has_prefix_def)
  moreover have "\<not> odd_token ''start''" "\<not> odd_token ''-c''" by (simp_all add: odd_token_def has_prefix_def)
  moreover have "classify (ap_arguments (command_parser (log_option_parent @ start_parent) HandleStart)) ''-c'' = UnknownToken"
    by (simp add: classify_def parser_defs find_option_def partition_equals_def option_tuples_def has_prefix_def negative_number_def)
      (simp add: decimal_char_def)
  moreover have "\<not> is_ambiguous (classify (ap_arguments (main_parser env)) ''-c'')"
    by (simp add: classify_def parser_defs find_option_def)
  ultimately show ?thesis
    using assms by (simp add: parse_args_def parse_known_args_def classify_command run_subparser_def command_parsers_def)
qed

end
