(* ===== verification/Lifecycle.thy ===== *)
theory Lifecycle
  imports Gateway_Prelude
begin

text \<open>
  \<open>modbusgw/core/lifecycle.py\<close>: a controller that starts its components in the order of their
  registration and stops them in the opposite order. A component is its name with what its methods
  do to the state of the program; the class \<open>Component\<close> itself has none, its methods raise. The
  application of \<open>modbusgw/app.py\<close> does not use the controller: it starts and stops its components
  itself.
\<close>

section \<open>The controller\<close>

record 's lifecycle_component =
  cmp_name :: string
  cmp_start :: "'s \<Rightarrow> unit result \<times> 's"
  cmp_stop :: "'s \<Rightarrow> unit result \<times> 's"

text \<open>\<open>NotImplementedError\<close> is a \<open>RuntimeError\<close>.\<close>

definition lifecycle_component_init :: "string \<Rightarrow> 's lifecycle_component" where
  "lifecycle_component_init name =
     \<lparr>cmp_name = name, cmp_start = (\<lambda>s. (Inl (RuntimeError []), s)), cmp_stop = (\<lambda>s. (Inl (RuntimeError []), s))\<rparr>"

record 's lifecycle_controller =
  lc_components :: "'s lifecycle_component list"

definition lifecycle_controller_init :: "'s lifecycle_controller" where
  "lifecycle_controller_init = \<lparr>lc_components = []\<rparr>"

definition register_component :: "'s lifecycle_component \<Rightarrow> 's lifecycle_controller \<Rightarrow> 's lifecycle_controller" where
  "register_component c lc = lc\<lparr>lc_components := lc_components lc @ [c]\<rparr>"

text \<open>Calling one method after the other; an exception ends it.\<close>

fun run_all :: "('s \<Rightarrow> unit result \<times> 's) list \<Rightarrow> 's \<Rightarrow> unit result \<times> 's" where
  "run_all [] s = (Inr (), s)"
| "run_all (f # fs) s =
     (case f s of
        (Inl e, s') \<Rightarrow> (Inl e, s')
      | (Inr _, s') \<Rightarrow> run_all fs s')"

definition lifecycle_start :: "'s lifecycle_controller \<Rightarrow> 's \<Rightarrow> unit result \<times> 's" where
  "lifecycle_start lc = run_all (map cmp_start (lc_components lc))"

definition lifecycle_stop :: "'s lifecycle_controller \<Rightarrow> 's \<Rightarrow> unit result \<times> 's" where
  "lifecycle_stop lc = run_all (map cmp_stop (rev (lc_components lc)))"

section \<open>Properties\<close>

lemma run_all_append:
  "run_all (fs @ gs) s = (case run_all fs s of (Inl e, s') \<Rightarrow> (Inl e, s') | (Inr _, s') \<Rightarrow> run_all gs s')"
  by (induction fs s rule: run_all.induct) (auto split: prod.splits sum.splits)

text \<open>A component whose \<open>stop\<close> takes back what its \<open>start\<close> has done, in the states that \<open>ok\<close> admits.\<close>

definition reversible :: "('s \<Rightarrow> bool) \<Rightarrow> 's lifecycle_component \<Rightarrow> bool" where
  "reversible ok c \<longleftrightarrow> (\<forall>s s'. ok s \<and> cmp_start c s = (Inr (), s') \<longrightarrow> ok s' \<and> cmp_stop c s' = (Inr (), s))"

text \<open>Since components stop in the opposite order, the controller undoes its own start when each
  component does.\<close>

theorem stop_undoes_start:
  assumes "\<forall>c \<in> set (lc_components lc). reversible ok c" and "ok s" and "lifecycle_start lc s = (Inr (), s')"
  shows "lifecycle_stop lc s' = (Inr (), s)"
proof -
  have "run_all (map cmp_stop (rev cs)) s' = (Inr (), s)"
    if "\<forall>c \<in> set cs. reversible ok c" "ok s" "run_all (map cmp_start cs) s = (Inr (), s')" for cs s
    using that
  proof (induction cs arbitrary: s)
    case (Cons c cs)
    then obtain s1 where s1: "cmp_start c s = (Inr (), s1)" "run_all (map cmp_start cs) s1 = (Inr (), s')"
      by (auto split: prod.splits sum.splits)
    with Cons.prems have "ok s1" "cmp_stop c s1 = (Inr (), s)" by (auto simp: reversible_def)
    with Cons s1 show ?case by (simp add: run_all_append)
  qed simp
  from this [OF assms(1,2)] assms(3) show ?thesis by (simp add: lifecycle_start_def lifecycle_stop_def)
qed

text \<open>A start that fails leaves the components before the one that failed running: nothing is undone.\<close>

theorem failed_start_undoes_nothing:
  assumes "lc_components lc = started @ c # others" and "run_all (map cmp_start started) s = (Inr (), s1)"
    and "cmp_start c s1 = (Inl e, s2)"
  shows "lifecycle_start lc s = (Inl e, s2)"
  using assms by (simp add: lifecycle_start_def run_all_append)

lemma registered_last:
  "lifecycle_start (register_component c lc) s =
    (case lifecycle_start lc s of (Inl e, s') \<Rightarrow> (Inl e, s') | (Inr _, s') \<Rightarrow> run_all [cmp_start c] s')"
  by (simp add: lifecycle_start_def register_component_def run_all_append)

end
