(* ===== verification/Socket_Files.thy ===== *)
theory Socket_Files
  imports Rtu_Frontend Unix_Frontend
begin

text \<open>
  What the frontends of \<open>frontends/unix_modbus_tcp.py\<close> and \<open>frontends/serial_rtu.py\<close> do to the file
  system: the socket and the symbolic link that clients open. A path names an entry of a map;
  what an operation may refuse otherwise than by the entries it finds (rights, a missing device)
  is the record \<open>file_rights\<close>; paths can always be looked up. \<open>Path.exists\<close> follows links, at most forty as the system does.
\<close>

section \<open>Files\<close>

datatype file_node = RegularFile | Directory | SocketFile | SymLink string

type_synonym file_system = "string \<Rightarrow> file_node option"

record file_rights =
  fr_mkdir :: "string \<Rightarrow> exn option"
  fr_unlink :: "string \<Rightarrow> exn option"
  fr_create :: "string \<Rightarrow> exn option"

fun exists_within :: "nat \<Rightarrow> file_system \<Rightarrow> string \<Rightarrow> bool" where
  "exists_within n fs path =
     (case fs path of
        None \<Rightarrow> False
      | Some (SymLink target) \<Rightarrow> (case n of 0 \<Rightarrow> False | Suc m \<Rightarrow> exists_within m fs target)
      | Some _ \<Rightarrow> True)"

definition path_exists :: "file_system \<Rightarrow> string \<Rightarrow> bool" where
  "path_exists = exists_within 40"

definition is_symlink :: "file_system \<Rightarrow> string \<Rightarrow> bool" where
  "is_symlink fs path \<longleftrightarrow> (\<exists>target. fs path = Some (SymLink target))"

text \<open>\<open>Path.unlink\<close> removes the entry itself, and no directory.\<close>

definition unlink_path :: "file_rights \<Rightarrow> string \<Rightarrow> file_system \<Rightarrow> unit result \<times> file_system" where
  "unlink_path rights path fs =
     (case fr_unlink rights path of
        Some e \<Rightarrow> (Inl e, fs)
      | None \<Rightarrow>
          (case fs path of
             None \<Rightarrow> (Inl (OSError ''No such file or directory''), fs)
           | Some Directory \<Rightarrow> (Inl (OSError ''Is a directory''), fs)
           | Some _ \<Rightarrow> (Inr (), fs(path := None))))"

text \<open>Making a link or binding a socket needs a free name; binding replaces a socket that nobody removed,
  since \<open>asyncio\<close> does so.\<close>

definition symlink_path :: "file_rights \<Rightarrow> string \<Rightarrow> string \<Rightarrow> file_system \<Rightarrow> unit result \<times> file_system" where
  "symlink_path rights target path fs =
     (case fr_create rights path of
        Some e \<Rightarrow> (Inl e, fs)
      | None \<Rightarrow>
          if fs path \<noteq> None then (Inl (OSError ''File exists''), fs)
          else (Inr (), fs(path := Some (SymLink target))))"

definition bind_socket :: "file_rights \<Rightarrow> string \<Rightarrow> file_system \<Rightarrow> unit result \<times> file_system" where
  "bind_socket rights path fs =
     (case fr_create rights path of
        Some e \<Rightarrow> (Inl e, fs)
      | None \<Rightarrow>
          if fs path \<noteq> None \<and> fs path \<noteq> Some SocketFile then (Inl (OSError ''Address already in use''), fs)
          else (Inr (), fs(path := Some SocketFile)))"

text \<open>Calls one after the other, as long as none raises.\<close>

definition then_run :: "unit result \<times> 's \<Rightarrow> ('s \<Rightarrow> unit result \<times> 's) \<Rightarrow> unit result \<times> 's" where
  "then_run r f = (case r of (Inl e, s) \<Rightarrow> (Inl e, s) | (Inr _, s) \<Rightarrow> f s)"

definition make_parent :: "file_rights \<Rightarrow> string \<Rightarrow> file_system \<Rightarrow> unit result \<times> file_system" where
  "make_parent rights path fs = (case fr_mkdir rights path of Some e \<Rightarrow> (Inl e, fs) | None \<Rightarrow> (Inr (), fs))"

section \<open>The socket of the Unix frontend\<close>

definition replace_socket :: "file_rights \<Rightarrow> string \<Rightarrow> file_system \<Rightarrow> unit result \<times> file_system" where
  "replace_socket rights path fs =
     then_run (make_parent rights path fs) (\<lambda>fs.
     then_run (if path_exists fs path then unlink_path rights path fs else (Inr (), fs))
       (bind_socket rights path))"

definition unix_start_files ::
  "file_rights \<Rightarrow> unix_frontend \<Rightarrow> file_system \<Rightarrow> unit result \<times> unix_frontend \<times> file_system" where
  "unix_start_files rights fe fs =
     (if uf_listening fe then (Inr (), fe, fs)
      else (case replace_socket rights (umt_socket_path (uf_config fe)) fs of
        (bound, fs') \<Rightarrow> (case unix_frontend_start bound fe of (r, fe') \<Rightarrow> (r, fe', fs'))))"

definition unix_stop_files ::
  "file_rights \<Rightarrow> unix_frontend \<Rightarrow> file_system \<Rightarrow> unit result \<times> unix_frontend \<times> file_system" where
  "unix_stop_files rights fe fs =
     (if \<not> uf_listening fe then (Inr (), fe, fs)
      else let path = umt_socket_path (uf_config fe) in
        (case (if path_exists fs path then unlink_path rights path fs else (Inr (), fs)) of
           (r, fs') \<Rightarrow> (r, unix_frontend_stop fe, fs')))"

section \<open>The link of the serial frontend\<close>

definition prepare_symlink :: "file_rights \<Rightarrow> string \<Rightarrow> string \<Rightarrow> file_system \<Rightarrow> unit result \<times> file_system" where
  "prepare_symlink rights slave_path target fs =
     then_run (make_parent rights target fs) (\<lambda>fs.
     then_run (if path_exists fs target \<or> is_symlink fs target then unlink_path rights target fs else (Inr (), fs))
       (symlink_path rights slave_path target))"

text \<open>\<open>opened\<close> is the terminal that \<open>pty.openpty\<close> gives: the name of its slave, if that can be found out.\<close>

definition rtu_start_files ::
  "file_rights \<Rightarrow> string result result \<Rightarrow> unit result \<Rightarrow> rtu_frontend \<Rightarrow> file_system \<Rightarrow>
   unit result \<times> rtu_frontend \<times> file_system" where
  "rtu_start_files rights opened raw fe fs =
     (if rf_open fe then (Inr (), fe, fs)
      else (case (case opened of
              Inr (Inr slave_path) \<Rightarrow> prepare_symlink rights slave_path (srs_socket_path (rf_config fe)) fs
            | Inr (Inl e) \<Rightarrow> (Inl e, fs)
            | Inl e \<Rightarrow> (Inl e, fs)) of
        (linked, fs') \<Rightarrow>
          (case rtu_frontend_start (map_sum id (\<lambda>_. ()) opened) linked raw fe of (r, fe') \<Rightarrow> (r, fe', fs'))))"

definition rtu_stop_files ::
  "file_rights \<Rightarrow> rtu_frontend \<Rightarrow> file_system \<Rightarrow> unit result \<times> rtu_frontend \<times> file_system" where
  "rtu_stop_files rights fe fs =
     (if \<not> rf_open fe then (Inr (), fe, fs)
      else let path = srs_socket_path (rf_config fe) in
        (case (if path_exists fs path \<or> is_symlink fs path then unlink_path rights path fs else (Inr (), fs)) of
           (r, fs') \<Rightarrow> (r, rtu_frontend_stop fe, fs')))"

section \<open>Lemmas\<close>

declare exists_within.simps [simp del]

lemma exists_entry: "path_exists fs path \<Longrightarrow> fs path \<noteq> None"
  by (cases "fs path") (simp_all add: path_exists_def exists_within.simps [of _ fs path])

lemma exists_no_link: "fs path = Some node \<Longrightarrow> (\<And>t. node \<noteq> SymLink t) \<Longrightarrow> path_exists fs path"
  by (cases node) (auto simp: path_exists_def exists_within.simps [of _ fs path])

lemma then_run_Inr_iff: "then_run r f = (Inr u, s') \<longleftrightarrow> (\<exists>s. r = (Inr (), s) \<and> f s = (Inr u, s'))"
  by (cases r; cases "fst r") (auto simp: then_run_def)

lemma unlink_path_Inr_iff:
  "unlink_path rights path fs = (Inr u, fs') \<longleftrightarrow>
     fr_unlink rights path = None \<and> fs path \<notin> {None, Some Directory} \<and> fs' = fs(path := None)"
  by (auto simp: unlink_path_def split: option.splits file_node.splits)

lemma make_parent_Inr_iff: "make_parent rights path fs = (Inr u, fs') \<longleftrightarrow> fr_mkdir rights path = None \<and> fs' = fs"
  by (auto simp: make_parent_def split: option.splits)

text \<open>What a successful start has made of the file system; nothing but the configured path was touched, and
  what was there (unless a directory) is gone.\<close>

lemma replace_socket_Inr:
  "replace_socket rights path fs = (Inr u, fs') \<Longrightarrow> fs' = fs(path := Some SocketFile) \<and> fs path \<noteq> Some Directory"
  by (auto simp: replace_socket_def then_run_Inr_iff make_parent_Inr_iff unlink_path_Inr_iff bind_socket_def
      split: option.splits if_splits dest: exists_entry exists_no_link)

lemma prepare_symlink_Inr:
  "prepare_symlink rights slave path fs = (Inr u, fs') \<Longrightarrow>
     fs' = fs(path := Some (SymLink slave)) \<and> fs path \<noteq> Some Directory"
  by (auto simp: prepare_symlink_def then_run_Inr_iff make_parent_Inr_iff unlink_path_Inr_iff symlink_path_def
      split: option.splits if_splits)

section \<open>Properties\<close>

lemma unix_frontend_start_Inr:
  "unix_frontend_start bound fe = (Inr u, fe') \<Longrightarrow> \<not> uf_listening fe \<Longrightarrow>
     bound = Inr () \<and> fe' = fe\<lparr>uf_listening := True\<rparr>"
  by (auto simp: unix_frontend_start_def split: sum.splits)

lemma unix_socket_start:
  assumes "unix_start_files rights fe fs = (Inr (), fe1, fs1)" and "\<not> uf_listening fe"
  shows "fe1 = fe\<lparr>uf_listening := True\<rparr>" and "fs1 = fs(umt_socket_path (uf_config fe) := Some SocketFile)"
    and "fs (umt_socket_path (uf_config fe)) \<noteq> Some Directory"
proof -
  obtain r fs' where r: "replace_socket rights (umt_socket_path (uf_config fe)) fs = (r, fs')"
    by (cases "replace_socket rights (umt_socket_path (uf_config fe)) fs")
  with assms have "unix_frontend_start r fe = (Inr (), fe1)" and fs1: "fs1 = fs'"
    by (auto simp: unix_start_files_def split: prod.splits)
  from unix_frontend_start_Inr [OF this(1) assms(2)] have "r = Inr ()" and fe1: "fe1 = fe\<lparr>uf_listening := True\<rparr>"
    by blast+
  with r fs1 replace_socket_Inr [of rights "umt_socket_path (uf_config fe)" fs "()" fs']
  show "fs1 = fs(umt_socket_path (uf_config fe) := Some SocketFile)"
    "fs (umt_socket_path (uf_config fe)) \<noteq> Some Directory" by blast+
  show "fe1 = fe\<lparr>uf_listening := True\<rparr>" by (rule fe1)
qed

lemma unix_socket_stop:
  assumes "uf_listening fe" and "fs (umt_socket_path (uf_config fe)) = Some SocketFile"
    and "fr_unlink rights (umt_socket_path (uf_config fe)) = None"
  shows "unix_stop_files rights fe fs = (Inr (), unix_frontend_stop fe, fs(umt_socket_path (uf_config fe) := None))"
proof -
  have "path_exists fs (umt_socket_path (uf_config fe))" using assms(2) by (rule exists_no_link) simp
  with assms show ?thesis by (simp add: unix_stop_files_def Let_def unlink_path_def)
qed

text \<open>While a Unix frontend serves, its socket is at the configured path, and when it was stopped nothing is
  there; start and stop touch no other path. The start takes the path by force: whatever was there, a
  socket, a regular file or a link that leads somewhere, is removed, but for a directory, which makes it fail.\<close>

theorem unix_socket_is_present_while_serving:
  assumes "unix_start_files rights fe fs = (Inr (), fe1, fs1)" and "\<not> uf_listening fe"
    and "path = umt_socket_path (uf_config fe)"
  shows "uf_listening fe1 \<and> fs1 = fs(path := Some SocketFile) \<and> fs path \<noteq> Some Directory \<and>
    (\<forall>fs2. fs2 path = Some SocketFile \<and> fr_unlink rights path = None \<longrightarrow>
      unix_stop_files rights fe1 fs2 = (Inr (), unix_frontend_stop fe1, fs2(path := None)))"
  using unix_socket_start [OF assms(1,2)] unix_socket_stop [of fe1] assms(3) by simp

text \<open>The serial frontend likewise, with a link to its terminal; it also replaces a link that leads nowhere.\<close>

theorem rtu_link_is_present_while_serving:
  assumes "rtu_start_files rights (Inr (Inr slave)) (Inr ()) fe fs = (Inr (), fe1, fs1)" and "\<not> rf_open fe"
    and "path = srs_socket_path (rf_config fe)"
  shows "rf_open fe1 \<and> rf_reader fe1 \<and> fs1 = fs(path := Some (SymLink slave)) \<and> fs path \<noteq> Some Directory"
    and "fs2 path = Some (SymLink slave) \<Longrightarrow> fr_unlink rights path = None \<Longrightarrow>
      rtu_stop_files rights fe1 fs2 = (Inr (), rtu_frontend_stop fe1, fs2(path := None))"
proof -
  obtain r fs' where r: "prepare_symlink rights slave path fs = (r, fs')"
    by (cases "prepare_symlink rights slave path fs")
  with assms have "rtu_frontend_start (Inr ()) r (Inr ()) fe = (Inr (), fe1)" "fs1 = fs'"
    by (auto simp: rtu_start_files_def split: prod.splits)
  with assms(2) have "r = Inr ()" and fe1: "fe1 = fe\<lparr>rf_open := True, rf_loop := True, rf_reader := True\<rparr>"
    by (auto simp: rtu_frontend_start_def Let_def split: sum.splits)
  with prepare_symlink_Inr [of rights slave path fs "()" fs'] r \<open>fs1 = fs'\<close>
  show "rf_open fe1 \<and> rf_reader fe1 \<and> fs1 = fs(path := Some (SymLink slave)) \<and> fs path \<noteq> Some Directory"
    by simp
  assume "fs2 path = Some (SymLink slave)" "fr_unlink rights path = None"
  then have "is_symlink fs2 path" "unlink_path rights path fs2 = (Inr (), fs2(path := None))"
    by (auto simp: unlink_path_Inr_iff is_symlink_def)
  with fe1 assms(3) show "rtu_stop_files rights fe1 fs2 = (Inr (), rtu_frontend_stop fe1, fs2(path := None))"
    by (simp add: rtu_stop_files_def Let_def)
qed

text \<open>The two frontends differ in a link that leads nowhere: it keeps the Unix frontend from starting.\<close>

lemma dangling_link_blocks_unix_frontend:
  assumes "fs path = Some (SymLink target)" "\<not> path_exists fs path"
    and "fr_mkdir rights path = None" "fr_create rights path = None" "fr_unlink rights path = None"
  shows "replace_socket rights path fs = (Inl (OSError ''Address already in use''), fs)"
    and "prepare_symlink rights slave path fs = (Inr (), fs(path := Some (SymLink slave)))"
  using assms
  by (simp_all add: replace_socket_def prepare_symlink_def then_run_def make_parent_def bind_socket_def
      unlink_path_def symlink_path_def is_symlink_def)

text \<open>Two Unix frontends with the same path both start; when the first is stopped, the socket of the second,
  which goes on listening, is removed.\<close>

theorem shared_socket_path_is_lost:
  assumes "unix_start_files rights fe fs = (Inr (), fe1, fs1)" "\<not> uf_listening fe"
    and "unix_start_files rights fe' fs1 = (Inr (), fe2, fs2)" "\<not> uf_listening fe'"
    and "umt_socket_path (uf_config fe) = path" "umt_socket_path (uf_config fe') = path" "fr_unlink rights path = None"
  shows "uf_listening fe2 \<and> (\<exists>fs3. unix_stop_files rights fe1 fs2 = (Inr (), unix_frontend_stop fe1, fs3) \<and> fs3 path = None)"
proof -
  have first: "uf_listening fe1" "umt_socket_path (uf_config fe1) = path"
    using unix_socket_start(1) [OF assms(1,2)] assms(5) by simp_all
  have second: "uf_listening fe2" "fs2 path = Some SocketFile"
    using unix_socket_start [OF assms(3,4)] assms(6) by simp_all
  with unix_socket_stop [OF first(1)] first(2) assms(7) show ?thesis by simp
qed

end
