(* ===== verification/Client_Pdu.thy ===== *)
theory Client_Pdu
  imports Pdu_Codec
begin

text \<open>
  \<open>modbusgw_client/pdu.py\<close>, the client's own copy of the PDU classes, as it is organised there:
  every class is its function code and its \<open>_from_payload\<close>, the decorators enter it in the registry
  of its base class in the order of the module, and \<open>from_adu\<close> looks the function code up. The
  instances are those of theory Messages. The module and \<open>modbusgw/core/messages.py\<close> must stay in
  agreement for client and gateway to understand each other.
\<close>

section \<open>Coils\<close>

fun client_pack_loop :: "bytes \<Rightarrow> nat \<Rightarrow> bool list \<Rightarrow> bytes" where
  "client_pack_loop result idx [] = result"
| "client_pack_loop result idx (bt # bits) =
     client_pack_loop
       (if bt then result[idx div 8 := (result ! (idx div 8)) OR push_bit (idx mod 8) 1] else result)
       (idx + 1) bits"

definition client_pack_coils :: "bool list \<Rightarrow> bytes" where
  "client_pack_coils bits = client_pack_loop (replicate ((length bits + 7) div 8) 0) 0 bits"

fun client_unpack_loop :: "bytes \<Rightarrow> bool list \<Rightarrow> nat list \<Rightarrow> bool list" where
  "client_unpack_loop data result [] = result"
| "client_unpack_loop data result (idx # idxs) =
     (let byte_index = idx div 8; bit_index = idx mod 8 in
      if byte_index \<ge> length data then result
      else client_unpack_loop data (result @ [(data ! byte_index) AND push_bit bit_index 1 \<noteq> 0]) idxs)"

definition client_unpack_coils :: "bytes \<Rightarrow> int \<Rightarrow> bool list" where
  "client_unpack_coils data quantity = client_unpack_loop data [] [0..<nat quantity]"

section \<open>Classes and registries\<close>

text \<open>\<open>_from_payload\<close> takes unit, payload, ADU, MBAP and function code.\<close>

record 'b pdu_class =
  pc_function_code :: int
  pc_from_payload :: "int \<Rightarrow> bytes \<Rightarrow> bytes \<Rightarrow> bytes option \<Rightarrow> int \<Rightarrow> 'b pdu result"

definition client_attach_raw :: "'b pdu \<Rightarrow> bytes \<Rightarrow> bytes \<Rightarrow> bytes option \<Rightarrow> 'b pdu" where
  "client_attach_raw p payload adu mb =
     (let p1 = p\<lparr>raw_pdu := Some payload\<rparr>; p2 = p1\<lparr>raw_adu := Some adu\<rparr> in p2\<lparr>mbap := mb\<rparr>)"

text \<open>The classes whose payload is two big-endian words.\<close>

definition client_words_payload ::
  "(int \<Rightarrow> int \<Rightarrow> 'b) \<Rightarrow> string \<Rightarrow> int \<Rightarrow> bytes \<Rightarrow> bytes \<Rightarrow> bytes option \<Rightarrow> int \<Rightarrow> 'b pdu result" where
  "client_words_payload cls msg unit payload adu mb fc =
     (if length payload < 4 then Inl (ValueError msg)
      else case struct_unpack_HH (take 4 payload) of
        Inl e \<Rightarrow> Inl e
      | Inr (x, y) \<Rightarrow> Inr (client_attach_raw (new_pdu unit (cls x y)) (take 4 payload) adu mb))"

definition client_write_coils_payload ::
  "int \<Rightarrow> bytes \<Rightarrow> bytes \<Rightarrow> bytes option \<Rightarrow> int \<Rightarrow> request_body pdu result" where
  "client_write_coils_payload unit payload adu mb fc =
     (if length payload < 5 then Inl (ValueError ''Invalid write multiple coils request'')
      else case struct_unpack_HH (take 4 payload) of
        Inl e \<Rightarrow> Inl e
      | Inr (address, quantity) \<Rightarrow>
          (let byte_count = unat (payload ! 4);
               data = take byte_count (drop 5 payload);
               values = client_unpack_coils data quantity
           in Inr (client_attach_raw (new_pdu unit (WriteMultipleCoilsRequest address values))
                (take (5 + byte_count) payload) adu mb)))"

definition client_write_registers_payload ::
  "int \<Rightarrow> bytes \<Rightarrow> bytes \<Rightarrow> bytes option \<Rightarrow> int \<Rightarrow> request_body pdu result" where
  "client_write_registers_payload unit payload adu mb fc =
     (if length payload < 5 then Inl (ValueError ''Invalid write multiple registers request'')
      else case struct_unpack_HH (take 4 payload) of
        Inl e \<Rightarrow> Inl e
      | Inr (address, quantity) \<Rightarrow>
          (let byte_count = unat (payload ! 4);
               data = take byte_count (drop 5 payload)
           in if int (length data) < quantity * 2
              then Inl (ValueError ''Write multiple registers payload truncated'')
              else case struct_unpack_Hs (nat quantity) (take (nat (quantity * 2)) data) of
                Inl e \<Rightarrow> Inl e
              | Inr values \<Rightarrow>
                  Inr (client_attach_raw (new_pdu unit (WriteMultipleRegistersRequest address values))
                    (take (5 + byte_count) payload) adu mb)))"

definition client_bits_payload ::
  "(bytes \<Rightarrow> response_body) \<Rightarrow> int \<Rightarrow> bytes \<Rightarrow> bytes \<Rightarrow> bytes option \<Rightarrow> int \<Rightarrow> response_body pdu result" where
  "client_bits_payload cls unit payload adu mb fc =
     (if payload = [] then Inl (ValueError ''Invalid read coils response'')
      else let byte_count = unat (payload ! 0); data = take byte_count (drop 1 payload)
           in Inr (client_attach_raw (new_pdu unit (cls data)) (take (1 + byte_count) payload) adu mb))"

definition client_registers_payload ::
  "(int list \<Rightarrow> response_body) \<Rightarrow> int \<Rightarrow> bytes \<Rightarrow> bytes \<Rightarrow> bytes option \<Rightarrow> int \<Rightarrow> response_body pdu result" where
  "client_registers_payload cls unit payload adu mb fc =
     (if payload = [] then Inl (ValueError ''Invalid read holding registers response'')
      else let byte_count = unat (payload ! 0); data = take byte_count (drop 1 payload)
           in if length data mod 2 \<noteq> 0 then Inl (ValueError ''Register response byte count is odd'')
              else case struct_unpack_Hs (length data div 2) data of
                Inl e \<Rightarrow> Inl e
              | Inr values \<Rightarrow>
                  Inr (client_attach_raw (new_pdu unit (cls values)) (take (1 + byte_count) payload) adu mb))"

definition client_exception_payload ::
  "int \<Rightarrow> bytes \<Rightarrow> bytes \<Rightarrow> bytes option \<Rightarrow> int \<Rightarrow> response_body pdu result" where
  "client_exception_payload unit payload adu mb base_fc =
     (if payload = [] then Inl (ValueError ''Invalid exception response'')
      else Inr (client_attach_raw (new_pdu unit (ModbusExceptionResponse base_fc (uint (payload ! 0))))
             (take 1 payload) adu mb))"

definition client_raw_request_payload ::
  "int \<Rightarrow> bytes \<Rightarrow> bytes \<Rightarrow> bytes option \<Rightarrow> int \<Rightarrow> request_body pdu result" where
  "client_raw_request_payload unit payload adu mb fc =
     Inr (client_attach_raw (new_pdu unit (RawModbusRequest payload fc)) payload adu mb)"

definition client_raw_response_payload ::
  "int \<Rightarrow> bytes \<Rightarrow> bytes \<Rightarrow> bytes option \<Rightarrow> int \<Rightarrow> response_body pdu result" where
  "client_raw_response_payload unit payload adu mb fc =
     Inr (client_attach_raw (new_pdu unit (RawModbusResponse payload fc)) payload adu mb)"

definition register_class :: "'b pdu_class \<Rightarrow> (int \<times> 'b pdu_class) list \<Rightarrow> (int \<times> 'b pdu_class) list" where
  "register_class impl registry = dict_set (pc_function_code impl) impl registry"

text \<open>The class statements under \<open>@ModbusRequest.register\<close>, in the order of the module.\<close>

definition client_request_classes :: "request_body pdu_class list" where
  "client_request_classes =
     [\<lparr>pc_function_code = 1, pc_from_payload = client_words_payload ReadCoilsRequest ''Invalid read coils request''\<rparr>,
      \<lparr>pc_function_code = 2, pc_from_payload = client_words_payload ReadDiscreteInputsRequest ''Invalid read coils request''\<rparr>,
      \<lparr>pc_function_code = 3, pc_from_payload = client_words_payload ReadHoldingRegistersRequest
         ''Invalid read holding registers request''\<rparr>,
      \<lparr>pc_function_code = 4, pc_from_payload = client_words_payload ReadInputRegistersRequest
         ''Invalid read holding registers request''\<rparr>,
      \<lparr>pc_function_code = 5, pc_from_payload = client_words_payload (\<lambda>a v. WriteSingleCoilRequest a (IntValue v))
         ''Invalid write single coil request''\<rparr>,
      \<lparr>pc_function_code = 6, pc_from_payload = client_words_payload WriteSingleRegisterRequest
         ''Invalid write single register request''\<rparr>,
      \<lparr>pc_function_code = 15, pc_from_payload = client_write_coils_payload\<rparr>,
      \<lparr>pc_function_code = 16, pc_from_payload = client_write_registers_payload\<rparr>]"

definition client_response_classes :: "response_body pdu_class list" where
  "client_response_classes =
     [\<lparr>pc_function_code = 1, pc_from_payload = client_bits_payload ReadCoilsResponse\<rparr>,
      \<lparr>pc_function_code = 2, pc_from_payload = client_bits_payload ReadDiscreteInputsResponse\<rparr>,
      \<lparr>pc_function_code = 3, pc_from_payload = client_registers_payload ReadHoldingRegistersResponse\<rparr>,
      \<lparr>pc_function_code = 4, pc_from_payload = client_registers_payload ReadInputRegistersResponse\<rparr>,
      \<lparr>pc_function_code = 5, pc_from_payload = client_words_payload WriteSingleCoilResponse
         ''Invalid write single coil response''\<rparr>,
      \<lparr>pc_function_code = 6, pc_from_payload = client_words_payload WriteSingleRegisterResponse
         ''Invalid write single register response''\<rparr>,
      \<lparr>pc_function_code = 15, pc_from_payload = client_words_payload WriteMultipleCoilsResponse
         ''Invalid write multiple coils response''\<rparr>,
      \<lparr>pc_function_code = 16, pc_from_payload = client_words_payload WriteMultipleRegistersResponse
         ''Invalid write multiple registers response''\<rparr>]"

definition client_request_registry :: "(int \<times> request_body pdu_class) list" where
  "client_request_registry = foldl (\<lambda>registry impl. register_class impl registry) [] client_request_classes"

definition client_response_registry :: "(int \<times> response_body pdu_class) list" where
  "client_response_registry = foldl (\<lambda>registry impl. register_class impl registry) [] client_response_classes"

definition client_split_adu :: "bytes \<Rightarrow> (int \<times> int \<times> bytes) result" where
  "client_split_adu adu =
     (if length adu < 2 then Inl (ValueError ''Frame too short'')
      else Inr (uint (adu ! 0), uint (adu ! 1), drop 2 adu))"

definition client_request_from_adu :: "bytes \<Rightarrow> bytes option \<Rightarrow> request result" where
  "client_request_from_adu adu mb =
     (case client_split_adu adu of
        Inl e \<Rightarrow> Inl e
      | Inr (unit, function_code, payload) \<Rightarrow>
          (case dict_get client_request_registry function_code of
             Some impl \<Rightarrow> pc_from_payload impl unit payload adu mb function_code
           | None \<Rightarrow> client_raw_request_payload unit payload adu mb function_code))"

definition client_response_from_adu :: "bytes \<Rightarrow> bytes option \<Rightarrow> response result" where
  "client_response_from_adu adu mb =
     (case client_split_adu adu of
        Inl e \<Rightarrow> Inl e
      | Inr (unit, function_code, payload) \<Rightarrow>
          if function_code AND 0x80 \<noteq> 0
          then client_exception_payload unit payload adu mb (function_code AND 0x7F)
          else (case dict_get client_response_registry function_code of
             Some impl \<Rightarrow> pc_from_payload impl unit payload adu mb function_code
           | None \<Rightarrow> client_raw_response_payload unit payload adu mb function_code))"

section \<open>Encoding\<close>

definition client_encode_registers :: "int list \<Rightarrow> bytes result" where
  "client_encode_registers values = foldl (\<lambda>payload value.
     bind_result payload (\<lambda>raw. bind_result (struct_pack_H (value AND 0xFFFF)) (\<lambda>x. Inr (raw @ x)))) (Inr []) values"

fun client_encode_request :: "request_body \<Rightarrow> bytes result" where
  "client_encode_request (WriteSingleCoilRequest address val) =
     struct_pack_HH address
       (case val of BoolValue b \<Rightarrow> if b then 0xFF00 else 0x0000 | IntValue v \<Rightarrow> v AND 0xFFFF)"
| "client_encode_request (WriteSingleRegisterRequest address val) = struct_pack_HH address (val AND 0xFFFF)"
| "client_encode_request (WriteMultipleCoilsRequest address values) =
     (let bytes_payload = client_pack_coils values in
      bind_result (struct_pack_HHB address (int (length values)) (int (length bytes_payload)))
        (\<lambda>hdr. Inr (hdr @ bytes_payload)))"
| "client_encode_request (WriteMultipleRegistersRequest address values) =
     bind_result (struct_pack_HHB address (int (length values)) (int (length values) * 2)) (\<lambda>hdr.
       bind_result (client_encode_registers values) (\<lambda>rest. Inr (hdr @ rest)))"
| "client_encode_request (RawModbusRequest payload _) = Inr payload"
| "client_encode_request (ReadCoilsRequest address quantity) = struct_pack_HH address quantity"
| "client_encode_request (ReadDiscreteInputsRequest address quantity) = struct_pack_HH address quantity"
| "client_encode_request (ReadHoldingRegistersRequest address quantity) = struct_pack_HH address quantity"
| "client_encode_request (ReadInputRegistersRequest address quantity) = struct_pack_HH address quantity"

text \<open>Class attribute \<open>FUNCTION_CODE\<close>, or the override of a raw instance.\<close>

definition client_function_code :: "request_body \<Rightarrow> int" where
  "client_function_code b =
     (case b of
        RawModbusRequest _ override \<Rightarrow> override
      | ReadCoilsRequest _ _ \<Rightarrow> 1
      | ReadDiscreteInputsRequest _ _ \<Rightarrow> 2
      | ReadHoldingRegistersRequest _ _ \<Rightarrow> 3
      | ReadInputRegistersRequest _ _ \<Rightarrow> 4
      | WriteSingleCoilRequest _ _ \<Rightarrow> 5
      | WriteSingleRegisterRequest _ _ \<Rightarrow> 6
      | WriteMultipleCoilsRequest _ _ \<Rightarrow> 15
      | WriteMultipleRegistersRequest _ _ \<Rightarrow> 16)"

definition client_to_adu :: "request \<Rightarrow> bytes result \<times> request" where
  "client_to_adu p =
     (case client_encode_request (body p) of
        Inl e \<Rightarrow> (Inl e, p)
      | Inr payload \<Rightarrow>
          (case py_bytes [unit_id p, client_function_code (body p)] of
             Inl e \<Rightarrow> (Inl e, p\<lparr>raw_pdu := Some payload\<rparr>)
           | Inr hdr \<Rightarrow>
               (Inr (hdr @ payload), p\<lparr>raw_pdu := Some payload, raw_adu := Some (hdr @ payload)\<rparr>)))"

fun client_encode_response :: "response_body \<Rightarrow> bytes result" where
  "client_encode_response (ReadCoilsResponse values) =
     bind_result (py_bytes [int (length values)]) (\<lambda>hdr. Inr (hdr @ values))"
| "client_encode_response (ReadDiscreteInputsResponse values) =
     bind_result (py_bytes [int (length values)]) (\<lambda>hdr. Inr (hdr @ values))"
| "client_encode_response (ReadHoldingRegistersResponse values) =
     bind_result (py_bytes [int (length values) * 2]) (\<lambda>hdr.
       bind_result (client_encode_registers values) (\<lambda>rest. Inr (hdr @ rest)))"
| "client_encode_response (ReadInputRegistersResponse values) =
     bind_result (py_bytes [int (length values) * 2]) (\<lambda>hdr.
       bind_result (client_encode_registers values) (\<lambda>rest. Inr (hdr @ rest)))"
| "client_encode_response (WriteSingleCoilResponse address val) = struct_pack_HH address (val AND 0xFFFF)"
| "client_encode_response (WriteSingleRegisterResponse address val) = struct_pack_HH address (val AND 0xFFFF)"
| "client_encode_response (WriteMultipleCoilsResponse address quantity) = struct_pack_HH address quantity"
| "client_encode_response (WriteMultipleRegistersResponse address quantity) = struct_pack_HH address quantity"
| "client_encode_response (ModbusExceptionResponse _ exception_code) = py_bytes [exception_code]"
| "client_encode_response (RawModbusResponse payload _) = Inr payload"

text \<open>Property \<open>bits\<close> of \<open>ReadCoilsResponse\<close>.\<close>

definition client_response_bits :: "bytes \<Rightarrow> bool list" where
  "client_response_bits values = client_unpack_coils values (int (length values) * 8)"

text \<open>Attributes of a request object that the client itself does not read.\<close>

definition client_operation_map :: "(int \<times> string) list" where
  "client_operation_map =
     foldl (\<lambda>d fc. dict_set fc ''write'' d) (map (\<lambda>fc. (fc, ''read'')) [1, 2, 3, 4]) [5, 6, 15, 16]"

definition client_operation :: "request \<Rightarrow> string option" where
  "client_operation p = dict_get client_operation_map (client_function_code (body p))"

fun client_request_register :: "request_body \<Rightarrow> pyval" where
  "client_request_register (ReadCoilsRequest address _) = PyInt address"
| "client_request_register (ReadDiscreteInputsRequest address _) = PyInt address"
| "client_request_register (ReadHoldingRegistersRequest address _) = PyInt address"
| "client_request_register (ReadInputRegistersRequest address _) = PyInt address"
| "client_request_register (WriteSingleCoilRequest address _) = PyInt address"
| "client_request_register (WriteSingleRegisterRequest address _) = PyInt address"
| "client_request_register (WriteMultipleCoilsRequest address _) = PyInt address"
| "client_request_register (WriteMultipleRegistersRequest address _) = PyInt address"
| "client_request_register (RawModbusRequest _ _) = PyMethod"

text \<open>\<open>with_unit\<close>: \<open>replace\<close> makes a new instance, whose \<open>__post_init__\<close> resets what is then copied.\<close>

definition client_with_unit :: "request \<Rightarrow> int \<Rightarrow> request" where
  "client_with_unit p unit =
     (let clone = new_pdu unit (body p) in
      clone\<lparr>raw_pdu := raw_pdu p, raw_adu := raw_adu p, mbap := mbap p\<rparr>)"

section \<open>Agreement with the gateway's module\<close>

lemma client_pack_loop_eq:
  "client_pack_loop result idx bits = foldl set_coil result (enumerate idx bits)"
  by (induction result idx bits rule: client_pack_loop.induct) (simp_all add: set_coil_def coil_mask_def)

lemma client_pack_coils_eq: "client_pack_coils bits = pack_coils bits"
  by (simp add: client_pack_coils_def pack_coils_def client_pack_loop_eq)

lemma client_unpack_loop_eq:
  "client_unpack_loop data result [idx..<idx + n] = result @ unpack_coils_from data idx n"
proof (induction n arbitrary: idx result)
  case (Suc n)
  have "[idx..<idx + Suc n] = idx # [Suc idx..<Suc idx + n]" by (simp add: upt_conv_Cons)
  with Suc [of _ "Suc idx"] show ?case by (simp add: Let_def coil_mask_def)
qed simp

lemma client_unpack_coils_eq: "client_unpack_coils data quantity = unpack_coils data quantity"
  using client_unpack_loop_eq [of data "[]" 0 "nat quantity"]
  by (simp add: client_unpack_coils_def unpack_coils_def)

lemma client_response_bits_eq: "client_response_bits vs = response_bits vs"
  by (simp add: client_response_bits_def response_bits_def client_unpack_coils_eq)

lemma client_encode_registers_eq:
  "client_encode_registers values = Inr (concat (map be16 (map (\<lambda>v. v mod 65536) values)))"
proof -
  have "foldl (\<lambda>payload value. bind_result payload (\<lambda>raw.
      bind_result (struct_pack_H (value AND 0xFFFF)) (\<lambda>x. Inr (raw @ x)))) (Inr raw) vs =
      Inr (raw @ concat (map be16 (map (\<lambda>v. v mod 65536) vs)))" for raw vs
    by (induction vs arbitrary: raw) (simp_all add: and_FFFF_eq_mod)
  from this [of "[]"] show ?thesis by (simp add: client_encode_registers_def)
qed

lemma client_encode_request_eq: "client_encode_request b = encode_request b"
proof (cases b)
  case (WriteSingleCoilRequest a v)
  then show ?thesis by (cases v) simp_all
next
  case (WriteMultipleRegistersRequest a vs)
  then show ?thesis
    by (simp add: encode_write_multiple_registers_def Let_def client_encode_registers_eq append_registers_eq)
qed (simp_all add: encode_write_multiple_coils_def client_pack_coils_eq)

lemma client_encode_response_eq: "client_encode_response b = encode_response b"
  by (cases b) (simp_all add: encode_bits_response_def encode_registers_response_def
      client_encode_registers_eq append_registers_eq)

lemma client_function_code_eq: "client_function_code b = request_function_code b"
  by (cases b) (simp_all add: client_function_code_def)

lemma client_to_adu_eq: "client_to_adu p = request_to_adu p"
  by (simp add: client_to_adu_def request_to_adu_def to_adu_def client_encode_request_eq
      client_function_code_eq Let_def split: sum.splits)

lemma client_attributes_eq:
  "client_request_register b = request_register b"
  "client_operation p = operation_map (request_function_code (body p))"
  "client_with_unit p unit = with_unit p unit"
  by (cases b; simp)
    (auto simp: client_operation_def client_operation_map_def operation_map_def client_function_code_eq
      client_with_unit_def with_unit_def new_pdu_def Let_def)

lemma client_attach_raw_eq: "client_attach_raw p payload adu mb = attach_raw p payload adu mb"
  by (simp add: client_attach_raw_def attach_raw_def)

text \<open>How a method of a class relates to the decoder of theory Messages.\<close>

definition attached :: "int \<Rightarrow> bytes \<Rightarrow> bytes option \<Rightarrow> ('b \<times> bytes) result \<Rightarrow> 'b pdu result" where
  "attached unit adu mb r = bind_result r (\<lambda>(b, used). Inr (attach_raw (new_pdu unit b) used adu mb))"

lemma client_payload_eqs:
  "client_words_payload cls msg unit payload adu mb fc = attached unit adu mb (two_words_from_payload cls msg payload)"
  "client_write_coils_payload unit payload adu mb fc = attached unit adu mb (write_multiple_coils_from_payload payload)"
  "client_write_registers_payload unit payload adu mb fc =
     attached unit adu mb (write_multiple_registers_from_payload payload)"
  "client_bits_payload bcls unit payload adu mb fc = attached unit adu mb (bits_from_payload bcls payload)"
  "client_registers_payload rcls unit payload adu mb fc = attached unit adu mb (registers_from_payload rcls payload)"
  "client_exception_payload unit payload adu mb base = attached unit adu mb (exception_from_payload base payload)"
  "client_raw_request_payload unit payload adu mb fc = attached unit adu mb (Inr (RawModbusRequest payload fc, payload))"
  "client_raw_response_payload unit payload adu mb fc = attached unit adu mb (Inr (RawModbusResponse payload fc, payload))"
  by (simp_all add: attached_def client_words_payload_def two_words_from_payload_def
      client_write_coils_payload_def write_multiple_coils_from_payload_def
      client_write_registers_payload_def write_multiple_registers_from_payload_def
      client_bits_payload_def bits_from_payload_def client_registers_payload_def registers_from_payload_def
      client_exception_payload_def exception_from_payload_def client_raw_request_payload_def
      client_raw_response_payload_def client_attach_raw_eq client_unpack_coils_eq Let_def
      split: sum.splits prod.splits)

lemma client_split_adu_eq: "client_split_adu adu = split_adu adu"
  by (simp add: client_split_adu_def split_adu_def)

lemma client_request_from_adu_eq: "client_request_from_adu adu mb = request_from_adu adu mb"
  by (simp add: client_request_from_adu_def request_from_adu_def from_adu_def client_split_adu_eq
      client_request_registry_def client_request_classes_def register_class_def client_payload_eqs
      request_from_payload_def attached_def split: sum.splits prod.splits)

lemma client_response_from_adu_eq: "client_response_from_adu adu mb = response_from_adu adu mb"
  by (simp add: client_response_from_adu_def response_from_adu_def from_adu_def client_split_adu_eq
      client_response_registry_def client_response_classes_def register_class_def client_payload_eqs
      response_from_payload_def attached_def split: sum.splits prod.splits)

lemmas client_pdu_eqs = client_request_from_adu_eq client_response_from_adu_eq client_to_adu_eq
  client_encode_response_eq client_function_code_eq client_response_bits_eq

section \<open>Properties\<close>

text \<open>C36. Client and gateway agree on every PDU: the client's registries decode every frame to the
  instance the gateway decodes (or refuse it with the same exception), and it encodes every request
  and response to the bytes the gateway would;
  the attributes that routing reads agree too. So a well-formed request that the client encodes is
  decoded by the gateway to what the client meant, in canonical form.\<close>

theorem client_and_gateway_agree:
  "client_request_from_adu adu mb = request_from_adu adu mb \<and>
   client_response_from_adu adu mb = response_from_adu adu mb \<and>
   client_to_adu p = request_to_adu p \<and> client_encode_response b = encode_response b \<and>
   client_request_register (body p) = request_register (body p) \<and> client_with_unit p unit = with_unit p unit \<and>
   client_operation p = operation_map (request_function_code (body p)) \<and>
   (wf_request (body p) \<longrightarrow> (case fst (client_to_adu p) of
      Inr frame \<Rightarrow> \<exists>q. request_from_adu frame mb = Inr q \<and> body q = canon_request (body p) \<and>
        unit_id q = unit_id p
    | Inl e \<Rightarrow> fst (request_to_adu p) = Inl e))"
proof (intro conjI impI)
  assume wf: "wf_request (body p)"
  obtain r p' where t: "request_to_adu p = (r, p')" by (cases "request_to_adu p")
  show "case fst (client_to_adu p) of
      Inr frame \<Rightarrow> \<exists>q. request_from_adu frame mb = Inr q \<and> body q = canon_request (body p) \<and>
        unit_id q = unit_id p
    | Inl e \<Rightarrow> fst (request_to_adu p) = Inl e"
  proof (cases r)
    case (Inr frame)
    with t have e: "to_adu encode_request request_function_code p = (Inr frame, p')"
      by (simp add: request_to_adu_def)
    from req.from_adu_to_adu [OF wf e, of mb] to_adu_keeps [OF e]
    show ?thesis by (simp add: client_to_adu_eq t Inr request_from_adu_def)
  qed (simp add: client_to_adu_eq t)
qed (simp_all add: client_pdu_eqs client_attributes_eq)

theorem client_and_gateway_agree_witness:
  "\<exists>q. request_from_adu [7, 15, 0, 3, 0, 3, 1, 5] None = Inr q \<and>
     body q = WriteMultipleCoilsRequest 3 [True, False, True] \<and> unit_id q = 7"
proof -
  let ?p = "new_pdu 7 (WriteMultipleCoilsRequest 3 [True, False, True])"
  have "fst (client_to_adu ?p) = Inr [7, 15, 0, 3, 0, 3, 1, 5]" by code_simp
  moreover have "wf_request (body ?p)" by (simp add: new_pdu_def)
  ultimately show ?thesis
    using client_and_gateway_agree [of "[]" None ?p "RawModbusResponse [] 0"]
    by (simp add: new_pdu_def)
qed

end
