(* ===== verification/Client_Transport.thy ===== *)
theory Client_Transport
  imports Complex_Main Client_Pdu Codecs Streams
begin

text \<open>
  The transports of the client library: \<open>modbusgw_client/base.py\<close>, \<open>tcp_client.py\<close> and
  \<open>serial_client.py\<close>. The machine at the other end is a parameter: how a connection attempt ends,
  and what becomes readable after a frame was written. Calls block; a read that times out is a
  \<open>Silence\<close>. TLS is the subject of theory \<open>Tls_Contexts\<close>. Exceptions chained with \<open>from\<close> are
  represented by the exception raised.
\<close>

section \<open>Interface of a transport\<close>

locale base_client =
  fixes connect :: "'c \<Rightarrow> unit result \<times> 'c"
    and close :: "'c \<Rightarrow> 'c"
    and execute :: "request \<Rightarrow> 'c \<Rightarrow> response result \<times> 'c"
    and connected :: "'c \<Rightarrow> bool"
  assumes execute_closed: "\<not> connected c \<Longrightarrow> \<exists>m. execute r c = (Inl (ConnectionClosed m), c)"
    and close_closes: "\<not> connected (close c)"
    and connect_again: "connected c \<Longrightarrow> connect c = (Inr (), c)"
    and connect_connects: "connect c = (Inr (), c') \<Longrightarrow> connected c'"
    and connect_fails: "connect c = (Inl e, c') \<Longrightarrow> \<not> connected c'"

text \<open>\<open>bulk_execute\<close>: the list of responses, or the first exception.\<close>

fun bulk_execute :: "('r \<Rightarrow> 'c \<Rightarrow> 'a result \<times> 'c) \<Rightarrow> 'r list \<Rightarrow> 'c \<Rightarrow> 'a list result \<times> 'c" where
  "bulk_execute execute [] c = (Inr [], c)"
| "bulk_execute execute (r # rs) c =
     (case execute r c of
        (Inl e, c') \<Rightarrow> (Inl e, c')
      | (Inr x, c') \<Rightarrow>
          (case bulk_execute execute rs c' of
             (Inl e, c'') \<Rightarrow> (Inl e, c'')
           | (Inr xs, c'') \<Rightarrow> (Inr (x # xs), c'')))"

text \<open>A \<open>with\<close> block: connect, run the body, close whatever happened.\<close>

definition with_client ::
  "('c \<Rightarrow> unit result \<times> 'c) \<Rightarrow> ('c \<Rightarrow> 'c) \<Rightarrow> ('c \<Rightarrow> 'a result \<times> 'c) \<Rightarrow> 'c \<Rightarrow> 'a result \<times> 'c" where
  "with_client connect close act c =
     (case connect c of
        (Inl e, c') \<Rightarrow> (Inl e, c')
      | (Inr _, c') \<Rightarrow> (case act c' of (r, c'') \<Rightarrow> (r, close c'')))"

context base_client
begin

lemma with_client_closed: "\<not> connected (snd (with_client connect close act c))"
  using connect_fails [of c] close_closes
  by (auto simp: with_client_def split: prod.splits sum.splits)

lemma bulk_closed:
  assumes "\<not> connected c" "rs \<noteq> []"
  shows "\<exists>m. bulk_execute execute rs c = (Inl (ConnectionClosed m), c)"
  using assms(2) execute_closed [OF assms(1), of "hd rs"] by (cases rs) auto

text \<open>Within a \<open>with\<close> block the body starts connected, or does not start.\<close>

lemma with_client_body:
  "(\<exists>e c'. connect c = (Inl e, c') \<and> with_client connect close act c = (Inl e, c')) \<or>
   (\<exists>c'. connect c = (Inr (), c') \<and> connected c' \<and>
      with_client connect close act c = (fst (act c'), close (snd (act c'))))"
  using connect_connects [of c]
  by (auto simp: with_client_def split: prod.splits sum.splits)

end

section \<open>TCP\<close>

record tcp_client_config =
  tcc_host :: "string option"
  tcc_port :: "nat option"
  tcc_unix_socket :: "string option"
  tcc_tls :: bool

record 'd client_server =
  cs_connect :: "'d \<Rightarrow> stream_event list result \<times> 'd"
  cs_send :: "bytes \<Rightarrow> 'd \<Rightarrow> unit result \<times> stream_event list \<times> 'd"

text \<open>\<open>tcl_socket\<close>: what the connected socket will deliver; \<open>tcl_tx\<close>: the next value of the counter.\<close>

record 'd tcp_client =
  tcl_config :: tcp_client_config
  tcl_socket :: "stream_event list option"
  tcl_tx :: int
  tcl_server :: 'd

definition tcp_client_init :: "tcp_client_config \<Rightarrow> 'd \<Rightarrow> 'd tcp_client result" where
  "tcp_client_init config d =
     (if tcc_unix_socket config = None \<and> (tcc_host config = None \<or> tcc_port config = None)
      then Inl (ValueError ''host and port are required for TCP connections'')
      else if tcc_unix_socket config \<noteq> None \<and> tcc_tls config
      then Inl (ValueError ''TLS is not supported with Unix domain sockets'')
      else Inr \<lparr>tcl_config = config, tcl_socket = None, tcl_tx = 1, tcl_server = d\<rparr>)"

fun is_os_error :: "exn \<Rightarrow> bool" where
  "is_os_error (OSError _) = True"
| "is_os_error (TimeoutError _) = True"
| "is_os_error (ConnectionError _) = True"
| "is_os_error _ = False"

fun is_value_error :: "exn \<Rightarrow> bool" where
  "is_value_error (ValueError _) = True"
| "is_value_error _ = False"

text \<open>An empty socket path counts as none here, though not in \<open>__init__\<close>.\<close>

definition create_socket :: "'d client_server \<Rightarrow> 'd tcp_client \<Rightarrow> stream_event list result \<times> 'd" where
  "create_socket server c =
     (if (tcc_unix_socket (tcl_config c) = None \<or> tcc_unix_socket (tcl_config c) = Some []) \<and>
         (tcc_host (tcl_config c) = None \<or> tcc_port (tcl_config c) = None)
      then (Inl AssertionError, tcl_server c)
      else cs_connect server (tcl_server c))"

definition tcp_client_connect :: "'d client_server \<Rightarrow> 'd tcp_client \<Rightarrow> unit result \<times> 'd tcp_client" where
  "tcp_client_connect server c =
     (case tcl_socket c of
        Some _ \<Rightarrow> (Inr (), c)
      | None \<Rightarrow>
          (case create_socket server c of
             (Inl e, d) \<Rightarrow>
               (Inl (if is_os_error e then TransportError ''Failed to establish TCP connection'' else e),
                c\<lparr>tcl_server := d\<rparr>)
           | (Inr stream, d) \<Rightarrow> (Inr (), c\<lparr>tcl_server := d, tcl_socket := Some stream\<rparr>)))"

definition tcp_client_close :: "'d tcp_client \<Rightarrow> 'd tcp_client" where
  "tcp_client_close c = c\<lparr>tcl_socket := None\<rparr>"

text \<open>The loop of \<open>_read_exact\<close>: a peer that closed is no \<open>OSError\<close>.\<close>

fun recv_loop :: "bytes \<Rightarrow> nat \<Rightarrow> stream_event list \<Rightarrow> bytes result \<times> stream_event list" where
  "recv_loop data 0 events = (Inr data, events)"
| "recv_loop data (Suc n) [] = (Inl (TimeoutError ''timed out''), [])"
| "recv_loop data (Suc n) (Arrive b # events) = recv_loop (data @ [b]) n events"
| "recv_loop data (Suc n) (Silence # events) = (Inl (TimeoutError ''timed out''), events)"
| "recv_loop data (Suc n) (Eof # events) = (Inl (TransportError ''Connection closed by peer''), Eof # events)"
| "recv_loop data (Suc n) (Broken e # events) = (Inl e, Broken e # events)"

definition client_read_exact :: "int \<Rightarrow> stream_event list \<Rightarrow> bytes result \<times> stream_event list" where
  "client_read_exact n events = (if n \<le> 0 then (Inr [], events) else recv_loop [] (nat n) events)"

text \<open>The body of the \<open>try\<close> after the frame was sent.\<close>

definition read_mbap :: "stream_event list \<Rightarrow> (int \<times> bytes) result \<times> stream_event list" where
  "read_mbap events =
     (case client_read_exact 7 events of
        (Inl e, rest) \<Rightarrow> (Inl e, rest)
      | (Inr header, rest) \<Rightarrow>
          (case client_read_exact (from_bytes_big (take 2 (drop 4 header)) - 1) rest of
             (Inl e, rest') \<Rightarrow> (Inl e, rest')
           | (Inr payload, rest') \<Rightarrow> (parse_mbap_frame header payload, rest')))"

definition exchange_failed :: "exn \<Rightarrow> 'd tcp_client \<Rightarrow> 'a result \<times> 'd tcp_client" where
  "exchange_failed e c =
     (if is_os_error e \<or> is_value_error e
      then (Inl (TransportError ''Modbus/TCP exchange failed''), tcp_client_close c)
      else (Inl e, c))"

definition tcp_client_execute ::
  "'d client_server \<Rightarrow> request \<Rightarrow> 'd tcp_client \<Rightarrow> response result \<times> 'd tcp_client" where
  "tcp_client_execute server request c =
     (case tcl_socket c of
        None \<Rightarrow> (Inl (ConnectionClosed ''TCP client is not connected''), c)
      | Some stream \<Rightarrow>
          (case client_next_transaction_id (tcl_tx c) of (tx_id, counter) \<Rightarrow>
             let c1 = c\<lparr>tcl_tx := counter\<rparr> in
             case bind_result (fst (client_to_adu request)) (build_mbap_frame tx_id) of
               Inl e \<Rightarrow> (Inl e, c1)
             | Inr frame \<Rightarrow>
                 (case cs_send server frame (tcl_server c1) of
                    (Inl e, events, d) \<Rightarrow>
                      exchange_failed e (c1\<lparr>tcl_server := d, tcl_socket := Some (stream @ events)\<rparr>)
                  | (Inr _, events, d) \<Rightarrow>
                      (case read_mbap (stream @ events) of
                         (Inl e, rest) \<Rightarrow>
                           exchange_failed e (c1\<lparr>tcl_server := d, tcl_socket := Some rest\<rparr>)
                       | (Inr (response_tx, adu), rest) \<Rightarrow>
                           (if response_tx \<noteq> tx_id
                            then Inl (TransportError ''Mismatched Modbus transaction id'')
                            else client_response_from_adu adu None,
                            c1\<lparr>tcl_server := d, tcl_socket := Some rest\<rparr>)))))"

lemmas tcp_client_execute_eq = tcp_client_execute_def [unfolded client_pdu_eqs]

interpretation tcp_client: base_client "tcp_client_connect server" tcp_client_close "tcp_client_execute server"
    "\<lambda>c. tcl_socket c \<noteq> None" for server :: "'d client_server"
proof unfold_locales
  fix c c' :: "'d tcp_client" and e r
  show "\<exists>m. tcp_client_execute server r c = (Inl (ConnectionClosed m), c)" if "\<not> tcl_socket c \<noteq> None"
    using that by (simp add: tcp_client_execute_eq)
  show "\<not> tcl_socket (tcp_client_close c) \<noteq> None" by (simp add: tcp_client_close_def)
  show "tcp_client_connect server c = (Inr (), c)" if "tcl_socket c \<noteq> None"
    using that by (auto simp: tcp_client_connect_def)
  show "tcl_socket c' \<noteq> None" if "tcp_client_connect server c = (Inr (), c')"
    using that by (auto simp: tcp_client_connect_def split: option.splits prod.splits sum.splits)
  show "\<not> tcl_socket c' \<noteq> None" if "tcp_client_connect server c = (Inl e, c')"
    using that by (auto simp: tcp_client_connect_def split: option.splits prod.splits sum.splits)
qed

section \<open>Serial port\<close>

text \<open>
  What the port gives after a frame was written: the successive \<open>read(1)\<close> calls, each with the
  time it took and the byte, if one came before the port's timeout. When the list ends the line stays
  silent, or the next \<open>read\<close> raises what \<open>cl_ending\<close> says. \<open>cl_open\<close> is the factory; \<open>cl_serial\<close> tells
  which of the exceptions that the port raises are instances of \<open>serial.SerialException\<close>.
\<close>

record 'd client_line =
  cl_open :: "'d \<Rightarrow> unit result \<times> 'd"
  cl_write :: "bytes \<Rightarrow> 'd \<Rightarrow> unit result \<times> (rat \<times> byte option) list \<times> 'd"
  cl_ending :: "'d \<Rightarrow> exn option"
  cl_serial :: "exn \<Rightarrow> bool"

record 'd serial_client =
  scl_port :: string
  scl_timeout :: rat
  scl_open :: bool
  scl_device :: 'd

definition serial_client_init :: "string \<Rightarrow> rat \<Rightarrow> 'd \<Rightarrow> 'd serial_client" where
  "serial_client_init port timeout d =
     \<lparr>scl_port = port, scl_timeout = timeout, scl_open = False, scl_device = d\<rparr>"

definition serial_client_connect :: "'d client_line \<Rightarrow> 'd serial_client \<Rightarrow> unit result \<times> 'd serial_client" where
  "serial_client_connect line c =
     (if scl_open c then (Inr (), c)
      else (case cl_open line (scl_device c) of
              (Inl e, d) \<Rightarrow> (Inl (TransportError (''Failed to open serial port '' @ scl_port c)), c\<lparr>scl_device := d\<rparr>)
            | (Inr _, d) \<Rightarrow> (Inr (), c\<lparr>scl_device := d, scl_open := True\<rparr>)))"

definition serial_client_close :: "'d serial_client \<Rightarrow> 'd serial_client" where
  "serial_client_close c = c\<lparr>scl_open := False\<rparr>"

text \<open>The loop of \<open>_read_frame\<close>: \<open>left\<close> is the time to the deadline.\<close>

fun client_read_frame :: "exn option \<Rightarrow> rat \<Rightarrow> bytes \<Rightarrow> (rat \<times> byte option) list \<Rightarrow> bytes result" where
  "client_read_frame ending left buffer [] =
     (if left \<le> 0 then Inl (TransportError ''Timed out waiting for serial response'')
      else case ending of
        None \<Rightarrow> Inl (TransportError ''Timed out waiting for serial response'')
      | Some e \<Rightarrow> Inl e)"
| "client_read_frame ending left buffer ((took, chunk) # reads) =
     (if left \<le> 0 then Inl (TransportError ''Timed out waiting for serial response'')
      else case chunk of
        None \<Rightarrow> client_read_frame ending (left - took) buffer reads
      | Some b \<Rightarrow>
          (let buffer' = buffer @ [b] in
           if 4 \<le> length buffer' \<and> client_has_valid_crc buffer' then Inr buffer'
           else if 256 < length buffer' then Inl (TransportError ''Serial frame exceeded maximum length'')
           else client_read_frame ending (left - took) buffer' reads))"

text \<open>Only a \<open>SerialException\<close> of the writing half closes the port; any other exception escapes as it is.\<close>

definition serial_client_execute ::
  "'d client_line \<Rightarrow> request \<Rightarrow> 'd serial_client \<Rightarrow> response result \<times> 'd serial_client" where
  "serial_client_execute line request c =
     (if \<not> scl_open c then (Inl (ConnectionClosed ''Serial client is not connected''), c)
      else case bind_result (fst (client_to_adu request)) build_rtu_frame of
        Inl e \<Rightarrow> (Inl e, c)
      | Inr frame \<Rightarrow>
          (case cl_write line frame (scl_device c) of
             (Inl e, reads, d) \<Rightarrow>
               if cl_serial line e
               then (Inl (TransportError ''Failed to write serial frame''), serial_client_close (c\<lparr>scl_device := d\<rparr>))
               else (Inl e, c\<lparr>scl_device := d\<rparr>)
           | (Inr _, reads, d) \<Rightarrow>
               (bind_result (client_read_frame (cl_ending line d) (scl_timeout c) [] reads) (\<lambda>raw.
                bind_result (strip_rtu_frame raw) (\<lambda>adu. client_response_from_adu adu None)),
                c\<lparr>scl_device := d\<rparr>)))"

lemmas serial_client_execute_eq = serial_client_execute_def [unfolded client_pdu_eqs]

interpretation serial_client: base_client "serial_client_connect line" serial_client_close
    "serial_client_execute line" scl_open for line :: "'d client_line"
proof unfold_locales
  fix c c' :: "'d serial_client" and e r
  show "\<exists>m. serial_client_execute line r c = (Inl (ConnectionClosed m), c)" if "\<not> scl_open c"
    using that by (simp add: serial_client_execute_eq)
  show "\<not> scl_open (serial_client_close c)" by (simp add: serial_client_close_def)
  show "serial_client_connect line c = (Inr (), c)" if "scl_open c"
    using that by (simp add: serial_client_connect_def)
  show "scl_open c'" if "serial_client_connect line c = (Inr (), c')"
    using that by (auto simp: serial_client_connect_def split: if_splits prod.splits sum.splits)
  show "\<not> scl_open c'" if "serial_client_connect line c = (Inl e, c')"
    using that by (auto simp: serial_client_connect_def split: if_splits prod.splits sum.splits)
qed

section \<open>Lemmas\<close>

lemma recv_loop_Inr_iff:
  "recv_loop data n events = (Inr bs, rest) \<longleftrightarrow>
     (\<exists>ds. bs = data @ ds \<and> length ds = n \<and> events = map Arrive ds @ rest)"
proof (induction data n events rule: recv_loop.induct)
  case (3 data n b events)
  show ?case
  proof
    assume "recv_loop data (Suc n) (Arrive b # events) = (Inr bs, rest)"
    then obtain ds where "bs = (data @ [b]) @ ds" "length ds = n" "events = map Arrive ds @ rest"
      using 3 by auto
    then show "\<exists>ds. bs = data @ ds \<and> length ds = Suc n \<and> Arrive b # events = map Arrive ds @ rest"
      by (intro exI [of _ "b # ds"]) simp
  next
    assume "\<exists>ds. bs = data @ ds \<and> length ds = Suc n \<and> Arrive b # events = map Arrive ds @ rest"
    then obtain ds where "bs = data @ b # ds" "length ds = n" "events = map Arrive ds @ rest"
      by (auto simp: Cons_eq_append_conv Cons_eq_map_conv length_Suc_conv)
    with 3 show "recv_loop data (Suc n) (Arrive b # events) = (Inr bs, rest)" by simp
  qed
qed (auto simp: Cons_eq_append_conv Cons_eq_map_conv)

lemma client_read_exact_Inr_iff:
  "client_read_exact n events = (Inr bs, rest) \<longleftrightarrow> length bs = nat n \<and> events = map Arrive bs @ rest"
  by (cases "n \<le> 0") (auto simp: client_read_exact_def recv_loop_Inr_iff)

lemma recv_loop_eof:
  "length ds < n \<Longrightarrow> recv_loop data n (map Arrive ds @ Eof # rest) =
     (Inl (TransportError ''Connection closed by peer''), Eof # rest)"
proof (induction ds arbitrary: data n)
  case Nil
  then show ?case by (cases n) simp_all
next
  case (Cons d ds)
  then show ?case by (cases n) simp_all
qed

text \<open>The frames \<open>read_mbap\<close> takes are those of the protocol.\<close>

lemma read_mbap_Inr_iff:
  "read_mbap events = (Inr (tx, adu), rest) \<longleftrightarrow>
     0 \<le> tx \<and> tx < 65536 \<and> 1 \<le> length adu \<and> length adu < 65536 \<and>
     events = map Arrive (be16 tx @ [0, 0] @ be16 (int (length adu)) @ adu) @ rest"
proof
  assume r: "read_mbap events = (Inr (tx, adu), rest)"
  obtain header rest1 where h: "client_read_exact 7 events = (Inr header, rest1)"
    using r by (auto simp: read_mbap_def split: prod.splits sum.splits)
  obtain payload rest2 where p: "client_read_exact (from_bytes_big (take 2 (drop 4 header)) - 1) rest1 = (Inr payload, rest2)"
    using r h by (auto simp: read_mbap_def split: prod.splits sum.splits)
  from r h p have parse: "parse_mbap_frame header payload = Inr (tx, adu)" "rest = rest2"
    by (simp_all add: read_mbap_def)
  have ev: "events = map Arrive header @ rest1" "length header = 7"
    and ev1: "rest1 = map Arrive payload @ rest2"
    using h p by (simp_all add: client_read_exact_Inr_iff)
  from ev(2) obtain a b c d e f u where header: "header = [a, b, c, d, e, f, u]"
    by (auto simp: length_Suc_conv numeral_eq_Suc)
  have len: "256 * uint e + uint f - 1 = int (length payload)" and adu: "adu = u # payload"
    and tx: "tx = 256 * uint a + uint b" and proto: "256 * uint c + uint d = 0"
    using parse(1) by (auto simp: parse_mbap_frame_def header Let_def split: if_splits)
  have "uint c = 0 \<and> uint d = 0" using proto uint_byte_range [of c] uint_byte_range [of d] by linarith
  then have cd: "c = 0" "d = 0" by (simp_all add: word_uint_eq_iff)
  have "int (length adu) = 256 * uint e + uint f" using len adu by simp
  then have lb: "be16 (int (length adu)) = [e, f]" by (simp add: be16_from_bytes)
  have bounds: "0 \<le> tx" "tx < 65536" "int (length adu) < 65536"
    using tx \<open>int (length adu) = _\<close> u16_from_bytes_big_range [of a b] u16_from_bytes_big_range [of e f] by simp_all
  have "events = map Arrive (be16 tx @ [0, 0] @ be16 (int (length adu)) @ adu) @ rest"
    unfolding lb unfolding tx be16_from_bytes by (simp add: ev(1) ev1 header cd adu parse(2))
  with bounds adu show "0 \<le> tx \<and> tx < 65536 \<and> 1 \<le> length adu \<and> length adu < 65536 \<and>
     events = map Arrive (be16 tx @ [0, 0] @ be16 (int (length adu)) @ adu) @ rest" by simp
next
  assume a: "0 \<le> tx \<and> tx < 65536 \<and> 1 \<le> length adu \<and> length adu < 65536 \<and>
     events = map Arrive (be16 tx @ [0, 0] @ be16 (int (length adu)) @ adu) @ rest"
  then obtain u payload where adu: "adu = u # payload" by (cases adu) auto
  let ?header = "be16 tx @ be16 0 @ be16 (int (length adu)) @ [u]"
  have ev: "events = map Arrive ?header @ map Arrive payload @ rest" using a by (simp add: adu be16_0)
  have h: "client_read_exact 7 events = (Inr ?header, map Arrive payload @ rest)"
    by (simp add: client_read_exact_Inr_iff ev)
  have fields: "from_bytes_big (take 2 (drop 4 ?header)) = int (length adu)"
    using a by simp
  have "client_read_exact (int (length adu) - 1) (map Arrive payload @ rest) = (Inr payload, rest)"
    by (simp add: client_read_exact_Inr_iff adu)
  moreover have "parse_mbap_frame ?header payload = Inr (tx, adu)"
    using a fields by (simp add: parse_mbap_frame_def Let_def adu nth_append)
  ultimately show "read_mbap events = (Inr (tx, adu), rest)"
    using h fields by (simp add: read_mbap_def)
qed

text \<open>
  The bytes and the time of a number of reads. The reader returns at the first byte that completes
  a prefix with a valid checksum, provided the deadline was ahead whenever it looked and no earlier
  prefix was longer than 256 bytes.
\<close>

definition line_bytes :: "(rat \<times> byte option) list \<Rightarrow> bytes" where
  "line_bytes reads = List.map_filter snd reads"

definition line_time :: "(rat \<times> byte option) list \<Rightarrow> rat" where
  "line_time reads = sum_list (map fst reads)"

lemma line_bytes_simps [simp]:
  "line_bytes [] = []"
  "line_bytes ((t, None) # reads) = line_bytes reads"
  "line_bytes ((t, Some b) # reads) = b # line_bytes reads"
  by (simp_all add: line_bytes_def List.map_filter_def)

lemma line_time_simps [simp]:
  "line_time [] = 0"
  "line_time (r # reads) = fst r + line_time reads"
  by (simp_all add: line_time_def)

lemma ex_less_Suc_shift: "(\<exists>k < Suc n. P k) \<longleftrightarrow> P 0 \<or> (\<exists>k < n. P (Suc k))"
  by (metis Suc_less_eq not0_implies_Suc zero_less_Suc)

lemma all_le_Suc_shift: "(\<forall>j \<le> Suc k. P j) \<longleftrightarrow> P 0 \<and> (\<forall>j \<le> k. P (Suc j))"
  by (metis Suc_le_mono le0 not0_implies_Suc)

definition frame_ends_at :: "rat \<Rightarrow> bytes \<Rightarrow> (rat \<times> byte option) list \<Rightarrow> nat \<Rightarrow> bytes \<Rightarrow> bool" where
  "frame_ends_at left buffer reads k frame \<longleftrightarrow>
     snd (reads ! k) \<noteq> None \<and> frame = buffer @ line_bytes (take (Suc k) reads) \<and>
     client_has_valid_crc frame \<and> (\<forall>j \<le> k. line_time (take j reads) < left) \<and>
     (\<forall>j < k. snd (reads ! j) \<noteq> None \<longrightarrow>
        length (buffer @ line_bytes (take (Suc j) reads)) \<le> 256 \<and>
        \<not> client_has_valid_crc (buffer @ line_bytes (take (Suc j) reads)))"

lemma frame_ends_at_0:
  "frame_ends_at left buffer ((t, c) # reads) 0 frame \<longleftrightarrow>
     (\<exists>b. c = Some b \<and> frame = buffer @ [b] \<and> client_has_valid_crc frame \<and> 0 < left)"
  by (auto simp: frame_ends_at_def)

lemma frame_ends_at_Suc_None:
  "frame_ends_at left buffer ((t, None) # reads) (Suc k) frame \<longleftrightarrow>
     0 < left \<and> frame_ends_at (left - t) buffer reads k frame"
  by (auto simp: frame_ends_at_def all_le_Suc_shift All_less_Suc2 less_diff_eq add.commute)

lemma frame_ends_at_Suc_Some:
  "frame_ends_at left buffer ((t, Some b) # reads) (Suc k) frame \<longleftrightarrow>
     0 < left \<and> length (buffer @ [b]) \<le> 256 \<and> \<not> client_has_valid_crc (buffer @ [b]) \<and>
     frame_ends_at (left - t) (buffer @ [b]) reads k frame"
  by (auto simp: frame_ends_at_def all_le_Suc_shift All_less_Suc2 less_diff_eq add.commute)

lemma client_read_frame_Inr_iff:
  "client_read_frame ending left buffer reads = Inr frame \<longleftrightarrow>
     (\<exists>k < length reads. frame_ends_at left buffer reads k frame)"
proof (induction ending left buffer reads rule: client_read_frame.induct)
  case (2 ending left buffer took chunk reads)
  have valid: "4 \<le> length f \<and> client_has_valid_crc f \<longleftrightarrow> client_has_valid_crc f" for f
    by (auto simp: client_has_valid_crc_def)
  show ?case
  proof (cases chunk)
    case None
    with 2 show ?thesis
      by (auto simp: ex_less_Suc_shift frame_ends_at_0 frame_ends_at_Suc_None)
  next
    case (Some b)
    with 2 show ?thesis
      by (auto simp: ex_less_Suc_shift frame_ends_at_0 frame_ends_at_Suc_Some Let_def valid)
  qed
qed (simp split: option.split)

lemma client_has_valid_crc_iff:
  "client_has_valid_crc frame \<longleftrightarrow> (\<exists>adu. 2 \<le> length adu \<and> frame = adu @ le16 (crc16_modbus adu))"
proof
  assume v: "client_has_valid_crc frame"
  then have l: "4 \<le> length frame" and c: "has_valid_crc frame" by (simp_all add: client_has_valid_crc_eq)
  obtain lo hi where f: "frame = all_but_two frame @ [lo, hi]" "last_two frame = [lo, hi]"
    using frame_split [of frame] l by auto
  have "le16 (crc16_modbus (all_but_two frame)) = [lo, hi]"
    using c f(2) by (simp add: has_valid_crc_def) (metis le16_from_bytes)
  with f(1) have "frame = all_but_two frame @ le16 (crc16_modbus (all_but_two frame))" by simp
  moreover have "2 \<le> length (all_but_two frame)" using l by (simp add: all_but_two_def)
  ultimately show "\<exists>adu. 2 \<le> length adu \<and> frame = adu @ le16 (crc16_modbus adu)" by blast
qed (auto simp: client_has_valid_crc_eq has_valid_crc_append_crc)

lemma strip_rtu_frame_Inr_iff:
  "strip_rtu_frame frame = Inr adu \<longleftrightarrow> 2 \<le> length adu \<and> frame = adu @ le16 (crc16_modbus adu)"
proof
  assume s: "strip_rtu_frame frame = Inr adu"
  then have "client_has_valid_crc frame" "adu = all_but_two frame"
    by (auto simp: strip_rtu_frame_eq client_has_valid_crc_eq split: if_splits)
  then show "2 \<le> length adu \<and> frame = adu @ le16 (crc16_modbus adu)"
    by (auto simp: client_has_valid_crc_iff)
qed (simp add: strip_rtu_frame_eq has_valid_crc_append_crc)

lemma frame_ends_at_adu:
  assumes "2 \<le> length reply"
  shows "frame_ends_at left [] reads k (reply @ le16 (crc16_modbus reply)) \<longleftrightarrow>
    snd (reads ! k) \<noteq> None \<and> line_bytes (take (Suc k) reads) = reply @ le16 (crc16_modbus reply) \<and>
    (\<forall>j \<le> k. line_time (take j reads) < left) \<and>
    (\<forall>j < k. snd (reads ! j) \<noteq> None \<longrightarrow> length (line_bytes (take (Suc j) reads)) \<le> 256 \<and>
       (\<forall>a. 2 \<le> length a \<longrightarrow> line_bytes (take (Suc j) reads) \<noteq> a @ le16 (crc16_modbus a)))"
proof -
  have "client_has_valid_crc (reply @ le16 (crc16_modbus reply))"
    using assms unfolding client_has_valid_crc_iff by blast
  then show ?thesis
    unfolding frame_ends_at_def append_Nil 
    by (simp add: client_has_valid_crc_iff
        eq_commute [of "reply @ le16 (crc16_modbus reply)" "line_bytes (take (Suc k) reads)"])
qed

section \<open>Properties\<close>

lemma tcp_client_execute_Inr:
  assumes "tcp_client_execute server request c = (Inr p, c')"
    and "tcl_socket c = Some stream" and "client_next_transaction_id (tcl_tx c) = (tx, counter)"
  obtains adu events d reply rest where "fst (request_to_adu request) = Inr adu"
    "build_mbap_frame tx adu = Inr (be16 tx @ [0, 0] @ be16 (int (length adu)) @ adu)"
    "cs_send server (be16 tx @ [0, 0] @ be16 (int (length adu)) @ adu) (tcl_server c) = (Inr (), events, d)"
    "stream @ events = map Arrive (be16 tx @ [0, 0] @ be16 (int (length reply)) @ reply) @ rest"
    "length reply < 65536" "response_from_adu reply None = Inr p"
    "c' = c\<lparr>tcl_tx := counter, tcl_server := d, tcl_socket := Some rest\<rparr>"
proof -
  note e = assms
  obtain frame where "bind_result (fst (request_to_adu request)) (build_mbap_frame tx) = Inr frame"
    using e by (cases "bind_result (fst (request_to_adu request)) (build_mbap_frame tx)")
      (simp_all add: tcp_client_execute_eq)
  then obtain adu where f: "fst (request_to_adu request) = Inr adu" "build_mbap_frame tx adu = Inr frame"
    by (auto simp: bind_result_Inr_iff)
  have frame: "frame = be16 tx @ [0, 0] @ be16 (int (length adu)) @ adu"
    using f(2) by (simp add: build_mbap_frame_Inr_iff)
  obtain r events d where s: "cs_send server frame (tcl_server c) = (r, events, d)" by (rule prod_cases3)
  have r: "r = Inr ()"
    using e f s by (cases r) (auto simp: tcp_client_execute_eq exchange_failed_def Let_def split: if_splits)
  obtain m rest where m: "read_mbap (stream @ events) = (m, rest)" by (cases "read_mbap (stream @ events)")
  have "\<exists>reply. m = Inr (tx, reply) \<and> response_from_adu reply None = Inr p \<and>
      c' = c\<lparr>tcl_tx := counter, tcl_server := d, tcl_socket := Some rest\<rparr>"
    using e f s r m
    by (cases m) (auto simp: tcp_client_execute_eq exchange_failed_def Let_def split: if_splits)
  then obtain reply where reply: "m = Inr (tx, reply)" "response_from_adu reply None = Inr p"
    "c' = c\<lparr>tcl_tx := counter, tcl_server := d, tcl_socket := Some rest\<rparr>" by blast
  have "length reply < 65536"
    "stream @ events = map Arrive (be16 tx @ [0, 0] @ be16 (int (length reply)) @ reply) @ rest"
    using m reply(1) by (simp_all add: read_mbap_Inr_iff)
  with f s r reply frame show thesis by (intro that [of adu events d reply rest]) simp_all
qed

lemma tcp_client_executeI:
  assumes "tcl_socket c = Some stream" and "client_next_transaction_id (tcl_tx c) = (tx, counter)"
    and "fst (request_to_adu request) = Inr adu"
    and "build_mbap_frame tx adu = Inr (be16 tx @ [0, 0] @ be16 (int (length adu)) @ adu)"
    and "cs_send server (be16 tx @ [0, 0] @ be16 (int (length adu)) @ adu) (tcl_server c) = (Inr (), events, d)"
    and "stream @ events = map Arrive (be16 tx @ [0, 0] @ be16 (int (length reply)) @ reply) @ rest"
    and "length reply < 65536" and "response_from_adu reply None = Inr p"
  shows "tcp_client_execute server request c =
    (Inr p, c\<lparr>tcl_tx := counter, tcl_server := d, tcl_socket := Some rest\<rparr>)"
proof -
  have tx: "0 \<le> tx" "tx < 65536" using assms(4) by (simp_all add: build_mbap_frame_Inr_iff)
  have "2 \<le> length reply" by (rule response_from_adu_length [OF assms(8)])
  then have "read_mbap (stream @ events) = (Inr (tx, reply), rest)"
    using tx assms(6,7) by (simp add: read_mbap_Inr_iff)
  with assms show ?thesis by (simp add: tcp_client_execute_eq Let_def)
qed

text \<open>C33. What \<open>TcpClient.execute\<close> returns is the answer to this request and nothing else: it returns
  a response exactly when the request encodes, its frame was sent under the next transaction
  identifier, and the next bytes readable are a complete Modbus/TCP frame under that identifier,
  with protocol 0 and a correct length, around the response; precisely this frame is consumed.\<close>

theorem tcp_client_returns_the_answer:
  assumes "tcl_socket c = Some stream" and "client_next_transaction_id (tcl_tx c) = (tx, counter)"
  shows "tcp_client_execute server request c = (Inr p, c') \<longleftrightarrow>
    (\<exists>adu events d reply rest. fst (request_to_adu request) = Inr adu \<and>
      build_mbap_frame tx adu = Inr (be16 tx @ [0, 0] @ be16 (int (length adu)) @ adu) \<and>
      cs_send server (be16 tx @ [0, 0] @ be16 (int (length adu)) @ adu) (tcl_server c) = (Inr (), events, d) \<and>
      stream @ events = map Arrive (be16 tx @ [0, 0] @ be16 (int (length reply)) @ reply) @ rest \<and>
      length reply < 65536 \<and> response_from_adu reply None = Inr p \<and>
      c' = c\<lparr>tcl_tx := counter, tcl_server := d, tcl_socket := Some rest\<rparr>)"
  using tcp_client_execute_Inr [OF _ assms, of server request p c'] tcp_client_executeI [OF assms] by metis

text \<open>A server that answers every frame with the value 7 of a register.\<close>

definition seven_server :: "unit client_server" where
  "seven_server = \<lparr>cs_connect = (\<lambda>d. (Inr [], d)),
     cs_send = (\<lambda>frame d. (Inr (), map Arrive (take 4 frame @ be16 5 @ [1, 3, 2, 0, 7]), d))\<rparr>"

theorem tcp_client_returns_the_answer_witness:
  "\<exists>p c'. tcp_client_execute seven_server (new_pdu 1 (ReadHoldingRegistersRequest 0 1))
       \<lparr>tcl_config = \<lparr>tcc_host = Some ''gw'', tcc_port = Some 502, tcc_unix_socket = None, tcc_tls = False\<rparr>,
        tcl_socket = Some [], tcl_tx = 1, tcl_server = ()\<rparr> = (Inr p, c') \<and>
     body p = ReadHoldingRegistersResponse [7] \<and> tcl_socket c' = Some []"
proof -
  let ?c = "\<lparr>tcl_config = \<lparr>tcc_host = Some ''gw'', tcc_port = Some 502, tcc_unix_socket = None, tcc_tls = False\<rparr>,
        tcl_socket = Some [], tcl_tx = 1, tcl_server = ()\<rparr>"
  have "(case response_from_adu [1, 3, 2, 0, 7] None of
      Inr p \<Rightarrow> body p = ReadHoldingRegistersResponse [7] | Inl e \<Rightarrow> False)" by code_simp
  then obtain p where p: "response_from_adu [1, 3, 2, 0, 7] None = Inr p" "body p = ReadHoldingRegistersResponse [7]"
    by (auto split: sum.splits)
  have s: "tcl_socket ?c = Some []" "client_next_transaction_id (tcl_tx ?c) = (1, 2)"
    by (simp_all add: client_next_transaction_id_def Let_def)
  have adu: "fst (request_to_adu (new_pdu 1 (ReadHoldingRegistersRequest 0 1))) = Inr [1, 3, 0, 0, 0, 1]"
    by (simp add: codec_simps)
  have "tcp_client_execute seven_server (new_pdu 1 (ReadHoldingRegistersRequest 0 1)) ?c =
      (Inr p, ?c\<lparr>tcl_tx := 2, tcl_server := (), tcl_socket := Some []\<rparr>)"
  proof (rule tcp_client_returns_the_answer [OF s, THEN iffD2], intro exI conjI)
    show "build_mbap_frame 1 [1, 3, 0, 0, 0, 1] =
        Inr (be16 1 @ [0, 0] @ be16 (int (length [1, 3, 0, 0, 0, 1 :: byte])) @ [1, 3, 0, 0, 0, 1])"
      by (simp add: build_mbap_frame_Inr_iff)
    show "cs_send seven_server (be16 1 @ [0, 0] @ be16 (int (length [1, 3, 0, 0, 0, 1 :: byte])) @ [1, 3, 0, 0, 0, 1])
        (tcl_server ?c) = (Inr (), map Arrive (be16 1 @ [0, 0] @ be16 5 @ [1, 3, 2, 0, 7]), ())"
      by (simp add: seven_server_def be16_def)
    show "[] @ map Arrive (be16 1 @ [0, 0] @ be16 5 @ [1, 3, 2, 0, 7]) =
        map Arrive (be16 1 @ [0, 0] @ be16 (int (length [1, 3, 2, 0, 7 :: byte])) @ [1, 3, 2, 0, 7]) @ []"
      by simp
  qed (use adu p in simp_all)
  with p(2) show ?thesis by (intro exI conjI) (assumption, simp_all)
qed

text \<open>When the peer closes the connection in the middle of an answer, the client reports it but
  keeps the dead socket: it counts as connected, \<open>connect\<close> does nothing, and, as long as nothing
  more can be read, every further request fails; only \<open>close\<close> ends this.\<close>

theorem lost_connection_is_kept:
  assumes "tcl_socket c = Some []" and "client_next_transaction_id (tcl_tx c) = (tx, counter)"
    and "bind_result (fst (request_to_adu request)) (build_mbap_frame tx) = Inr frame"
    and "cs_send server frame (tcl_server c) = (Inr (), map Arrive part @ [Eof], d)" and "length part < 7"
  shows "\<exists>c'. tcp_client_execute server request c = (Inl (TransportError ''Connection closed by peer''), c') \<and>
    tcp_client_connect server c' = (Inr (), c') \<and>
    (\<forall>request'. \<exists>e. fst (tcp_client_execute server request' c') = Inl e) \<and>
    tcl_socket (tcp_client_close c') = None"
proof -
  let ?c' = "c\<lparr>tcl_tx := counter, tcl_server := d, tcl_socket := Some [Eof]\<rparr>"
  have "client_read_exact 7 (map Arrive part @ [Eof]) = (Inl (TransportError ''Connection closed by peer''), [Eof])"
    using recv_loop_eof [of part 7 "[]" "[]"] assms(5) by (simp add: client_read_exact_def)
  then have 1: "tcp_client_execute server request c = (Inl (TransportError ''Connection closed by peer''), ?c')"
    using assms by (simp add: tcp_client_execute_eq Let_def read_mbap_def exchange_failed_def)
  have eof: "client_read_exact 7 (Eof # events) = (Inl (TransportError ''Connection closed by peer''), Eof # events)" for events
    by (simp add: client_read_exact_def numeral_eq_Suc)
  have "\<exists>e. fst (tcp_client_execute server request' ?c') = Inl e" for request'
    by (auto simp: tcp_client_execute_eq Let_def read_mbap_def exchange_failed_def eof
        split: sum.splits prod.splits)
  with 1 show ?thesis
    by (intro exI [of _ ?c']) (simp add: tcp_client_connect_def tcp_client_close_def)
qed

theorem lost_connection_is_kept_witness:
  "\<exists>c'. fst (tcp_client_execute \<lparr>cs_connect = (\<lambda>d. (Inr [], d)), cs_send = (\<lambda>frame d. (Inr (), [Arrive 0, Eof], d))\<rparr>
       (new_pdu 1 (ReadHoldingRegistersRequest 0 1)) c') = Inl (TransportError ''Connection closed by peer'') \<and>
     tcl_socket c' = Some ([] :: stream_event list) \<and> tcl_server c' = ()"
proof -
  let ?c = "\<lparr>tcl_config = \<lparr>tcc_host = Some ''gw'', tcc_port = Some 502, tcc_unix_socket = None, tcc_tls = False\<rparr>,
        tcl_socket = Some [], tcl_tx = 1, tcl_server = ()\<rparr>"
  let ?server = "\<lparr>cs_connect = (\<lambda>d :: unit. (Inr [], d)), cs_send = (\<lambda>frame d. (Inr (), [Arrive 0, Eof], d))\<rparr>"
  have s: "tcl_socket ?c = Some []" "client_next_transaction_id (tcl_tx ?c) = (1, 2)"
    by (simp_all add: client_next_transaction_id_def Let_def)
  have "\<exists>frame. bind_result (fst (request_to_adu (new_pdu 1 (ReadHoldingRegistersRequest 0 1)))) (build_mbap_frame 1) = Inr frame"
    by (simp add: codec_simps build_mbap_frame_def to_bytes_2_def)
  then obtain frame where f: "bind_result (fst (request_to_adu (new_pdu 1 (ReadHoldingRegistersRequest 0 1)))) (build_mbap_frame 1) = Inr frame"
    by blast
  have snd: "cs_send ?server frame (tcl_server ?c) = (Inr (), map Arrive [0] @ [Eof], ())" by simp
  from lost_connection_is_kept [OF s f snd] show ?thesis by (intro exI [of _ ?c]) auto
qed

text \<open>C34. What \<open>SerialClient.execute\<close> returns: once the request was written, it returns a response
  exactly when, before the deadline, the bytes read complete a frame with the checksum of an ADU
  that decodes to this response; this is the first such prefix, and what follows is not read.\<close>

theorem serial_client_returns_first_valid_frame:
  assumes "scl_open c" and "fst (request_to_adu request) = Inr adu"
    and "cl_write line (adu @ le16 (crc16_modbus adu)) (scl_device c) = (Inr (), reads, d)"
  shows "serial_client_execute line request c = (Inr p, c') \<longleftrightarrow>
    c' = c\<lparr>scl_device := d\<rparr> \<and>
    (\<exists>k < length reads. \<exists>reply. snd (reads ! k) \<noteq> None \<and>
       line_bytes (take (Suc k) reads) = reply @ le16 (crc16_modbus reply) \<and>
       response_from_adu reply None = Inr p \<and>
       (\<forall>j \<le> k. line_time (take j reads) < scl_timeout c) \<and>
       (\<forall>j < k. snd (reads ! j) \<noteq> None \<longrightarrow> length (line_bytes (take (Suc j) reads)) \<le> 256 \<and>
          (\<forall>a. 2 \<le> length a \<longrightarrow> line_bytes (take (Suc j) reads) \<noteq> a @ le16 (crc16_modbus a))))"
    (is "_ \<longleftrightarrow> _ \<and> ?R")
proof -
  have e: "serial_client_execute line request c =
      (bind_result (client_read_frame (cl_ending line d) (scl_timeout c) [] reads) (\<lambda>raw.
         bind_result (strip_rtu_frame raw) (\<lambda>adu. response_from_adu adu None)), c\<lparr>scl_device := d\<rparr>)"
    using assms by (simp add: serial_client_execute_eq build_rtu_frame_eq)
  have "bind_result (client_read_frame (cl_ending line d) (scl_timeout c) [] reads) (\<lambda>raw.
         bind_result (strip_rtu_frame raw) (\<lambda>adu. response_from_adu adu None)) = Inr p \<longleftrightarrow>
      (\<exists>k < length reads. \<exists>reply. frame_ends_at (scl_timeout c) [] reads k (reply @ le16 (crc16_modbus reply)) \<and>
         response_from_adu reply None = Inr p \<and> 2 \<le> length reply)"
    unfolding bind_result_Inr_iff client_read_frame_Inr_iff strip_rtu_frame_Inr_iff by blast
  also have "\<dots> \<longleftrightarrow> ?R"
  proof (rule ex_cong1, rule conj_cong [OF refl], rule ex_cong1)
    fix k reply
    show "frame_ends_at (scl_timeout c) [] reads k (reply @ le16 (crc16_modbus reply)) \<and>
         response_from_adu reply None = Inr p \<and> 2 \<le> length reply \<longleftrightarrow>
       snd (reads ! k) \<noteq> None \<and> line_bytes (take (Suc k) reads) = reply @ le16 (crc16_modbus reply) \<and>
       response_from_adu reply None = Inr p \<and>
       (\<forall>j \<le> k. line_time (take j reads) < scl_timeout c) \<and>
       (\<forall>j < k. snd (reads ! j) \<noteq> None \<longrightarrow> length (line_bytes (take (Suc j) reads)) \<le> 256 \<and>
          (\<forall>a. 2 \<le> length a \<longrightarrow> line_bytes (take (Suc j) reads) \<noteq> a @ le16 (crc16_modbus a)))"
      using response_from_adu_length [of reply None p] frame_ends_at_adu [of reply]
      by (cases "response_from_adu reply None = Inr p") simp_all
  qed
  finally show ?thesis by (auto simp: e)
qed

definition answering_line :: "unit client_line" where
  "answering_line = \<lparr>cl_open = (\<lambda>d. (Inr (), d)),
     cl_write = (\<lambda>frame d. (Inr (), map (\<lambda>b. (1 / 1000, Some b)) [1, 3, 2, 0, 7, 0xF9, 0x86], d)),
     cl_ending = (\<lambda>d. None), cl_serial = (\<lambda>e. True)\<rparr>"

theorem serial_client_returns_first_valid_frame_witness:
  "\<exists>p c' k reply. serial_client_execute answering_line (new_pdu 1 (ReadHoldingRegistersRequest 0 1))
       \<lparr>scl_port = ''ttyS0'', scl_timeout = 1, scl_open = True, scl_device = ()\<rparr> = (Inr p, c') \<and>
     body p = ReadHoldingRegistersResponse [7] \<and> k < 7 \<and> response_from_adu reply None = Inr p \<and>
     take (Suc k) [1, 3, 2, 0, 7, 0xF9, 0x86] = reply @ le16 (crc16_modbus reply)"
proof -
  let ?c = "\<lparr>scl_port = ''ttyS0'', scl_timeout = 1, scl_open = True, scl_device = ()\<rparr>"
  let ?r = "new_pdu 1 (ReadHoldingRegistersRequest 0 1)"
  let ?bytes = "[1, 3, 2, 0, 7, 0xF9, 0x86] :: bytes"
  have "(case serial_client_execute answering_line ?r ?c of
      (Inr p, c') \<Rightarrow> body p = ReadHoldingRegistersResponse [7] | (Inl e, c') \<Rightarrow> False)" by code_simp
  then obtain p c' where p: "serial_client_execute answering_line ?r ?c = (Inr p, c')"
    "body p = ReadHoldingRegistersResponse [7]" by (auto split: sum.splits prod.splits)
  have adu: "fst (request_to_adu ?r) = Inr [1, 3, 0, 0, 0, 1]" by code_simp
  have line: "line_bytes (map (\<lambda>b. (t, Some b)) bs) = bs" for t bs by (induction bs) simp_all
  have "\<exists>k < length (map (\<lambda>b. (1 / 1000 :: rat, Some b)) ?bytes). \<exists>reply.
      line_bytes (take (Suc k) (map (\<lambda>b. (1 / 1000, Some b)) ?bytes)) = reply @ le16 (crc16_modbus reply) \<and>
      response_from_adu reply None = Inr p"
    using serial_client_returns_first_valid_frame [of ?c ?r, OF _ adu, THEN iffD1, OF _ _ p(1)]
    by (simp add: answering_line_def) blast
  then obtain k reply where k: "k < length (map (\<lambda>b. (1 / 1000 :: rat, Some b)) ?bytes)"
    and r: "take (Suc k) ?bytes = reply @ le16 (crc16_modbus reply)" "response_from_adu reply None = Inr p"
    unfolding take_map line by blast
  from k have "k < 7" by simp
  with p r show ?thesis by blast
qed

end
