(* ===== verification/Serial_Parameters.thy ===== *)
theory Serial_Parameters
  imports Application Client_Transport
begin

text \<open>
  How both programs open a serial port: the arguments of \<open>open_serial_connection\<close> in
  \<open>default_session_factory\<close> of \<open>modbusgw/backends/serial.py\<close> and those of \<open>Serial\<close> in
  \<open>_build_serial\<close> of \<open>modbusgw_client/serial_client.py\<close>. \<open>None\<close> is the \<open>KeyError\<close> of a letter that the
  table of parities does not have; in the client it is raised while connecting.
\<close>

section \<open>Settings of a port\<close>

datatype line_parity = PARITY_NONE | PARITY_EVEN | PARITY_ODD

record port_settings =
  ps_port :: string
  ps_baudrate :: nat
  ps_bytesize :: nat
  ps_parity :: line_parity
  ps_stopbits :: rat

definition parity_map :: "(string \<times> line_parity) list" where
  "parity_map = [(''N'', PARITY_NONE), (''E'', PARITY_EVEN), (''O'', PARITY_ODD)]"

definition backend_port_settings :: "serial_backend_config \<Rightarrow> port_settings option" where
  "backend_port_settings config =
     map_option (\<lambda>parity. \<lparr>ps_port = sbc_device config, ps_baudrate = sbc_baudrate config, ps_bytesize = 8,
         ps_parity = parity, ps_stopbits = sbc_stop_bits config\<rparr>)
       (dict_get parity_map (sbc_parity config))"

definition client_parity_map :: "(string \<times> line_parity) list" where
  "client_parity_map = [(''N'', PARITY_NONE), (''E'', PARITY_EVEN), (''O'', PARITY_ODD)]"

record serial_client_args =
  sca_port :: string
  sca_baudrate :: nat
  sca_parity :: string
  sca_stop_bits :: rat
  sca_timeout :: rat
  sca_write_timeout :: rat

definition serial_client_args_init :: "string \<Rightarrow> nat \<Rightarrow> string \<Rightarrow> rat \<Rightarrow> rat \<Rightarrow> rat \<Rightarrow> serial_client_args" where
  "serial_client_args_init port baudrate parity stop_bits timeout write_timeout =
     \<lparr>sca_port = port, sca_baudrate = baudrate, sca_parity = map upper_char parity,
      sca_stop_bits = stop_bits, sca_timeout = timeout, sca_write_timeout = write_timeout\<rparr>"

text \<open>The settings, the time-out of a read and that of a write.\<close>

definition build_serial :: "serial_client_args \<Rightarrow> (port_settings \<times> rat \<times> rat) option" where
  "build_serial c =
     map_option (\<lambda>parity. (\<lparr>ps_port = sca_port c, ps_baudrate = sca_baudrate c, ps_bytesize = 8,
         ps_parity = parity, ps_stopbits = sca_stop_bits c\<rparr>, sca_timeout c, sca_write_timeout c))
       (dict_get client_parity_map (sca_parity c))"

section \<open>Properties\<close>

text \<open>The bits that a character takes on such a line: start, data, parity and stop.\<close>

definition character_bits :: "port_settings \<Rightarrow> rat" where
  "character_bits p = 1 + of_nat (ps_bytesize p) + (if ps_parity p = PARITY_NONE then 0 else 1) + ps_stopbits p"

text \<open>A session keeps the silence that belongs to the port it was opened on: its character time is that of
  the settings of the port, for every configuration that passes validation.\<close>

theorem session_fits_its_port:
  assumes "serial_backend_valid config" and "default_session_factory dev config l = (Inr s, l')"
  shows "\<exists>p. backend_port_settings config = Some p \<and>
    ss_char_time s = character_bits p / of_nat (ps_baudrate p) \<and>
    7 / 2 * (character_bits p / of_nat (ps_baudrate p)) \<le> ss_min_gap s"
proof -
  from assms(1) have parity: "sbc_parity config \<in> {''N'', ''E'', ''O''}" by (simp add: serial_backend_valid_def)
  from assms(2) have s: "s = serial_session_init (of_nat (sbc_request_timeout_ms config) / 1000)
      (sbc_baudrate config) (sbc_parity config) (sbc_stop_bits config) (sbc_inter_frame_gap_ms config)"
    by (auto simp: default_session_factory_def split: prod.splits sum.splits)
  from parity show ?thesis
    by (auto simp: s backend_port_settings_def parity_map_def character_bits_def serial_session_init_def
        compute_char_time_def Let_def)
qed

text \<open>A client and a gateway that are given the same line open it with the same settings; the client takes
  the letter of the parity in either case.\<close>

theorem client_and_gateway_open_alike:
  assumes "map upper_char parity = sbc_parity config"
  shows "map_option fst (build_serial (serial_client_args_init (sbc_device config) (sbc_baudrate config) parity
      (sbc_stop_bits config) timeout write_timeout)) = backend_port_settings config"
  using assms
  by (simp add: build_serial_def serial_client_args_init_def backend_port_settings_def client_parity_map_def
      parity_map_def option.map_comp comp_def)

text \<open>A letter that is no parity is not refused by the constructor; every attempt to connect fails and
  blames the port.\<close>

lemma unknown_parity_blames_the_port:
  assumes "map upper_char parity \<notin> {''N'', ''E'', ''O''}"
    and "\<And>d. build_serial (serial_client_args_init port baudrate parity stop_bits timeout write_timeout) = None \<Longrightarrow>
      isl (fst (cl_open line d))"
    and "\<not> scl_open c"
  shows "fst (serial_client_connect line c) = Inl (TransportError (''Failed to open serial port '' @ scl_port c))"
proof -
  have "build_serial (serial_client_args_init port baudrate parity stop_bits timeout write_timeout) = None"
    using assms(1) by (auto simp: build_serial_def serial_client_args_init_def client_parity_map_def)
  from assms(2) [OF this, of "scl_device c"] assms(3) show ?thesis
    by (auto simp: serial_client_connect_def isl_def split: prod.splits)
qed

end
