(* ===== verification/Posix_Path.thy ===== *)
theory Posix_Path
  imports Ip_Address
begin

text \<open>
  What \<open>Path\<close> of the standard module \<open>pathlib\<close> makes of a text on a POSIX system: the path is kept as
  its root and its parts, and reading it back gives a normal form.
\<close>

section \<open>Paths\<close>

text \<open>\<open>str (Path s)\<close>: the parts between slashes, without empty ones and dots, under the root if there is
  one; exactly two leading slashes are a root of their own.\<close>

definition path_root :: "string \<Rightarrow> string" where
  "path_root s =
     (if take 2 s = ''//'' \<and> take 3 s \<noteq> ''///'' then ''//'' else if take 1 s = ''/'' then ''/'' else [])"

definition path_parts :: "string \<Rightarrow> string list" where
  "path_parts s = filter (\<lambda>p. p \<noteq> [] \<and> p \<noteq> ''.'') (split_on (CHR ''/'') s)"

fun slash_joined :: "string list \<Rightarrow> string" where
  "slash_joined [] = []"
| "slash_joined [p] = p"
| "slash_joined (p # q # ps) = p @ ''/'' @ slash_joined (q # ps)"

definition path_str :: "string \<Rightarrow> string" where
  "path_str s = (let p = path_root s @ slash_joined (path_parts s) in if p = [] then ''.'' else p)"

section \<open>Lemmas\<close>

lemma split_on_not_Nil [simp]: "split_on c s \<noteq> []"
  by (induction s) (auto split: list.splits)

lemma split_on_parts: "p \<in> set (split_on c s) \<Longrightarrow> c \<notin> set p"
  by (induction s arbitrary: p) (auto split: if_splits list.splits)

lemma split_on_single: "c \<notin> set p \<Longrightarrow> split_on c p = [p]"
  by (induction p) auto

lemma split_on_append: "c \<notin> set p \<Longrightarrow> split_on c (p @ c # rest) = p # split_on c rest"
  by (induction p) auto

lemma split_slash_joined:
  "ps \<noteq> [] \<Longrightarrow> (\<And>p. p \<in> set ps \<Longrightarrow> CHR ''/'' \<notin> set p) \<Longrightarrow> split_on (CHR ''/'') (slash_joined ps) = ps"
  by (induction ps rule: slash_joined.induct) (simp_all add: split_on_single split_on_append)

definition clean_parts :: "string list \<Rightarrow> bool" where
  "clean_parts ps \<longleftrightarrow> (\<forall>p \<in> set ps. p \<noteq> [] \<and> p \<noteq> ''.'' \<and> CHR ''/'' \<notin> set p)"

lemma clean_path_parts: "clean_parts (path_parts s)"
  by (auto simp: clean_parts_def path_parts_def dest: split_on_parts)

lemma slash_joined_Nil_iff: "clean_parts ps \<Longrightarrow> slash_joined ps = [] \<longleftrightarrow> ps = []"
  by (cases ps rule: slash_joined.cases) (auto simp: clean_parts_def)

lemma slash_joined_hd:
  assumes "clean_parts ps" and "ps \<noteq> []"
  obtains x xs where "slash_joined ps = x # xs" "x \<noteq> CHR ''/''"
proof -
  obtain p qs where ps: "ps = p # qs" using assms(2) by (cases ps) auto
  with assms(1) obtain x xs where p: "p = x # xs" "x \<noteq> CHR ''/''"
    by (cases p) (auto simp: clean_parts_def)
  then have "\<exists>ys. slash_joined ps = x # ys" by (cases qs) (simp_all add: ps)
  with p(2) show thesis by (auto intro: that)
qed

lemma path_parts_joined: "clean_parts ps \<Longrightarrow> path_parts (slash_joined ps) = ps"
proof (cases "ps = []")
  case False
  assume "clean_parts ps"
  then show ?thesis
    by (simp add: path_parts_def split_slash_joined [OF False] clean_parts_def)
qed (simp add: path_parts_def)

lemma path_parts_slash [simp]: "path_parts (CHR ''/'' # s) = path_parts s"
  by (simp add: path_parts_def)

lemma path_root_cases: "path_root s = [] \<or> path_root s = ''/'' \<or> path_root s = ''//''"
  by (simp add: path_root_def)

lemma path_str_clean:
  assumes "clean_parts ps" and "r \<in> {[], ''/'', ''//''}" and "r @ slash_joined ps \<noteq> []"
  shows "path_str (r @ slash_joined ps) = r @ slash_joined ps"
proof -
  have "path_parts (r @ slash_joined ps) = ps" using assms(1,2) by (auto simp: path_parts_joined)
  moreover have "path_root (r @ slash_joined ps) = r"
  proof (cases "ps = []")
    case True
    with assms(2,3) show ?thesis by (auto simp: path_root_def)
  next
    case False
    obtain x xs where "slash_joined ps = x # xs" "x \<noteq> CHR ''/''" by (rule slash_joined_hd [OF assms(1) False])
    with assms(2) show ?thesis by (auto simp: path_root_def)
  qed
  ultimately show ?thesis using assms(3) by (simp add: path_str_def)
qed

lemma path_str_idem [simp]: "path_str (path_str s) = path_str s"
proof (cases "path_root s @ slash_joined (path_parts s) = []")
  case True
  then show ?thesis by (simp add: path_str_def path_root_def path_parts_def)
next
  case False
  then show ?thesis
    using path_str_clean [OF clean_path_parts, of "path_root s" s] path_root_cases [of s] by (auto simp: path_str_def [of s])
qed

end
