(* ===== verification/Config_Validation.thy ===== *)
theory Config_Validation
  imports "HOL-Library.Monad_Syntax" Config Posix_Path
begin

text \<open>
  How \<open>GatewayConfig.model_validate\<close> reads a configuration document: one function per class of
  \<open>modbusgw/config/models.py\<close>, with its fields in their order. A field declaration is required or
  has a default, and its type says what it takes: a list, a literal, a positive number, \<open>None\<close> as
  well, a union told apart by \<open>type\<close>. How a number or a truth value is read from another type of
  JSON value is the package pydantic, a parameter (\<open>pydantic\<close>). Keys that no field names are ignored,
  except by \<open>RangeConfig\<close>, which forbids them. An infinite float is no value of the model.
\<close>

section \<open>Types of fields\<close>

record pydantic =
  pd_int :: "json_value \<Rightarrow> int option"
  pd_float :: "json_value \<Rightarrow> rat option"
  pd_bool :: "json_value \<Rightarrow> bool option"
  pd_message :: "json_value \<Rightarrow> string"

type_synonym 'a reader = "json_value \<Rightarrow> 'a option"
type_synonym fields = "(string \<times> json_value) list"

text \<open>A value that already has the type of its field is kept.\<close>

definition keeps_exact :: "pydantic \<Rightarrow> bool" where
  "keeps_exact pd \<longleftrightarrow> (\<forall>i. pd_int pd (JInt i) = Some i) \<and> (\<forall>r. pd_float pd (JFloat r) = Some r) \<and>
     (\<forall>b. pd_bool pd (JBool b) = Some b)"

definition required :: "fields \<Rightarrow> string \<Rightarrow> 'a reader \<Rightarrow> 'a option" where
  "required d key read = (case dict_get d key of None \<Rightarrow> None | Some j \<Rightarrow> read j)"

definition default_to :: "'a \<Rightarrow> fields \<Rightarrow> string \<Rightarrow> 'a reader \<Rightarrow> 'a option" where
  "default_to dflt d key read = (case dict_get d key of None \<Rightarrow> Some dflt | Some j \<Rightarrow> read j)"

fun read_object :: "(fields \<Rightarrow> 'a option) \<Rightarrow> 'a reader" where
  "read_object read (JObject d) = read d"
| "read_object read j = None"

fun read_str :: "string reader" where
  "read_str (JStr s) = Some s"
| "read_str j = None"

definition read_positive_int :: "pydantic \<Rightarrow> nat reader" where
  "read_positive_int pd j = do { i \<leftarrow> pd_int pd j; if 0 < i then Some (nat i) else None }"

definition read_positive_float :: "pydantic \<Rightarrow> rat reader" where
  "read_positive_float pd j = do { r \<leftarrow> pd_float pd j; if 0 < r then Some r else None }"

definition read_literal :: "string list \<Rightarrow> string reader" where
  "read_literal allowed j = do { s \<leftarrow> read_str j; if s \<in> set allowed then Some s else None }"

definition read_nullable :: "'a reader \<Rightarrow> 'a option reader" where
  "read_nullable read j = (if j = JNull then Some None else map_option Some (read j))"

fun read_list :: "'a reader \<Rightarrow> 'a list reader" where
  "read_list read (JList js) = those (map read js)"
| "read_list read j = None"

text \<open>\<open>Union[int, Literal['*']]\<close>: the star is itself, any other value has to be an integer.\<close>

definition read_int_or_star :: "pydantic \<Rightarrow> pyval reader" where
  "read_int_or_star pd j = (if j = JStr ''*'' then Some (PyStr ''*'') else map_option PyInt (pd_int pd j))"

text \<open>A path is kept as its text.\<close>

definition read_path :: "string reader" where
  "read_path j = map_option path_str (read_str j)"

section \<open>The classes\<close>

definition read_service :: "pydantic \<Rightarrow> fields \<Rightarrow> service_config option" where
  "read_service pd d = do {
     log_level \<leftarrow> default_to ''INFO'' d ''log_level'' read_str;
     pid_file \<leftarrow> default_to ''/var/run/modbusgw.pid'' d ''pid_file'' read_path;
     state_dir \<leftarrow> default_to ''/var/lib/modbusgw'' d ''state_dir'' read_path;
     log_file \<leftarrow> default_to None d ''log_file'' (read_nullable read_path);
     grace \<leftarrow> default_to 5 d ''reload_grace_seconds'' (read_positive_int pd);
     Some \<lparr>svc_log_level = log_level, svc_pid_file = pid_file, svc_state_dir = state_dir, svc_log_file = log_file,
       svc_reload_grace_seconds = grace\<rparr> }"

definition service_default :: service_config where
  "service_default = \<lparr>svc_log_level = ''INFO'', svc_pid_file = ''/var/run/modbusgw.pid'',
     svc_state_dir = ''/var/lib/modbusgw'', svc_log_file = None, svc_reload_grace_seconds = 5\<rparr>"

text \<open>The size of the queue and the timeout of a response.\<close>

definition read_bus :: "pydantic \<Rightarrow> fields \<Rightarrow> (nat \<times> nat) option" where
  "read_bus pd d = do {
     size \<leftarrow> default_to 1024 d ''request_queue_size'' (read_positive_int pd);
     timeout \<leftarrow> default_to 1500 d ''response_timeout_ms'' (read_positive_int pd);
     Some (size, timeout) }"

definition read_tracing :: "pydantic \<Rightarrow> fields \<Rightarrow> tracing_config option" where
  "read_tracing pd d = do {
     enabled \<leftarrow> default_to False d ''enabled'' (pd_bool pd);
     targets \<leftarrow> default_to [] d ''targets'' (read_list read_str);
     file \<leftarrow> default_to None d ''file'' (read_nullable read_path);
     Some \<lparr>trc_enabled = enabled, trc_targets = targets, trc_file = file\<rparr> }"

definition read_rate_limit :: "pydantic \<Rightarrow> fields \<Rightarrow> rate_limit_config option" where
  "read_rate_limit pd d = do {
     tokens \<leftarrow> required d ''tokens_per_second'' (read_positive_float pd);
     burst \<leftarrow> default_to None d ''burst_size'' (read_nullable (read_positive_float pd));
     Some \<lparr>rlc_tokens_per_second = tokens, rlc_burst_size = burst\<rparr> }"

definition read_security :: "pydantic \<Rightarrow> fields \<Rightarrow> security_config option" where
  "read_security pd d = do {
     ip_allow \<leftarrow> default_to [] d ''ip_allow'' (read_list read_str);
     rate_limit \<leftarrow> default_to None d ''rate_limit'' (read_nullable (read_object (read_rate_limit pd)));
     Some \<lparr>sec_ip_allow = ip_allow, sec_rate_limit = rate_limit\<rparr> }"

definition read_retry :: "pydantic \<Rightarrow> fields \<Rightarrow> retry_config option" where
  "read_retry pd d = do {
     lo \<leftarrow> default_to (1 / 2) d ''backoff_min'' (read_positive_float pd);
     hi \<leftarrow> default_to 30 d ''backoff_max'' (read_positive_float pd);
     attempts \<leftarrow> default_to 3 d ''max_attempts'' (read_positive_int pd);
     Some \<lparr>backoff_min = lo, backoff_max = hi, max_attempts = attempts\<rparr> }"

definition read_frontend_base :: "pydantic \<Rightarrow> fields \<Rightarrow> frontend_base_config option" where
  "read_frontend_base pd d = do {
     retry \<leftarrow> default_to None d ''retry'' (read_nullable (read_object (read_retry pd)));
     rate_limit \<leftarrow> default_to None d ''rate_limit'' (read_nullable (read_object (read_rate_limit pd)));
     Some \<lparr>fbc_retry = retry, fbc_rate_limit = rate_limit\<rparr> }"

definition read_serial_rtu_socket :: "pydantic \<Rightarrow> fields \<Rightarrow> serial_rtu_socket_config option" where
  "read_serial_rtu_socket pd d = do {
     ident \<leftarrow> required d ''id'' read_str;
     base \<leftarrow> read_frontend_base pd d;
     path \<leftarrow> required d ''socket_path'' read_path;
     mode \<leftarrow> default_to ''rw'' d ''pty_mode'' (read_literal [''rw'']);
     idle \<leftarrow> default_to 600 d ''idle_close_seconds'' (read_positive_int pd);
     timeout \<leftarrow> default_to 5 d ''frame_timeout_ms'' (read_positive_float pd);
     Some \<lparr>srs_id = ident, srs_socket_path = path, srs_frame_timeout_ms = timeout, srs_idle_close_seconds = idle,
       srs_base = base\<rparr> }"

definition read_unix_modbus_tcp :: "pydantic \<Rightarrow> fields \<Rightarrow> unix_modbus_tcp_config option" where
  "read_unix_modbus_tcp pd d = do {
     ident \<leftarrow> required d ''id'' read_str;
     base \<leftarrow> read_frontend_base pd d;
     path \<leftarrow> required d ''socket_path'' read_path;
     clients \<leftarrow> default_to 64 d ''max_clients'' (read_positive_int pd);
     Some \<lparr>umt_id = ident, umt_socket_path = path, umt_max_clients = clients, umt_base = base\<rparr> }"

definition read_tls :: "pydantic \<Rightarrow> fields \<Rightarrow> tls_config option" where
  "read_tls pd d = do {
     ca \<leftarrow> default_to None d ''ca_file'' (read_nullable read_path);
     cert \<leftarrow> default_to None d ''cert_file'' (read_nullable read_path);
     key \<leftarrow> default_to None d ''key_file'' (read_nullable read_path);
     require \<leftarrow> default_to False d ''require_client_cert'' (pd_bool pd);
     allow \<leftarrow> default_to [] d ''client_dn_allow'' (read_list read_str);
     verify \<leftarrow> default_to True d ''verify_server_cert'' (pd_bool pd);
     Some \<lparr>tls_ca_file = ca, tls_cert_file = cert, tls_key_file = key, tls_require_client_cert = require,
       tls_client_dn_allow = allow, tls_verify_server_cert = verify\<rparr> }"

definition read_tcp_modbus_frontend :: "pydantic \<Rightarrow> fields \<Rightarrow> tcp_modbus_frontend_config option" where
  "read_tcp_modbus_frontend pd d = do {
     ident \<leftarrow> required d ''id'' read_str;
     base \<leftarrow> read_frontend_base pd d;
     host \<leftarrow> default_to ''0.0.0.0'' d ''host'' read_str;
     port \<leftarrow> default_to 502 d ''port'' (read_positive_int pd);
     tls \<leftarrow> default_to None d ''tls'' (read_nullable (read_object (read_tls pd)));
     cidr \<leftarrow> default_to [] d ''cidr_allow'' (read_list read_str);
     Some \<lparr>tmf_id = ident, tmf_host = host, tmf_port = port, tmf_tls = tls, tmf_cidr_allow = cidr, tmf_base = base\<rparr> }"

text \<open>A union with a discriminator: the document has to name the type, also where the class has a default.\<close>

definition read_frontend :: "pydantic \<Rightarrow> fields \<Rightarrow> frontend_config option" where
  "read_frontend pd d = do {
     tag \<leftarrow> required d ''type'' read_str;
     if tag = ''serial_rtu_socket'' then map_option SerialRtuSocketConfig (read_serial_rtu_socket pd d)
     else if tag = ''unix_modbus_tcp'' then map_option UnixModbusTcpConfig (read_unix_modbus_tcp pd d)
     else if tag = ''tcp_modbus_tcp'' then map_option TcpModbusFrontendConfig (read_tcp_modbus_frontend pd d)
     else None }"

definition read_serial_backend :: "pydantic \<Rightarrow> fields \<Rightarrow> serial_backend_config option" where
  "read_serial_backend pd d = do {
     ident \<leftarrow> required d ''id'' read_str;
     device \<leftarrow> required d ''device'' read_path;
     baudrate \<leftarrow> required d ''baudrate'' (read_positive_int pd);
     parity \<leftarrow> default_to ''N'' d ''parity'' (read_literal [''N'', ''E'', ''O'']);
     stop_bits \<leftarrow> default_to 1 d ''stop_bits'' (read_positive_float pd);
     timeout \<leftarrow> default_to 1200 d ''request_timeout_ms'' (read_positive_int pd);
     gap \<leftarrow> default_to None d ''inter_frame_gap_ms'' (read_nullable (read_positive_float pd));
     retry \<leftarrow> default_to retry_default d ''retry'' (read_object (read_retry pd));
     Some \<lparr>sbc_id = ident, sbc_device = device, sbc_baudrate = baudrate, sbc_parity = parity, sbc_stop_bits = stop_bits,
       sbc_request_timeout_ms = timeout, sbc_inter_frame_gap_ms = gap, sbc_retry = retry\<rparr> }"

definition read_tcp_backend :: "pydantic \<Rightarrow> fields \<Rightarrow> tcp_backend_config option" where
  "read_tcp_backend pd d = do {
     ident \<leftarrow> required d ''id'' read_str;
     host \<leftarrow> required d ''host'' read_str;
     port \<leftarrow> required d ''port'' (read_positive_int pd);
     use_tls \<leftarrow> default_to False d ''use_tls'' (pd_bool pd);
     tls \<leftarrow> default_to None d ''tls'' (read_nullable (read_object (read_tls pd)));
     timeout \<leftarrow> default_to 2 d ''connect_timeout'' (read_positive_float pd);
     size \<leftarrow> default_to 4 d ''pool_size'' (read_positive_int pd);
     Some \<lparr>tbc_id = ident, tbc_host = host, tbc_port = port, tbc_use_tls = use_tls, tbc_tls = tls,
       tbc_connect_timeout = timeout, tbc_pool_size = size\<rparr> }"

definition read_backend :: "pydantic \<Rightarrow> fields \<Rightarrow> backend_config option" where
  "read_backend pd d = do {
     tag \<leftarrow> required d ''type'' read_str;
     if tag = ''pyserial'' then map_option SerialBackendConfig (read_serial_backend pd d)
     else if tag = ''tcp_modbus'' then map_option TcpBackendConfig (read_tcp_backend pd d)
     else None }"

definition read_range :: "pydantic \<Rightarrow> fields \<Rightarrow> range_config option" where
  "read_range pd d = do {
     lo \<leftarrow> required d ''start'' (read_positive_int pd);
     hi \<leftarrow> required d ''end'' (read_positive_int pd);
     if set (map fst d) \<subseteq> {''start'', ''end''} then Some \<lparr>range_start = int lo, range_end = int hi\<rparr> else None }"

definition read_route_match :: "pydantic \<Rightarrow> fields \<Rightarrow> route_match_config option" where
  "read_route_match pd d = do {
     units \<leftarrow> required d ''unit_ids'' (read_list (read_int_or_star pd));
     codes \<leftarrow> required d ''function_codes'' (read_list (read_int_or_star pd));
     rng \<leftarrow> default_to None d ''register_range'' (read_nullable (read_object (read_range pd)));
     ops \<leftarrow> default_to None d ''operations'' (read_nullable (read_list (read_literal [''read'', ''write''])));
     Some \<lparr>rmc_unit_ids = units, rmc_function_codes = codes, rmc_register_range = rng, rmc_operations = ops\<rparr> }"

definition read_route_constraints :: "pydantic \<Rightarrow> fields \<Rightarrow> route_constraints option" where
  "read_route_constraints pd d = do {
     quantity \<leftarrow> default_to None d ''max_quantity'' (read_nullable (read_positive_int pd));
     interval \<leftarrow> default_to None d ''min_interval_ms'' (read_nullable (read_positive_int pd));
     Some \<lparr>rcs_max_quantity = quantity, rcs_min_interval_ms = interval\<rparr> }"

definition read_route :: "pydantic \<Rightarrow> fields \<Rightarrow> route_config option" where
  "read_route pd d = do {
     frontend \<leftarrow> required d ''frontend'' read_str;
     backend \<leftarrow> required d ''backend'' read_str;
     spec \<leftarrow> required d ''match'' (read_object (read_route_match pd));
     override \<leftarrow> default_to None d ''unit_override'' (read_nullable (pd_int pd));
     mirror \<leftarrow> default_to [] d ''mirror_to_mqtt'' (read_list read_str);
     allow_write \<leftarrow> default_to True d ''allow_write'' (pd_bool pd);
     fallback \<leftarrow> default_to None d ''fallback_backend'' (read_nullable read_str);
     constraints \<leftarrow> default_to None d ''op_constraints'' (read_nullable (read_object (read_route_constraints pd)));
     Some \<lparr>route_frontend = frontend, route_backend = backend, route_match = spec, route_unit_override = override,
       route_mirror_to_mqtt = mirror, route_allow_write = allow_write, route_fallback_backend = fallback,
       route_op_constraints = constraints\<rparr> }"

definition read_mqtt_mapping :: "pydantic \<Rightarrow> fields \<Rightarrow> mqtt_mapping_config option" where
  "read_mqtt_mapping pd d = do {
     ident \<leftarrow> required d ''id'' read_str;
     topic \<leftarrow> required d ''topic'' read_str;
     direction \<leftarrow> required d ''direction'' (read_literal [''publish'', ''subscribe'', ''both'']);
     backend \<leftarrow> required d ''backend'' read_str;
     func \<leftarrow> default_to None d ''function'' (read_nullable read_str);
     unit \<leftarrow> required d ''unit_id'' (pd_int pd);
     address \<leftarrow> required d ''register_address'' (read_positive_int pd);
     quantity \<leftarrow> default_to None d ''quantity'' (read_nullable (read_positive_int pd));
     scale \<leftarrow> default_to None d ''scale'' (read_nullable (pd_float pd));
     offset \<leftarrow> default_to None d ''offset'' (read_nullable (pd_float pd));
     payload_type \<leftarrow> default_to None d ''payload_type'' (read_nullable (read_literal [''raw'', ''json'', ''float'']));
     qos \<leftarrow> default_to 0 d ''qos'' (pd_int pd);
     retain \<leftarrow> default_to False d ''retain'' (pd_bool pd);
     lo \<leftarrow> default_to None d ''min_value'' (read_nullable (pd_float pd));
     hi \<leftarrow> default_to None d ''max_value'' (read_nullable (pd_float pd));
     Some \<lparr>mmc_id = ident, mmc_topic = topic, mmc_direction = direction, mmc_backend = backend, mmc_function = func,
       mmc_unit_id = unit, mmc_register_address = address, mmc_quantity = quantity, mmc_scale = scale,
       mmc_offset = offset, mmc_payload_type = payload_type, mmc_qos = qos, mmc_retain = retain,
       mmc_min_value = lo, mmc_max_value = hi\<rparr> }"

definition read_mqtt_backoff :: "pydantic \<Rightarrow> fields \<Rightarrow> mqtt_reconnect_backoff option" where
  "read_mqtt_backoff pd d = do {
     lo \<leftarrow> default_to 1 d ''min'' (read_positive_float pd);
     hi \<leftarrow> default_to 60 d ''max'' (read_positive_float pd);
     Some \<lparr>mrb_min = lo, mrb_max = hi\<rparr> }"

definition read_mqtt_settings :: "pydantic \<Rightarrow> fields \<Rightarrow> mqtt_settings option" where
  "read_mqtt_settings pd d = do {
     host \<leftarrow> required d ''host'' read_str;
     port \<leftarrow> default_to 8883 d ''port'' (read_positive_int pd);
     use_tls \<leftarrow> default_to True d ''use_tls'' (pd_bool pd);
     ca \<leftarrow> default_to None d ''ca_file'' (read_nullable read_path);
     cert \<leftarrow> default_to None d ''client_cert'' (read_nullable read_path);
     key \<leftarrow> default_to None d ''client_key'' (read_nullable read_path);
     username \<leftarrow> default_to None d ''username'' (read_nullable read_str);
     password \<leftarrow> default_to None d ''password_file'' (read_nullable read_path);
     backoff \<leftarrow> default_to \<lparr>mrb_min = 1, mrb_max = 60\<rparr> d ''reconnect_backoff'' (read_object (read_mqtt_backoff pd));
     Some \<lparr>mqs_host = host, mqs_port = port, mqs_use_tls = use_tls, mqs_ca_file = ca, mqs_client_cert = cert,
       mqs_client_key = key, mqs_username = username, mqs_password_file = password, mqs_reconnect_backoff = backoff\<rparr> }"

definition read_mqtt :: "pydantic \<Rightarrow> fields \<Rightarrow> mqtt_config option" where
  "read_mqtt pd d = do {
     settings \<leftarrow> required d ''settings'' (read_object (read_mqtt_settings pd));
     mappings \<leftarrow> default_to [] d ''mappings'' (read_list (read_object (read_mqtt_mapping pd)));
     Some \<lparr>mqc_settings = settings, mqc_mappings = mappings\<rparr> }"

definition read_broker :: "pydantic \<Rightarrow> fields \<Rightarrow> broker_config option" where
  "read_broker pd d = do {
     kind \<leftarrow> required d ''type'' (read_literal [''mqtt'', ''pastry'']);
     enabled \<leftarrow> default_to True d ''enabled'' (pd_bool pd);
     options \<leftarrow> default_to [] d ''options'' (read_object Some);
     Some \<lparr>brc_type = kind, brc_enabled = enabled, brc_options = options\<rparr> }"

definition read_gateway_config :: "pydantic \<Rightarrow> fields \<Rightarrow> gateway_config option" where
  "read_gateway_config pd d = do {
     service \<leftarrow> default_to service_default d ''service'' (read_object (read_service pd));
     bus \<leftarrow> default_to (1024, 1500) d ''bus'' (read_object (read_bus pd));
     tracing \<leftarrow> default_to None d ''tracing'' (read_nullable (read_object (read_tracing pd)));
     security \<leftarrow> default_to None d ''security'' (read_nullable (read_object (read_security pd)));
     frontends \<leftarrow> default_to [] d ''frontends'' (read_list (read_object (read_frontend pd)));
     backends \<leftarrow> default_to [] d ''backends'' (read_list (read_object (read_backend pd)));
     routes \<leftarrow> default_to [] d ''routes'' (read_list (read_object (read_route pd)));
     mqtt \<leftarrow> default_to None d ''mqtt'' (read_nullable (read_object (read_mqtt pd)));
     brokers \<leftarrow> default_to [] d ''brokers'' (read_list (read_object (read_broker pd)));
     Some \<lparr>gc_service = service, gc_request_queue_size = int (fst bus), gc_frontends = frontends, gc_backends = backends,
       gc_routes = routes, gc_response_timeout_ms = snd bus, gc_tracing = tracing, gc_security = security,
       gc_mqtt = mqtt, gc_brokers = brokers\<rparr> }"

text \<open>\<open>ValidationError\<close> is a \<open>ValueError\<close>.\<close>

definition model_validate :: "pydantic \<Rightarrow> json_value \<Rightarrow> gateway_config result" where
  "model_validate pd data =
     (case read_object (read_gateway_config pd) data of
        None \<Rightarrow> Inl (ValueError (pd_message pd data))
      | Some config \<Rightarrow> Inr config)"

section \<open>Configurations whose paths are in normal form\<close>

definition path_normal :: "string \<Rightarrow> bool" where
  "path_normal p \<longleftrightarrow> path_str p = p"

definition opt_path_normal :: "string option \<Rightarrow> bool" where
  "opt_path_normal p \<longleftrightarrow> (\<forall>q. p = Some q \<longrightarrow> path_normal q)"

definition service_paths :: "service_config \<Rightarrow> bool" where
  "service_paths c \<longleftrightarrow> path_normal (svc_pid_file c) \<and> path_normal (svc_state_dir c) \<and> opt_path_normal (svc_log_file c)"

definition tls_paths :: "tls_config \<Rightarrow> bool" where
  "tls_paths c \<longleftrightarrow> opt_path_normal (tls_ca_file c) \<and> opt_path_normal (tls_cert_file c) \<and> opt_path_normal (tls_key_file c)"

fun frontend_paths :: "frontend_config \<Rightarrow> bool" where
  "frontend_paths (SerialRtuSocketConfig c) = path_normal (srs_socket_path c)"
| "frontend_paths (UnixModbusTcpConfig c) = path_normal (umt_socket_path c)"
| "frontend_paths (TcpModbusFrontendConfig c) = (\<forall>t. tmf_tls c = Some t \<longrightarrow> tls_paths t)"

fun backend_paths :: "backend_config \<Rightarrow> bool" where
  "backend_paths (SerialBackendConfig c) = path_normal (sbc_device c)"
| "backend_paths (TcpBackendConfig c) = (\<forall>t. tbc_tls c = Some t \<longrightarrow> tls_paths t)"

definition mqtt_paths :: "mqtt_settings \<Rightarrow> bool" where
  "mqtt_paths c \<longleftrightarrow> opt_path_normal (mqs_ca_file c) \<and> opt_path_normal (mqs_client_cert c) \<and>
     opt_path_normal (mqs_client_key c) \<and> opt_path_normal (mqs_password_file c)"

definition gateway_paths :: "gateway_config \<Rightarrow> bool" where
  "gateway_paths c \<longleftrightarrow> service_paths (gc_service c) \<and>
     (\<forall>t. gc_tracing c = Some t \<longrightarrow> opt_path_normal (trc_file t)) \<and>
     list_all frontend_paths (gc_frontends c) \<and> list_all backend_paths (gc_backends c) \<and>
     (\<forall>m. gc_mqtt c = Some m \<longrightarrow> mqtt_paths (mqc_settings m))"

lemma default_paths: "path_normal ''/var/run/modbusgw.pid''" "path_normal ''/var/lib/modbusgw''"
  by (simp_all add: path_normal_def path_str_def path_root_def path_parts_def)

section \<open>What is accepted is valid\<close>

text \<open>The property that every value has which a reader yields.\<close>

definition yields :: "('j \<Rightarrow> 'a option) \<Rightarrow> ('a \<Rightarrow> bool) \<Rightarrow> bool" where
  "yields read P \<longleftrightarrow> (\<forall>j x. read j = Some x \<longrightarrow> P x)"

named_theorems yields_intro

lemma yieldsI: "(\<And>j. pred_option P (read j)) \<Longrightarrow> yields read P"
  unfolding yields_def by (metis option.pred_inject(2))

lemma yieldsD: "yields read P \<Longrightarrow> read j = Some x \<Longrightarrow> P x"
  by (simp add: yields_def)

lemma yields_basic [yields_intro]:
  "yields (read_positive_int pd) (\<lambda>n. 0 < n)"
  "yields (read_positive_float pd) (\<lambda>r. 0 < r)"
  "yields (read_literal allowed) (\<lambda>s. s \<in> set allowed)"
  "yields (read_int_or_star pd) int_or_star"
  "yields read_path path_normal"
  by (auto simp: yields_def read_positive_int_def read_positive_float_def read_literal_def read_int_or_star_def
      int_or_star_def read_path_def path_normal_def bind_eq_Some_conv split: if_splits)

lemma yields_any [yields_intro]:
  "yields read_str (\<lambda>_. True)" "yields (pd_int pd) (\<lambda>_. True)" "yields (pd_float pd) (\<lambda>_. True)"
  "yields (pd_bool pd) (\<lambda>_. True)" "yields (read_object Some) (\<lambda>_. True)"
  by (simp_all add: yields_def)

lemma yields_object [yields_intro]: "yields read P \<Longrightarrow> yields (read_object read) P"
  unfolding yields_def by (intro allI impI, elim read_object.elims) auto

lemma yields_nullable [yields_intro]: "yields read P \<Longrightarrow> yields (read_nullable read) (\<lambda>x. \<forall>y. x = Some y \<longrightarrow> P y)"
  by (auto simp: yields_def read_nullable_def split: if_splits)

lemma those_list_all: "those (map read js) = Some xs \<Longrightarrow> yields read P \<Longrightarrow> list_all P xs"
  by (induction js arbitrary: xs) (auto simp: yields_def split: option.splits)

lemma yields_list [yields_intro]: "yields read P \<Longrightarrow> yields (read_list read) (list_all P)"
  unfolding yields_def
  by (intro allI impI, elim read_list.elims) (auto intro: those_list_all simp: yields_def)

text \<open>A class is read field by field, and what was read so far is known of every field.\<close>

lemma bind_required:
  "yields read R \<Longrightarrow> (\<And>x. R x \<Longrightarrow> pred_option P (f x)) \<Longrightarrow> pred_option P (required d key read \<bind> f)"
  by (auto simp: required_def yields_def pred_option_def bind_eq_Some_conv split: option.splits)

lemma bind_default:
  "yields read R \<Longrightarrow> (\<And>x. R x \<Longrightarrow> pred_option P (f x)) \<Longrightarrow> R dflt \<Longrightarrow> pred_option P (default_to dflt d key read \<bind> f)"
  by (auto simp: default_to_def yields_def pred_option_def bind_eq_Some_conv split: option.splits)

lemmas read_field = bind_required bind_default

text \<open>The classes. Paths are in normal form.\<close>

lemma read_retry_valid [yields_intro]: "yields (read_retry pd) retry_valid"
  by (rule yieldsI, unfold read_retry_def, (rule read_field, ((rule yields_intro)+)[1])+) (simp_all add: retry_valid_def)

lemma read_rate_limit_valid [yields_intro]: "yields (read_rate_limit pd) rate_limit_valid"
  by (rule yieldsI, unfold read_rate_limit_def, (rule read_field, ((rule yields_intro)+)[1])+) (simp_all add: rate_limit_valid_def)

lemma read_service_valid [yields_intro]:
  "yields (read_service pd) (\<lambda>c. service_valid c \<and> service_paths c)"
  by (rule yieldsI, unfold read_service_def, (rule read_field, ((rule yields_intro)+)[1])+)
    (simp_all add: service_valid_def service_paths_def opt_path_normal_def default_paths)

lemma read_bus_valid [yields_intro]: "yields (read_bus pd) (\<lambda>b. 0 < fst b \<and> 0 < snd b)"
  by (rule yieldsI, unfold read_bus_def, (rule read_field, ((rule yields_intro)+)[1])+) simp_all

lemma read_tracing_valid [yields_intro]: "yields (read_tracing pd) (\<lambda>c. opt_path_normal (trc_file c))"
  by (rule yieldsI, unfold read_tracing_def, (rule read_field, ((rule yields_intro)+)[1])+) (simp_all add: opt_path_normal_def)

lemma read_security_valid [yields_intro]: "yields (read_security pd) security_valid"
  by (rule yieldsI, unfold read_security_def, (rule read_field, ((rule yields_intro)+)[1])+) (simp_all add: security_valid_def)

lemma read_frontend_base_valid: "yields (read_frontend_base pd) frontend_base_valid"
  by (rule yieldsI, unfold read_frontend_base_def, (rule read_field, ((rule yields_intro)+)[1])+) (simp_all add: frontend_base_valid_def)

lemma bind_frontend_base:
  "(\<And>x. frontend_base_valid x \<Longrightarrow> pred_option P (f x)) \<Longrightarrow> pred_option P (read_frontend_base pd d \<bind> f)"
  using read_frontend_base_valid [of pd] by (auto simp: yields_def pred_option_def bind_eq_Some_conv)

lemma read_tls_valid [yields_intro]: "yields (read_tls pd) tls_paths"
  by (rule yieldsI, unfold read_tls_def, (rule read_field, ((rule yields_intro)+)[1])+) (simp_all add: tls_paths_def opt_path_normal_def)

lemma read_serial_rtu_socket_valid:
  "yields (read_serial_rtu_socket pd) (\<lambda>c. frontend_valid (SerialRtuSocketConfig c) \<and> frontend_paths (SerialRtuSocketConfig c))"
  by (rule yieldsI, unfold read_serial_rtu_socket_def, rule read_field, rule yields_intro, rule bind_frontend_base,
      (rule read_field, ((rule yields_intro)+)[1])+) simp_all

lemma read_unix_modbus_tcp_valid:
  "yields (read_unix_modbus_tcp pd) (\<lambda>c. frontend_valid (UnixModbusTcpConfig c) \<and> frontend_paths (UnixModbusTcpConfig c))"
  by (rule yieldsI, unfold read_unix_modbus_tcp_def, rule read_field, rule yields_intro, rule bind_frontend_base,
      (rule read_field, ((rule yields_intro)+)[1])+) simp_all

lemma read_tcp_modbus_frontend_valid:
  "yields (read_tcp_modbus_frontend pd)
     (\<lambda>c. frontend_valid (TcpModbusFrontendConfig c) \<and> frontend_paths (TcpModbusFrontendConfig c))"
  by (rule yieldsI, unfold read_tcp_modbus_frontend_def, rule read_field, rule yields_intro, rule bind_frontend_base,
      (rule read_field, ((rule yields_intro)+)[1])+) simp_all

lemma read_serial_backend_valid:
  "yields (read_serial_backend pd) (\<lambda>c. backend_valid (SerialBackendConfig c) \<and> backend_paths (SerialBackendConfig c))"
  by (rule yieldsI, unfold read_serial_backend_def, (rule read_field, ((rule yields_intro)+)[1])+)
    (simp_all add: serial_backend_valid_def retry_valid_def retry_default_def)

lemma read_tcp_backend_valid:
  "yields (read_tcp_backend pd) (\<lambda>c. backend_valid (TcpBackendConfig c) \<and> backend_paths (TcpBackendConfig c))"
  by (rule yieldsI, unfold read_tcp_backend_def, (rule read_field, ((rule yields_intro)+)[1])+) (simp_all add: tcp_backend_valid_def)

lemma yields_tagged:
  "yields read (\<lambda>c. P (C c)) \<Longrightarrow> pred_option P (map_option C (read d))"
  by (cases "read d") (simp_all add: yields_def)

lemma read_frontend_valid [yields_intro]: "yields (read_frontend pd) (\<lambda>c. frontend_valid c \<and> frontend_paths c)"
  by (rule yieldsI, unfold read_frontend_def, rule read_field, rule yields_intro)
    (simp only: if_split option.pred_inject yields_tagged [where P = "\<lambda>c. frontend_valid c \<and> frontend_paths c", OF read_serial_rtu_socket_valid]
      yields_tagged [where P = "\<lambda>c. frontend_valid c \<and> frontend_paths c", OF read_unix_modbus_tcp_valid] yields_tagged [where P = "\<lambda>c. frontend_valid c \<and> frontend_paths c", OF read_tcp_modbus_frontend_valid], simp)

lemma read_backend_valid [yields_intro]: "yields (read_backend pd) (\<lambda>c. backend_valid c \<and> backend_paths c)"
  by (rule yieldsI, unfold read_backend_def, rule read_field, rule yields_intro)
    (simp only: if_split option.pred_inject yields_tagged [where P = "\<lambda>c. backend_valid c \<and> backend_paths c", OF read_serial_backend_valid]
      yields_tagged [where P = "\<lambda>c. backend_valid c \<and> backend_paths c", OF read_tcp_backend_valid], simp)

lemma read_range_valid [yields_intro]: "yields (read_range pd) range_valid"
  by (rule yieldsI, unfold read_range_def, (rule read_field, ((rule yields_intro)+)[1])+) (simp_all add: range_valid_def)

lemma read_route_match_valid [yields_intro]: "yields (read_route_match pd) route_match_valid"
  by (rule yieldsI, unfold read_route_match_def, (rule read_field, ((rule yields_intro)+)[1])+)
    (auto simp: route_match_valid_def list_all_iff)

lemma read_route_constraints_valid [yields_intro]: "yields (read_route_constraints pd) route_constraints_valid"
  by (rule yieldsI, unfold read_route_constraints_def, (rule read_field, ((rule yields_intro)+)[1])+) (auto simp: route_constraints_valid_def)

lemma read_route_valid [yields_intro]: "yields (read_route pd) route_valid"
  by (rule yieldsI, unfold read_route_def, (rule read_field, ((rule yields_intro)+)[1])+) (simp_all add: route_valid_def)

lemma read_mqtt_mapping_valid [yields_intro]: "yields (read_mqtt_mapping pd) mqtt_mapping_valid"
  by (rule yieldsI, unfold read_mqtt_mapping_def, (rule read_field, ((rule yields_intro)+)[1])+) (auto simp: mqtt_mapping_valid_def)

lemma read_mqtt_backoff_valid [yields_intro]: "yields (read_mqtt_backoff pd) mqtt_backoff_valid"
  by (rule yieldsI, unfold read_mqtt_backoff_def, (rule read_field, ((rule yields_intro)+)[1])+) (simp_all add: mqtt_backoff_valid_def)

lemma read_mqtt_settings_valid [yields_intro]:
  "yields (read_mqtt_settings pd) (\<lambda>c. 0 < mqs_port c \<and> mqtt_backoff_valid (mqs_reconnect_backoff c) \<and> mqtt_paths c)"
  by (rule yieldsI, unfold read_mqtt_settings_def, (rule read_field, ((rule yields_intro)+)[1])+)
    (simp_all add: mqtt_backoff_valid_def mqtt_paths_def opt_path_normal_def)

lemma read_mqtt_valid [yields_intro]: "yields (read_mqtt pd) (\<lambda>c. mqtt_valid c \<and> mqtt_paths (mqc_settings c))"
  by (rule yieldsI, unfold read_mqtt_def, (rule read_field, ((rule yields_intro)+)[1])+) (simp_all add: mqtt_valid_def)

lemma read_broker_valid [yields_intro]: "yields (read_broker pd) broker_valid"
  by (rule yieldsI, unfold read_broker_def, (rule read_field, ((rule yields_intro)+)[1])+) (simp_all add: broker_valid_def)

lemma list_all_both: "list_all (\<lambda>c. P c \<and> Q c) xs \<longleftrightarrow> list_all P xs \<and> list_all Q xs"
  by (auto simp: list_all_iff)

lemma read_gateway_config_valid: "yields (read_gateway_config pd) (\<lambda>c. gateway_config_valid c \<and> gateway_paths c)"
  by (rule yieldsI, unfold read_gateway_config_def, (rule read_field, ((rule yields_intro)+)[1])+)
    (auto simp: gateway_config_valid_def gateway_paths_def list_all_both service_default_def service_valid_def
      service_paths_def opt_path_normal_def default_paths)

lemma model_validate_valid:
  assumes "model_validate pd data = Inr config"
  shows "gateway_config_valid config" and "gateway_paths config"
  using assms yieldsD [OF yields_object [OF read_gateway_config_valid]]
  by (auto simp: model_validate_def split: option.splits)

end
