(* ===== verification/Config_Document.thy ===== *)
theory Config_Document
  imports Config_Validation
begin

text \<open>
  A configuration written out as a document, and what \<open>model_validate\<close> makes of that document: exactly
  the valid configurations with normal paths are read from some document, each from its own. The
  configuration file that \<open>README.md\<close> gives as an example is one of them.
\<close>

section \<open>A configuration as a document\<close>

text \<open>Every field of a configuration written out.\<close>

definition opt_json :: "('a \<Rightarrow> json_value) \<Rightarrow> 'a option \<Rightarrow> json_value" where
  "opt_json f x = (case x of None \<Rightarrow> JNull | Some y \<Rightarrow> f y)"

definition nat_json :: "nat \<Rightarrow> json_value" where
  "nat_json n = JInt (int n)"

definition strings_json :: "string list \<Rightarrow> json_value" where
  "strings_json xs = JList (map JStr xs)"

fun pattern_json :: "pyval \<Rightarrow> json_value" where
  "pattern_json (PyInt i) = JInt i"
| "pattern_json (PyStr s) = JStr s"
| "pattern_json v = JNull"

definition service_doc :: "service_config \<Rightarrow> fields" where
  "service_doc c = [(''log_level'', JStr (svc_log_level c)), (''pid_file'', JStr (svc_pid_file c)),
     (''state_dir'', JStr (svc_state_dir c)), (''log_file'', opt_json JStr (svc_log_file c)),
     (''reload_grace_seconds'', nat_json (svc_reload_grace_seconds c))]"

definition bus_doc :: "nat \<times> nat \<Rightarrow> fields" where
  "bus_doc b = [(''request_queue_size'', nat_json (fst b)), (''response_timeout_ms'', nat_json (snd b))]"

definition tracing_doc :: "tracing_config \<Rightarrow> fields" where
  "tracing_doc c = [(''enabled'', JBool (trc_enabled c)), (''targets'', strings_json (trc_targets c)),
     (''file'', opt_json JStr (trc_file c))]"

definition rate_limit_doc :: "rate_limit_config \<Rightarrow> fields" where
  "rate_limit_doc c = [(''tokens_per_second'', JFloat (rlc_tokens_per_second c)),
     (''burst_size'', opt_json JFloat (rlc_burst_size c))]"

definition security_doc :: "security_config \<Rightarrow> fields" where
  "security_doc c = [(''ip_allow'', strings_json (sec_ip_allow c)),
     (''rate_limit'', opt_json (JObject \<circ> rate_limit_doc) (sec_rate_limit c))]"

definition retry_doc :: "retry_config \<Rightarrow> fields" where
  "retry_doc c = [(''backoff_min'', JFloat (backoff_min c)), (''backoff_max'', JFloat (backoff_max c)),
     (''max_attempts'', nat_json (max_attempts c))]"

definition frontend_base_doc :: "frontend_base_config \<Rightarrow> fields" where
  "frontend_base_doc c = [(''retry'', opt_json (JObject \<circ> retry_doc) (fbc_retry c)),
     (''rate_limit'', opt_json (JObject \<circ> rate_limit_doc) (fbc_rate_limit c))]"

definition tls_doc :: "tls_config \<Rightarrow> fields" where
  "tls_doc c = [(''ca_file'', opt_json JStr (tls_ca_file c)), (''cert_file'', opt_json JStr (tls_cert_file c)),
     (''key_file'', opt_json JStr (tls_key_file c)), (''require_client_cert'', JBool (tls_require_client_cert c)),
     (''client_dn_allow'', strings_json (tls_client_dn_allow c)),
     (''verify_server_cert'', JBool (tls_verify_server_cert c))]"

fun frontend_doc :: "frontend_config \<Rightarrow> fields" where
  "frontend_doc (SerialRtuSocketConfig c) = frontend_base_doc (srs_base c) @
     [(''type'', JStr ''serial_rtu_socket''), (''id'', JStr (srs_id c)), (''socket_path'', JStr (srs_socket_path c)),
      (''pty_mode'', JStr ''rw''), (''idle_close_seconds'', nat_json (srs_idle_close_seconds c)),
      (''frame_timeout_ms'', JFloat (srs_frame_timeout_ms c))]"
| "frontend_doc (UnixModbusTcpConfig c) = frontend_base_doc (umt_base c) @
     [(''type'', JStr ''unix_modbus_tcp''), (''id'', JStr (umt_id c)), (''socket_path'', JStr (umt_socket_path c)),
      (''max_clients'', nat_json (umt_max_clients c))]"
| "frontend_doc (TcpModbusFrontendConfig c) = frontend_base_doc (tmf_base c) @
     [(''type'', JStr ''tcp_modbus_tcp''), (''id'', JStr (tmf_id c)), (''host'', JStr (tmf_host c)),
      (''port'', nat_json (tmf_port c)), (''tls'', opt_json (JObject \<circ> tls_doc) (tmf_tls c)),
      (''cidr_allow'', strings_json (tmf_cidr_allow c))]"

fun backend_doc :: "backend_config \<Rightarrow> fields" where
  "backend_doc (SerialBackendConfig c) =
     [(''type'', JStr ''pyserial''), (''id'', JStr (sbc_id c)), (''device'', JStr (sbc_device c)),
      (''baudrate'', nat_json (sbc_baudrate c)), (''parity'', JStr (sbc_parity c)), (''stop_bits'', JFloat (sbc_stop_bits c)),
      (''request_timeout_ms'', nat_json (sbc_request_timeout_ms c)),
      (''inter_frame_gap_ms'', opt_json JFloat (sbc_inter_frame_gap_ms c)), (''retry'', JObject (retry_doc (sbc_retry c)))]"
| "backend_doc (TcpBackendConfig c) =
     [(''type'', JStr ''tcp_modbus''), (''id'', JStr (tbc_id c)), (''host'', JStr (tbc_host c)),
      (''port'', nat_json (tbc_port c)), (''use_tls'', JBool (tbc_use_tls c)),
      (''tls'', opt_json (JObject \<circ> tls_doc) (tbc_tls c)), (''connect_timeout'', JFloat (tbc_connect_timeout c)),
      (''pool_size'', nat_json (tbc_pool_size c))]"

definition range_doc :: "range_config \<Rightarrow> fields" where
  "range_doc c = [(''start'', JInt (range_start c)), (''end'', JInt (range_end c))]"

definition route_match_doc :: "route_match_config \<Rightarrow> fields" where
  "route_match_doc c = [(''unit_ids'', JList (map pattern_json (rmc_unit_ids c))),
     (''function_codes'', JList (map pattern_json (rmc_function_codes c))),
     (''register_range'', opt_json (JObject \<circ> range_doc) (rmc_register_range c)),
     (''operations'', opt_json strings_json (rmc_operations c))]"

definition route_constraints_doc :: "route_constraints \<Rightarrow> fields" where
  "route_constraints_doc c = [(''max_quantity'', opt_json nat_json (rcs_max_quantity c)),
     (''min_interval_ms'', opt_json nat_json (rcs_min_interval_ms c))]"

definition route_doc :: "route_config \<Rightarrow> fields" where
  "route_doc c = [(''frontend'', JStr (route_frontend c)), (''backend'', JStr (route_backend c)),
     (''match'', JObject (route_match_doc (route_match c))), (''unit_override'', opt_json JInt (route_unit_override c)),
     (''mirror_to_mqtt'', strings_json (route_mirror_to_mqtt c)), (''allow_write'', JBool (route_allow_write c)),
     (''fallback_backend'', opt_json JStr (route_fallback_backend c)),
     (''op_constraints'', opt_json (JObject \<circ> route_constraints_doc) (route_op_constraints c))]"

definition mqtt_mapping_doc :: "mqtt_mapping_config \<Rightarrow> fields" where
  "mqtt_mapping_doc c = [(''id'', JStr (mmc_id c)), (''topic'', JStr (mmc_topic c)), (''direction'', JStr (mmc_direction c)),
     (''backend'', JStr (mmc_backend c)), (''function'', opt_json JStr (mmc_function c)), (''unit_id'', JInt (mmc_unit_id c)),
     (''register_address'', nat_json (mmc_register_address c)), (''quantity'', opt_json nat_json (mmc_quantity c)),
     (''scale'', opt_json JFloat (mmc_scale c)), (''offset'', opt_json JFloat (mmc_offset c)),
     (''payload_type'', opt_json JStr (mmc_payload_type c)), (''qos'', JInt (mmc_qos c)), (''retain'', JBool (mmc_retain c)),
     (''min_value'', opt_json JFloat (mmc_min_value c)), (''max_value'', opt_json JFloat (mmc_max_value c))]"

definition mqtt_backoff_doc :: "mqtt_reconnect_backoff \<Rightarrow> fields" where
  "mqtt_backoff_doc c = [(''min'', JFloat (mrb_min c)), (''max'', JFloat (mrb_max c))]"

definition mqtt_settings_doc :: "mqtt_settings \<Rightarrow> fields" where
  "mqtt_settings_doc c = [(''host'', JStr (mqs_host c)), (''port'', nat_json (mqs_port c)), (''use_tls'', JBool (mqs_use_tls c)),
     (''ca_file'', opt_json JStr (mqs_ca_file c)), (''client_cert'', opt_json JStr (mqs_client_cert c)),
     (''client_key'', opt_json JStr (mqs_client_key c)), (''username'', opt_json JStr (mqs_username c)),
     (''password_file'', opt_json JStr (mqs_password_file c)),
     (''reconnect_backoff'', JObject (mqtt_backoff_doc (mqs_reconnect_backoff c)))]"

definition mqtt_doc :: "mqtt_config \<Rightarrow> fields" where
  "mqtt_doc c = [(''settings'', JObject (mqtt_settings_doc (mqc_settings c))),
     (''mappings'', JList (map (JObject \<circ> mqtt_mapping_doc) (mqc_mappings c)))]"

definition broker_doc :: "broker_config \<Rightarrow> fields" where
  "broker_doc c = [(''type'', JStr (brc_type c)), (''enabled'', JBool (brc_enabled c)), (''options'', JObject (brc_options c))]"

definition gateway_doc :: "gateway_config \<Rightarrow> json_value" where
  "gateway_doc c = JObject [(''service'', JObject (service_doc (gc_service c))),
     (''bus'', JObject (bus_doc (nat (gc_request_queue_size c), gc_response_timeout_ms c))),
     (''tracing'', opt_json (JObject \<circ> tracing_doc) (gc_tracing c)),
     (''security'', opt_json (JObject \<circ> security_doc) (gc_security c)),
     (''frontends'', JList (map (JObject \<circ> frontend_doc) (gc_frontends c))),
     (''backends'', JList (map (JObject \<circ> backend_doc) (gc_backends c))),
     (''routes'', JList (map (JObject \<circ> route_doc) (gc_routes c))),
     (''mqtt'', opt_json (JObject \<circ> mqtt_doc) (gc_mqtt c)),
     (''brokers'', JList (map (JObject \<circ> broker_doc) (gc_brokers c)))]"

section \<open>A document is read back\<close>

lemma json_not_null [simp]: "nat_json n \<noteq> JNull" "strings_json xs \<noteq> JNull"
  by (simp_all add: nat_json_def strings_json_def)

lemma those_map_back: "(\<And>x. x \<in> set xs \<Longrightarrow> read (f x) = Some x) \<Longrightarrow> those (map (read \<circ> f) xs) = Some xs"
  by (induction xs) simp_all

lemma read_back_basic:
  "read_str (JStr s) = Some s" "path_normal p \<Longrightarrow> read_path (JStr p) = Some p"
  "s \<in> set allowed \<Longrightarrow> read_literal allowed (JStr s) = Some s"
  "keeps_exact pd \<Longrightarrow> 0 < n \<Longrightarrow> read_positive_int pd (nat_json n) = Some n"
  "keeps_exact pd \<Longrightarrow> 0 < i \<Longrightarrow> read_positive_int pd (JInt i) = Some (nat i)"
  "keeps_exact pd \<Longrightarrow> 0 < r \<Longrightarrow> read_positive_float pd (JFloat r) = Some r"
  "keeps_exact pd \<Longrightarrow> pd_int pd (JInt i) = Some i" "keeps_exact pd \<Longrightarrow> pd_float pd (JFloat r) = Some r"
  "keeps_exact pd \<Longrightarrow> pd_bool pd (JBool b) = Some b"
  "keeps_exact pd \<Longrightarrow> int_or_star v \<Longrightarrow> read_int_or_star pd (pattern_json v) = Some v"
  by (auto simp: read_path_def path_normal_def read_literal_def keeps_exact_def read_positive_int_def nat_json_def
      read_positive_float_def int_or_star_def read_int_or_star_def)

lemma read_back_nullable:
  "(\<And>y. x = Some y \<Longrightarrow> f y \<noteq> JNull \<and> read (f y) = Some y) \<Longrightarrow> read_nullable read (opt_json f x) = Some x"
  by (cases x) (simp_all add: read_nullable_def opt_json_def)

lemma read_back_list:
  "(\<And>x. x \<in> set xs \<Longrightarrow> read (f x) = Some x) \<Longrightarrow> read_list read (JList (map f xs)) = Some xs"
  by (simp add: those_map_back)

lemma read_back_strings: "read_list read_str (strings_json xs) = Some xs"
  unfolding strings_json_def by (rule read_back_list) simp

lemma read_back_literals:
  "set xs \<subseteq> set allowed \<Longrightarrow> read_list (read_literal allowed) (strings_json xs) = Some xs"
  unfolding strings_json_def by (rule read_back_list) (auto simp: read_literal_def)

lemma read_back_positive:
  "keeps_exact pd \<Longrightarrow> x \<noteq> Some 0 \<Longrightarrow> read_nullable (read_positive_int pd) (opt_json nat_json x) = Some x"
  by (rule read_back_nullable) (use read_back_basic(4) in auto)

lemma read_back_optional_literal:
  "x \<in> insert None (Some ` set allowed) \<Longrightarrow> read_nullable (read_literal allowed) (opt_json JStr x) = Some x"
  by (rule read_back_nullable) (auto simp: read_back_basic)

lemmas read_back = read_back_basic read_back_nullable read_back_strings read_back_literals read_back_positive read_back_optional_literal
  required_def default_to_def

text \<open>The classes.\<close>

lemma service_back:
  "keeps_exact pd \<Longrightarrow> service_valid c \<Longrightarrow> service_paths c \<Longrightarrow> read_service pd (service_doc c) = Some c"
  by (simp add: read_service_def service_doc_def read_back service_valid_def service_paths_def opt_path_normal_def)

lemma bus_back: "keeps_exact pd \<Longrightarrow> 0 < fst b \<Longrightarrow> 0 < snd b \<Longrightarrow> read_bus pd (bus_doc b) = Some b"
  by (simp add: read_bus_def bus_doc_def read_back)

lemma tracing_back: "keeps_exact pd \<Longrightarrow> opt_path_normal (trc_file c) \<Longrightarrow> read_tracing pd (tracing_doc c) = Some c"
  by (simp add: read_tracing_def tracing_doc_def read_back opt_path_normal_def)

lemma rate_limit_back: "keeps_exact pd \<Longrightarrow> rate_limit_valid c \<Longrightarrow> read_rate_limit pd (rate_limit_doc c) = Some c"
  by (simp add: read_rate_limit_def rate_limit_doc_def read_back rate_limit_valid_def)

lemma security_back: "keeps_exact pd \<Longrightarrow> security_valid c \<Longrightarrow> read_security pd (security_doc c) = Some c"
  by (simp add: read_security_def security_doc_def read_back rate_limit_back security_valid_def)

lemma retry_back: "keeps_exact pd \<Longrightarrow> retry_valid c \<Longrightarrow> read_retry pd (retry_doc c) = Some c"
  by (simp add: read_retry_def retry_doc_def read_back retry_valid_def)

lemma frontend_base_back:
  "keeps_exact pd \<Longrightarrow> frontend_base_valid c \<Longrightarrow> read_frontend_base pd (frontend_base_doc c @ d) = Some c"
  by (simp add: read_frontend_base_def frontend_base_doc_def read_back retry_back rate_limit_back frontend_base_valid_def)

lemma frontend_base_keys:
  "key \<noteq> ''retry'' \<Longrightarrow> key \<noteq> ''rate_limit'' \<Longrightarrow> dict_get (frontend_base_doc c @ d) key = dict_get d key"
  by (simp add: frontend_base_doc_def)

lemma tls_back: "keeps_exact pd \<Longrightarrow> tls_paths c \<Longrightarrow> read_tls pd (tls_doc c) = Some c"
  by (simp add: read_tls_def tls_doc_def read_back tls_paths_def opt_path_normal_def)

lemma serial_rtu_socket_back:
  assumes "keeps_exact pd" and "frontend_valid (SerialRtuSocketConfig c)" and "frontend_paths (SerialRtuSocketConfig c)"
  shows "read_serial_rtu_socket pd (frontend_doc (SerialRtuSocketConfig c)) = Some c"
  using assms by (simp add: read_serial_rtu_socket_def read_back frontend_base_back frontend_base_keys del: map_of_append)

lemma unix_modbus_tcp_back:
  assumes "keeps_exact pd" and "frontend_valid (UnixModbusTcpConfig c)" and "frontend_paths (UnixModbusTcpConfig c)"
  shows "read_unix_modbus_tcp pd (frontend_doc (UnixModbusTcpConfig c)) = Some c"
  using assms by (simp add: read_unix_modbus_tcp_def read_back frontend_base_back frontend_base_keys del: map_of_append)

lemma tcp_modbus_frontend_back:
  assumes "keeps_exact pd" and "frontend_valid (TcpModbusFrontendConfig c)" and "frontend_paths (TcpModbusFrontendConfig c)"
  shows "read_tcp_modbus_frontend pd (frontend_doc (TcpModbusFrontendConfig c)) = Some c"
  using assms by (simp add: read_tcp_modbus_frontend_def read_back frontend_base_back frontend_base_keys tls_back del: map_of_append)

lemma frontend_doc_type:
  "dict_get (frontend_doc c) ''type'' = Some (JStr (case c of SerialRtuSocketConfig _ \<Rightarrow> ''serial_rtu_socket''
     | UnixModbusTcpConfig _ \<Rightarrow> ''unix_modbus_tcp'' | TcpModbusFrontendConfig _ \<Rightarrow> ''tcp_modbus_tcp''))"
  by (cases c) (simp_all add: frontend_base_keys del: map_of_append)

lemma frontend_back:
  "keeps_exact pd \<Longrightarrow> frontend_valid c \<Longrightarrow> frontend_paths c \<Longrightarrow> read_frontend pd (frontend_doc c) = Some c"
  by (cases c) (simp_all add: read_frontend_def required_def frontend_doc_type serial_rtu_socket_back unix_modbus_tcp_back
      tcp_modbus_frontend_back del: frontend_doc.simps frontend_valid.simps frontend_paths.simps)

lemma serial_backend_back:
  assumes "keeps_exact pd" and "backend_valid (SerialBackendConfig c)" and "backend_paths (SerialBackendConfig c)"
  shows "read_serial_backend pd (backend_doc (SerialBackendConfig c)) = Some c"
  using assms by (simp add: read_serial_backend_def read_back retry_back serial_backend_valid_def)

lemma tcp_backend_back:
  assumes "keeps_exact pd" and "backend_valid (TcpBackendConfig c)" and "backend_paths (TcpBackendConfig c)"
  shows "read_tcp_backend pd (backend_doc (TcpBackendConfig c)) = Some c"
  using assms by (simp add: read_tcp_backend_def read_back tls_back tcp_backend_valid_def)

lemma backend_doc_type:
  "dict_get (backend_doc c) ''type'' =
     Some (JStr (case c of SerialBackendConfig _ \<Rightarrow> ''pyserial'' | TcpBackendConfig _ \<Rightarrow> ''tcp_modbus''))"
  by (cases c) simp_all

lemma backend_back:
  "keeps_exact pd \<Longrightarrow> backend_valid c \<Longrightarrow> backend_paths c \<Longrightarrow> read_backend pd (backend_doc c) = Some c"
  by (cases c) (simp_all add: read_backend_def required_def backend_doc_type serial_backend_back tcp_backend_back
      del: backend_doc.simps backend_valid.simps backend_paths.simps)

lemma range_back: "keeps_exact pd \<Longrightarrow> range_valid c \<Longrightarrow> read_range pd (range_doc c) = Some c"
  by (simp add: read_range_def range_doc_def read_back range_valid_def)

lemma route_match_back: "keeps_exact pd \<Longrightarrow> route_match_valid c \<Longrightarrow> read_route_match pd (route_match_doc c) = Some c"
  by (simp add: read_route_match_def route_match_doc_def read_back read_back_list range_back route_match_valid_def list_all_iff
      del: read_list.simps)

lemma route_constraints_back:
  "keeps_exact pd \<Longrightarrow> route_constraints_valid c \<Longrightarrow> read_route_constraints pd (route_constraints_doc c) = Some c"
  by (simp add: read_route_constraints_def route_constraints_doc_def read_back route_constraints_valid_def)

lemma route_back: "keeps_exact pd \<Longrightarrow> route_valid c \<Longrightarrow> read_route pd (route_doc c) = Some c"
  by (simp add: read_route_def route_doc_def read_back route_match_back route_constraints_back route_valid_def)

lemma mqtt_mapping_back: "keeps_exact pd \<Longrightarrow> mqtt_mapping_valid c \<Longrightarrow> read_mqtt_mapping pd (mqtt_mapping_doc c) = Some c"
  by (simp add: read_mqtt_mapping_def mqtt_mapping_doc_def read_back mqtt_mapping_valid_def)

lemma mqtt_backoff_back: "keeps_exact pd \<Longrightarrow> mqtt_backoff_valid c \<Longrightarrow> read_mqtt_backoff pd (mqtt_backoff_doc c) = Some c"
  by (simp add: read_mqtt_backoff_def mqtt_backoff_doc_def read_back mqtt_backoff_valid_def)

lemma mqtt_settings_back:
  "keeps_exact pd \<Longrightarrow> 0 < mqs_port c \<Longrightarrow> mqtt_backoff_valid (mqs_reconnect_backoff c) \<Longrightarrow> mqtt_paths c \<Longrightarrow>
     read_mqtt_settings pd (mqtt_settings_doc c) = Some c"
  by (simp add: read_mqtt_settings_def mqtt_settings_doc_def read_back mqtt_backoff_back mqtt_paths_def opt_path_normal_def)

lemma mqtt_back:
  "keeps_exact pd \<Longrightarrow> mqtt_valid c \<Longrightarrow> mqtt_paths (mqc_settings c) \<Longrightarrow> read_mqtt pd (mqtt_doc c) = Some c"
  by (simp add: read_mqtt_def mqtt_doc_def read_back read_back_list mqtt_settings_back mqtt_mapping_back mqtt_valid_def
      list_all_iff del: read_list.simps)

lemma broker_back: "keeps_exact pd \<Longrightarrow> broker_valid c \<Longrightarrow> read_broker pd (broker_doc c) = Some c"
  by (simp add: read_broker_def broker_doc_def read_back broker_valid_def)

lemma gateway_config_back:
  assumes "keeps_exact pd" and "gateway_config_valid c" and "gateway_paths c"
  shows "model_validate pd (gateway_doc c) = Inr c"
  using assms
  by (simp add: model_validate_def read_gateway_config_def gateway_doc_def read_back read_back_list service_back bus_back
      tracing_back security_back frontend_back backend_back route_back mqtt_back broker_back gateway_config_valid_def
      gateway_paths_def list_all_iff del: read_list.simps)

section \<open>Properties\<close>

text \<open>C28. Which configurations the gateway can be started with: when pydantic keeps a value that already has
  the type of its field, validation accepts some document as a configuration exactly when every bound
  and every literal type of the models holds of it, at every depth, and its paths are in normal form;
  and the configuration written out with every field, defaults included, is read back as itself. A
  document that is not accepted raises \<open>ValueError\<close>.\<close>

theorem accepted_configurations:
  assumes "keeps_exact pd"
  shows "((\<exists>data. model_validate pd data = Inr config) \<longleftrightarrow> gateway_config_valid config \<and> gateway_paths config) \<and>
    (\<forall>data. model_validate pd data = Inr config \<longrightarrow> model_validate pd (gateway_doc config) = Inr config) \<and>
    (\<forall>data. (\<forall>c. model_validate pd data \<noteq> Inr c) \<longrightarrow> model_validate pd data = Inl (ValueError (pd_message pd data)))"
proof (intro conjI allI impI iffI)
  fix data
  show "model_validate pd (gateway_doc config) = Inr config" if "model_validate pd data = Inr config"
    using model_validate_valid [OF that] by (rule gateway_config_back [OF assms])
  show "model_validate pd data = Inl (ValueError (pd_message pd data))" if "\<forall>c. model_validate pd data \<noteq> Inr c"
    using that by (auto simp: model_validate_def split: option.splits)
next
  assume "gateway_config_valid config \<and> gateway_paths config"
  then show "\<exists>data. model_validate pd data = Inr config" using gateway_config_back [OF assms] by blast
qed (use model_validate_valid in blast)+

text \<open>The example of \<open>README.md\<close>, and what it configures. Integers are taken for floats and truth values
  for integers.\<close>

definition sample_pydantic :: pydantic where
  "sample_pydantic =
     \<lparr>pd_int = (\<lambda>j. case j of JInt i \<Rightarrow> Some i | JBool b \<Rightarrow> Some (if b then 1 else 0) | _ \<Rightarrow> None),
      pd_float = (\<lambda>j. case j of JFloat r \<Rightarrow> Some r | JInt i \<Rightarrow> Some (of_int i) | _ \<Rightarrow> None),
      pd_bool = (\<lambda>j. case j of JBool b \<Rightarrow> Some b | _ \<Rightarrow> None),
      pd_message = (\<lambda>_. ''validation error for GatewayConfig'')\<rparr>"

definition readme_route :: "string \<Rightarrow> json_value" where
  "readme_route frontend = JObject [(''frontend'', JStr frontend), (''backend'', JStr ''hardware_serial''),
     (''match'', JObject [(''unit_ids'', JList [JStr ''*'']), (''function_codes'', JList [JStr ''*''])]),
     (''mirror_to_mqtt'', JList [])]"

definition readme_document :: json_value where
  "readme_document = JObject [
     (''service'', JObject [(''log_level'', JStr ''INFO''), (''pid_file'', JStr ''/var/run/modbusgw.pid''),
        (''state_dir'', JStr ''/var/modbusgw/''), (''reload_grace_seconds'', JInt 5)]),
     (''bus'', JObject [(''request_queue_size'', JInt 64), (''response_timeout_ms'', JInt 1500)]),
     (''frontends'', JList [
        JObject [(''id'', JStr ''virtual_serial_rtu''), (''type'', JStr ''serial_rtu_socket''),
          (''socket_path'', JStr ''/var/modbusgw/ttyBus0''), (''pty_mode'', JStr ''rw''),
          (''idle_close_seconds'', JInt 600), (''frame_timeout_ms'', JFloat 5)],
        JObject [(''id'', JStr ''frontend_tcp''), (''type'', JStr ''tcp_modbus_tcp''), (''host'', JStr ''192.0.2.1''),
          (''port'', JInt 1234), (''cidr_allow'', JList [JStr ''127.0.0.0/8'', JStr ''192.0.2.0/24''])]]),
     (''backends'', JList [
        JObject [(''id'', JStr ''hardware_serial''), (''type'', JStr ''pyserial''), (''device'', JStr ''/dev/ttyU0''),
          (''baudrate'', JInt 9600), (''parity'', JStr ''N''), (''stop_bits'', JInt 1), (''request_timeout_ms'', JInt 1200)]]),
     (''routes'', JList [readme_route ''virtual_serial_rtu'', readme_route ''frontend_tcp''])]"

definition any_route :: "string \<Rightarrow> route_config" where
  "any_route frontend = \<lparr>route_frontend = frontend, route_backend = ''hardware_serial'',
     route_match = \<lparr>rmc_unit_ids = [PyStr ''*''], rmc_function_codes = [PyStr ''*''], rmc_register_range = None,
       rmc_operations = None\<rparr>,
     route_unit_override = None, route_mirror_to_mqtt = [], route_allow_write = True, route_fallback_backend = None,
     route_op_constraints = None\<rparr>"

definition readme_config :: gateway_config where
  "readme_config = \<lparr>
     gc_service = \<lparr>svc_log_level = ''INFO'', svc_pid_file = ''/var/run/modbusgw.pid'', svc_state_dir = ''/var/modbusgw'',
       svc_log_file = None, svc_reload_grace_seconds = 5\<rparr>,
     gc_request_queue_size = 64,
     gc_frontends = [
       SerialRtuSocketConfig \<lparr>srs_id = ''virtual_serial_rtu'', srs_socket_path = ''/var/modbusgw/ttyBus0'',
         srs_frame_timeout_ms = 5, srs_idle_close_seconds = 600, srs_base = frontend_base_default\<rparr>,
       TcpModbusFrontendConfig \<lparr>tmf_id = ''frontend_tcp'', tmf_host = ''192.0.2.1'', tmf_port = 1234, tmf_tls = None,
         tmf_cidr_allow = [''127.0.0.0/8'', ''192.0.2.0/24''], tmf_base = frontend_base_default\<rparr>],
     gc_backends = [
       SerialBackendConfig \<lparr>sbc_id = ''hardware_serial'', sbc_device = ''/dev/ttyU0'', sbc_baudrate = 9600, sbc_parity = ''N'',
         sbc_stop_bits = 1, sbc_request_timeout_ms = 1200, sbc_inter_frame_gap_ms = None, sbc_retry = retry_default\<rparr>],
     gc_routes = [any_route ''virtual_serial_rtu'', any_route ''frontend_tcp''],
     gc_response_timeout_ms = 1500, gc_tracing = None, gc_security = None, gc_mqtt = None, gc_brokers = []\<rparr>"

lemma sample_pydantic_exact: "keeps_exact sample_pydantic"
  by (simp add: keeps_exact_def sample_pydantic_def)

lemma readme_document_read: "model_validate sample_pydantic readme_document = Inr readme_config"
  by code_simp

theorem accepted_configurations_witness:
  "model_validate sample_pydantic (gateway_doc readme_config) = Inr readme_config \<and> gateway_config_valid readme_config"
  using accepted_configurations [OF sample_pydantic_exact, of readme_config] readme_document_read by blast

end
