(* ===== verification/Configured_Gateway.thy ===== *)
theory Configured_Gateway
  imports Application Dispatcher Serial_Backend Tcp_Backend Command_Line Config_Document
begin

text \<open>
  The backends that \<open>_build_backends\<close> of \<open>modbusgw/app.py\<close> makes of a configuration, behind one
  dispatcher with the router of that configuration. The plant is the state of all lines and of all
  pools, each under the identifier of its backend. A configuration is read by \<open>load_config\<close> of
  \<open>modbusgw/config/loader.py\<close>; reading a file, parsing JSON and how the package pydantic converts
  numbers and truth values are arguments. The last section shows which configurations an unregistered
  function code brings down.
\<close>

section \<open>Loading a configuration\<close>

record config_source =
  cs_read_text :: "string \<Rightarrow> string result"
  cs_parse_json :: "string \<Rightarrow> json_value result"
  cs_pydantic :: pydantic

definition load_config :: "(string \<Rightarrow> string) \<Rightarrow> config_source \<Rightarrow> string option \<Rightarrow> gateway_config result" where
  "load_config expanduser src path =
     (let cfg_path = expanduser (case path of
            None \<Rightarrow> default_config
          | Some p \<Rightarrow> if p = [] then default_config else p)
      in bind_result (cs_read_text src cfg_path) (\<lambda>text.
         bind_result (cs_parse_json src text) (model_validate (cs_pydantic src))))"

lemma loaded_config_valid: "load_config expanduser src path = Inr config \<Longrightarrow> gateway_config_valid config"
  by (auto simp: load_config_def Let_def bind_result_Inr_iff dest: model_validate_valid)

section \<open>The plant\<close>

record ('d, 'e) plant =
  pl_lines :: "string \<Rightarrow> serial_session option \<times> 'd serial_line"
  pl_peers :: "string \<Rightarrow> 'e tcp_state"

text \<open>A backend works on its own part of the plant.\<close>

definition on_part :: "('p \<Rightarrow> 's) \<Rightarrow> ('s \<Rightarrow> 'p \<Rightarrow> 'p) \<Rightarrow> 's backend \<Rightarrow> 'p backend" where
  "on_part get put submit routed w =
     (case submit routed (get w) of
        None \<Rightarrow> None
      | Some (r, routed', s) \<Rightarrow> Some (r, routed', put s w))"

fun backend_submit ::
  "(string \<Rightarrow> 'd serial_device) \<Rightarrow> (string \<Rightarrow> 'e tcp_peer) \<Rightarrow> backend_config \<Rightarrow> ('d, 'e) plant backend" where
  "backend_submit device peer (SerialBackendConfig c) =
     on_part (\<lambda>w. pl_lines w (sbc_id c)) (\<lambda>s w. w\<lparr>pl_lines := (pl_lines w)(sbc_id c := s)\<rparr>)
       (serial_submit (line_ops (device (sbc_device c)) c) c)"
| "backend_submit device peer (TcpBackendConfig c) =
     on_part (\<lambda>w. pl_peers w (tbc_id c)) (\<lambda>s w. w\<lparr>pl_peers := (pl_peers w)(tbc_id c := s)\<rparr>)
       (tcp_submit (peer (tbc_host c)) c)"

definition configured_backends ::
  "(string \<Rightarrow> 'd serial_device) \<Rightarrow> (string \<Rightarrow> 'e tcp_peer) \<Rightarrow> gateway_config \<Rightarrow> ('d, 'e) plant backends" where
  "configured_backends device peer config =
     map (\<lambda>(name, c). (name, backend_submit device peer c)) (build_backends (gc_backends config))"

text \<open>Between two requests no connection of a pool is in use.\<close>

definition plant_idle :: "gateway_config \<Rightarrow> ('d, 'e) plant \<Rightarrow> bool" where
  "plant_idle config w \<longleftrightarrow> (\<forall>name c. dict_get (build_backends (gc_backends config)) name = Some (TcpBackendConfig c) \<longrightarrow>
     tcp_idle (tbc_pool_size c) (pl_peers w name))"

section \<open>Lemmas\<close>

lemma build_backends_snoc: "build_backends (cs @ [c]) = dict_set (backend_id c) c (build_backends cs)"
  by (simp add: build_backends_def)

lemma build_backends_get:
  "dict_get (build_backends configs) name = Some c \<Longrightarrow> c \<in> set configs \<and> backend_id c = name"
  "dict_get (build_backends configs) name = None \<longleftrightarrow> name \<notin> backend_id ` set configs"
proof (induction configs rule: rev_induct)
  case Nil
  { case 1 then show ?case by (simp add: build_backends_def)
  next case 2 then show ?case by (simp add: build_backends_def) }
next
  case (snoc d configs)
  { case 1 with snoc.IH(1) show ?case by (auto simp: build_backends_snoc split: if_splits)
  next case 2 with snoc.IH(2) show ?case by (auto simp: build_backends_snoc) }
qed

lemma distinct_build_backends: "distinct (map fst (build_backends configs))"
  by (induction configs rule: rev_induct) (simp_all add: build_backends_snoc, simp add: build_backends_def)

text \<open>A backend keeps its promises on its part of a plant.\<close>

lemma part_contract:
  assumes "backend_contract submit name ok" and "\<And>w. ok' w \<Longrightarrow> ok (get w)" and "\<And>s w. ok s \<Longrightarrow> ok' w \<Longrightarrow> ok' (put s w)"
  shows "backend_contract (on_part get put submit) name ok'"
proof unfold_locales
  fix w routed assume w: "ok' w"
  obtain res routed' s where "submit routed (get w) = Some (res, routed', s)" "ok s"
    using backend_contract.submit_returns [OF assms(1) assms(2) [OF w]] by blast
  with assms(3) [OF _ w] show "\<exists>res routed' w'. on_part get put submit routed w = Some (res, routed', w') \<and> ok' w'"
    by (simp add: on_part_def)
qed (use backend_contract.submit_tagged [OF assms(1)] backend_contract.submit_keeps_request [OF assms(1)] in
  \<open>auto simp: on_part_def split: option.splits\<close>)

lemma configured_backend_contract:
  assumes "gateway_config_valid config" and "dict_get (build_backends (gc_backends config)) name = Some c"
  shows "backend_contract (backend_submit device peer c) name (plant_idle config)"
proof -
  have c: "backend_id c = name" "c \<in> set (gc_backends config)" using build_backends_get(1) [OF assms(2)] by blast+
  show ?thesis
  proof (cases c)
    case (SerialBackendConfig s)
    have "backend_contract (backend_submit device peer (SerialBackendConfig s)) (sbc_id s) (plant_idle config)"
      unfolding backend_submit.simps by (rule part_contract [OF serial.backend_contract_axioms]) (simp_all add: plant_idle_def)
    with SerialBackendConfig c(1) show ?thesis by simp
  next
    case (TcpBackendConfig t)
    with c(1) have name: "tbc_id t = name" by simp
    have pool: "0 < tbc_pool_size t"
      using assms(1) c(2) TcpBackendConfig by (auto simp: gateway_config_valid_def tcp_backend_valid_def list_all_iff)
    have "backend_contract (backend_submit device peer (TcpBackendConfig t)) (tbc_id t) (plant_idle config)"
      unfolding backend_submit.simps
      by (rule part_contract [OF tcp.backend_contract_axioms])
        (use pool assms(2) in \<open>auto simp: name TcpBackendConfig plant_idle_def\<close>)
    with TcpBackendConfig name show ?thesis by simp
  qed
qed

lemma configured_backends_get:
  "dict_get (configured_backends device peer config) name =
     map_option (backend_submit device peer) (dict_get (build_backends (gc_backends config)) name)"
  by (simp add: configured_backends_def map_of_map)

lemma configured_backends_ok:
  assumes "gateway_config_valid config"
  shows "backends_ok (plant_idle config) (configured_backends device peer config)"
  using configured_backend_contract [OF assms] distinct_build_backends
  by (auto simp: backends_ok_def configured_backends_def)

lemma plant_idle_initially: "(\<And>name. \<exists>d. pl_peers w name = tcp_start d) \<Longrightarrow> plant_idle config w"
  unfolding plant_idle_def by (metis tcp_start_idle)

section \<open>Properties\<close>

text \<open>C3. Every request of a registered class is answered as the configuration says, whatever lines, devices
  and peers do: when a configuration file was loaded and no connection is in use, the dispatcher with the router
  and the backends of the configuration returns exactly one answer, for the frontend and under the
  identifier of the request, and no connection is in use afterwards. The first admitting route decides:
  without one the answer is \<open>no_route\<close>, for a backend that is not configured \<open>backend_not_found\<close>, and
  otherwise the answer of that backend or the error it ended with.\<close>

theorem configured_gateway_answers:
  assumes "load_config expanduser src path = Inr config"
    and "plant_idle config w" and "request_register (body (rr_pdu request)) = PyInt a"
  shows "\<exists>response w'.
    handle_request (build_router_from_config config) (configured_backends device peer config) request w =
      Some (Inr response, w') \<and> plant_idle config w' \<and> answers response request \<and>
    (case find (\<lambda>route. route_admits route request) (gc_routes config) of
       None \<Rightarrow> failure_answer response \<and> rs_error response = Some ''no_route'' \<and> w' = w
     | Some route \<Rightarrow>
         if route_backend route \<notin> backend_id ` set (gc_backends config)
         then failure_answer response \<and> rs_error response = Some ''backend_not_found'' \<and> w' = w
         else proper_answer (route_backend route) response \<or>
           (\<exists>e. failure_answer response \<and> rs_error response = Some (''backend_error:'' @ exn_str e)))"
proof -
  have routes: "find (\<lambda>rule. rule_admits rule request) (build_router_from_config config) =
      map_option route_rule (find (\<lambda>route. route_admits route request) (gc_routes config))"
    by (simp add: build_router_eq find_map rule_admits_route)
  note valid = loaded_config_valid [OF assms(1)]
  note verdict = dispatcher_answers_request [OF assms(3) configured_backends_ok [OF valid, of device peer] assms(2),
      of "build_router_from_config config", unfolded routes configured_backends_get]
  show ?thesis
  proof (cases "find (\<lambda>route. route_admits route request) (gc_routes config)")
    case None
    with verdict show ?thesis by simp
  next
    case (Some route)
    show ?thesis
      using verdict build_backends_get(2) [of "gc_backends config" "route_backend route"]
      by (cases "dict_get (build_backends (gc_backends config)) (route_backend route)")
        (simp_all add: Some route_rule_def)
  qed
qed

text \<open>The gateway of the example in \<open>README.md\<close>, with a device that does not answer.\<close>

theorem configured_gateway_answers_witness:
  "\<exists>response w'. handle_request (build_router_from_config readme_config)
      (configured_backends (\<lambda>_. replying_device []) (\<lambda>_. \<lparr>peer_connect = (\<lambda>d. (Inr [], d)), peer_react = (\<lambda>c f d. (Inr (), [Silence], d))\<rparr>)
        readme_config)
      (request_on ''frontend_tcp'' (new_pdu 1 (ReadInputRegistersRequest 10 2)))
      \<lparr>pl_lines = \<lambda>_. (None, quiet_line ()), pl_peers = \<lambda>_. tcp_start ()\<rparr> = Some (Inr response, w') \<and>
    plant_idle readme_config w' \<and> rs_error response \<noteq> Some ''no_route''"
proof -
  let ?r = "request_on ''frontend_tcp'' (new_pdu 1 (ReadInputRegistersRequest 10 2))"
  let ?w = "\<lparr>pl_lines = \<lambda>_. (None, quiet_line ()), pl_peers = \<lambda>_. tcp_start ()\<rparr>"
  let ?src = "\<lparr>cs_read_text = Inr, cs_parse_json = (\<lambda>_. Inr readme_document), cs_pydantic = sample_pydantic\<rparr>"
  have src: "load_config id ?src (Some ''gw.cfg'') = Inr readme_config"
    by (simp add: load_config_def readme_document_read)
  have i: "plant_idle readme_config ?w" by (rule plant_idle_initially) auto
  have reg: "request_register (body (rr_pdu ?r)) = PyInt 10" by (simp add: request_on_def new_pdu_def)
  have "find (\<lambda>route. route_admits route ?r) (gc_routes readme_config) = Some (any_route ''frontend_tcp'')"
    by (simp add: readme_config_def any_route_def route_admits_def request_on_def new_pdu_def listed_def)
  moreover have "route_backend (any_route ''frontend_tcp'') \<in> backend_id ` set (gc_backends readme_config)"
    by (simp add: readme_config_def any_route_def)
  ultimately show ?thesis
    using configured_gateway_answers [OF src i reg, of "\<lambda>_. replying_device []"
        "\<lambda>_. \<lparr>peer_connect = (\<lambda>d. (Inr [], d)), peer_react = (\<lambda>c f d. (Inr (), [Silence], d))\<rparr>"]
    by (fastforce simp: proper_answer_def)
qed

text \<open>C7. With the router of a configuration that was loaded, a request of an unregistered function
  code that waits for the dispatcher is settled by the first route whose frontend, units, function
  codes and operations it meets. When that route has a register range, the comparison of the
  range with the request raises \<open>TypeError\<close> outside the \<open>try\<close>: the request is consumed without an
  answer and the dispatcher task is dead for good, no later step of it is possible, \<open>start\<close> does
  not replace it and \<open>stop\<close> raises the same error and keeps it. Otherwise the dispatcher has an
  answer to publish. So the task dies exactly when that route has a range.\<close>

theorem raw_request_ends_dispatcher:
  assumes "load_config expanduser src path = Inr config" and "plant_idle config w"
    and "body (rr_pdu request) = RawModbusRequest payload f"
    and "contents b ''requests'' = RequestMsg request # rest"
  defines "err \<equiv> TypeError ''not supported between instances''"
  shows "\<exists>task b' w'. dispatcher_steps 2 run_tracer (build_router_from_config config)
      (configured_backends device peer config) DWaiting b w = Some (task, b', w') \<and>
    contents b' = (contents b)(''requests'' := rest) \<and>
    (if \<exists>route. find (\<lambda>route. route_reached route request) (gc_routes config) = Some route \<and>
          rmc_register_range (route_match route) \<noteq> None
     then task = DFailed err \<and> w' = w \<and>
       (\<forall>b w. dispatcher_step run_tracer (build_router_from_config config)
      (configured_backends device peer config) task b w = None) \<and>
       (\<forall>running. dispatcher_start \<lparr>disp_task = Some task, disp_running = running\<rparr> =
            \<lparr>disp_task = Some task, disp_running = running\<rparr> \<and>
          dispatcher_stop \<lparr>disp_task = Some task, disp_running = running\<rparr> =
            (Inl err, \<lparr>disp_task = Some task, disp_running = False\<rparr>))
     else \<exists>response. task = DPublishing response \<and> answers response request)"
proof -
  let ?rules = "build_router_from_config config"
  let ?backends = "configured_backends device peer config"
  obtain b1 where g: "bus_get b ''requests'' = (Some (RequestMsg request), b1)"
    "contents b1 = (contents b)(''requests'' := rest)"
    by (cases rule: bus_get_cases [of b "''requests''"]) (use assms(4) in auto)
  have ok: "backends_ok (plant_idle config) ?backends"
    by (rule configured_backends_ok [OF loaded_config_valid [OF assms(1)]])
  obtain res w' where h: "handle_request ?rules ?backends request w = Some (res, w')"
    using handle_request_returns [OF ok assms(2)] by blast
  have steps: "dispatcher_steps 2 run_tracer ?rules ?backends DWaiting b w =
      Some (case res of Inl e \<Rightarrow> DFailed e | Inr response \<Rightarrow> DPublishing response, b1, w')"
    by (cases res) (simp_all add: numeral_2_eq_2 dispatcher_step_def g(1) h)
  note raw = resolve_routes_raw [OF assms(3), of config, folded err_def]
  show ?thesis
  proof (cases "\<exists>route. find (\<lambda>route. route_reached route request) (gc_routes config) = Some route \<and>
      rmc_register_range (route_match route) \<noteq> None")
    case True
    then have "resolve ?rules (routed_value request) = Inl err" using raw by auto
    then have "res = Inl err" "w' = w" using h by (simp_all add: handle_request_def)
    with True steps g(2) show ?thesis
      by (simp add: dispatcher_step_def dispatcher_start_def dispatcher_stop_def)
  next
    case False
    then obtain plan where "resolve ?rules (routed_value request) = Inr plan"
      using raw by (cases "find (\<lambda>route. route_reached route request) (gc_routes config)") auto
    then obtain response where r: "res = Inr response"
      using h by (cases rule: handle_request_cases [of ?rules request ?backends w]) auto
    with handle_request_answers [OF ok] h have "answers response request" by blast
    with False steps g(2) r show ?thesis by simp
  qed
qed

text \<open>Reading the device identification (function code 43) behind a route for registers 1 to 99.\<close>

definition ranged_config :: gateway_config where
  "ranged_config = readme_config\<lparr>gc_routes := [(any_route ''frontend_tcp'')
     \<lparr>route_match := (route_match (any_route ''frontend_tcp''))
       \<lparr>rmc_register_range := Some \<lparr>range_start = 1, range_end = 99\<rparr>\<rparr>\<rparr>]\<rparr>"

lemma ranged_document_read: "model_validate sample_pydantic (gateway_doc ranged_config) = Inr ranged_config"
  by code_simp

theorem raw_request_ends_dispatcher_witness:
  "\<exists>err b' w'. dispatcher_steps 2 (\<lambda>(t :: unit) topic m. None) (build_router_from_config ranged_config)
      (configured_backends (\<lambda>_. replying_device []) (\<lambda>_. \<lparr>peer_connect = (\<lambda>d. (Inr [], d)), peer_react = (\<lambda>c f d. (Inr (), [Silence], d))\<rparr>)
        ranged_config)
      DWaiting
      \<lparr>bus_queue_size = 64,
       bus_topics = [(''requests'', [RequestMsg (request_on ''frontend_tcp'' (new_pdu 1 (RawModbusRequest [14, 1, 0] 43)))])],
       bus_tracers = [], bus_traced = []\<rparr>
      \<lparr>pl_lines = \<lambda>_. (None, quiet_line ()), pl_peers = \<lambda>_. tcp_start ()\<rparr> = Some (DFailed err, b', w') \<and>
    contents b' ''requests'' = []"
proof -
  define r where "r = request_on ''frontend_tcp'' (new_pdu 1 (RawModbusRequest [14, 1, 0] 43))"
  define b :: "(unit, gateway_message) bus" where
    "b = \<lparr>bus_queue_size = 64, bus_topics = [(''requests'', [RequestMsg r])], bus_tracers = [], bus_traced = []\<rparr>"
  let ?w = "\<lparr>pl_lines = \<lambda>_. (None, quiet_line ()), pl_peers = \<lambda>_. tcp_start ()\<rparr>"
  let ?src = "\<lparr>cs_read_text = Inr, cs_parse_json = (\<lambda>_. Inr (gateway_doc ranged_config)), cs_pydantic = sample_pydantic\<rparr>"
  have src: "load_config id ?src (Some ''gw.cfg'') = Inr ranged_config"
    by (simp add: load_config_def ranged_document_read)
  have i: "plant_idle ranged_config ?w" by (rule plant_idle_initially) auto
  have raw: "body (rr_pdu r) = RawModbusRequest [14, 1, 0] 43" by (simp add: r_def request_on_def new_pdu_def)
  have c: "contents b ''requests'' = RequestMsg r # []" by (simp add: b_def contents_def)
  have reached: "\<exists>route. find (\<lambda>route. route_reached route r) (gc_routes ranged_config) = Some route \<and>
      rmc_register_range (route_match route) \<noteq> None"
    by (simp add: ranged_config_def any_route_def route_reached_def r_def request_on_def new_pdu_def listed_def)
  show ?thesis
    using raw_request_ends_dispatcher [OF src i raw c, of "\<lambda>(t :: unit) topic m. None" "\<lambda>_. replying_device []"
        "\<lambda>_. \<lparr>peer_connect = (\<lambda>d. (Inr [], d)), peer_react = (\<lambda>c f d. (Inr (), [Silence], d))\<rparr>",
        unfolded if_P [OF reached]]
    unfolding b_def r_def by (elim exE conjE) (intro exI conjI, auto)
qed

end
