(* ===== verification/Client_Api.thy ===== *)
theory Client_Api
  imports Client_Transport Py_Values
begin

text \<open>
  \<open>modbusgw_client/api.py\<close>: the methods of \<open>ModbusClient\<close> over any transport, which is its
  \<open>execute\<close> and its state, and the constructors over the two transports. The module \<open>struct\<close>
  is an argument.
\<close>

section \<open>Client\<close>

record 'c modbus_client =
  mc_transport :: 'c
  mc_default_unit_id :: int

type_synonym 'c executor = "request \<Rightarrow> 'c \<Rightarrow> response result \<times> 'c"

definition client_serial :: "string \<Rightarrow> int \<Rightarrow> rat \<Rightarrow> 'd \<Rightarrow> 'd serial_client modbus_client" where
  "client_serial port unit timeout d =
     \<lparr>mc_transport = serial_client_init port timeout d, mc_default_unit_id = unit\<rparr>"

definition client_tcp ::
  "string \<Rightarrow> nat \<Rightarrow> int \<Rightarrow> bool \<Rightarrow> 'd \<Rightarrow> 'd tcp_client modbus_client result" where
  "client_tcp host port unit tls d =
     bind_result
       (tcp_client_init \<lparr>tcc_host = Some host, tcc_port = Some port, tcc_unix_socket = None, tcc_tls = tls\<rparr> d)
       (\<lambda>transport. Inr \<lparr>mc_transport = transport, mc_default_unit_id = unit\<rparr>)"

definition client_unix :: "string \<Rightarrow> int \<Rightarrow> 'd \<Rightarrow> 'd tcp_client modbus_client result" where
  "client_unix socket_path unit d =
     bind_result
       (tcp_client_init \<lparr>tcc_host = None, tcc_port = None, tcc_unix_socket = Some socket_path, tcc_tls = False\<rparr> d)
       (\<lambda>transport. Inr \<lparr>mc_transport = transport, mc_default_unit_id = unit\<rparr>)"

definition client_connect ::
  "('c \<Rightarrow> unit result \<times> 'c) \<Rightarrow> 'c modbus_client \<Rightarrow> unit result \<times> 'c modbus_client" where
  "client_connect connect mc =
     (case connect (mc_transport mc) of (r, t) \<Rightarrow> (r, mc\<lparr>mc_transport := t\<rparr>))"

definition client_close :: "('c \<Rightarrow> 'c) \<Rightarrow> 'c modbus_client \<Rightarrow> 'c modbus_client" where
  "client_close close mc = mc\<lparr>mc_transport := close (mc_transport mc)\<rparr>"

definition api_unit :: "'c modbus_client \<Rightarrow> int option \<Rightarrow> int" where
  "api_unit mc override = (case override of None \<Rightarrow> mc_default_unit_id mc | Some u \<Rightarrow> u)"

section \<open>Executing a request\<close>

text \<open>The classes an instance belongs to, its own first.\<close>

fun response_mro :: "response_body \<Rightarrow> string list" where
  "response_mro (ReadCoilsResponse _) = [''ReadCoilsResponse'', ''ModbusResponse'', ''ModbusPDU'']"
| "response_mro (ReadDiscreteInputsResponse _) =
     [''ReadDiscreteInputsResponse'', ''ReadCoilsResponse'', ''ModbusResponse'', ''ModbusPDU'']"
| "response_mro (ReadHoldingRegistersResponse _) =
     [''ReadHoldingRegistersResponse'', ''ModbusResponse'', ''ModbusPDU'']"
| "response_mro (ReadInputRegistersResponse _) =
     [''ReadInputRegistersResponse'', ''ReadHoldingRegistersResponse'', ''ModbusResponse'', ''ModbusPDU'']"
| "response_mro (WriteSingleCoilResponse _ _) = [''WriteSingleCoilResponse'', ''ModbusResponse'', ''ModbusPDU'']"
| "response_mro (WriteSingleRegisterResponse _ _) =
     [''WriteSingleRegisterResponse'', ''ModbusResponse'', ''ModbusPDU'']"
| "response_mro (WriteMultipleCoilsResponse _ _) =
     [''WriteMultipleCoilsResponse'', ''ModbusResponse'', ''ModbusPDU'']"
| "response_mro (WriteMultipleRegistersResponse _ _) =
     [''WriteMultipleRegistersResponse'', ''ModbusResponse'', ''ModbusPDU'']"
| "response_mro (ModbusExceptionResponse _ _) = [''ModbusExceptionResponse'', ''ModbusResponse'', ''ModbusPDU'']"
| "response_mro (RawModbusResponse _ _) = [''RawModbusResponse'', ''ModbusResponse'', ''ModbusPDU'']"

definition isinstance :: "response_body \<Rightarrow> string \<Rightarrow> bool" where
  "isinstance b cls \<longleftrightarrow> cls \<in> set (response_mro b)"

definition check_response :: "request \<Rightarrow> string option \<Rightarrow> response \<Rightarrow> response result" where
  "check_response request expected_type response =
     (case body response of
        ModbusExceptionResponse _ exception_code \<Rightarrow>
          Inl (ModbusServerError (client_function_code (body request)) exception_code)
      | b \<Rightarrow>
          (case expected_type of
             None \<Rightarrow> Inr response
           | Some cls \<Rightarrow>
               if \<not> isinstance b cls
               then Inl (ProtocolError (''Unexpected response type '' @ hd (response_mro b) @ '', expected '' @ cls))
               else Inr response))"

definition api_execute ::
  "'c executor \<Rightarrow> request \<Rightarrow> string option \<Rightarrow> 'c modbus_client \<Rightarrow> response result \<times> 'c modbus_client" where
  "api_execute exec request expected_type mc =
     (case exec request (mc_transport mc) of
        (r, t) \<Rightarrow> (bind_result r (check_response request expected_type), mc\<lparr>mc_transport := t\<rparr>))"

text \<open>Attributes of a response object.\<close>

fun attr_bits :: "response_body \<Rightarrow> bool list result" where
  "attr_bits (ReadCoilsResponse values) = Inr (client_response_bits values)"
| "attr_bits (ReadDiscreteInputsResponse values) = Inr (client_response_bits values)"
| "attr_bits _ = Inl (AttributeError ''object has no attribute bits'')"

fun attr_registers :: "response_body \<Rightarrow> int list result" where
  "attr_registers (ReadHoldingRegistersResponse values) = Inr values"
| "attr_registers (ReadInputRegistersResponse values) = Inr values"
| "attr_registers _ = Inl (AttributeError ''object has no attribute values'')"

fun attr_value :: "response_body \<Rightarrow> int result" where
  "attr_value (WriteSingleCoilResponse _ v) = Inr v"
| "attr_value (WriteSingleRegisterResponse _ v) = Inr v"
| "attr_value _ = Inl (AttributeError ''object has no attribute value'')"

fun attr_quantity :: "response_body \<Rightarrow> int result" where
  "attr_quantity (WriteMultipleCoilsResponse _ q) = Inr q"
| "attr_quantity (WriteMultipleRegistersResponse _ q) = Inr q"
| "attr_quantity _ = Inl (AttributeError ''object has no attribute quantity'')"

text \<open>Building the request, executing it, and taking the result out of the response.\<close>

definition api_call ::
  "'c executor \<Rightarrow> int option \<Rightarrow> request_body \<Rightarrow> string \<Rightarrow> (response_body \<Rightarrow> 'a result) \<Rightarrow>
     'c modbus_client \<Rightarrow> 'a result \<times> 'c modbus_client" where
  "api_call exec unit b expected_type attr mc =
     (case api_execute exec (new_pdu (api_unit mc unit) b) (Some expected_type) mc of
        (r, mc') \<Rightarrow> (bind_result r (\<lambda>response. attr (body response)), mc'))"

section \<open>Registers and struct formats\<close>

definition decode_registers :: "struct_module \<Rightarrow> int list \<Rightarrow> string option \<Rightarrow> py_arg list result" where
  "decode_registers struct values fmt =
     (case fmt of
        None \<Rightarrow> Inr (map IntArg values)
      | Some f \<Rightarrow>
          bind_result (traverse (\<lambda>v. struct_pack_H (v AND 0xFFFF)) values) (\<lambda>words.
            let raw = concat words in
            bind_result (sm_calcsize struct f) (\<lambda>expected.
              if expected \<noteq> length raw
              then Inl (ValueError (''fmt '' @ [CHR 0x27] @ f @ [CHR 0x27] @ '' expects '' @ nat_str expected @
                '' bytes, but register payload is '' @ nat_str (length raw) @ '' bytes''))
              else sm_unpack struct f raw)))"

fun pack_struct :: "struct_module \<Rightarrow> string \<Rightarrow> py_arg \<Rightarrow> bytes result" where
  "pack_struct struct fmt (BytesArg raw) = Inr raw"
| "pack_struct struct fmt (StrArg s) = Inl (TypeError ''fmt payload cannot be a string'')"
| "pack_struct struct fmt (ListArg xs) =
     (case sm_pack struct fmt xs of
        Inl (TypeError _) \<Rightarrow> sm_pack struct fmt [ListArg xs]
      | r \<Rightarrow> r)"
| "pack_struct struct fmt x = sm_pack struct fmt [x]"

definition encode_register_payload :: "struct_module \<Rightarrow> string \<Rightarrow> py_arg \<Rightarrow> int list result" where
  "encode_register_payload struct fmt val =
     bind_result (pack_struct struct fmt val) (\<lambda>raw.
       if length raw mod 2 \<noteq> 0
       then Inl (ValueError ''Formatted payload must cover a whole number of registers'')
       else Inr (unpack_words raw))"

section \<open>Methods\<close>

definition read_coils ::
  "'c executor \<Rightarrow> int \<Rightarrow> int \<Rightarrow> int option \<Rightarrow> 'c modbus_client \<Rightarrow> bool list result \<times> 'c modbus_client" where
  "read_coils exec address quantity unit mc =
     api_call exec unit (ReadCoilsRequest address quantity) ''ReadCoilsResponse''
       (\<lambda>b. bind_result (attr_bits b) (\<lambda>bits. Inr (slice_to bits quantity))) mc"

definition read_discrete_inputs ::
  "'c executor \<Rightarrow> int \<Rightarrow> int \<Rightarrow> int option \<Rightarrow> 'c modbus_client \<Rightarrow> bool list result \<times> 'c modbus_client" where
  "read_discrete_inputs exec address quantity unit mc =
     api_call exec unit (ReadDiscreteInputsRequest address quantity) ''ReadCoilsResponse''
       (\<lambda>b. bind_result (attr_bits b) (\<lambda>bits. Inr (slice_to bits quantity))) mc"

definition read_input_registers ::
  "struct_module \<Rightarrow> 'c executor \<Rightarrow> int \<Rightarrow> int \<Rightarrow> string option \<Rightarrow> int option \<Rightarrow> 'c modbus_client \<Rightarrow>
     py_arg list result \<times> 'c modbus_client" where
  "read_input_registers struct exec address quantity fmt unit mc =
     api_call exec unit (ReadInputRegistersRequest address quantity) ''ReadInputRegistersResponse''
       (\<lambda>b. bind_result (attr_registers b) (\<lambda>vs. decode_registers struct vs fmt)) mc"

definition read_holding_registers ::
  "struct_module \<Rightarrow> 'c executor \<Rightarrow> int \<Rightarrow> int \<Rightarrow> string option \<Rightarrow> int option \<Rightarrow> 'c modbus_client \<Rightarrow>
     py_arg list result \<times> 'c modbus_client" where
  "read_holding_registers struct exec address quantity fmt unit mc =
     api_call exec unit (ReadHoldingRegistersRequest address quantity) ''ReadHoldingRegistersResponse''
       (\<lambda>b. bind_result (attr_registers b) (\<lambda>vs. decode_registers struct vs fmt)) mc"

definition write_coil ::
  "'c executor \<Rightarrow> int \<Rightarrow> coil_value \<Rightarrow> int option \<Rightarrow> 'c modbus_client \<Rightarrow> bool result \<times> 'c modbus_client" where
  "write_coil exec address val unit mc =
     api_call exec unit (WriteSingleCoilRequest address val) ''WriteSingleCoilResponse''
       (\<lambda>b. bind_result (attr_value b) (\<lambda>v. Inr (v \<noteq> 0))) mc"

definition write_coils ::
  "'c executor \<Rightarrow> int \<Rightarrow> py_arg \<Rightarrow> int option \<Rightarrow> 'c modbus_client \<Rightarrow> int result \<times> 'c modbus_client" where
  "write_coils exec address vals unit mc =
     (case py_iter vals of
        Inl e \<Rightarrow> (Inl e, mc)
      | Inr vs \<Rightarrow>
          api_call exec unit (WriteMultipleCoilsRequest address (map py_bool vs)) ''WriteMultipleCoilsResponse''
            attr_quantity mc)"

text \<open>The packed registers of \<open>write_registers\<close>, whose \<open>values\<close> may be any iterable.\<close>

definition packed_registers :: "struct_module \<Rightarrow> string option \<Rightarrow> py_arg \<Rightarrow> int list result" where
  "packed_registers struct fmt vals =
     (case fmt of
        Some f \<Rightarrow> encode_register_payload struct f vals
      | None \<Rightarrow>
          bind_result (py_iter vals) (traverse (\<lambda>v. bind_result (py_int v) (\<lambda>k. Inr (k AND 0xFFFF)))))"

definition write_registers ::
  "struct_module \<Rightarrow> 'c executor \<Rightarrow> int \<Rightarrow> py_arg \<Rightarrow> int option \<Rightarrow> string option \<Rightarrow> 'c modbus_client \<Rightarrow>
     int result \<times> 'c modbus_client" where
  "write_registers struct exec address vals unit fmt mc =
     (case packed_registers struct fmt vals of
        Inl e \<Rightarrow> (Inl e, mc)
      | Inr packed \<Rightarrow>
          api_call exec unit (WriteMultipleRegistersRequest address packed) ''WriteMultipleRegistersResponse''
            attr_quantity mc)"

definition write_register ::
  "struct_module \<Rightarrow> 'c executor \<Rightarrow> int \<Rightarrow> py_arg \<Rightarrow> int option \<Rightarrow> string option \<Rightarrow> 'c modbus_client \<Rightarrow>
     int result \<times> 'c modbus_client" where
  "write_register struct exec address val unit fmt mc =
     (case (case fmt of
              Some f \<Rightarrow> encode_register_payload struct f val
            | None \<Rightarrow> bind_result (py_int val) (\<lambda>k. Inr [k AND 0xFFFF])) of
        Inl e \<Rightarrow> (Inl e, mc)
      | Inr [payload] \<Rightarrow>
          api_call exec unit (WriteSingleRegisterRequest address payload) ''WriteSingleRegisterResponse''
            attr_value mc
      | Inr registers \<Rightarrow>
          write_registers struct exec address (ListArg (map IntArg registers)) unit None mc)"

section \<open>Lemmas\<close>

lemma concat_pack_words:
  "traverse (\<lambda>v. struct_pack_H (v AND 0xFFFF)) vs = Inr (map (\<lambda>v. be16 (v mod 65536)) vs)"
  by (induction vs) (simp_all add: and_FFFF_eq_mod)

lemma client_words_concat:
  "even (length raw) \<Longrightarrow> concat (map (\<lambda>v. be16 (v mod 65536)) (unpack_words raw)) = raw"
  by (induction raw rule: unpack_words.induct) (simp_all add: u16_from_bytes_big_range be16_from_bytes)

context struct_laws
begin

text \<open>Registers made of packed integers are unpacked to the integers.\<close>

lemma decode_packed:
  assumes "int_format f" "sm_pack struct f (map IntArg ks) = Inr raw" "even (length raw)"
  shows "encode_register_payload struct f (ListArg (map IntArg ks)) = Inr (unpack_words raw)"
    and "decode_registers struct (unpack_words raw) (Some f) = Inr (map IntArg ks)"
proof -
  show "encode_register_payload struct f (ListArg (map IntArg ks)) = Inr (unpack_words raw)"
    using assms(2,3) by (simp add: encode_register_payload_def even_iff_mod_2_eq_zero)
  show "decode_registers struct (unpack_words raw) (Some f) = Inr (map IntArg ks)"
    using pack_size [OF assms(2)] unpack_pack [OF assms(1,2)] client_words_concat [OF assms(3)]
    by (simp add: decode_registers_def concat_pack_words Let_def)
qed

end

text \<open>A call that is answered with a response of the class it expects.\<close>

lemma api_call_answered:
  assumes "exec (new_pdu (api_unit mc unit) b) (mc_transport mc) = (Inr p, t)"
    and "isinstance (body p) cls" and "\<not> is_exception (body p)"
  shows "api_call exec unit b cls attr mc = (attr (body p), mc\<lparr>mc_transport := t\<rparr>)"
  using assms
  by (cases "body p") (simp_all add: api_call_def api_execute_def check_response_def)

lemma api_call_exception:
  assumes "exec (new_pdu (api_unit mc unit) b) (mc_transport mc) = (Inr p, t)"
    and "body p = ModbusExceptionResponse base code"
  shows "api_call exec unit b cls attr mc =
    (Inl (ModbusServerError (request_function_code b) code), mc\<lparr>mc_transport := t\<rparr>)"
  using assms by (simp add: api_call_def api_execute_def check_response_def new_pdu_def client_pdu_eqs)

text \<open>An exchange over TCP with nothing unread: what the peer sent is what is decoded.\<close>

lemma tcp_client_exchange:
  assumes "tcl_socket c = Some []" and "client_next_transaction_id (tcl_tx c) = (tx, counter)"
    and "0 \<le> tx" "tx < 65536" and "fst (request_to_adu request) = Inr adu"
    and "2 \<le> length adu" "length adu < 65536" "1 \<le> length reply" "length reply < 65536"
    and "cs_send server (be16 tx @ [0, 0] @ be16 (int (length adu)) @ adu) (tcl_server c) =
      (Inr (), map Arrive (be16 tx @ [0, 0] @ be16 (int (length reply)) @ reply), d)"
  shows "tcp_client_execute server request c =
    (response_from_adu reply None, c\<lparr>tcl_tx := counter, tcl_server := d, tcl_socket := Some []\<rparr>)"
proof -
  have frame: "build_mbap_frame tx adu = Inr (be16 tx @ [0, 0] @ be16 (int (length adu)) @ adu)"
    using assms(3-7) by (simp add: build_mbap_frame_Inr_iff)
  have "read_mbap (map Arrive (be16 tx @ [0, 0] @ be16 (int (length reply)) @ reply)) = (Inr (tx, reply), [])"
    using assms(3,4,8,9) read_mbap_Inr_iff [of _ tx reply "[]"] by simp
  with assms(1,2,5,10) frame show ?thesis by (simp add: tcp_client_execute_eq Let_def)
qed

lemma client_next_transaction_id_range:
  "client_next_transaction_id n = (tx, counter) \<Longrightarrow> 0 \<le> tx \<and> tx < 65536"
  by (auto simp: client_next_transaction_id_def and_FFFF_eq_mod Let_def split: if_splits)

lemma coils_response_decoded:
  assumes "length values < 256"
  shows "\<exists>p. response_from_adu ([u, 1, word_of_int (int (length values))] @ values) None = Inr p \<and>
    body p = ReadCoilsResponse values"
proof -
  have "bits_from_payload ReadCoilsResponse (word_of_int (int (length values)) # values) =
      Inr (ReadCoilsResponse values, word_of_int (int (length values)) # values)"
    by (rule dec_enc_bits) (simp add: encode_bits_response_Inr_iff assms)
  then show ?thesis
    by (simp add: response_from_adu_def from_adu_def split_adu_def response_from_payload_def
        attach_raw_def new_pdu_def)
qed

lemma exception_response_decoded:
  "\<exists>p. response_from_adu [u, 0x81, code] None = Inr p \<and> body p = ModbusExceptionResponse 1 (uint code)"
  by (simp add: response_from_adu_def from_adu_def split_adu_def response_from_payload_def
      exception_from_payload_def attach_raw_def new_pdu_def)

lemma response_bits_pack_coils: "take (length bits) (response_bits (pack_coils bits)) = bits"
proof (rule nth_equalityI)
  have "length bits \<le> 8 * ((length bits + 7) div 8)" by linarith
  then show len: "length (take (length bits) (response_bits (pack_coils bits))) = length bits"
    by (simp add: response_bits_def nat_mult_distrib min_def)
  fix i assume "i < length (take (length bits) (response_bits (pack_coils bits)))"
  with len have i: "i < length bits" by simp
  then have "i div 8 < length (pack_coils bits)" by simp
  moreover from this have "i < 8 * length (pack_coils bits)" by linarith
  ultimately show "take (length bits) (response_bits (pack_coils bits)) ! i = bits ! i"
    using i by (simp add: response_bits_def nth_unpack_coils nat_mult_distrib bit_pack_coils
        del: length_pack_coils)
qed

lemma read_request_encoded:
  assumes "0 \<le> unit" "unit < 256" "0 \<le> address" "address < 65536" "0 \<le> quantity" "quantity < 65536"
    and "encode_request b = struct_pack_HH address quantity" "request_function_code b = f" "0 \<le> f" "f < 256"
  shows "fst (request_to_adu (new_pdu unit b)) =
    Inr ([word_of_int unit, word_of_int f] @ be16 address @ be16 quantity)"
proof -
  have "struct_pack_HH address quantity = Inr (be16 address @ be16 quantity)"
    using assms(3-6) by (simp add: struct_pack_HH_def bind_result_def struct_pack_H_def)
  then show ?thesis using assms
    by (simp add: request_to_adu_def to_adu_def new_pdu_def py_bytes_def Let_def)
qed

section \<open>Properties\<close>

text \<open>The exchange of \<open>read_coils\<close>, and what the method makes of the two kinds of replies.\<close>

lemma read_coils_exchange:
  assumes "tcl_socket c = Some []" and "client_next_transaction_id (tcl_tx c) = (tx, counter)"
    and "0 \<le> unit" "unit < 256" and "0 \<le> address" "address < 65536"
    and "0 \<le> quantity" "quantity < 65536"
    and "cs_send server (be16 tx @ [0, 0, 0, 6, word_of_int unit, 1] @ be16 address @ be16 quantity) (tcl_server c) =
      (Inr (), map Arrive (be16 tx @ [0, 0] @ be16 (int (length reply)) @ reply), d)"
    and "1 \<le> length reply" "length reply < 65536"
  shows "tcp_client_execute server (new_pdu unit (ReadCoilsRequest address quantity)) c =
    (response_from_adu reply None, c\<lparr>tcl_tx := counter, tcl_server := d, tcl_socket := Some []\<rparr>)"
proof -
  note tx = client_next_transaction_id_range [OF assms(2)]
  have adu: "fst (request_to_adu (new_pdu unit (ReadCoilsRequest address quantity))) =
      Inr ([word_of_int unit, 1] @ be16 address @ be16 quantity)"
    using read_request_encoded [OF assms(3-8), of "ReadCoilsRequest address quantity" 1] by simp
  have sent: "cs_send server (be16 tx @ [0, 0] @ be16 (int (length ([word_of_int unit, 1] @ be16 address @ be16 quantity))) @
        [word_of_int unit, 1] @ be16 address @ be16 quantity) (tcl_server c) =
      (Inr (), map Arrive (be16 tx @ [0, 0] @ be16 (int (length reply)) @ reply), d)"
    using assms(9) by (simp add: be16_def [of 6])
  show ?thesis
    by (rule tcp_client_exchange [OF assms(1,2) _ _ adu _ _ assms(10,11) sent]) (use tx in simp_all)
qed

lemma read_coils_answered:
  assumes "exec (new_pdu unit (ReadCoilsRequest address quantity)) c =
      (response_from_adu ([u, 1, word_of_int (int (length (pack_coils bits)))] @ pack_coils bits) None, c')"
    and "int (length bits) = quantity" "quantity \<le> 2040"
  shows "read_coils exec address quantity (Some unit) \<lparr>mc_transport = c, mc_default_unit_id = k\<rparr> =
    (Inr bits, \<lparr>mc_transport = c', mc_default_unit_id = k\<rparr>)"
proof -
  let ?b = "ReadCoilsRequest address quantity" and ?mc = "\<lparr>mc_transport = c, mc_default_unit_id = k\<rparr>"
  from assms(2,3) have "length bits \<le> 2040" by linarith
  then have n: "length (pack_coils bits) < 256" by simp
  obtain p where p: "response_from_adu ([u, 1, word_of_int (int (length (pack_coils bits)))] @ pack_coils bits) None = Inr p"
    "body p = ReadCoilsResponse (pack_coils bits)"
    using coils_response_decoded [OF n, of u] by auto
  have "exec (new_pdu (api_unit ?mc (Some unit)) ?b) (mc_transport ?mc) = (Inr p, c')"
    using assms(1) p(1) by (simp add: api_unit_def)
  moreover have "isinstance (body p) ''ReadCoilsResponse''" "\<not> is_exception (body p)"
    by (simp_all add: p(2) isinstance_def)
  ultimately have "api_call exec (Some unit) ?b ''ReadCoilsResponse'' attr ?mc =
      (attr (body p), ?mc\<lparr>mc_transport := c'\<rparr>)" for attr :: "response_body \<Rightarrow> bool list result"
    by (rule api_call_answered)
  moreover have "slice_to (response_bits (pack_coils bits)) quantity = bits"
    using assms(2) by (auto simp: slice_to_def response_bits_pack_coils)
  ultimately show ?thesis by (simp add: read_coils_def p(2) client_pdu_eqs)
qed

lemma read_coils_refused:
  assumes "exec (new_pdu unit (ReadCoilsRequest address quantity)) c = (response_from_adu [u, 0x81, code] None, c')"
  shows "read_coils exec address quantity (Some unit) \<lparr>mc_transport = c, mc_default_unit_id = k\<rparr> =
    (Inl (ModbusServerError 1 (uint code)), \<lparr>mc_transport = c', mc_default_unit_id = k\<rparr>)"
proof -
  let ?b = "ReadCoilsRequest address quantity" and ?mc = "\<lparr>mc_transport = c, mc_default_unit_id = k\<rparr>"
  obtain p where p: "response_from_adu [u, 0x81, code] None = Inr p" "body p = ModbusExceptionResponse 1 (uint code)"
    using exception_response_decoded [of u code] by auto
  have "exec (new_pdu (api_unit ?mc (Some unit)) ?b) (mc_transport ?mc) = (Inr p, c')"
    using assms p(1) by (simp add: api_unit_def)
  from api_call_exception [where exec = exec and mc = ?mc and unit = "Some unit" and b = ?b, OF this p(2)]
  show ?thesis by (simp add: read_coils_def)
qed

text \<open>Reading coils over TCP, from the method to the bytes on the wire and back: for a unit,
  address and quantity in range, \<open>read_coils\<close> sends the frame of function 1 under the next
  transaction identifier; when the server answers with the packed values of as many coils, they are
  the result, and when it answers with an exception code, \<open>ModbusServerError\<close> carries function and
  code. The connection stays open.\<close>

theorem read_coils_over_tcp:
  assumes "tcl_socket c = Some []" and "client_next_transaction_id (tcl_tx c) = (tx, counter)"
    and "0 \<le> unit" "unit < 256" and "0 \<le> address" "address < 65536"
    and "0 \<le> quantity" "quantity \<le> 2040"
    and "cs_send server (be16 tx @ [0, 0, 0, 6, word_of_int unit, 1] @ be16 address @ be16 quantity) (tcl_server c) =
      (Inr (), map Arrive (be16 tx @ [0, 0] @ be16 (int (length reply)) @ reply), d)"
  shows "(\<forall>u bits. int (length bits) = quantity \<and>
        reply = [u, 1, word_of_int (int (length (pack_coils bits)))] @ pack_coils bits \<longrightarrow>
        read_coils (tcp_client_execute server) address quantity (Some unit) \<lparr>mc_transport = c, mc_default_unit_id = k\<rparr> =
        (Inr bits, \<lparr>mc_transport = c\<lparr>tcl_tx := counter, tcl_server := d, tcl_socket := Some []\<rparr>,
                    mc_default_unit_id = k\<rparr>)) \<and>
    (\<forall>u code. reply = [u, 0x81, code] \<longrightarrow>
        read_coils (tcp_client_execute server) address quantity (Some unit) \<lparr>mc_transport = c, mc_default_unit_id = k\<rparr> =
        (Inl (ModbusServerError 1 (uint code)),
         \<lparr>mc_transport = c\<lparr>tcl_tx := counter, tcl_server := d, tcl_socket := Some []\<rparr>, mc_default_unit_id = k\<rparr>))"
proof -
  let ?c' = "c\<lparr>tcl_tx := counter, tcl_server := d, tcl_socket := Some []\<rparr>"
  have q: "quantity < 65536" using assms(8) by simp
  note exchange = read_coils_exchange [OF assms(1-7) q assms(9)]
  have "read_coils (tcp_client_execute server) address quantity (Some unit) \<lparr>mc_transport = c, mc_default_unit_id = k\<rparr> =
      (Inr bits, \<lparr>mc_transport = ?c', mc_default_unit_id = k\<rparr>)"
    if "int (length bits) = quantity" "reply = [u, 1, word_of_int (int (length (pack_coils bits)))] @ pack_coils bits" for u bits
  proof -
    from that(1) assms(8) have "length bits \<le> 2040" by linarith
    then have "length (pack_coils bits) < 256" by simp
    with that(2) have "1 \<le> length reply" "length reply < 65536" by simp_all
    from read_coils_answered [where exec = "tcp_client_execute server" and u = u and bits = bits and c' = ?c' and c = c and unit = unit,
      OF exchange [OF this, unfolded that(2)] that(1) assms(8)] show ?thesis by simp
  qed
  moreover have "read_coils (tcp_client_execute server) address quantity (Some unit) \<lparr>mc_transport = c, mc_default_unit_id = k\<rparr> =
      (Inl (ModbusServerError 1 (uint code)), \<lparr>mc_transport = ?c', mc_default_unit_id = k\<rparr>)"
    if "reply = [u, 0x81, code]" for u code
    using read_coils_refused [where exec = "tcp_client_execute server"] exchange that by simp
  ultimately show ?thesis by blast
qed

text \<open>A server whose first three coils are set, clear, set.\<close>

definition coil_server :: "unit client_server" where
  "coil_server = \<lparr>cs_connect = (\<lambda>d. (Inr [], d)),
     cs_send = (\<lambda>frame d. (Inr (), map Arrive (take 4 frame @ be16 4 @ [7, 1, 1, 5]), d))\<rparr>"

theorem read_coils_over_tcp_witness:
  "fst (read_coils (tcp_client_execute coil_server) 0 3 (Some 7)
      \<lparr>mc_transport = \<lparr>tcl_config = \<lparr>tcc_host = Some ''gw'', tcc_port = Some 502, tcc_unix_socket = None, tcc_tls = False\<rparr>,
         tcl_socket = Some [], tcl_tx = 65536, tcl_server = ()\<rparr>, mc_default_unit_id = 1\<rparr>) = Inr [True, False, True]"
proof -
  let ?c = "\<lparr>tcl_config = \<lparr>tcc_host = Some ''gw'', tcc_port = Some 502, tcc_unix_socket = None, tcc_tls = False\<rparr>,
         tcl_socket = Some [], tcl_tx = 65536, tcl_server = ()\<rparr>"
  let ?reply = "[7, 1, 1, 5] :: bytes"
  have c: "tcl_socket ?c = Some []" "client_next_transaction_id (tcl_tx ?c) = (1, 65538)"
    by (simp_all add: client_next_transaction_id_def and_FFFF_eq_mod Let_def)
  have sent: "cs_send coil_server (be16 1 @ [0, 0, 0, 6, word_of_int 7, 1] @ be16 0 @ be16 3) (tcl_server ?c) =
      (Inr (), map Arrive (be16 1 @ [0, 0] @ be16 (int (length ?reply)) @ ?reply), ())"
    by (simp add: coil_server_def be16_def)
  have bits: "?reply = [7, 1, word_of_int (int (length (pack_coils [True, False, True])))] @ pack_coils [True, False, True]"
    by code_simp
  have n: "int (length [True, False, True]) = 3" by simp
  have "read_coils (tcp_client_execute coil_server) 0 3 (Some 7) \<lparr>mc_transport = ?c, mc_default_unit_id = 1\<rparr> =
      (Inr [True, False, True], \<lparr>mc_transport = ?c\<lparr>tcl_tx := 65538, tcl_server := (), tcl_socket := Some []\<rparr>,
         mc_default_unit_id = 1\<rparr>)"
    by (rule read_coils_over_tcp [OF c _ _ _ _ _ _ sent, THEN conjunct1, rule_format, OF _ _ _ _ _ _ conjI [OF n bits]])
      simp_all
  then show ?thesis by simp
qed

text \<open>C35. Values written under an integer format of \<open>struct\<close> come back: when the values pack to whole
  registers, \<open>write_registers\<close> sends registers from which \<open>read_holding_registers\<close> (of any client,
  over any transport, for the same format) gives back exactly these values.\<close>

theorem formatted_registers_roundtrip:
  assumes "struct_laws struct" and "int_format f"
    and "sm_pack struct f (map IntArg ks) = Inr raw" and "even (length raw)"
  shows "\<exists>registers. 2 * length registers = length raw \<and> (\<forall>r \<in> set registers. 0 \<le> r \<and> r < 65536) \<and>
    write_registers struct exec address (ListArg (map IntArg ks)) unit (Some f) mc =
      api_call exec unit (WriteMultipleRegistersRequest address registers) ''WriteMultipleRegistersResponse''
        attr_quantity mc \<and>
    (\<forall>(exec' :: 'e executor) p t mc'. exec' (new_pdu (api_unit mc' unit') (ReadHoldingRegistersRequest address quantity))
         (mc_transport mc') = (Inr p, t) \<and> body p = ReadHoldingRegistersResponse registers \<longrightarrow>
       read_holding_registers struct exec' address quantity (Some f) unit' mc' =
       (Inr (map IntArg ks), mc'\<lparr>mc_transport := t\<rparr>))"
proof (intro exI conjI ballI allI impI)
  note packed = struct_laws.decode_packed [OF assms]
  show "2 * length (unpack_words raw) = length raw"
    using assms(4) by (induction raw rule: unpack_words.induct) simp_all
  fix r assume "r \<in> set (unpack_words raw)"
  then show "0 \<le> r" "r < 65536"
    by (induction raw rule: unpack_words.induct) (auto simp: u16_from_bytes_big_range)
next
  note packed = struct_laws.decode_packed [OF assms]
  show "write_registers struct exec address (ListArg (map IntArg ks)) unit (Some f) mc =
      api_call exec unit (WriteMultipleRegistersRequest address (unpack_words raw)) ''WriteMultipleRegistersResponse''
        attr_quantity mc"
    by (simp add: write_registers_def packed_registers_def packed)
  fix exec' :: "'e executor" and p t mc'
  assume e: "exec' (new_pdu (api_unit mc' unit') (ReadHoldingRegistersRequest address quantity))
         (mc_transport mc') = (Inr p, t) \<and> body p = ReadHoldingRegistersResponse (unpack_words raw)"
  then show "read_holding_registers struct exec' address quantity (Some f) unit' mc' =
       (Inr (map IntArg ks), mc'\<lparr>mc_transport := t\<rparr>)"
    by (simp add: read_holding_registers_def api_call_answered isinstance_def packed)
qed

text \<open>A device that keeps the registers last written to it.\<close>

definition register_device :: "int list executor" where
  "register_device req registers =
     (case body req of
        WriteMultipleRegistersRequest address values \<Rightarrow>
          (Inr (new_pdu (unit_id req) (WriteMultipleRegistersResponse address (int (length values)))), values)
      | ReadHoldingRegistersRequest address quantity \<Rightarrow>
          (Inr (new_pdu (unit_id req) (ReadHoldingRegistersResponse registers)), registers)
      | _ \<Rightarrow> (Inl (TransportError ''unsupported''), registers))"

theorem formatted_registers_roundtrip_witness:
  "fst (read_holding_registers int_struct register_device 16 3 (Some ''>Hi'') None
      (snd (write_registers int_struct register_device 16 (ListArg (map IntArg [500, - 2])) None (Some ''>Hi'')
         \<lparr>mc_transport = [], mc_default_unit_id = 1\<rparr>))) = Inr (map IntArg [500, - 2])"
proof -
  let ?mc = "\<lparr>mc_transport = [] :: int list, mc_default_unit_id = 1\<rparr>"
  have raw: "sm_pack int_struct ''>Hi'' (map IntArg [500, - 2]) = Inr [1, 0xF4, 0xFF, 0xFF, 0xFF, 0xFE]"
    by code_simp
  have f: "int_format ''>Hi''" by (simp add: int_format_def)
  have "even (length [1, 0xF4, 0xFF, 0xFF, 0xFF, 0xFE :: byte])" by simp
  from formatted_registers_roundtrip [OF int_struct.struct_laws_axioms f raw this, of register_device 16 None ?mc None 3]
  obtain registers where
    written: "write_registers int_struct register_device 16 (ListArg (map IntArg [500, - 2])) None (Some ''>Hi'') ?mc =
      api_call register_device None (WriteMultipleRegistersRequest 16 registers) ''WriteMultipleRegistersResponse''
        attr_quantity ?mc" and
    readback: "\<And>(exec' :: int list executor) p t mc'. exec' (new_pdu (api_unit mc' None) (ReadHoldingRegistersRequest 16 3))
         (mc_transport mc') = (Inr p, t) \<and> body p = ReadHoldingRegistersResponse registers \<Longrightarrow>
       read_holding_registers int_struct exec' 16 3 (Some ''>Hi'') None mc' =
       (Inr (map IntArg [500, - 2]), mc'\<lparr>mc_transport := t\<rparr>)"
    by (elim exE conjE) (rule that, assumption, blast)
  have sent: "snd (api_call register_device None (WriteMultipleRegistersRequest 16 registers)
      ''WriteMultipleRegistersResponse'' attr_quantity ?mc) = ?mc\<lparr>mc_transport := registers\<rparr>"
    by (subst api_call_answered [where t = registers and p = "new_pdu 1 (WriteMultipleRegistersResponse 16 (int (length registers)))"])
      (simp_all add: register_device_def api_unit_def isinstance_def new_pdu_def)
  show ?thesis unfolding written sent
    by (subst readback [where p = "new_pdu 1 (ReadHoldingRegistersResponse registers)"])
    (simp_all add: register_device_def api_unit_def new_pdu_def)
qed

end
