(* ===== verification/Client_Through_Gateway.thy ===== *)
theory Client_Through_Gateway
  imports Gateway_Path Client_Api
begin

text \<open>
  The client library against the gateway: the server that \<open>TcpClient\<close> of \<open>modbusgw_client\<close> is
  connected to is the gateway itself, with a Modbus/TCP frontend, dispatcher, responder and a serial
  line behind it. A frame that the client writes arrives at its connection; what the frontend writes
  to that connection arrives at the client. One order of the tasks is chosen: the connection, the
  dispatcher, the responder, as far as they can go for one request.
\<close>

section \<open>The gateway as the server of a client\<close>

record ('t, 'd) gateway_peer =
  gp_server :: mbap_server
  gp_bus :: "('t, gateway_message) bus"
  gp_line :: "serial_session option \<times> 'd serial_line"

text \<open>What was written to a connection beyond the first \<open>n\<close> frames.\<close>

definition written_since :: "nat \<Rightarrow> nat \<Rightarrow> mbap_server \<Rightarrow> bytes" where
  "written_since n conn fe = concat (map snd (filter (\<lambda>(writer, _). writer = conn) (drop n (ms_written fe))))"

definition gateway_round ::
  "('t \<Rightarrow> string \<Rightarrow> gateway_message \<Rightarrow> exn option) \<Rightarrow> (string \<Rightarrow> int \<Rightarrow> (string \<times> pyval) list) \<Rightarrow> router \<Rightarrow>
   (serial_session option \<times> 'd serial_line) backends \<Rightarrow> nat \<Rightarrow> bytes \<Rightarrow> ('t, 'd) gateway_peer \<Rightarrow>
   unit result \<times> stream_event list \<times> ('t, 'd) gateway_peer" where
  "gateway_round run_tracer metadata rules backends conn bs gp =
     (case dict_get (ms_conns (gp_server gp)) conn of
        None \<Rightarrow> (Inl (ConnectionError ''Connection reset by peer''), [], gp)
      | Some c \<Rightarrow>
          (let fe = set_client conn (c\<lparr>cc_incoming := cc_incoming c @ map Arrive bs\<rparr>) (gp_server gp) in
           case client_steps 3 run_tracer metadata conn fe (gp_bus gp) of
             None \<Rightarrow> (Inr (), [], gp\<lparr>gp_server := fe\<rparr>)
           | Some (fe1, b1) \<Rightarrow>
               (case dispatcher_steps 3 run_tracer rules backends DWaiting b1 (gp_line gp) of
                  Some (DWaiting, b2, w) \<Rightarrow>
                    (case responder_steps 2 server_handle_response RWaiting b2 [(ms_name fe, fe1)] of
                       Some (RWaiting, b3, frontends) \<Rightarrow>
                         (case dict_get frontends (ms_name fe) of
                            Some fe2 \<Rightarrow> (Inr (), map Arrive (written_since (length (ms_written fe)) conn fe2),
                                \<lparr>gp_server = fe2, gp_bus = b3, gp_line = w\<rparr>)
                          | None \<Rightarrow> (Inr (), [], \<lparr>gp_server = fe1, gp_bus = b3, gp_line = w\<rparr>))
                     | _ \<Rightarrow> (Inr (), [], \<lparr>gp_server = fe1, gp_bus = b2, gp_line = w\<rparr>))
                | _ \<Rightarrow> (Inr (), [], gp\<lparr>gp_server := fe1, gp_bus := b1\<rparr>))))"

definition gateway_as_server ::
  "('t \<Rightarrow> string \<Rightarrow> gateway_message \<Rightarrow> exn option) \<Rightarrow> (string \<Rightarrow> int \<Rightarrow> (string \<times> pyval) list) \<Rightarrow> router \<Rightarrow>
   (serial_session option \<times> 'd serial_line) backends \<Rightarrow> nat \<Rightarrow> ('t, 'd) gateway_peer client_server" where
  "gateway_as_server run_tracer metadata rules backends conn =
     \<lparr>cs_connect = (\<lambda>gp. (Inr [], gp)), cs_send = gateway_round run_tracer metadata rules backends conn\<rparr>"

section \<open>Lemmas\<close>

text \<open>The round that answers a frame of the client.\<close>

lemma gateway_round_answers:
  assumes "server_reachable run_tracer tag (gp_server gp) (gp_bus gp)"
    and "dict_get (ms_conns (gp_server gp)) conn = Some c" and "cc_task c = AwaitHeader" and "cc_incoming c = []"
    and "0 \<le> tid" "tid < 65536" "length adu < 65536"
    and "request_from_adu adu None = Inr request" and "request_register (body request) = PyInt a"
    and "contents (gp_bus gp) ''requests'' = []" and "contents (gp_bus gp) ''responses'' = []"
    and "\<And>t k m. run_tracer t k m = None"
    and "find (\<lambda>rule. rule_admits rule (routed_frame metadata (ms_name (gp_server gp)) (cc_client_id c) tid request)) rules =
      Some rule" and "rule_backend rule = sbc_id config"
    and "unit = (case rule_unit_override rule of Some u \<Rightarrow> u | None \<Rightarrow> unit_id request)"
    and "0 \<le> unit" "unit < 256"
    and "dict_get backends (sbc_id config) = Some (serial_submit (line_ops dev config) config)"
    and "gp_line gp = (None, l)" and "dev_open dev (line_device l) = (Inr [], d1)"
    and "\<And>frame q. request_from_adu frame None = Inr q \<Longrightarrow> body q = body request \<Longrightarrow> unit_id q = unit \<Longrightarrow>
      dev_react dev (frame @ le16 (crc16_modbus frame)) d1 =
        (Inr (), map Arrive (reply @ le16 (crc16_modbus reply)) @ late, duration, d2)"
    and "response_from_adu reply None = Inr response" and "length reply \<le> 254"
    and "\<And>n. 4 \<le> n \<Longrightarrow> n < length reply + 2 \<Longrightarrow>
      \<not> has_valid_crc (take n (reply @ le16 (crc16_modbus reply)))"
    and "0 < max_attempts (sbc_retry config)"
  obtains gp' out p where
    "gateway_round run_tracer metadata rules backends conn (be16 tid @ [0, 0] @ be16 (int (length adu)) @ adu) gp =
      (Inr (), map Arrive (be16 tid @ [0, 0] @ be16 (int (length out)) @ out), gp')"
    "length out < 65536" "response_from_adu out None = Inr p" "body p = body response" "unit_id p = unit_id response"
proof -
  let ?bs = "be16 tid @ [0, 0] @ be16 (int (length adu)) @ adu"
  let ?c = "c\<lparr>cc_incoming := cc_incoming c @ map Arrive ?bs\<rparr>"
  let ?fe = "set_client conn ?c (gp_server gp)"
  have r: "server_reachable run_tracer tag ?fe (gp_bus gp)" by (rule srv_arrive [OF assms(1,2)])
  have c: "dict_get (ms_conns ?fe) conn = Some ?c" "cc_task ?c = AwaitHeader" "cc_incoming ?c = map Arrive ?bs @ []"
    "cc_client_id ?c = cc_client_id c" "ms_name ?fe = ms_name (gp_server gp)"
    by (simp_all add: set_client_def assms(3,4))
  note route = assms(13) [folded c(4,5)]
  obtain fe1 b1 b2 w' b3 frontends' fe2 out p sent q where s:
    "client_steps 3 run_tracer metadata conn ?fe (gp_bus gp) = Some (fe1, b1)"
    "dispatcher_steps 3 run_tracer rules backends DWaiting b1 (None, l) = Some (DWaiting, b2, w')"
    "responder_steps 2 server_handle_response RWaiting b2 (dict_set (ms_name ?fe) fe1 []) = Some (RWaiting, b3, frontends')"
    "dict_get frontends' (ms_name ?fe) = Some fe2"
    "ms_written fe2 = ms_written ?fe @ [(conn, be16 tid @ [0, 0] @ be16 (int (length out)) @ out)]"
    "2 \<le> length out" "length out < 65536"
    "response_from_adu out None = Inr p" "body p = body response" "unit_id p = unit_id response"
    by (rule request_round [where run_tracer = run_tracer and frontends = "[]",
        OF r c(1-3) assms(5-12) route assms(14-18,20-25)])
  have "written_since (length (ms_written ?fe)) conn fe2 = be16 tid @ [0, 0] @ be16 (int (length out)) @ out"
    by (simp add: written_since_def s(5))
  with s(1-4) have "gateway_round run_tracer metadata rules backends conn ?bs gp =
      (Inr (), map Arrive (be16 tid @ [0, 0] @ be16 (int (length out)) @ out),
       \<lparr>gp_server = fe2, gp_bus = b3, gp_line = w'\<rparr>)"
    by (simp add: gateway_round_def assms(2,19) Let_def
        del: client_steps.simps dispatcher_steps.simps responder_steps.simps)
  then show thesis by (rule that [OF _ s(7-10)])
qed

text \<open>One call of \<open>execute\<close>, with the gateway at the other end of the connection.\<close>

lemma client_reaches_the_device:
  assumes "tcl_socket c = Some []" and "client_next_transaction_id (tcl_tx c) = (tx, counter)"
    and "fst (request_to_adu question) = Inr adu" and "length adu < 65536"
    and "server_reachable run_tracer tag (gp_server (tcl_server c)) (gp_bus (tcl_server c))"
    and "dict_get (ms_conns (gp_server (tcl_server c))) conn = Some cc" and "cc_task cc = AwaitHeader" and "cc_incoming cc = []"
    and "request_from_adu adu None = Inr request" and "request_register (body request) = PyInt a"
    and "contents (gp_bus (tcl_server c)) ''requests'' = []" and "contents (gp_bus (tcl_server c)) ''responses'' = []"
    and "\<And>t k m. run_tracer t k m = None"
    and "find (\<lambda>rule. rule_admits rule
        (routed_frame metadata (ms_name (gp_server (tcl_server c))) (cc_client_id cc) tx request)) rules = Some rule"
    and "rule_backend rule = sbc_id config"
    and "unit = (case rule_unit_override rule of Some u \<Rightarrow> u | None \<Rightarrow> unit_id request)"
    and "0 \<le> unit" "unit < 256"
    and "dict_get backends (sbc_id config) = Some (serial_submit (line_ops dev config) config)"
    and "gp_line (tcl_server c) = (None, l)" and "dev_open dev (line_device l) = (Inr [], d1)"
    and "\<And>frame q. request_from_adu frame None = Inr q \<Longrightarrow> body q = body request \<Longrightarrow> unit_id q = unit \<Longrightarrow>
      dev_react dev (frame @ le16 (crc16_modbus frame)) d1 =
        (Inr (), map Arrive (reply @ le16 (crc16_modbus reply)) @ late, duration, d2)"
    and "response_from_adu reply None = Inr response" and "length reply \<le> 254"
    and "\<And>n. 4 \<le> n \<Longrightarrow> n < length reply + 2 \<Longrightarrow>
      \<not> has_valid_crc (take n (reply @ le16 (crc16_modbus reply)))"
    and "0 < max_attempts (sbc_retry config)"
  obtains p gp where
    "tcp_client_execute (gateway_as_server run_tracer metadata rules backends conn) question c =
      (Inr p, c\<lparr>tcl_tx := counter, tcl_server := gp, tcl_socket := Some []\<rparr>)"
    "body p = body response" "unit_id p = unit_id response"
proof -
  let ?server = "gateway_as_server run_tracer metadata rules backends conn"
  let ?frame = "be16 tx @ [0, 0] @ be16 (int (length adu)) @ adu"
  have tx: "0 \<le> tx" "tx < 65536" using client_next_transaction_id_range [OF assms(2)] by simp_all
  have frame: "build_mbap_frame tx adu = Inr ?frame"
    using tx assms(4) request_from_adu_length [OF assms(9)] by (simp add: build_mbap_frame_Inr_iff)
  obtain gp out p where r: "gateway_round run_tracer metadata rules backends conn ?frame (tcl_server c) =
      (Inr (), map Arrive (be16 tx @ [0, 0] @ be16 (int (length out)) @ out), gp)"
    "length out < 65536" "response_from_adu out None = Inr p" "body p = body response" "unit_id p = unit_id response"
    by (rule gateway_round_answers [where run_tracer = run_tracer, OF assms(5-8) tx assms(4,9-26)])
  then have send: "cs_send ?server ?frame (tcl_server c) =
      (Inr (), map Arrive (be16 tx @ [0, 0] @ be16 (int (length out)) @ out), gp)"
    by (simp add: gateway_as_server_def)
  show thesis
    by (rule that [OF tcp_client_executeI [where rest = "[]", OF assms(1-3) frame send _ r(2,3)] r(4,5)]) simp
qed

text \<open>A request to read registers arrives as it was asked.\<close>

lemma register_request_travels:
  assumes "0 \<le> unit" "unit < 256" "0 \<le> address" "address < 65536" "0 \<le> quantity" "quantity < 65536"
  obtains adu q where "fst (request_to_adu (new_pdu unit (ReadHoldingRegistersRequest address quantity))) = Inr adu"
    "length adu = 6" "request_from_adu adu None = Inr q"
    "body q = ReadHoldingRegistersRequest address quantity" "unit_id q = unit"
proof -
  let ?adu = "[word_of_int unit, 3] @ be16 address @ be16 quantity"
  have "fst (request_to_adu (new_pdu unit (ReadHoldingRegistersRequest address quantity))) = Inr ?adu"
    using read_request_encoded [OF assms, of "ReadHoldingRegistersRequest address quantity" 3] by simp
  moreover have "\<exists>q. request_from_adu ?adu None = Inr q \<and> body q = ReadHoldingRegistersRequest address quantity \<and> unit_id q = unit"
    using assms by (simp add: request_from_adu_def from_adu_def split_adu_def request_from_payload_def attach_raw_def
        new_pdu_def two_words_from_payload_be16)
  ultimately show thesis by (auto intro: that)
qed

text \<open>What \<open>read_holding_registers\<close> makes of the response it gets.\<close>

fun registers_outcome :: "response_body \<Rightarrow> py_arg list result" where
  "registers_outcome (ReadHoldingRegistersResponse values) = Inr (map IntArg values)"
| "registers_outcome (ReadInputRegistersResponse values) = Inr (map IntArg values)"
| "registers_outcome (ModbusExceptionResponse base code) = Inl (ModbusServerError 3 code)"
| "registers_outcome b = Inl (ProtocolError
     (''Unexpected response type '' @ hd (response_mro b) @ '', expected ReadHoldingRegistersResponse''))"

lemma read_holding_registers_outcome:
  assumes "exec (new_pdu unit (ReadHoldingRegistersRequest address quantity)) c = (Inr p, c')"
  shows "read_holding_registers struct exec address quantity None (Some unit) \<lparr>mc_transport = c, mc_default_unit_id = k\<rparr> =
    (registers_outcome (body p), \<lparr>mc_transport = c', mc_default_unit_id = k\<rparr>)"
  using assms
  by (cases "body p") (simp_all add: read_holding_registers_def api_call_def api_execute_def api_unit_def
      check_response_def isinstance_def decode_registers_def client_pdu_eqs new_pdu_def)

section \<open>Properties\<close>

text \<open>C4. Registers are read through the gateway: a client of the library whose connection ends at a
  Modbus/TCP frontend of the gateway calls \<open>read_holding_registers\<close>; the first rule that admits the
  request routes it to a serial backend, and the device there answers it, under the unit of the route,
  with a frame that has no shorter valid prefix. Then the call returns the values of the device's
  response, and raises \<open>ModbusServerError\<close> with its code when the response is an exception. The
  connection stays open, with nothing unread.\<close>

theorem registers_are_read_through_the_gateway:
  assumes "tcl_socket c = Some []" and "client_next_transaction_id (tcl_tx c) = (tx, counter)"
    and "0 \<le> unit" "unit < 256" and "0 \<le> address" "address < 65536" and "0 \<le> quantity" "quantity < 65536"
    and "server_reachable run_tracer tag (gp_server (tcl_server c)) (gp_bus (tcl_server c))"
    and "dict_get (ms_conns (gp_server (tcl_server c))) conn = Some cc" and "cc_task cc = AwaitHeader" and "cc_incoming cc = []"
    and "contents (gp_bus (tcl_server c)) ''requests'' = []" and "contents (gp_bus (tcl_server c)) ''responses'' = []"
    and "\<And>t k m. run_tracer t k m = None"
    and "\<And>q. body q = ReadHoldingRegistersRequest address quantity \<Longrightarrow> unit_id q = unit \<Longrightarrow>
      find (\<lambda>rule. rule_admits rule
        (routed_frame metadata (ms_name (gp_server (tcl_server c))) (cc_client_id cc) tx q)) rules = Some rule"
    and "rule_backend rule = sbc_id config"
    and "target = (case rule_unit_override rule of Some u \<Rightarrow> u | None \<Rightarrow> unit)" and "0 \<le> target" "target < 256"
    and "dict_get backends (sbc_id config) = Some (serial_submit (line_ops dev config) config)"
    and "gp_line (tcl_server c) = (None, l)" and "dev_open dev (line_device l) = (Inr [], d1)"
    and "\<And>frame q. request_from_adu frame None = Inr q \<Longrightarrow> body q = ReadHoldingRegistersRequest address quantity \<Longrightarrow>
      unit_id q = target \<Longrightarrow> dev_react dev (frame @ le16 (crc16_modbus frame)) d1 =
        (Inr (), map Arrive (reply @ le16 (crc16_modbus reply)) @ late, duration, d2)"
    and "response_from_adu reply None = Inr response" and "length reply \<le> 254"
    and "\<And>n. 4 \<le> n \<Longrightarrow> n < length reply + 2 \<Longrightarrow>
      \<not> has_valid_crc (take n (reply @ le16 (crc16_modbus reply)))"
    and "0 < max_attempts (sbc_retry config)"
  shows "\<exists>gp. \<forall>struct k. \<exists>r.
    read_holding_registers struct (tcp_client_execute (gateway_as_server run_tracer metadata rules backends conn))
      address quantity None (Some unit) \<lparr>mc_transport = c, mc_default_unit_id = k\<rparr> =
      (r, \<lparr>mc_transport = c\<lparr>tcl_tx := counter, tcl_server := gp, tcl_socket := Some []\<rparr>, mc_default_unit_id = k\<rparr>) \<and>
    (\<forall>values. body response = ReadHoldingRegistersResponse values \<longrightarrow> r = Inr (map IntArg values)) \<and>
    (\<forall>base code. body response = ModbusExceptionResponse base code \<longrightarrow> r = Inl (ModbusServerError 3 code))"
proof -
  let ?exec = "tcp_client_execute (gateway_as_server run_tracer metadata rules backends conn)"
  let ?question = "ReadHoldingRegistersRequest address quantity"
  obtain adu q where travel: "fst (request_to_adu (new_pdu unit ?question)) = Inr adu" "length adu = 6"
    "request_from_adu adu None = Inr q" "body q = ?question" "unit_id q = unit"
    by (rule register_request_travels [OF assms(3-8)])
  have short: "length adu < 65536" using travel(2) by simp
  have register: "request_register (body q) = PyInt address" by (simp add: travel(4))
  obtain p gp where r: "?exec (new_pdu unit ?question) c =
      (Inr p, c\<lparr>tcl_tx := counter, tcl_server := gp, tcl_socket := Some []\<rparr>)" "body p = body response"
    by (rule client_reaches_the_device [where run_tracer = run_tracer, OF assms(1,2) travel(1) short assms(9-12)
          travel(3) register assms(13-15) assms(16) [OF travel(4,5)] assms(17) assms(18) [folded travel(5)]
          assms(19-23) assms(24) [folded travel(4)] assms(25-28)])
  have "(r2, \<lparr>mc_transport = c\<lparr>tcl_tx := counter, tcl_server := gp, tcl_socket := Some []\<rparr>, mc_default_unit_id = k\<rparr>) =
      read_holding_registers struct ?exec address quantity None (Some unit) \<lparr>mc_transport = c, mc_default_unit_id = k\<rparr>"
    if "r2 = registers_outcome (body response)" for struct k r2
    using read_holding_registers_outcome [where exec = ?exec, OF r(1)] r(2) that by simp
  then show ?thesis by (intro exI [of _ gp] allI exI [of _ "registers_outcome (body response)"]) auto
qed

text \<open>A client of the library on a connection of the gateway, with a line behind it whose device answers
  that a register holds 7.\<close>

definition waiting_server :: mbap_server where
  "waiting_server = admit_client ''-c'' 0 [] idle_server"

definition gateway_client :: "(unit, unit) gateway_peer tcp_client" where
  "gateway_client = \<lparr>tcl_config = \<lparr>tcc_host = Some ''gw'', tcc_port = Some 502, tcc_unix_socket = None, tcc_tls = False\<rparr>,
     tcl_socket = Some [], tcl_tx = 1,
     tcl_server = \<lparr>gp_server = waiting_server, gp_bus = bus_init 10, gp_line = (None, quiet_line ())\<rparr>\<rparr>"

theorem registers_are_read_through_the_gateway_witness:
  "\<forall>struct. \<exists>c'. read_holding_registers struct (tcp_client_execute (gateway_as_server (\<lambda>_ _ _. None) (\<lambda>_ _. [])
      [rule_to ''tcp'' ''line'' any_match]
      [(''line'', serial_submit (line_ops (replying_device [1, 3, 2, 0, 7, 0xF9, 0x86]) sample_serial_config) sample_serial_config)] 0))
      0 1 None (Some 1) \<lparr>mc_transport = gateway_client, mc_default_unit_id = 5\<rparr> = (Inr [IntArg 7], c')"
proof -
  let ?rule = "rule_to ''tcp'' ''line'' any_match"
  let ?dev = "replying_device [1, 3, 2, 0, 7, 0xF9, 0x86]"
  let ?reply = "[1, 3, 2, 0, 7] :: bytes"
  let ?client = "\<lparr>cc_client_id = ''tcp-c1'', cc_incoming = [], cc_task = AwaitHeader\<rparr>"
  obtain r where r: "response_from_adu ?reply None = Inr r" "body r = ReadHoldingRegistersResponse [7]"
    using register_response_decoded by blast
  have c: "tcl_socket gateway_client = Some []" "client_next_transaction_id (tcl_tx gateway_client) = (1, 2)"
    "gp_line (tcl_server gateway_client) = (None, quiet_line ())"
    "contents (gp_bus (tcl_server gateway_client)) ''requests'' = []"
    "contents (gp_bus (tcl_server gateway_client)) ''responses'' = []"
    by (simp_all add: gateway_client_def client_next_transaction_id_def Let_def bus_init_def contents_def)
  have reachable: "server_reachable (\<lambda>_ _ _. None) ''-c'' (gp_server (tcl_server gateway_client)) (gp_bus (tcl_server gateway_client))"
    unfolding gateway_client_def waiting_server_def
    by (simp, rule srv_admit [OF srv_start]) (simp_all add: idle_server_def)
  have conn: "dict_get (ms_conns (gp_server (tcl_server gateway_client))) 0 = Some ?client"
    by (simp add: gateway_client_def waiting_server_def admit_client_def idle_server_def nat_str.simps digit_char_def)
  have id: "sbc_id sample_serial_config = ''line''" "0 < max_attempts (sbc_retry sample_serial_config)"
    by (simp_all add: sample_serial_config_def retry_default_def)
  have rule: "find (\<lambda>rule. rule_admits rule (routed_frame (\<lambda>_ _. []) (ms_name (gp_server (tcl_server gateway_client)))
      (cc_client_id ?client) 1 q)) [?rule] = Some ?rule" if "body q = ReadHoldingRegistersRequest 0 1" "unit_id q = 1" for q
    using that by (simp add: rule_to_def any_match_def rule_admits_def pattern_admits_def routed_frame_def
        gateway_client_def waiting_server_def admit_client_def idle_server_def)
  have route: "rule_backend ?rule = sbc_id sample_serial_config"
    "1 = (case rule_unit_override ?rule of Some u \<Rightarrow> u | None \<Rightarrow> 1)"
    by (simp_all add: rule_to_def id)
  have backend: "dict_get [(''line'', serial_submit (line_ops ?dev sample_serial_config) sample_serial_config)]
      (sbc_id sample_serial_config) = Some (serial_submit (line_ops ?dev sample_serial_config) sample_serial_config)"
    by (simp add: id)
  have bounds: "(0::int) \<le> 1" "(1::int) < 256" "(0::int) \<le> 0" "(0::int) < 65536" "(1::int) < 65536"
    "cc_task ?client = AwaitHeader" "cc_incoming ?client = []" "length ?reply \<le> 254"
    by simp_all
  have "\<exists>gp. \<forall>struct k. \<exists>v. read_holding_registers struct (tcp_client_execute (gateway_as_server (\<lambda>_ _ _. None) (\<lambda>_ _. [])
      [?rule] [(''line'', serial_submit (line_ops ?dev sample_serial_config) sample_serial_config)] 0))
      0 1 None (Some 1) \<lparr>mc_transport = gateway_client, mc_default_unit_id = k\<rparr> =
      (v, \<lparr>mc_transport = gateway_client\<lparr>tcl_tx := 2, tcl_server := gp, tcl_socket := Some []\<rparr>, mc_default_unit_id = k\<rparr>) \<and>
    (\<forall>values. body r = ReadHoldingRegistersResponse values \<longrightarrow> v = Inr (map IntArg values)) \<and>
    (\<forall>base code. body r = ModbusExceptionResponse base code \<longrightarrow> v = Inl (ModbusServerError 3 code))"
    by (rule registers_are_read_through_the_gateway [where run_tracer = "\<lambda>_ _ _. None",
        OF c(1,2) bounds(1-4) bounds(1,5) reachable conn bounds(6,7) c(4,5) refl rule route bounds(1,2) backend c(3)
          seven_reply(1) seven_reply(2) r(1) bounds(8) seven_reply(3) id(2)])
  then show ?thesis unfolding r(2) by (metis list.map)
qed

end
