(* ===== verification/Spec2Isabelle.thy ===== *)
theory Spec2Isabelle
  imports Gateway_Path Gateway_System Gateway_Service Tls_Contexts
    Daemon_Process Command_Line Lifecycle Socket_Files Serial_Parameters Configured_Gateway Client_Through_Gateway
begin

text \<open>
  A verification library for \<open>modbusgw\<close>, a gateway daemon between Modbus/TCP (or Unix socket, or
  pseudo-terminal) clients and Modbus devices on serial lines or behind Modbus/TCP, and for the
  client library \<open>modbusgw_client\<close>. File names below are those under \<open>src/\<close>.

  \<^bold>\<open>The program and its model.\<close>
  A frontend turns frames into requests and publishes them on the bus; the dispatcher takes them one
  by one, asks the router for a plan, submits them to a backend and publishes the response; the
  responder hands each response to the frontend that it names, which writes it to the client. The
  application builds all this from a configuration and reacts to signals; the command line starts it
  and signals it by its pid file.

  \<^item> \<open>Gateway_Prelude\<close>, \<open>Py_Bytes\<close>, \<open>Py_Values\<close>, \<open>Ip_Address\<close>: what the program uses of Python.
    Exceptions are the datatype \<open>exn\<close>; a call is a sum (\<open>Inl\<close> the exception); a dict is an association
    list in insertion order; ints are unbounded; bytes are 8-bit words. \<open>struct\<close>, \<open>int()\<close>, \<open>int.to_bytes\<close>,
    slices and \<open>ipaddress\<close> are written out with their errors.
  \<^item> \<open>Crc\<close>: \<open>utils/crc.py\<close> and the client's copy, with a 16-bit shift register as specification.
  \<^item> \<open>Coils\<close>, \<open>Messages\<close>, \<open>Pdu_Codec\<close>: \<open>core/messages.py\<close>. One constructor per PDU class; the attributes of
    every PDU are the record \<open>pdu\<close>. \<open>Pdu_Codec\<close> states the contract of a family of PDUs as the locale
    \<open>pdu_codec\<close>, interpreted for requests and responses.
  \<^item> \<open>Codecs\<close>: \<open>modbusgw_client/codecs.py\<close> (RTU and MBAP frames) and both generators of transaction
    identifiers.
  \<^item> \<open>Router\<close>: \<open>core/router.py\<close>. \<open>Bus\<close>: \<open>core/bus.py\<close>; a suspended call is \<open>None\<close>, the queues are the locale
    \<open>topic_queues\<close>, whose \<open>history\<close> is any run of its operations. \<open>Dispatcher\<close>, \<open>Responder\<close>: the two tasks as machines with one step per \<open>await\<close>; a
    backend is the locale \<open>backend_contract\<close>.
  \<^item> \<open>Config\<close>: the models of \<open>config/models.py\<close> with their bounds, and \<open>build_router_from_config\<close>.
    \<open>Config_Validation\<close>: how a JSON document is validated to a configuration, one reader per class;
    \<open>Config_Document\<close>: the document of a configuration, and the example of \<open>README.md\<close>. \<open>Posix_Path\<close>: the
    normal form of a path, as \<open>pathlib\<close> keeps it.
  \<^item> \<open>Streams\<close>: what a connection delivers: bytes, pauses longer than any timeout, end of stream, errors.
  \<^item> \<open>Serial_Backend\<close>, \<open>Tcp_Backend\<close>: \<open>backends/serial.py\<close> and \<open>backends/tcp.py\<close>; the device, the peer and the
    clock are parameters; both interpret \<open>backend_contract\<close>. The pool of the TCP backend is modelled twice:
    as \<open>tcp_submit\<close> uses it, and as the step relation \<open>pool_step\<close> of interleaved callers.
  \<^item> \<open>Mbap_Frontend\<close>: the server that \<open>frontends/tcp_modbus.py\<close> and \<open>frontends/unix_modbus_tcp.py\<close> have in
    common, as a step relation (\<open>server_reachable\<close>); \<open>Tcp_Frontend\<close> and \<open>Unix_Frontend\<close> add admission, and are
    shown to be such servers. Their \<open>stop\<close> is two steps, around its \<open>await\<close> of the closed server, and so is
    the \<open>finally\<close> block of a client of \<open>Unix_Frontend\<close>, where a cancellation can lose a place; \<open>Rtu_Frontend\<close>: \<open>frontends/serial_rtu.py\<close> with its timer.
  \<^item> \<open>Tls_Contexts\<close>: the TLS contexts of the frontend, the backend and the client, and the connections they
    admit; of the module \<open>ssl\<close> the settings of a context and what they make a handshake accept.
  \<^item> \<open>Application\<close>: \<open>app.py\<close>; the \<open>stop\<close> of a component returns, raises or never returns (\<open>stop_outcome\<close>), the
    pid file has its text, and writing or removing it can fail. \<open>Service_Control\<close>: \<open>cli.py\<close>, on a machine
    with a clock, files and processes. A pid that is not positive addresses a group or all processes
    (\<open>kill_targets\<close>); a timeout is a \<open>py_float\<close>, so infinite ones and \<open>nan\<close> are included.
    \<open>Gateway_Service\<close>: the signal handlers of \<open>app.py\<close>, and what the commands make of a running gateway.
    \<open>Daemon_Process\<close>: the action of the daemon, which redirects its output to the log. \<open>Command_Line\<close>: the
    parsers of \<open>cli.py\<close>, how \<open>argparse\<close> reads a vector of arguments with them, and \<open>main\<close> (\<open>program\<close>).
  \<^item> \<open>Socket_Files\<close>: the socket and the link of the Unix and serial frontends in the file system.
    \<open>Serial_Parameters\<close>: the settings with which gateway and client open a serial port. \<open>Lifecycle\<close>:
    \<open>core/lifecycle.py\<close>, which the program does not use.
  \<^item> \<open>Gateway_Path\<close>: the components composed, from the client's frame to the frame written back.
    \<open>Client_Through_Gateway\<close>: the client library with that gateway at the other end of its connection.
    \<open>Configured_Gateway\<close>: \<open>load_config\<close>, and router and backends of a configuration on all lines and pools.
    \<open>Gateway_System\<close>: all tasks interleaved (\<open>gateway_reachable\<close>), with any number of frontends and clients.
  \<^item> \<open>Client_Pdu\<close>: \<open>modbusgw_client/pdu.py\<close> with its class registries. \<open>Client_Transport\<close>: \<open>base.py\<close>,
    \<open>tcp_client.py\<close>, \<open>serial_client.py\<close>; both transports interpret the locale \<open>base_client\<close>. \<open>Client_Api\<close>:
    \<open>api.py\<close>; the module \<open>struct\<close> is an argument under the locale \<open>struct_laws\<close>, interpreted by its integer formats.

  \<^bold>\<open>What the lemmas show.\<close>
  Codecs: encoding and decoding are inverse up to the canonical form, decoding raises nothing but
  \<open>ValueError\<close> and yields values in range, what was decoded can always be forwarded, checksums detect
  bursts, the client's and the gateway's modules agree. Routing: the router is "first admitting rule",
  and the one built from a configuration is "first admitting route". Configuration: validation accepts
  exactly the configurations within all bounds, and a configuration written out is read back. Tasks: one tagged answer per
  request, in order, under any interleaving; topics are bounded FIFO queues; the pool bound and
  exclusive use; servers answer only what was asked, once, to the one who asked, with the answer to that
  request, whatever else goes on in the gateway; only admitted and, under TLS, certified clients publish;
  frames on a pseudo-terminal are the bursts between pauses. Backends: when a device or peer is answered
  for, the schedule of retries, the silence between frames. Lifecycle: what is alive and on disk after any
  sequence of signals, and when a process hangs; the program runs the command that its arguments spell, and
  when it returns; which processes it signals, and that stopping ends the gateway. Clients: exactly which
  bytes on the wire make a method return which value. Where the code does otherwise than it means to, a theorem shows it on the model.

  \<^bold>\<open>Bounds and fuel.\<close>
  Every definition is total and none has fuel, except the waiting loop of the command line, a partial
  function shown to return when a sleep lasts as long as asked and the timeout is not infinite, the commands
  and the program around it (\<open>None\<close>: it does not return, as a gateway in the foreground may not), and the
  links of a path, of which the system follows forty. The reader of a frame recurses over the events of its stream, the retries over the number of attempts; \<open>dispatcher_steps\<close>, \<open>client_steps\<close> and
  \<open>responder_steps\<close> count the steps that a theorem talks about. 256 bytes bound a serial response, 257 the
  buffer of the serial client.

  \<^bold>\<open>Not modelled.\<close>
  Parsing JSON, the conversions of numbers and truth values by \<open>pydantic\<close>, the package \<open>daemonize\<close>,
  argument vectors with \<open>--\<close> or letters attached to \<open>-h\<close>, opening sockets and terminals (each is an argument: how the attempt ended), log texts.
  The broker, tracing and security modules are placeholders that nothing uses; their settings are validated. Time passes only
  where the code waits or sleeps; a read that would time out sees a \<open>Silence\<close>. A command that signals all
  processes is not itself ended by it. Non-ASCII texts, floats of a configuration that are not finite and
  \<open>struct\<close> formats with padding or floats have no instance.
\<close>

end
